(* ===== verification/Prelude.thy ===== *)
theory Prelude
  imports Main "HOL-Library.Word"
begin

text \<open>
  The prelude of the Zinc development: the machine integers of the server (x86-64, LP64, so
  \<open>char\<close> has 8 bits, \<open>short\<close> 16, \<open>int\<close> and \<open>float\<close> 32, \<open>long\<close>, \<open>double\<close> and
  \<open>size_t\<close> 64), the ways a C++ operation can fail, the actions that thread a mutable object
  through a sequence of calls, the casts of \<open>inc/util/Memory.h\<close> that the components share,
  and the collections of facts the proofs use.

  A \<open>std::vector\<close> is a list and a container size is a \<open>nat\<close>; an index is turned into a
  machine word only where the source computes with it in a width that can wrap around. A
  \<open>std::string\<close> is a HOL \<open>string\<close>, whose characters are bytes. The bit pattern of a
  \<open>float\<close> or a \<open>double\<close> is a word of the same width: the modelled code only copies it.
\<close>

unbundle bit_operations_syntax

named_theorems appends_intros \<open>writers that append a known byte string\<close>
named_theorems reads_intros \<open>readers that consume a known byte string\<close>
named_theorems terminates_intros \<open>readers that end on every input\<close>
named_theorems action_simps \<open>the laws of the action combinators\<close>
named_theorems run_simps \<open>the combinators applied to a state\<close>

section \<open>Machine types\<close>

type_synonym byte = "8 word"
type_synonym i16 = "16 word"
type_synonym i32 = "32 word"
type_synonym i64 = "64 word"

section \<open>Failures and actions\<close>

text \<open>
  What a call does instead of returning: undefined behaviour by an access outside a container
  (\<open>OutOfBounds\<close>) or by the use of a value that was never initialised (\<open>Indeterminate\<close>),
  the exceptions of the standard library and of the JSON library that the code lets escape, and \<open>StackExhausted\<close>,
  the bound on the recursion depth of the decoders.
\<close>

datatype zinc_error =
    OutOfBounds
  | Indeterminate
  | LengthError
  | BadOptionalAccess
  | BadFunctionCall
  | JsonTypeError
  | StackExhausted

text \<open>
  A method of a mutable object is an action: a function from the object's state to either a
  failure or a result and the new state.
\<close>

type_synonym ('s, 'a) action = "'s \<Rightarrow> zinc_error + ('a \<times> 's)"

definition ret :: "'a \<Rightarrow> ('s, 'a) action" where
  "ret x = (\<lambda>s. Inr (x, s))"

definition fail :: "zinc_error \<Rightarrow> ('s, 'a) action" where
  "fail e = (\<lambda>s. Inl e)"

definition bnd :: "('s, 'a) action \<Rightarrow> ('a \<Rightarrow> ('s, 'b) action) \<Rightarrow> ('s, 'b) action" where
  "bnd m k = (\<lambda>s. case m s of Inl e \<Rightarrow> Inl e | Inr (x, s') \<Rightarrow> k x s')"

definition thn :: "('s, 'a) action \<Rightarrow> ('s, 'b) action \<Rightarrow> ('s, 'b) action" where
  "thn m n = bnd m (\<lambda>_. n)"

definition gets :: "('s \<Rightarrow> 'a) \<Rightarrow> ('s, 'a) action" where
  "gets f = (\<lambda>s. Inr (f s, s))"

text \<open>A value computed on the side, for instance by another object, that may fail.\<close>

definition lift_result :: "zinc_error + 'a \<Rightarrow> ('s, 'a) action" where
  "lift_result r = (\<lambda>s. case r of Inl e \<Rightarrow> Inl e | Inr x \<Rightarrow> Inr (x, s))"

text \<open>\<open>for (const T& x : xs) f(x);\<close> and \<open>for (i = 0; i < n; i++) result.push_back(m());\<close>\<close>

primrec each :: "('x \<Rightarrow> ('s, unit) action) \<Rightarrow> 'x list \<Rightarrow> ('s, unit) action" where
  "each f [] = ret ()"
| "each f (x # xs) = thn (f x) (each f xs)"

primrec collect :: "nat \<Rightarrow> ('s, 'a) action \<Rightarrow> ('s, 'a list) action" where
  "collect 0 m = ret []"
| "collect (Suc n) m = bnd m (\<lambda>x. bnd (collect n m) (\<lambda>xs. ret (x # xs)))"

lemma ret_apply [run_simps]: "ret x s = Inr (x, s)"
  by (simp add: ret_def)

lemma fail_apply [run_simps]: "fail e s = Inl e"
  by (simp add: fail_def)

lemma gets_apply [run_simps]: "gets f s = Inr (f s, s)"
  by (simp add: gets_def)

lemma bnd_ret [action_simps, simp]: "bnd (ret x) k = k x"
  by (simp add: bnd_def ret_def)

lemma thn_ret [action_simps, simp]: "thn (ret x) m = m"
  by (simp add: thn_def bnd_def ret_def)

lemma bnd_fail [action_simps, simp]: "bnd (fail e) k = fail e"
  by (simp add: bnd_def fail_def)

lemma bnd_assoc [action_simps]: "bnd (bnd m k) l = bnd m (\<lambda>x. bnd (k x) l)"
  by (simp add: bnd_def fun_eq_iff split: sum.split prod.split)

lemma thn_assoc [action_simps]: "thn (thn m n) l = thn m (thn n l)"
  by (simp add: thn_def bnd_assoc)

lemma bnd_Inr: "m s = Inr (x, s') \<Longrightarrow> bnd m k s = k x s'"
  by (simp add: bnd_def)

lemma bnd_Inl: "m s = Inl e \<Longrightarrow> bnd m k s = Inl e"
  by (simp add: bnd_def)

lemma thn_Inr: "m s = Inr (x, s') \<Longrightarrow> thn m n s = n s'"
  by (simp add: thn_def bnd_def)

lemma bnd_eq_Inr:
  "bnd m k s = Inr r \<longleftrightarrow> (\<exists>x s'. m s = Inr (x, s') \<and> k x s' = Inr r)"
  by (auto simp: bnd_def split: sum.splits)

lemma bnd_eq_Inl:
  "bnd m k s = Inl e \<longleftrightarrow> m s = Inl e \<or> (\<exists>x s'. m s = Inr (x, s') \<and> k x s' = Inl e)"
  by (auto simp: bnd_def split: sum.splits)

lemma each_append: "each f (xs @ ys) = thn (each f xs) (each f ys)"
  by (induction xs) (simp_all add: thn_assoc)

text \<open>
  \<open>each\<close> calls its body on elements of the list only, which is what the termination proofs
  of the encoders of nested data need.
\<close>

lemma each_cong [fundef_cong]:
  assumes "xs = ys" and "\<And>x. x \<in> set ys \<Longrightarrow> f x = g x"
  shows "each f xs = each g ys"
proof -
  have "(\<And>x. x \<in> set ys \<Longrightarrow> f x = g x) \<Longrightarrow> each f ys = each g ys"
    by (induction ys) auto
  with assms show ?thesis by simp
qed

section \<open>Characters and bytes\<close>

definition byte_of_char :: "char \<Rightarrow> byte" where
  "byte_of_char c = word_of_nat (of_char c)"

definition char_of_byte :: "byte \<Rightarrow> char" where
  "char_of_byte b = char_of (unat b)"

lemma of_char_less_256: "(of_char c :: nat) < 256"
proof -
  have "(of_char c :: nat) \<le> 255" by (cases c) (simp add: of_char_def)
  then show ?thesis by simp
qed

lemma char_of_byte_of_char [simp]: "char_of_byte (byte_of_char c) = c"
proof -
  have "unat (word_of_nat (of_char c) :: byte) = of_char c"
    using of_char_less_256 [of c] by (simp add: unat_of_nat take_bit_nat_def)
  then show ?thesis by (simp add: byte_of_char_def char_of_byte_def)
qed

lemma byte_of_char_of_byte [simp]: "byte_of_char (char_of_byte b) = b"
proof -
  have "unat b < 256" using unsigned_less [of b] by simp
  then show ?thesis by (simp add: byte_of_char_def char_of_byte_def of_char_of)
qed

definition bytes_of_string :: "string \<Rightarrow> byte list" where
  "bytes_of_string s = map byte_of_char s"

definition string_of_bytes :: "byte list \<Rightarrow> string" where
  "string_of_bytes bs = map char_of_byte bs"

lemma string_of_bytes_of_string [simp]: "string_of_bytes (bytes_of_string s) = s"
  by (simp add: string_of_bytes_def bytes_of_string_def comp_def)

lemma bytes_of_string_of_bytes [simp]: "bytes_of_string (string_of_bytes bs) = bs"
  by (simp add: string_of_bytes_def bytes_of_string_def comp_def)

lemma length_bytes_of_string [simp]: "length (bytes_of_string s) = length s"
  by (simp add: bytes_of_string_def)

lemma length_string_of_bytes [simp]: "length (string_of_bytes bs) = length bs"
  by (simp add: string_of_bytes_def)

section \<open>The casts between sizes and integers\<close>

text \<open>
  \<open>zinc_safe_cast\<close> is a \<open>static_cast\<close> on integers (its range checks are commented out in
  \<open>inc/util/Memory.h\<close>): from \<open>size_t\<close> it truncates, from \<open>int\<close> to \<open>size_t\<close> it
  sign-extends, so a negative \<open>int\<close> becomes a size above \<open>2 ^ 63\<close>.
\<close>

definition int_of_size :: "nat \<Rightarrow> i32" where
  "int_of_size n = word_of_nat n"

definition size_of_int :: "i32 \<Rightarrow> nat" where
  "size_of_int v = unat (scast v :: i64)"

definition u16_of_size :: "nat \<Rightarrow> i16" where
  "u16_of_size n = word_of_nat n"

lemma size_of_int_of_size [simp]:
  assumes "n < 2 ^ 31"
  shows "size_of_int (int_of_size n) = n"
proof -
  have n: "int n < 2 ^ 31" using assms by simp
  have "sint (word_of_nat n :: i32) = int n"
    using n by (simp add: signed_of_nat signed_take_bit_int_eq_self)
  then have "(scast (word_of_nat n :: i32) :: i64) = word_of_nat n"
    by (metis of_int_sint of_int_of_nat_eq)
  then show ?thesis
    using assms by (simp add: size_of_int_def int_of_size_def unat_of_nat take_bit_nat_eq_self)
qed

lemma unat_u16_of_size [simp]: "n < 2 ^ 16 \<Longrightarrow> unat (u16_of_size n) = n"
  by (simp add: u16_of_size_def unat_of_nat take_bit_nat_eq_self)

lemma unat_int_of_size [simp]: "n < 2 ^ 32 \<Longrightarrow> unat (int_of_size n) = n"
  by (simp add: int_of_size_def unat_of_nat take_bit_nat_eq_self)

text \<open>A \<open>bool\<close> written as a byte, and a byte tested as a condition.\<close>

definition byte_of_bool :: "bool \<Rightarrow> byte" where
  "byte_of_bool b = (if b then 1 else 0)"

lemma byte_of_bool_nonzero [simp]: "(byte_of_bool b \<noteq> 0) = b" "(byte_of_bool b = 0) = (\<not> b)"
  by (simp_all add: byte_of_bool_def)

section \<open>Evaluation order and floating-point comparison\<close>

text \<open>
  C++ does not fix the order in which the arguments of a call are evaluated. The compilers in
  use evaluate them from the left or from the right; a call whose arguments have side effects
  takes the order as a parameter.
\<close>

datatype arg_order = LeftToRight | RightToLeft

definition args2 :: "arg_order \<Rightarrow> ('s, 'a) action \<Rightarrow> ('s, 'b) action \<Rightarrow> ('a \<Rightarrow> 'b \<Rightarrow> 'c) \<Rightarrow> ('s, 'c) action" where
  "args2 ord m n f = (case ord of
     LeftToRight \<Rightarrow> bnd m (\<lambda>x. bnd n (\<lambda>y. ret (f x y)))
   | RightToLeft \<Rightarrow> bnd n (\<lambda>y. bnd m (\<lambda>x. ret (f x y))))"

definition args3 ::
  "arg_order \<Rightarrow> ('s, 'a) action \<Rightarrow> ('s, 'b) action \<Rightarrow> ('s, 'c) action \<Rightarrow> ('a \<Rightarrow> 'b \<Rightarrow> 'c \<Rightarrow> 'd) \<Rightarrow> ('s, 'd) action" where
  "args3 ord l m n f = (case ord of
     LeftToRight \<Rightarrow> bnd l (\<lambda>x. bnd m (\<lambda>y. bnd n (\<lambda>z. ret (f x y z))))
   | RightToLeft \<Rightarrow> bnd n (\<lambda>z. bnd m (\<lambda>y. bnd l (\<lambda>x. ret (f x y z)))))"

text \<open>
  \<open>==\<close> on the bit patterns of two \<open>float\<close>s: a NaN equals nothing, and the two zeros are
  equal.
\<close>

definition float_is_nan :: "i32 \<Rightarrow> bool" where
  "float_is_nan v \<longleftrightarrow> v AND 0x7F800000 = 0x7F800000 \<and> v AND 0x007FFFFF \<noteq> 0"

definition float_eq :: "i32 \<Rightarrow> i32 \<Rightarrow> bool" where
  "float_eq u v \<longleftrightarrow> \<not> float_is_nan u \<and> \<not> float_is_nan v
     \<and> (u = v \<or> u AND 0x7FFFFFFF = 0 \<and> v AND 0x7FFFFFFF = 0)"

definition double_is_nan :: "i64 \<Rightarrow> bool" where
  "double_is_nan v \<longleftrightarrow> v AND 0x7FF0000000000000 = 0x7FF0000000000000 \<and> v AND 0x000FFFFFFFFFFFFF \<noteq> 0"

definition double_eq :: "i64 \<Rightarrow> i64 \<Rightarrow> bool" where
  "double_eq u v \<longleftrightarrow> \<not> double_is_nan u \<and> \<not> double_is_nan v
     \<and> (u = v \<or> u AND 0x7FFFFFFFFFFFFFFF = 0 \<and> v AND 0x7FFFFFFFFFFFFFFF = 0)"

section \<open>\<open>std::to_string\<close>\<close>

definition digit_char :: "int \<Rightarrow> char" where
  "digit_char d = char_of (48 + d)"

function digits_to_string :: "int \<Rightarrow> string" where
  "digits_to_string n =
     (if n < 10 then [digit_char n] else digits_to_string (n div 10) @ [digit_char (n mod 10)])"
  by pat_completeness auto
termination by (relation "measure nat") auto

declare digits_to_string.simps [simp del]

definition int_to_string :: "int \<Rightarrow> string" where
  "int_to_string i = (if i < 0 then ''-'' @ digits_to_string (- i) else digits_to_string i)"

definition nat_to_string :: "nat \<Rightarrow> string" where
  "nat_to_string n = digits_to_string (int n)"

definition pad_zeros :: "nat \<Rightarrow> string \<Rightarrow> string" where
  "pad_zeros n s = replicate (n - length s) (CHR ''0'') @ s"

text \<open>
  \<open>to_string\<close> of a floating-point number prints it as \<open>%f\<close> does: the exact value of the bit
  pattern, rounded half to even to six decimals. \<open>round_quotient n d\<close> rounds \<open>n / d\<close>.
\<close>

definition round_quotient :: "int \<Rightarrow> int \<Rightarrow> int" where
  "round_quotient n d =
     (let q = n div d; r = n mod d
      in if 2 * r < d then q else if d < 2 * r then q + 1 else if even q then q else q + 1)"

definition fixed6 :: "bool \<Rightarrow> int \<Rightarrow> int \<Rightarrow> string" where
  "fixed6 negative m e =
     (let n = (if 0 \<le> e then m * 2 ^ nat e * 1000000 else round_quotient (m * 1000000) (2 ^ nat (- e)))
      in (if negative then ''-'' else []) @ digits_to_string (n div 1000000) @ ''.''
         @ pad_zeros 6 (digits_to_string (n mod 1000000)))"

definition ieee_to_string :: "nat \<Rightarrow> nat \<Rightarrow> int \<Rightarrow> string" where
  "ieee_to_string ebits mbits w =
     (let negative = odd (w div 2 ^ (ebits + mbits)); ex = w div 2 ^ mbits mod 2 ^ ebits;
          m = w mod 2 ^ mbits; bias = 2 ^ (ebits - 1) - 1
      in if ex = 2 ^ ebits - 1
         then (if negative then ''-'' else []) @ (if m = 0 then ''inf'' else ''nan'')
         else if ex = 0 then fixed6 negative m (1 - bias - int mbits)
         else fixed6 negative (2 ^ mbits + m) (ex - bias - int mbits))"

definition float_to_string :: "i32 \<Rightarrow> string" where
  "float_to_string v = ieee_to_string 8 23 (uint v)"

definition double_to_string :: "i64 \<Rightarrow> string" where
  "double_to_string v = ieee_to_string 11 52 (uint v)"

section \<open>Functions that may fail and touch no object\<close>

definition ebind :: "zinc_error + 'a \<Rightarrow> ('a \<Rightarrow> zinc_error + 'b) \<Rightarrow> zinc_error + 'b" where
  "ebind r k = (case r of Inl e \<Rightarrow> Inl e | Inr x \<Rightarrow> k x)"

text \<open>\<open>for (const T& x : xs)\<close> over local variables, and the loop that collects one result per element.\<close>

primrec efold :: "('x \<Rightarrow> 's \<Rightarrow> zinc_error + 's) \<Rightarrow> 'x list \<Rightarrow> 's \<Rightarrow> zinc_error + 's" where
  "efold f [] s = Inr s"
| "efold f (x # xs) s = ebind (f x s) (efold f xs)"

primrec emap :: "('x \<Rightarrow> zinc_error + 'y) \<Rightarrow> 'x list \<Rightarrow> zinc_error + 'y list" where
  "emap f [] = Inr []"
| "emap f (x # xs) = ebind (f x) (\<lambda>y. ebind (emap f xs) (\<lambda>ys. Inr (y # ys)))"

lemma ebind_simps [simp]: "ebind (Inr x) k = k x" "ebind (Inl e) k = Inl e"
  by (simp_all add: ebind_def)

lemma ebind_eq_Inr: "ebind r k = Inr y \<longleftrightarrow> (\<exists>x. r = Inr x \<and> k x = Inr y)"
  by (cases r) simp_all

lemma ebind_assoc: "ebind (ebind r f) g = ebind r (\<lambda>x. ebind (f x) g)"
  by (cases r) simp_all

lemma efold_append [simp]: "efold f (xs @ ys) s = ebind (efold f xs s) (efold f ys)"
  by (induction xs arbitrary: s) (simp_all add: ebind_def split: sum.splits)

lemma efold_skip: "(\<And>x s. x \<in> set xs \<Longrightarrow> f x s = Inr s) \<Longrightarrow> efold f xs s = Inr s"
  by (induction xs arbitrary: s) simp_all

lemma emap_Inr: "(\<And>x. x \<in> set xs \<Longrightarrow> f x = Inr (g x)) \<Longrightarrow> emap f xs = Inr (map g xs)"
  by (induction xs) simp_all

end
