(* ===== verification/Block_Buffer.thy ===== *)
theory Block_Buffer
  imports Prelude
begin

text \<open>
  The storage of a \<open>ByteBuffer\<close>: \<open>ByteBuffer::InternalByteBuffer\<close> of
  \<open>inc/type/ByteBuffer.h\<close> and \<open>src/type/ByteBuffer.cpp\<close>, a deque of blocks of
  \<open>BLOCK_SIZE\<close> bytes with a write position and a read position, each a block index and an
  offset. The loops of \<open>write\<close> and \<open>read\<close> are \<open>write_loop\<close> and \<open>read_loop\<close>.

  The abstract state is the string of bytes written and not yet read (\<open>unread\<close>). The last
  part states the interface the serialisers rely on, a queue of bytes, as a locale, and
  interprets it on this implementation, with and without block recycling.
\<close>

section \<open>State and operations\<close>

definition BLOCK_SIZE :: nat where
  "BLOCK_SIZE = 4096"

record InternalByteBuffer =
  m_blocks :: "byte list list"
  m_writeBlock :: nat
  m_writeOffset :: nat
  m_readBlock :: nat
  m_readOffset :: nat
  m_enableBlockRecycle :: bool

definition new_block :: "byte list" where
  "new_block = replicate BLOCK_SIZE 0"

definition new_ibuf :: InternalByteBuffer where
  "new_ibuf = \<lparr>m_blocks = [new_block], m_writeBlock = 0, m_writeOffset = 0,
     m_readBlock = 0, m_readOffset = 0, m_enableBlockRecycle = False\<rparr>"

definition ibuf_clear :: "InternalByteBuffer \<Rightarrow> InternalByteBuffer" where
  "ibuf_clear b = b\<lparr>m_blocks := [new_block], m_writeBlock := 0, m_readBlock := 0,
     m_writeOffset := 0, m_readOffset := 0\<rparr>"

text \<open>
  One round of the loop in \<open>write\<close>: copy as much as fits in the current block, open the
  next block when it is full. A write position outside the deque, or past the end of a block
  (where the subtraction \<open>BLOCK_SIZE - m_writeOffset\<close> wraps), writes outside the storage.
\<close>

definition block_overwrite :: "byte list \<Rightarrow> nat \<Rightarrow> byte list \<Rightarrow> byte list" where
  "block_overwrite block off xs = take off block @ xs @ drop (off + length xs) block"

definition advance_writer :: "nat \<Rightarrow> InternalByteBuffer \<Rightarrow> InternalByteBuffer" where
  "advance_writer off b =
     (if off = BLOCK_SIZE
      then b\<lparr>m_writeBlock := Suc (m_writeBlock b), m_writeOffset := 0,
             m_blocks := m_blocks b @ [new_block]\<rparr>
      else b\<lparr>m_writeOffset := off\<rparr>)"

function write_loop :: "byte list \<Rightarrow> InternalByteBuffer \<Rightarrow> zinc_error + InternalByteBuffer" where
  "write_loop l_data b =
     (if l_data = [] then Inr b
      else if length (m_blocks b) \<le> m_writeBlock b \<or> BLOCK_SIZE < m_writeOffset b
      then Inl OutOfBounds
      else
        let spaceLeft = BLOCK_SIZE - m_writeOffset b;
            toCopy = min (length l_data) spaceLeft;
            block = m_blocks b ! m_writeBlock b;
            block' = block_overwrite block (m_writeOffset b) (take toCopy l_data);
            b' = b\<lparr>m_blocks := (m_blocks b)[m_writeBlock b := block']\<rparr>
        in write_loop (drop toCopy l_data) (advance_writer (m_writeOffset b + toCopy) b'))"
  by pat_completeness auto
termination
  by (relation "measure (\<lambda>(xs, b). 2 * length xs + (if m_writeOffset b = BLOCK_SIZE then 1 else 0))")
    (auto simp: advance_writer_def min_def BLOCK_SIZE_def Let_def)

declare write_loop.simps [simp del]

definition ibuf_write :: "byte list \<Rightarrow> InternalByteBuffer \<Rightarrow> zinc_error + InternalByteBuffer" where
  "ibuf_write data b = write_loop data b"

text \<open>
  The loop in \<open>read\<close> stops early, with what it has, at the end of the deque. With block
  recycling on, a block that has been read to its end is dropped from the front.
\<close>

definition advance_reader :: "nat \<Rightarrow> InternalByteBuffer \<Rightarrow> InternalByteBuffer" where
  "advance_reader off b =
     (if off = BLOCK_SIZE
      then (if m_enableBlockRecycle b
            then b\<lparr>m_readOffset := 0, m_writeBlock := m_writeBlock b - 1,
                   m_blocks := tl (m_blocks b)\<rparr>
            else b\<lparr>m_readBlock := Suc (m_readBlock b), m_readOffset := 0\<rparr>)
      else b\<lparr>m_readOffset := off\<rparr>)"

function read_loop ::
  "nat \<Rightarrow> byte list \<Rightarrow> InternalByteBuffer \<Rightarrow> zinc_error + (byte list \<times> InternalByteBuffer)" where
  "read_loop remaining result b =
     (if remaining = 0 then Inr (result, b)
      else if length (m_blocks b) \<le> m_readBlock b then Inr (result, b)
      else if BLOCK_SIZE < m_readOffset b then Inl OutOfBounds
      else
        let block = m_blocks b ! m_readBlock b;
            available = BLOCK_SIZE - m_readOffset b;
            toCopy = min remaining available
        in read_loop (remaining - toCopy)
             (result @ take toCopy (drop (m_readOffset b) block))
             (advance_reader (m_readOffset b + toCopy) b))"
  by pat_completeness auto
termination
  by (relation "measure (\<lambda>(n, xs, b). 2 * n + (if m_readOffset b = BLOCK_SIZE then 1 else 0))")
    (auto simp: advance_reader_def min_def BLOCK_SIZE_def Let_def)

declare read_loop.simps [simp del]

text \<open>\<open>result.reserve(length)\<close> throws above the largest size of a \<open>std::vector<char>\<close>.\<close>

definition max_vector_size :: nat where
  "max_vector_size = 2 ^ 63 - 1"

definition ibuf_read ::
  "nat \<Rightarrow> InternalByteBuffer \<Rightarrow> zinc_error + (byte list \<times> InternalByteBuffer)" where
  "ibuf_read len b = (if max_vector_size < len then Inl LengthError else read_loop len [] b)"

definition toggleBlockRecycle :: "bool \<Rightarrow> InternalByteBuffer \<Rightarrow> InternalByteBuffer" where
  "toggleBlockRecycle state b = b\<lparr>m_enableBlockRecycle := state\<rparr>"

definition areBlocksRecycled :: "InternalByteBuffer \<Rightarrow> bool" where
  "areBlocksRecycled b = m_enableBlockRecycle b"

definition getReader :: "InternalByteBuffer \<Rightarrow> nat \<times> nat" where
  "getReader b = (m_readBlock b, m_readOffset b)"

definition getWriter :: "InternalByteBuffer \<Rightarrow> nat \<times> nat" where
  "getWriter b = (m_writeBlock b, m_writeOffset b)"

definition setReader :: "nat \<times> nat \<Rightarrow> InternalByteBuffer \<Rightarrow> InternalByteBuffer" where
  "setReader r b = b\<lparr>m_readBlock := fst r, m_readOffset := snd r\<rparr>"

definition setWriter :: "nat \<times> nat \<Rightarrow> InternalByteBuffer \<Rightarrow> InternalByteBuffer" where
  "setWriter w b = b\<lparr>m_writeBlock := fst w, m_writeOffset := snd w\<rparr>"

text \<open>
  \<open>getBytes\<close>: the blocks before the write block in full, then the written part of the write
  block. The loop is over the block index; \<open>reserve\<close> and \<open>shrink_to_fit\<close> change no value.
\<close>

fun getBytes_from :: "nat \<Rightarrow> byte list list \<Rightarrow> nat \<Rightarrow> nat \<Rightarrow> byte list" where
  "getBytes_from i [] wb wo = []"
| "getBytes_from i (blk # blks) wb wo =
     (if i < wb then blk @ getBytes_from (Suc i) blks wb wo
      else if i = wb then take wo blk
      else [])"

definition ibuf_getBytes :: "InternalByteBuffer \<Rightarrow> byte list" where
  "ibuf_getBytes b = getBytes_from 0 (m_blocks b) (m_writeBlock b) (m_writeOffset b)"

definition ibuf_eq :: "InternalByteBuffer \<Rightarrow> InternalByteBuffer \<Rightarrow> bool" where
  "ibuf_eq a b \<longleftrightarrow> getReader a = getReader b \<and> getWriter a = getWriter b
     \<and> ibuf_getBytes a = ibuf_getBytes b \<and> areBlocksRecycled a = areBlocksRecycled b"

section \<open>The invariant and the abstract contents\<close>

text \<open>
  Blocks have the block size, the write block is the last one, and no byte past the write
  position has been touched since its block was created.
\<close>

definition flat :: "InternalByteBuffer \<Rightarrow> byte list" where
  "flat b = concat (m_blocks b)"

definition wpos :: "InternalByteBuffer \<Rightarrow> nat" where
  "wpos b = m_writeBlock b * BLOCK_SIZE + m_writeOffset b"

definition rpos :: "InternalByteBuffer \<Rightarrow> nat" where
  "rpos b = m_readBlock b * BLOCK_SIZE + m_readOffset b"

definition blocks_ok :: "byte list list \<Rightarrow> bool" where
  "blocks_ok bs \<longleftrightarrow> (\<forall>blk \<in> set bs. length blk = BLOCK_SIZE)"

definition ibuf_inv :: "InternalByteBuffer \<Rightarrow> bool" where
  "ibuf_inv b \<longleftrightarrow> blocks_ok (m_blocks b) \<and> length (m_blocks b) = Suc (m_writeBlock b)
     \<and> m_writeOffset b < BLOCK_SIZE \<and> m_readOffset b < BLOCK_SIZE
     \<and> (\<forall>x \<in> set (drop (wpos b) (flat b)). x = 0)"

definition ibuf_wf :: "InternalByteBuffer \<Rightarrow> bool" where
  "ibuf_wf b \<longleftrightarrow> ibuf_inv b \<and> rpos b \<le> wpos b"

definition written :: "InternalByteBuffer \<Rightarrow> byte list" where
  "written b = take (wpos b) (flat b)"

definition unread :: "InternalByteBuffer \<Rightarrow> byte list" where
  "unread b = drop (rpos b) (written b)"

section \<open>Lists of blocks of one size\<close>

lemma BLOCK_SIZE_pos [simp]: "0 < BLOCK_SIZE"
  by (simp add: BLOCK_SIZE_def)

lemma length_new_block [simp]: "length new_block = BLOCK_SIZE"
  by (simp add: new_block_def)

lemma length_concat_blocks: "blocks_ok bs \<Longrightarrow> length (concat bs) = length bs * BLOCK_SIZE"
  by (induction bs) (auto simp: blocks_ok_def)

lemma take_concat_blocks:
  "blocks_ok bs \<Longrightarrow> i \<le> length bs \<Longrightarrow> take (i * BLOCK_SIZE) (concat bs) = concat (take i bs)"
  by (induction bs arbitrary: i) (auto simp: blocks_ok_def take_Cons split: nat.split)

lemma drop_concat_blocks:
  "blocks_ok bs \<Longrightarrow> i \<le> length bs \<Longrightarrow> drop (i * BLOCK_SIZE) (concat bs) = concat (drop i bs)"
  by (induction bs arbitrary: i) (auto simp: blocks_ok_def drop_Cons split: nat.split)

lemma length_block_overwrite [simp]:
  "off + length xs \<le> length blk \<Longrightarrow> length (block_overwrite blk off xs) = length blk"
  by (simp add: block_overwrite_def)

lemma concat_block_overwrite:
  assumes "blocks_ok bs" and "i < length bs" and "off + length xs \<le> BLOCK_SIZE"
  shows "concat (bs[i := block_overwrite (bs ! i) off xs]) = block_overwrite (concat bs) (i * BLOCK_SIZE + off) xs"
  using assms(1,2)
proof (induction bs arbitrary: i)
  case Nil
  then show ?case by simp
next
  case (Cons blk bs)
  then have blk: "length blk = BLOCK_SIZE" and ok: "blocks_ok bs" by (auto simp: blocks_ok_def)
  show ?case
  proof (cases i)
    case 0
    with blk assms(3) show ?thesis by (simp add: block_overwrite_def)
  next
    case (Suc j)
    with Cons.IH [OF ok, of j] Cons.prems blk show ?thesis
      by (simp add: block_overwrite_def add.assoc)
  qed
qed

lemma blocks_ok_overwrite:
  assumes "blocks_ok bs" and "i < length bs" and "off + length xs \<le> BLOCK_SIZE"
  shows "blocks_ok (bs[i := block_overwrite (bs ! i) off xs])"
proof -
  have "length (block_overwrite (bs ! i) off xs) = BLOCK_SIZE"
    using assms by (simp add: blocks_ok_def)
  with assms(1) show ?thesis
    using set_update_subset_insert [of bs i] unfolding blocks_ok_def by blast
qed

lemma block_overwrite_append:
  "pos + length xs \<le> length ys \<Longrightarrow>
     take (pos + length xs) (block_overwrite ys pos xs) = take pos ys @ xs"
  "pos + length xs \<le> length ys \<Longrightarrow>
     drop (pos + length xs) (block_overwrite ys pos xs) = drop (pos + length xs) ys"
  by (simp_all add: block_overwrite_def)

text \<open>One round of the loop in \<open>write\<close>.\<close>

lemma advance_writer_inv:
  assumes inv: "ibuf_inv b" and fits: "m_writeOffset b + length xs \<le> BLOCK_SIZE"
  defines "b' \<equiv> advance_writer (m_writeOffset b + length xs)
    (b\<lparr>m_blocks := (m_blocks b)[m_writeBlock b :=
        block_overwrite (m_blocks b ! m_writeBlock b) (m_writeOffset b) xs]\<rparr>)"
  shows "ibuf_inv b'" and "written b' = written b @ xs"
    and "rpos b' = rpos b" and "areBlocksRecycled b' = areBlocksRecycled b"
proof -
  let ?bs = "m_blocks b" and ?i = "m_writeBlock b" and ?o = "m_writeOffset b"
  let ?bs' = "?bs[?i := block_overwrite (?bs ! ?i) ?o xs]"
  have ok: "blocks_ok ?bs" and len: "length ?bs = Suc ?i" and off: "?o < BLOCK_SIZE"
    and ro: "m_readOffset b < BLOCK_SIZE" and z: "\<forall>x \<in> set (drop (wpos b) (flat b)). x = 0"
    using inv by (auto simp: ibuf_inv_def)
  have ok': "blocks_ok ?bs'" using ok len fits by (simp add: blocks_ok_overwrite)
  have flat': "concat ?bs' = block_overwrite (flat b) (wpos b) xs"
    using concat_block_overwrite [OF ok, of ?i ?o xs] len fits by (simp add: flat_def wpos_def)
  have lenf: "length (flat b) = Suc ?i * BLOCK_SIZE"
    using length_concat_blocks [OF ok] len by (simp add: flat_def)
  have le: "wpos b + length xs \<le> length (flat b)" using lenf fits by (simp add: wpos_def)
  have zeros: "\<forall>x \<in> set new_block. x = 0" by (simp add: new_block_def)
  have wp: "wpos b' = wpos b + length xs"
    using fits by (auto simp: b'_def advance_writer_def wpos_def)
  have fl: "\<exists>tl. flat b' = block_overwrite (flat b) (wpos b) xs @ tl \<and> (\<forall>x \<in> set tl. x = 0)"
    using flat' zeros by (auto simp: b'_def advance_writer_def flat_def)
  then obtain tl where tl: "flat b' = block_overwrite (flat b) (wpos b) xs @ tl"
    "\<forall>x \<in> set tl. x = 0" by blast
  have lo: "length (block_overwrite (flat b) (wpos b) xs) = length (flat b)"
    using le by simp
  show "written b' = written b @ xs"
    using block_overwrite_append(1) [OF le] le lo tl(1) by (simp add: written_def wp)
  have "drop (wpos b') (flat b') = drop (wpos b + length xs) (flat b) @ tl"
    using block_overwrite_append(2) [OF le] le lo tl(1) by (simp add: wp)
  moreover have "\<forall>x \<in> set (drop (wpos b + length xs) (flat b)). x = 0"
    using z by (metis add.commute drop_drop in_set_dropD)
  ultimately have zz: "\<forall>x \<in> set (drop (wpos b') (flat b')). x = 0" using tl(2) by auto
  have "blocks_ok (m_blocks b')" using ok'
    by (auto simp: b'_def advance_writer_def blocks_ok_def)
  then show "ibuf_inv b'" using zz len fits off ro
    by (auto simp: ibuf_inv_def b'_def advance_writer_def)
  show "rpos b' = rpos b" by (simp add: b'_def advance_writer_def rpos_def)
  show "areBlocksRecycled b' = areBlocksRecycled b"
    by (simp add: b'_def advance_writer_def areBlocksRecycled_def)
qed

lemma write_loop_inv:
  "ibuf_inv b \<Longrightarrow> \<exists>b'. write_loop xs b = Inr b' \<and> ibuf_inv b' \<and> written b' = written b @ xs
     \<and> rpos b' = rpos b \<and> areBlocksRecycled b' = areBlocksRecycled b"
proof (induction xs b rule: write_loop.induct)
  case (1 xs b)
  show ?case
  proof (cases "xs = []")
    case True
    with "1.prems" show ?thesis by (simp add: write_loop.simps)
  next
    case False
    let ?n = "min (length xs) (BLOCK_SIZE - m_writeOffset b)"
    let ?b1 = "advance_writer (m_writeOffset b + ?n) (b\<lparr>m_blocks := (m_blocks b)[m_writeBlock b :=
        block_overwrite (m_blocks b ! m_writeBlock b) (m_writeOffset b) (take ?n xs)]\<rparr>)"
    have ok: "\<not> (length (m_blocks b) \<le> m_writeBlock b \<or> BLOCK_SIZE < m_writeOffset b)"
      using "1.prems" by (auto simp: ibuf_inv_def)
    have len: "length (take ?n xs) = ?n" by simp
    have fits: "m_writeOffset b + length (take ?n xs) \<le> BLOCK_SIZE"
      using "1.prems" by (auto simp: ibuf_inv_def min_def)
    note step = advance_writer_inv [OF "1.prems" fits, unfolded len]
    obtain b' where b': "write_loop (drop ?n xs) ?b1 = Inr b'" "ibuf_inv b'"
      "written b' = written ?b1 @ drop ?n xs" "rpos b' = rpos ?b1"
      "areBlocksRecycled b' = areBlocksRecycled ?b1"
      using "1.IH" [OF False ok refl refl refl refl refl step(1)] by blast
    have eq: "write_loop xs b = write_loop (drop ?n xs) ?b1"
      using False ok by (subst write_loop.simps) (simp add: Let_def)
    have "written b' = written b @ xs" by (simp add: b'(3) step(2))
    with b' eq step(3,4) show ?thesis by simp
  qed
qed

section \<open>Reading\<close>

lemma take_drop_block:
  assumes "blocks_ok bs" and "i < length bs" and "off + k \<le> BLOCK_SIZE"
  shows "take k (drop off (bs ! i)) = take k (drop (i * BLOCK_SIZE + off) (concat bs))"
proof -
  have "drop (i * BLOCK_SIZE + off) (concat bs) = drop off (concat (drop i bs))"
    using drop_concat_blocks [OF assms(1), of i] assms(2)
    by (metis add.commute drop_drop less_imp_le)
  also have "\<dots> = drop off (bs ! i @ concat (drop (Suc i) bs))"
    using assms(2) by (metis Cons_nth_drop_Suc concat.simps(2))
  finally show ?thesis using assms by (simp add: blocks_ok_def)
qed

lemma length_flat: "ibuf_inv b \<Longrightarrow> length (flat b) = Suc (m_writeBlock b) * BLOCK_SIZE"
  by (simp add: flat_def length_concat_blocks ibuf_inv_def)

lemma wpos_less_flat: "ibuf_inv b \<Longrightarrow> wpos b < length (flat b)"
  by (simp add: length_flat) (simp add: wpos_def ibuf_inv_def)

lemma length_written [simp]: "ibuf_inv b \<Longrightarrow> length (written b) = wpos b"
  using wpos_less_flat [of b] by (simp add: written_def)

lemma length_unread: "ibuf_inv b \<Longrightarrow> length (unread b) = wpos b - rpos b"
  by (simp add: unread_def)

text \<open>One round of the loop in \<open>read\<close>, as long as the reader stays behind the writer.\<close>

lemma advance_reader_wf:
  assumes wf: "ibuf_wf b" and k: "m_readOffset b + k \<le> BLOCK_SIZE" "k \<le> length (unread b)"
  defines "b' \<equiv> advance_reader (m_readOffset b + k) b"
  shows "ibuf_wf b'" and "unread b' = drop k (unread b)"
    and "areBlocksRecycled b' = areBlocksRecycled b"
    and "\<not> areBlocksRecycled b \<Longrightarrow> written b' = written b"
proof -
  have inv: "ibuf_inv b" and le: "rpos b \<le> wpos b" using wf by (auto simp: ibuf_wf_def)
  have rk: "rpos b + k \<le> wpos b" using k(2) le length_unread [OF inv] by simp
  have "ibuf_wf b' \<and> unread b' = drop k (unread b)
     \<and> (\<not> areBlocksRecycled b \<longrightarrow> written b' = written b)"
  proof (cases "m_readOffset b + k = BLOCK_SIZE \<and> m_enableBlockRecycle b")
    case False
    then have wp: "wpos b' = wpos b" "flat b' = flat b" and rp: "rpos b' = rpos b + k"
      by (auto simp: b'_def advance_reader_def wpos_def flat_def rpos_def)
    have "ibuf_inv b'" using inv False k(1) wp
      by (auto simp: ibuf_inv_def b'_def advance_reader_def split: if_splits)
    with rk rp wp show ?thesis
      by (simp add: ibuf_wf_def unread_def written_def add.commute)
  next
    case True
    then have full: "rpos b + k = Suc (m_readBlock b) * BLOCK_SIZE" by (simp add: rpos_def)
    have wo: "m_writeOffset b < BLOCK_SIZE" and len: "length (m_blocks b) = Suc (m_writeBlock b)"
      and ok: "blocks_ok (m_blocks b)" using inv by (auto simp: ibuf_inv_def)
    have "Suc (m_readBlock b) * BLOCK_SIZE \<le> m_writeBlock b * BLOCK_SIZE + m_writeOffset b"
      using rk full by (simp add: wpos_def)
    also have "\<dots> < Suc (m_writeBlock b) * BLOCK_SIZE" using wo by simp
    finally have lt: "m_readBlock b < m_writeBlock b"
      by (metis Suc_less_SucD mult_less_cancel2)
    obtain blk bs where bs: "m_blocks b = blk # bs" using len by (cases "m_blocks b") auto
    have lb: "length blk = BLOCK_SIZE" using ok bs by (simp add: blocks_ok_def)
    have wp: "wpos b = wpos b' + BLOCK_SIZE"
      using lt True by (cases "m_writeBlock b") (auto simp: b'_def advance_reader_def wpos_def)
    have fl: "flat b' = drop BLOCK_SIZE (flat b)"
      using True bs lb by (simp add: b'_def advance_reader_def flat_def)
    have rp: "rpos b' + BLOCK_SIZE = rpos b + k"
      using True full by (simp add: b'_def advance_reader_def rpos_def)
    have wr: "written b' = drop BLOCK_SIZE (written b)"
      by (simp add: written_def fl wp drop_take)
    have "drop (wpos b') (flat b') = drop (wpos b) (flat b)" by (simp add: fl wp add.commute)
    then have "ibuf_inv b'" using inv bs lt True
      by (auto simp: ibuf_inv_def b'_def advance_reader_def blocks_ok_def)
    moreover have "unread b' = drop k (unread b)"
      using rp by (simp add: unread_def wr add.commute)
    ultimately show ?thesis using rk rp wp True
      by (simp add: ibuf_wf_def areBlocksRecycled_def)
  qed
  then show "ibuf_wf b'" "unread b' = drop k (unread b)"
    "\<not> areBlocksRecycled b \<Longrightarrow> written b' = written b" by auto
  show "areBlocksRecycled b' = areBlocksRecycled b"
    by (simp add: b'_def advance_reader_def areBlocksRecycled_def)
qed

lemma read_loop_wf:
  "ibuf_wf b \<Longrightarrow> n \<le> length (unread b) \<Longrightarrow>
     \<exists>b'. read_loop n acc b = Inr (acc @ take n (unread b), b') \<and> ibuf_wf b'
       \<and> unread b' = drop n (unread b) \<and> areBlocksRecycled b' = areBlocksRecycled b
       \<and> (\<not> areBlocksRecycled b \<longrightarrow> written b' = written b)"
proof (induction n acc b rule: read_loop.induct)
  case (1 n acc b)
  show ?case
  proof (cases "n = 0")
    case True
    with "1.prems" show ?thesis by (simp add: read_loop.simps)
  next
    case False
    let ?k = "min n (BLOCK_SIZE - m_readOffset b)"
    let ?b1 = "advance_reader (m_readOffset b + ?k) b"
    have inv: "ibuf_inv b" using "1.prems" by (simp add: ibuf_wf_def)
    have ro: "m_readOffset b < BLOCK_SIZE" and len: "length (m_blocks b) = Suc (m_writeBlock b)"
      and wo: "m_writeOffset b < BLOCK_SIZE" and ok: "blocks_ok (m_blocks b)"
      using inv by (auto simp: ibuf_inv_def)
    have lt: "rpos b + n \<le> wpos b" using "1.prems" length_unread [OF inv]
      by (auto simp: ibuf_wf_def)
    have "m_readBlock b * BLOCK_SIZE < Suc (m_writeBlock b) * BLOCK_SIZE"
      using lt wo by (simp add: rpos_def wpos_def)
    then have inside: "m_readBlock b < length (m_blocks b)"
      unfolding mult_less_cancel2 len by blast
    have k1: "m_readOffset b + ?k \<le> BLOCK_SIZE" and k2: "?k \<le> length (unread b)"
      using ro "1.prems"(2) by auto
    note step = advance_reader_wf [OF "1.prems"(1) k1 k2]
    have "take ?k (drop (rpos b) (flat b)) = take ?k (unread b)"
      using lt by (simp add: unread_def written_def drop_take min_def)
    then have chunk: "take ?k (drop (m_readOffset b) (m_blocks b ! m_readBlock b)) = take ?k (unread b)"
      using take_drop_block [OF ok inside k1] by (simp add: flat_def rpos_def)
    have n1: "n - ?k \<le> length (unread ?b1)" using step(2) "1.prems"(2) by simp
    have "\<not> length (m_blocks b) \<le> m_readBlock b" "\<not> BLOCK_SIZE < m_readOffset b"
      using inside ro by auto
    note IH = "1.IH" [OF False this refl refl refl step(1) n1]
    have eq: "read_loop n acc b = read_loop (n - ?k) (acc @ take ?k (unread b)) ?b1"
      using False inside ro chunk by (subst read_loop.simps) (simp add: Let_def)
    have "take ?k (unread b) @ take (n - ?k) (drop ?k (unread b)) = take n (unread b)"
      by (metis le_add_diff_inverse min.cobounded1 take_add)
    with IH eq step(2-4) show ?thesis by (auto simp: chunk)
  qed
qed

text \<open>
  Without recycling the reader may also pass the writer: it then gets the zero bytes of the last
  block, and only at the end of that block is the result short.
\<close>

lemma read_loop_flat:
  "ibuf_inv b \<Longrightarrow> \<not> areBlocksRecycled b \<Longrightarrow>
     \<exists>b'. read_loop n acc b = Inr (acc @ take n (drop (rpos b) (flat b)), b') \<and> ibuf_inv b'
       \<and> flat b' = flat b \<and> wpos b' = wpos b \<and> \<not> areBlocksRecycled b'
       \<and> rpos b' = min (rpos b + n) (max (rpos b) (length (flat b)))"
proof (induction n acc b rule: read_loop.induct)
  case (1 n acc b)
  have ro: "m_readOffset b < BLOCK_SIZE" and ok: "blocks_ok (m_blocks b)"
    using "1.prems"(1) by (auto simp: ibuf_inv_def)
  show ?case
  proof (cases "n = 0 \<or> length (m_blocks b) \<le> m_readBlock b")
    case True
    moreover have "length (m_blocks b) \<le> m_readBlock b \<Longrightarrow> length (flat b) \<le> rpos b"
      using length_concat_blocks [OF ok] by (simp add: flat_def rpos_def trans_le_add1)
    ultimately show ?thesis using "1.prems" by (auto simp: read_loop.simps)
  next
    case False
    let ?k = "min n (BLOCK_SIZE - m_readOffset b)"
    let ?b1 = "advance_reader (m_readOffset b + ?k) b"
    have inside: "m_readBlock b < length (m_blocks b)" using False by simp
    have k1: "m_readOffset b + ?k \<le> BLOCK_SIZE" using ro by auto
    have nr: "\<not> m_enableBlockRecycle b" using "1.prems"(2) by (simp add: areBlocksRecycled_def)
    have fl: "flat ?b1 = flat b" "wpos ?b1 = wpos b" and rp: "rpos ?b1 = rpos b + ?k"
      using nr by (auto simp: advance_reader_def flat_def wpos_def rpos_def)
    have inv1: "ibuf_inv ?b1" using "1.prems"(1) fl nr k1
      by (auto simp: ibuf_inv_def advance_reader_def)
    have nr1: "\<not> areBlocksRecycled ?b1" using nr by (simp add: advance_reader_def areBlocksRecycled_def)
    have chunk: "take ?k (drop (m_readOffset b) (m_blocks b ! m_readBlock b))
        = take ?k (drop (rpos b) (flat b))"
      using take_drop_block [OF ok inside k1] by (simp add: flat_def rpos_def)
    have "n \<noteq> 0" "\<not> length (m_blocks b) \<le> m_readBlock b" "\<not> BLOCK_SIZE < m_readOffset b"
      using False ro by auto
    note IH = "1.IH" [OF this refl refl refl inv1 nr1]
    have eq: "read_loop n acc b = read_loop (n - ?k) (acc @ take ?k (drop (rpos b) (flat b))) ?b1"
      using False inside ro chunk by (subst read_loop.simps) (simp add: Let_def)
    have "take ?k (drop (rpos b) (flat b)) @ take (n - ?k) (drop (rpos b + ?k) (flat b))
        = take n (drop (rpos b) (flat b))"
      by (metis add.commute drop_drop le_add_diff_inverse min.cobounded1 take_add)
    moreover have "rpos b + ?k \<le> length (flat b)"
    proof -
      have "rpos b + ?k \<le> Suc (m_readBlock b) * BLOCK_SIZE" using k1 by (simp add: rpos_def)
      also have "\<dots> \<le> length (m_blocks b) * BLOCK_SIZE" using inside by (intro mult_le_mono1) simp
      finally show ?thesis using length_concat_blocks [OF ok] by (simp add: flat_def)
    qed
    then have "min (rpos b + ?k + (n - ?k)) (max (rpos b + ?k) (length (flat b)))
        = min (rpos b + n) (max (rpos b) (length (flat b)))" by (simp add: max_def)
    ultimately show ?thesis using IH eq fl rp by (auto simp: chunk)
  qed
qed

section \<open>The operations on a well-formed buffer\<close>

lemma ibuf_wf_new [simp]: "ibuf_wf new_ibuf"
  by (simp add: ibuf_wf_def ibuf_inv_def blocks_ok_def new_ibuf_def wpos_def rpos_def flat_def
      new_block_def)

lemma ibuf_new_simps [simp]:
  "written new_ibuf = []" "unread new_ibuf = []" "rpos new_ibuf = 0" "\<not> areBlocksRecycled new_ibuf"
  by (simp_all add: new_ibuf_def written_def unread_def wpos_def rpos_def areBlocksRecycled_def)

lemma ibuf_clear_eq [simp]: "\<not> areBlocksRecycled b \<Longrightarrow> ibuf_clear b = new_ibuf"
  by (cases b) (simp add: ibuf_clear_def new_ibuf_def areBlocksRecycled_def)

lemma ibuf_write_wf:
  assumes "ibuf_wf b"
  shows "\<exists>b'. ibuf_write xs b = Inr b' \<and> ibuf_wf b' \<and> written b' = written b @ xs
     \<and> unread b' = unread b @ xs \<and> rpos b' = rpos b \<and> areBlocksRecycled b' = areBlocksRecycled b"
proof -
  have inv: "ibuf_inv b" and le: "rpos b \<le> wpos b" using assms by (auto simp: ibuf_wf_def)
  obtain b' where b': "write_loop xs b = Inr b'" "ibuf_inv b'" "written b' = written b @ xs"
    "rpos b' = rpos b" "areBlocksRecycled b' = areBlocksRecycled b"
    using write_loop_inv [OF inv] by blast
  have "wpos b' = wpos b + length xs" using b'(2,3) inv length_written by (metis length_append)
  moreover have "unread b' = unread b @ xs" using b'(3,4) le inv by (simp add: unread_def)
  ultimately show ?thesis using b' le by (simp add: ibuf_write_def ibuf_wf_def)
qed

lemma ibuf_read_wf:
  assumes "ibuf_wf b" and "n \<le> length (unread b)" and "n \<le> max_vector_size"
  shows "\<exists>b'. ibuf_read n b = Inr (take n (unread b), b') \<and> ibuf_wf b'
       \<and> unread b' = drop n (unread b) \<and> areBlocksRecycled b' = areBlocksRecycled b
       \<and> (\<not> areBlocksRecycled b \<longrightarrow> written b' = written b)"
  using read_loop_wf [OF assms(1,2), of "[]"] assms(3) by (simp add: ibuf_read_def)

lemma getBytes_from_eq:
  "blocks_ok bs \<Longrightarrow> i \<le> wb \<Longrightarrow> length bs = Suc wb - i \<Longrightarrow> wo \<le> BLOCK_SIZE \<Longrightarrow>
     getBytes_from i bs wb wo = take ((wb - i) * BLOCK_SIZE + wo) (concat bs)"
proof (induction i bs wb wo rule: getBytes_from.induct)
  case (1 i wb wo)
  then show ?case by simp
next
  case (2 i blk blks wb wo)
  have "length blk = BLOCK_SIZE" "blocks_ok blks" using "2.prems"(1) by (auto simp: blocks_ok_def)
  moreover have "i < wb \<Longrightarrow> (wb - i) * BLOCK_SIZE = BLOCK_SIZE + (wb - Suc i) * BLOCK_SIZE"
    by (metis Suc_diff_Suc mult_Suc)
  ultimately show ?case using "2.IH" "2.prems" by (cases "i < wb") auto
qed

lemma ibuf_getBytes_eq: "ibuf_inv b \<Longrightarrow> ibuf_getBytes b = written b"
  using getBytes_from_eq [of "m_blocks b" 0 "m_writeBlock b" "m_writeOffset b"]
  by (simp add: ibuf_getBytes_def written_def flat_def wpos_def ibuf_inv_def)

section \<open>The byte queue the serialisers rely on\<close>

text \<open>
  What a client of the buffer may use: \<open>put\<close> appends at the back of a queue of bytes,
  \<open>get\<close> takes bytes from its front, neither fails on a buffer in a good state. A run of such
  calls behaves like the same run on the queue itself.
\<close>

datatype 'a queue_op = Put "'a list" | Get nat

fun run_queue :: "'a queue_op list \<Rightarrow> 'a list \<Rightarrow> ('a list list \<times> 'a list) option" where
  "run_queue [] q = Some ([], q)"
| "run_queue (Put xs # ops) q = run_queue ops (q @ xs)"
| "run_queue (Get n # ops) q =
     (if n \<le> length q
      then map_option (\<lambda>(outs, q'). (take n q # outs, q')) (run_queue ops (drop n q))
      else None)"

fun run_buffer ::
  "('a list \<Rightarrow> 's \<Rightarrow> zinc_error + 's) \<Rightarrow> (nat \<Rightarrow> 's \<Rightarrow> zinc_error + ('a list \<times> 's)) \<Rightarrow>
   'a queue_op list \<Rightarrow> 's \<Rightarrow> zinc_error + ('a list list \<times> 's)" where
  "run_buffer put get [] s = Inr ([], s)"
| "run_buffer put get (Put xs # ops) s =
     (case put xs s of Inl e \<Rightarrow> Inl e | Inr s' \<Rightarrow> run_buffer put get ops s')"
| "run_buffer put get (Get n # ops) s =
     (case get n s of Inl e \<Rightarrow> Inl e
      | Inr (xs, s') \<Rightarrow>
          (case run_buffer put get ops s' of Inl e \<Rightarrow> Inl e
           | Inr (outs, s'') \<Rightarrow> Inr (xs # outs, s'')))"

locale byte_queue =
  fixes put :: "'a list \<Rightarrow> 's \<Rightarrow> zinc_error + 's"
    and get :: "nat \<Rightarrow> 's \<Rightarrow> zinc_error + ('a list \<times> 's)"
    and queue :: "'s \<Rightarrow> 'a list"
    and good :: "'s \<Rightarrow> bool"
    and limit :: nat
  assumes put_law: "good s \<Longrightarrow> \<exists>s'. put xs s = Inr s' \<and> good s' \<and> queue s' = queue s @ xs"
    and get_law: "good s \<Longrightarrow> n \<le> length (queue s) \<Longrightarrow> n \<le> limit \<Longrightarrow>
      \<exists>s'. get n s = Inr (take n (queue s), s') \<and> good s' \<and> queue s' = drop n (queue s)"
begin

lemma simulation:
  "good s \<Longrightarrow> run_queue ops (queue s) = Some (outs, q') \<Longrightarrow>
     (\<forall>n. Get n \<in> set ops \<longrightarrow> n \<le> limit) \<Longrightarrow>
     \<exists>s'. run_buffer put get ops s = Inr (outs, s') \<and> good s' \<and> queue s' = q'"
proof (induction ops arbitrary: s outs q')
  case Nil
  then show ?case by simp
next
  case (Cons op ops)
  show ?case
  proof (cases op)
    case (Put xs)
    obtain s1 where "put xs s = Inr s1" "good s1" "queue s1 = queue s @ xs"
      using put_law [OF Cons.prems(1)] by blast
    with Put Cons.IH [of s1 outs q'] Cons.prems show ?thesis by auto
  next
    case (Get n)
    with Cons.prems have n: "n \<le> length (queue s)" "n \<le> limit" by (auto split: if_splits)
    obtain s1 where s1: "get n s = Inr (take n (queue s), s1)" "good s1" "queue s1 = drop n (queue s)"
      using get_law [OF Cons.prems(1) n] by blast
    with Get n Cons.prems obtain outs1 where o: "run_queue ops (queue s1) = Some (outs1, q')"
      "outs = take n (queue s) # outs1" by auto
    with Get s1 Cons.IH [OF s1(2) o(1)] Cons.prems(3) show ?thesis by auto
  qed
qed

lemma put_get:
  assumes "good s" and "queue s = []" and "length xs \<le> limit"
  shows "\<exists>s'. run_buffer put get [Put xs, Get (length xs)] s = Inr ([xs], s') \<and> good s' \<and> queue s' = []"
  using simulation [of s "[Put xs, Get (length xs)]" "[xs]" "[]"] assms by auto

end

interpretation ibq: byte_queue ibuf_write ibuf_read unread ibuf_wf max_vector_size
proof unfold_locales
  show "\<exists>s'. ibuf_write xs s = Inr s' \<and> ibuf_wf s' \<and> unread s' = unread s @ xs"
    if "ibuf_wf s" for s xs
    using ibuf_write_wf [OF that, of xs] by blast
  show "\<exists>s'. ibuf_read n s = Inr (take n (unread s), s') \<and> ibuf_wf s' \<and> unread s' = drop n (unread s)"
    if "ibuf_wf s" "n \<le> length (unread s)" "n \<le> max_vector_size" for s n
    using ibuf_read_wf [OF that] by blast
qed

section \<open>Properties\<close>

text \<open>C5: Whatever sequence of writes and reads is applied to a fresh block buffer, with block
  recycling on or off, as long as no read asks for more bytes than are still unread: every
  call succeeds, the reads return exactly the bytes a queue of bytes would return, in order,
  and what is left unread is what the queue still holds.\<close>

theorem buffer_is_byte_queue:
  assumes "run_queue ops [] = Some (outs, q)" and "\<forall>n. Get n \<in> set ops \<longrightarrow> n \<le> max_vector_size"
  shows "\<exists>b. run_buffer ibuf_write ibuf_read ops (toggleBlockRecycle recycle new_ibuf) = Inr (outs, b)
    \<and> ibuf_wf b \<and> unread b = q"
proof -
  let ?b = "toggleBlockRecycle recycle new_ibuf"
  have "ibuf_wf ?b" and "unread ?b = []"
    by (simp_all add: toggleBlockRecycle_def new_ibuf_def ibuf_wf_def ibuf_inv_def blocks_ok_def
        wpos_def rpos_def flat_def unread_def written_def new_block_def)
  with assms ibq.simulation [of ?b ops outs q] show ?thesis by simp
qed

theorem buffer_is_byte_queue_witness:
  "\<exists>b. run_buffer ibuf_write ibuf_read [Put [1, 2, 3], Get 2, Put [4], Get 1]
      (toggleBlockRecycle True new_ibuf) = Inr ([[1, 2], [3]], b) \<and> ibuf_wf b \<and> unread b = [4]"
  by (rule buffer_is_byte_queue) (auto simp: max_vector_size_def)

lemma ibuf_read_zeros:
  assumes "ibuf_wf b" and "\<not> areBlocksRecycled b" and "n \<le> max_vector_size"
  shows "\<exists>b'. ibuf_read n b =
    Inr (take n (unread b @ replicate (length (m_blocks b) * BLOCK_SIZE - wpos b) 0), b')"
proof -
  have inv: "ibuf_inv b" and le: "rpos b \<le> wpos b" using assms(1) by (auto simp: ibuf_wf_def)
  then have lf: "length (flat b) = length (m_blocks b) * BLOCK_SIZE"
    and z: "\<forall>x \<in> set (drop (wpos b) (flat b)). x = 0"
    by (auto simp: ibuf_inv_def flat_def length_concat_blocks)
  have "drop (wpos b) (flat b) = replicate (length (m_blocks b) * BLOCK_SIZE - wpos b) 0"
    using z lf by (intro replicate_eqI) auto
  moreover have "drop (rpos b) (flat b) = unread b @ drop (wpos b) (flat b)"
    using le length_written [OF inv] unfolding unread_def written_def
    by (metis append_take_drop_id diff_is_0_eq drop0 drop_append length_take written_def)
  ultimately show ?thesis
    using read_loop_flat [OF inv assms(2), of n "[]"] assms(3) by (auto simp: ibuf_read_def)
qed

text \<open>Reading more than was written is not an error. Without recycling the reader gets the
  unread bytes and then the zero bytes of the last block, as many as asked for, and a short
  result only past the end of that block.\<close>

theorem read_past_writer_gives_zeros:
  assumes "ibuf_wf b" and "\<not> areBlocksRecycled b" and "n \<le> max_vector_size"
  shows "\<exists>b'. ibuf_read n b =
    Inr (take n (unread b @ replicate (length (m_blocks b) * BLOCK_SIZE - wpos b) 0), b')"
  using assms by (rule ibuf_read_zeros)

theorem read_past_writer_gives_zeros_witness:
  "\<exists>b'. ibuf_read 3 new_ibuf = Inr (take 3 (replicate 4096 0), b')"
proof -
  have "length (m_blocks new_ibuf) * BLOCK_SIZE - wpos new_ibuf = 4096"
    by (simp add: new_ibuf_def wpos_def BLOCK_SIZE_def)
  with read_past_writer_gives_zeros [of new_ibuf 3] show ?thesis
    by (simp add: max_vector_size_def)
qed

text \<open>With recycling on, a read that passes the writer in the only block drops that block, and
  the next write has no block to write to.\<close>

theorem recycle_drops_write_block:
  "\<exists>b. ibuf_read BLOCK_SIZE (toggleBlockRecycle True new_ibuf) = Inr (new_block, b)
     \<and> m_blocks b = [] \<and> ibuf_write (c # cs) b = Inl OutOfBounds"
proof -
  have "BLOCK_SIZE \<noteq> 0" "BLOCK_SIZE \<le> max_vector_size"
    by (simp_all add: BLOCK_SIZE_def max_vector_size_def)
  then show ?thesis
    by (simp add: ibuf_read_def read_loop.simps [of BLOCK_SIZE] read_loop.simps [of 0] new_ibuf_def
        toggleBlockRecycle_def advance_reader_def ibuf_write_def write_loop.simps new_block_def)
qed

end
