(* ===== verification/Byte_Buffer.thy ===== *)
theory Byte_Buffer
  imports Block_Buffer
begin

text \<open>
  \<open>ByteBuffer\<close> of \<open>inc/type/ByteBuffer.h\<close> and \<open>src/type/ByteBuffer.cpp\<close>: the byte
  and number primitives on top of the block storage. The templates over an arithmetic type are
  polymorphic in the word length; the templates over an element writer or reader take that
  function as an argument.

  Two relations carry all the round-trip proofs of the development: \<open>appends\<close> says which
  bytes a writer appends, \<open>reads\<close> which bytes a reader consumes and what it returns for them.
  The locale \<open>codec\<close> is the contract between a template such as \<open>writePrefixedArray\<close> and
  the element functions it is given.
\<close>

section \<open>State and byte access\<close>

record ByteBuffer =
  m_internalBuffer :: InternalByteBuffer
  m_isBigEndian :: bool

type_synonym 'a bb = "(ByteBuffer, 'a) action"

definition new_bb :: "bool \<Rightarrow> ByteBuffer" where
  "new_bb isBigEndian = \<lparr>m_internalBuffer = new_ibuf, m_isBigEndian = isBigEndian\<rparr>"

definition bb_of_bytes :: "byte list \<Rightarrow> nat \<Rightarrow> bool \<Rightarrow> zinc_error + ByteBuffer" where
  "bb_of_bytes bytes readPtr isBigEndian =
     (let readBlock = readPtr div BLOCK_SIZE; readOffset = readPtr mod BLOCK_SIZE
      in case ibuf_write bytes new_ibuf of Inl e \<Rightarrow> Inl e
         | Inr i \<Rightarrow> Inr \<lparr>m_internalBuffer = setReader (readBlock, readOffset) i,
                         m_isBigEndian = isBigEndian\<rparr>)"

definition bb_move :: "ByteBuffer \<Rightarrow> zinc_error + ByteBuffer" where
  "bb_move buffer =
     (case ibuf_write (ibuf_getBytes (m_internalBuffer buffer)) new_ibuf of Inl e \<Rightarrow> Inl e
      | Inr i \<Rightarrow> Inr \<lparr>m_internalBuffer = setReader (getReader (m_internalBuffer buffer)) i,
                      m_isBigEndian = m_isBigEndian buffer\<rparr>)"

definition bb_clear :: "ByteBuffer \<Rightarrow> ByteBuffer" where
  "bb_clear b = b\<lparr>m_internalBuffer := ibuf_clear (m_internalBuffer b)\<rparr>"

definition getBytes :: "ByteBuffer \<Rightarrow> byte list" where
  "getBytes b = ibuf_getBytes (m_internalBuffer b)"

definition bb_size :: "ByteBuffer \<Rightarrow> nat" where
  "bb_size b = (let writer = getWriter (m_internalBuffer b) in fst writer * BLOCK_SIZE + snd writer)"

definition getReaderPointer :: "ByteBuffer \<Rightarrow> nat" where
  "getReaderPointer b =
     (let reader = getReader (m_internalBuffer b) in fst reader * BLOCK_SIZE + snd reader)"

definition bb_eq :: "ByteBuffer \<Rightarrow> ByteBuffer \<Rightarrow> bool" where
  "bb_eq a b \<longleftrightarrow> m_isBigEndian a = m_isBigEndian b
     \<and> ibuf_eq (m_internalBuffer a) (m_internalBuffer b)"

definition writeBytes :: "byte list \<Rightarrow> unit bb" where
  "writeBytes bytes = (\<lambda>b. case ibuf_write bytes (m_internalBuffer b) of Inl e \<Rightarrow> Inl e
     | Inr i \<Rightarrow> Inr ((), b\<lparr>m_internalBuffer := i\<rparr>))"

definition readBytes :: "nat \<Rightarrow> byte list bb" where
  "readBytes len = (\<lambda>b. case ibuf_read len (m_internalBuffer b) of Inl e \<Rightarrow> Inl e
     | Inr (bytes, i) \<Rightarrow> Inr (bytes, b\<lparr>m_internalBuffer := i\<rparr>))"

definition writeByte :: "byte \<Rightarrow> unit bb" where
  "writeByte c = writeBytes [c]"

text \<open>\<open>readBytes[0]\<close> of an empty vector is undefined behaviour.\<close>

definition readByte :: "byte bb" where
  "readByte = bnd (readBytes 1) (\<lambda>bytes. case bytes of [] \<Rightarrow> fail OutOfBounds | c # _ \<Rightarrow> ret c)"

definition writeUnsignedByte :: "byte \<Rightarrow> unit bb" where
  "writeUnsignedByte c = writeByte c"

definition readUnsignedByte :: "byte bb" where
  "readUnsignedByte = readByte"

definition writeBool :: "bool \<Rightarrow> unit bb" where
  "writeBool v = writeByte (byte_of_bool v)"

definition readBool :: "bool bb" where
  "readBool = bnd readByte (\<lambda>c. ret (c \<noteq> 0))"

definition writeByteArray :: "byte list \<Rightarrow> unit bb" where
  "writeByteArray bytes = writeBytes bytes"

definition readByteArray :: "nat \<Rightarrow> byte list bb" where
  "readByteArray len = readBytes len"

text \<open>\<open>toBytes()\<close> of the game types: write into a buffer of its own, return what it holds.\<close>

definition run_writer :: "unit bb \<Rightarrow> zinc_error + byte list" where
  "run_writer w = (case w (new_bb True) of Inl e \<Rightarrow> Inl e | Inr (_, b) \<Rightarrow> Inr (getBytes b))"

section \<open>Numbers\<close>

text \<open>The object representation of a number, least significant byte first.\<close>

definition le_bytes :: "'a::len word \<Rightarrow> byte list" where
  "le_bytes w = map (\<lambda>i. ucast (drop_bit (8 * i) w)) [0..<LENGTH('a) div 8]"

fun of_le_bytes :: "byte list \<Rightarrow> 'a::len word" where
  "of_le_bytes [] = 0"
| "of_le_bytes (b # bs) = ucast b OR push_bit 8 (of_le_bytes bs)"

definition writeNumeric :: "'a::len word \<Rightarrow> unit bb" where
  "writeNumeric v = bnd (gets m_isBigEndian) (\<lambda>be.
     writeBytes (if be then rev (le_bytes v) else le_bytes v))"

definition readNumeric :: "'a::len word bb" where
  "readNumeric = bnd (readBytes (LENGTH('a) div 8)) (\<lambda>bytes.
     bnd (gets m_isBigEndian) (\<lambda>be. ret (of_le_bytes (if be then rev bytes else bytes))))"

section \<open>Variable-length numbers\<close>

definition varNumericMaxSize :: "'a::len itself \<Rightarrow> nat" where
  "varNumericMaxSize _ = LENGTH('a) div 7 + 1"

lemma drop_bit_7_decreases:
  "drop_bit 7 uv \<noteq> (0 :: 'a::len word) \<Longrightarrow> unat (drop_bit 7 uv) < unat uv"
proof -
  assume "drop_bit 7 uv \<noteq> 0"
  then have "uv \<noteq> 0" by auto
  then have "0 < unat uv" by (simp add: unat_gt_0)
  moreover have "unat (drop_bit 7 uv) = unat uv div 128"
    by (simp only: unat_drop_bit_eq drop_bit_nat_def) simp
  ultimately show ?thesis by simp
qed

function getVarNumericLength :: "'a::len word \<Rightarrow> nat" where
  "getVarNumericLength uv =
     (if drop_bit 7 uv \<noteq> 0 then Suc (getVarNumericLength (drop_bit 7 uv)) else 1)"
  by pat_completeness auto
termination by (relation "measure unat") (auto simp: drop_bit_7_decreases)

declare getVarNumericLength.simps [simp del]

text \<open>
  The groups written into \<open>temp\<close>, every one with its continuation bit, and then the bit
  cleared in the last one.
\<close>

function var_groups :: "'a::len word \<Rightarrow> byte list" where
  "var_groups uv =
     (ucast (uv AND 0x7F) OR 0x80) # (if drop_bit 7 uv \<noteq> 0 then var_groups (drop_bit 7 uv) else [])"
  by pat_completeness auto
termination by (relation "measure unat") (auto simp: drop_bit_7_decreases)

declare var_groups.simps [simp del]

definition var_bytes :: "'a::len word \<Rightarrow> byte list" where
  "var_bytes uv = (let temp = var_groups uv in butlast temp @ [last temp AND 0x7F])"

definition writeVarNumeric :: "'a::len word \<Rightarrow> unit bb" where
  "writeVarNumeric v = writeBytes (var_bytes v)"

text \<open>The sign extension of the result in \<open>readVarNumeric\<close>, for a signed type only.\<close>

definition sign_extend :: "bool \<Rightarrow> 'a::len word \<Rightarrow> 'a word" where
  "sign_extend is_signed result =
     (if is_signed \<and> bit result (LENGTH('a) - 1)
      then result OR push_bit (LENGTH('a) - 1) (NOT 0) else result)"

fun readVar_loop :: "bool \<Rightarrow> nat \<Rightarrow> 'a::len word \<Rightarrow> nat \<Rightarrow> 'a word bb" where
  "readVar_loop is_signed 0 result shift = ret 0"
| "readVar_loop is_signed (Suc n) result shift =
     bnd (readBytes 1) (\<lambda>readByte. case readByte of [] \<Rightarrow> fail OutOfBounds
     | byte # _ \<Rightarrow>
         let result' = result OR push_bit shift (ucast (byte AND 0x7F))
         in if byte AND 0x80 = 0 then ret (sign_extend is_signed result')
            else if LENGTH('a) \<le> shift + 7 then ret 0
            else readVar_loop is_signed n result' (shift + 7))"

definition readVarNumeric :: "bool \<Rightarrow> 'a::len word bb" where
  "readVarNumeric is_signed = readVar_loop is_signed (varNumericMaxSize TYPE('a)) 0 0"

abbreviation writeVarInt :: "i32 \<Rightarrow> unit bb" where
  "writeVarInt \<equiv> writeVarNumeric"

abbreviation readVarInt :: "i32 bb" where
  "readVarInt \<equiv> readVarNumeric True"

definition zigzag :: "'a::len word \<Rightarrow> 'a word" where
  "zigzag v = push_bit 1 v XOR signed_drop_bit (LENGTH('a) - 1) v"

definition unzigzag :: "'a::len word \<Rightarrow> 'a word" where
  "unzigzag uv = drop_bit 1 uv XOR (- (uv AND 1))"

definition getZigZagVarNumericLength :: "'a::len word \<Rightarrow> nat" where
  "getZigZagVarNumericLength v = getVarNumericLength (zigzag v)"

definition writeZigZagVarNumeric :: "'a::len word \<Rightarrow> unit bb" where
  "writeZigZagVarNumeric v = writeVarNumeric (zigzag v)"

definition readZigZagVarNumeric :: "'a::len word bb" where
  "readZigZagVarNumeric = bnd (readVarNumeric False) (\<lambda>uv. ret (unzigzag uv))"

section \<open>Strings, byte arrays, and the templates over an element\<close>

definition writeString :: "string \<Rightarrow> unit bb" where
  "writeString v = thn (writeVarInt (int_of_size (length v))) (writeBytes (bytes_of_string v))"

definition readString :: "string bb" where
  "readString = bnd readVarInt (\<lambda>n. bnd (readBytes (size_of_int n)) (\<lambda>bytes. ret (string_of_bytes bytes)))"

definition writePrefixedByteArray :: "byte list \<Rightarrow> unit bb" where
  "writePrefixedByteArray bytes =
     thn (writeVarInt (int_of_size (length bytes))) (writeBytes bytes)"

definition readPrefixedByteArray :: "byte list bb" where
  "readPrefixedByteArray = bnd readVarInt (\<lambda>n. readBytes (size_of_int n))"

definition writeOptional :: "('a \<Rightarrow> unit bb) \<Rightarrow> 'a option \<Rightarrow> unit bb" where
  "writeOptional func v = (case v of None \<Rightarrow> ret () | Some x \<Rightarrow> func x)"

definition writePrefixedOptional :: "('a \<Rightarrow> unit bb) \<Rightarrow> 'a option \<Rightarrow> unit bb" where
  "writePrefixedOptional func v = thn (writeBool (v \<noteq> None)) (writeOptional func v)"

definition readOptional :: "'a bb \<Rightarrow> bool \<Rightarrow> 'a option bb" where
  "readOptional func hasValue = (if hasValue then bnd func (\<lambda>x. ret (Some x)) else ret None)"

definition readPrefixedOptional :: "'a bb \<Rightarrow> 'a option bb" where
  "readPrefixedOptional func = bnd readBool (\<lambda>hasValue. readOptional func hasValue)"

definition writeArray :: "('a \<Rightarrow> unit bb) \<Rightarrow> 'a list \<Rightarrow> unit bb" where
  "writeArray func v = each func v"

definition writePrefixedArray :: "('a \<Rightarrow> unit bb) \<Rightarrow> 'a list \<Rightarrow> unit bb" where
  "writePrefixedArray func v = thn (writeVarInt (int_of_size (length v))) (writeArray func v)"

definition readArray :: "'a bb \<Rightarrow> nat \<Rightarrow> 'a list bb" where
  "readArray func len = collect len func"

definition readPrefixedArray :: "'a bb \<Rightarrow> 'a list bb" where
  "readPrefixedArray func = bnd readVarInt (\<lambda>n. readArray func (size_of_int n))"

section \<open>What writers append and what readers consume\<close>

definition bb_wf :: "ByteBuffer \<Rightarrow> bool" where
  "bb_wf b \<longleftrightarrow> ibuf_wf (m_internalBuffer b)"

definition bb_unread :: "ByteBuffer \<Rightarrow> byte list" where
  "bb_unread b = unread (m_internalBuffer b)"

definition appends :: "bool \<Rightarrow> unit bb \<Rightarrow> byte list \<Rightarrow> bool" where
  "appends be w xs \<longleftrightarrow> (\<forall>b. bb_wf b \<and> m_isBigEndian b = be \<longrightarrow>
     (\<exists>b'. w b = Inr ((), b') \<and> bb_wf b' \<and> m_isBigEndian b' = be
        \<and> getBytes b' = getBytes b @ xs \<and> bb_unread b' = bb_unread b @ xs
        \<and> getReaderPointer b' = getReaderPointer b))"

definition reads :: "bool \<Rightarrow> 'a bb \<Rightarrow> byte list \<Rightarrow> 'a \<Rightarrow> bool" where
  "reads be r xs x \<longleftrightarrow> (\<forall>b rest. bb_wf b \<and> m_isBigEndian b = be \<and> bb_unread b = xs @ rest \<longrightarrow>
     (\<exists>b'. r b = Inr (x, b') \<and> bb_wf b' \<and> m_isBigEndian b' = be \<and> bb_unread b' = rest))"

lemma getBytes_written: "bb_wf b \<Longrightarrow> getBytes b = written (m_internalBuffer b)"
  by (simp add: bb_wf_def getBytes_def ibuf_wf_def ibuf_getBytes_eq)

lemma bb_wf_new [simp]: "bb_wf (new_bb e)"
  by (simp add: bb_wf_def new_bb_def)

lemma new_bb_simps [simp]:
  "getBytes (new_bb e) = []" "bb_unread (new_bb e) = []" "m_isBigEndian (new_bb e) = e"
  by (simp_all add: getBytes_written) (simp_all add: new_bb_def bb_unread_def)

lemma appendsE:
  assumes "appends be w xs" and "bb_wf b" and "m_isBigEndian b = be"
  obtains b' where "w b = Inr ((), b')" "bb_wf b'" "m_isBigEndian b' = be"
    "getBytes b' = getBytes b @ xs" "bb_unread b' = bb_unread b @ xs"
    "getReaderPointer b' = getReaderPointer b"
  using assms unfolding appends_def by blast

lemma readsE:
  assumes "reads be r xs x" and "bb_wf b" and "m_isBigEndian b = be" and "bb_unread b = xs @ rest"
  obtains b' where "r b = Inr (x, b')" "bb_wf b'" "m_isBigEndian b' = be" "bb_unread b' = rest"
  using assms unfolding reads_def by blast

lemma run_writer_appends: "appends True w xs \<Longrightarrow> run_writer w = Inr xs"
  by (erule appendsE [where b = "new_bb True"]) (simp_all add: run_writer_def)

lemma appends_writeBytes [appends_intros]: "appends be (writeBytes xs) xs"
  unfolding appends_def
proof (intro allI impI, elim conjE)
  fix b assume b: "bb_wf b" "m_isBigEndian b = be"
  obtain i where i: "ibuf_write xs (m_internalBuffer b) = Inr i" "ibuf_wf i"
    "written i = written (m_internalBuffer b) @ xs" "unread i = unread (m_internalBuffer b) @ xs"
    "rpos i = rpos (m_internalBuffer b)"
    using ibuf_write_wf [of "m_internalBuffer b" xs] b by (auto simp: bb_wf_def)
  let ?b = "b\<lparr>m_internalBuffer := i\<rparr>"
  have wf: "bb_wf ?b" using i by (simp add: bb_wf_def)
  have "writeBytes xs b = Inr ((), ?b)" using i by (simp add: writeBytes_def)
  moreover have "getBytes ?b = getBytes b @ xs" using i b wf by (simp add: getBytes_written)
  moreover have "bb_unread ?b = bb_unread b @ xs" using i by (simp add: bb_unread_def)
  moreover have "getReaderPointer ?b = getReaderPointer b"
    using i by (simp add: getReaderPointer_def getReader_def rpos_def)
  ultimately show "\<exists>b'. writeBytes xs b = Inr ((), b') \<and> bb_wf b' \<and> m_isBigEndian b' = be
        \<and> getBytes b' = getBytes b @ xs \<and> bb_unread b' = bb_unread b @ xs
        \<and> getReaderPointer b' = getReaderPointer b" using wf b by auto
qed

lemma reads_readBytes [reads_intros]:
  assumes "n = length xs" and "n \<le> max_vector_size"
  shows "reads be (readBytes n) xs xs"
  unfolding reads_def
proof (intro allI impI, elim conjE)
  fix b rest assume b: "bb_wf b" "m_isBigEndian b = be" "bb_unread b = xs @ rest"
  obtain i where i: "ibuf_read n (m_internalBuffer b) = Inr (xs, i)" "ibuf_wf i" "unread i = rest"
    using ibuf_read_wf [of "m_internalBuffer b" n] b assms by (auto simp: bb_wf_def bb_unread_def)
  then have "readBytes n b = Inr (xs, b\<lparr>m_internalBuffer := i\<rparr>)" by (simp add: readBytes_def)
  then show "\<exists>b'. readBytes n b = Inr (xs, b') \<and> bb_wf b' \<and> m_isBigEndian b' = be \<and> bb_unread b' = rest"
    using i b by (auto simp: bb_wf_def bb_unread_def)
qed

text \<open>The combinators: bytes are appended and consumed in the order of the calls.\<close>

lemma appends_ret [appends_intros]: "appends be (ret ()) []"
  by (auto simp: appends_def ret_def)

lemma reads_ret [reads_intros]: "reads be (ret x) [] x"
  by (auto simp: reads_def ret_def)

lemma appends_gets [appends_intros]:
  "appends be (k be) xs \<Longrightarrow> appends be (bnd (gets m_isBigEndian) k) xs"
  by (simp add: appends_def bnd_def gets_def)

lemma reads_gets [reads_intros]:
  "reads be (k be) xs x \<Longrightarrow> reads be (bnd (gets m_isBigEndian) k) xs x"
  by (simp add: reads_def bnd_def gets_def)

lemma appends_thn [appends_intros]:
  assumes "appends be v xs" and "appends be w ys"
  shows "appends be (thn v w) (xs @ ys)"
  unfolding appends_def
proof (intro allI impI, elim conjE)
  fix b assume "bb_wf b" "m_isBigEndian b = be"
  from assms(1) this obtain b1 where b1: "v b = Inr ((), b1)" "bb_wf b1" "m_isBigEndian b1 = be"
    "getBytes b1 = getBytes b @ xs" "bb_unread b1 = bb_unread b @ xs"
    "getReaderPointer b1 = getReaderPointer b" by (rule appendsE)
  from assms(2) b1(2,3) show "\<exists>b'. thn v w b = Inr ((), b') \<and> bb_wf b' \<and> m_isBigEndian b' = be
        \<and> getBytes b' = getBytes b @ xs @ ys \<and> bb_unread b' = bb_unread b @ xs @ ys
        \<and> getReaderPointer b' = getReaderPointer b"
    by (rule appendsE) (use b1 in \<open>auto simp: thn_Inr\<close>)
qed

lemma reads_bnd [reads_intros]:
  assumes "reads be r xs x" and "reads be (k x) ys y"
  shows "reads be (bnd r k) (xs @ ys) y"
  unfolding reads_def
proof (intro allI impI, elim conjE)
  fix b rest assume b: "bb_wf b" "m_isBigEndian b = be" "bb_unread b = (xs @ ys) @ rest"
  then have "bb_unread b = xs @ (ys @ rest)" by simp
  from assms(1) b(1,2) this obtain b1 where b1: "r b = Inr (x, b1)" "bb_wf b1"
    "m_isBigEndian b1 = be" "bb_unread b1 = ys @ rest" by (rule readsE)
  from assms(2) b1(2-4) show "\<exists>b'. bnd r k b = Inr (y, b') \<and> bb_wf b' \<and> m_isBigEndian b' = be
      \<and> bb_unread b' = rest"
    by (rule readsE) (use b1 in \<open>auto simp: bnd_Inr\<close>)
qed

lemma reads_bnd_ret [reads_intros]:
  "reads be r xs x \<Longrightarrow> f x = y \<Longrightarrow> reads be (bnd r (\<lambda>x. ret (f x))) xs y"
  using reads_bnd [OF _ reads_ret, of be r xs x f] by simp

lemma appends_lift: "r = Inr v \<Longrightarrow> appends be (k v) xs \<Longrightarrow> appends be (bnd (lift_result r) k) xs"
  by (simp add: appends_def bnd_def lift_result_def)

lemma reads_lift: "r = Inr v \<Longrightarrow> reads be (k v) xs x \<Longrightarrow> reads be (bnd (lift_result r) k) xs x"
  by (simp add: reads_def bnd_def lift_result_def)

lemma appends_cong: "appends be w xs \<Longrightarrow> xs = ys \<Longrightarrow> appends be w ys"
  by simp

lemma reads_cong: "reads be r xs x \<Longrightarrow> xs = ys \<Longrightarrow> x = y \<Longrightarrow> reads be r ys y"
  by simp

lemma appends_each [appends_intros]:
  "(\<And>x. x \<in> set xs \<Longrightarrow> appends be (f x) (enc x)) \<Longrightarrow> appends be (each f xs) (concat (map enc xs))"
  by (induction xs) (auto intro!: appends_ret appends_thn)

lemma reads_collect [reads_intros]:
  "(\<And>x. x \<in> set xs \<Longrightarrow> reads be r (enc x) (f x)) \<Longrightarrow>
     reads be (collect (length xs) r) (concat (map enc xs)) (map f xs)"
proof (induction xs)
  case Nil
  then show ?case by (simp add: reads_ret)
next
  case (Cons x xs)
  have "reads be (bnd (collect (length xs) r) (\<lambda>ys. ret (f x # ys))) (concat (map enc xs)) (f x # map f xs)"
    using Cons by (intro reads_bnd_ret) auto
  with Cons.prems show ?case by (auto intro: reads_bnd)
qed

text \<open>
  Writing and then reading: after a writer that appends \<open>xs\<close> to a buffer with nothing left
  to read, a reader that consumes \<open>xs\<close> gets its value and leaves nothing behind.
\<close>

lemma write_read:
  assumes "appends be w xs" and "reads be r xs x"
  shows "\<exists>b'. bnd w (\<lambda>_. r) (new_bb be) = Inr (x, b') \<and> bb_unread b' = [] \<and> bb_wf b'"
proof -
  obtain b1 where "w (new_bb be) = Inr ((), b1)" "bb_wf b1" "m_isBigEndian b1 = be" "bb_unread b1 = xs @ []"
    using assms(1) by (rule appendsE [where b = "new_bb be"]) auto
  with assms(2) show ?thesis by (auto elim!: readsE [where b = b1 and rest = "[]"] simp: bnd_Inr)
qed

section \<open>Fixed-width numbers\<close>

lemma appends_writeByte [appends_intros]: "appends be (writeByte c) [c]"
  by (simp add: writeByte_def appends_writeBytes)

lemma reads_readByte [reads_intros]: "reads be readByte [c] c"
  unfolding readByte_def
  by (rule reads_cong [OF reads_bnd [where ys = "[]" and x = "[c]" and xs = "[c]"]])
    (auto intro!: reads_readBytes reads_ret simp: max_vector_size_def)

lemma appends_writeBool [appends_intros]: "appends be (writeBool v) [byte_of_bool v]"
  by (simp add: writeBool_def appends_writeByte)

lemma reads_readBool [reads_intros]: "reads be readBool [byte_of_bool v] v"
  unfolding readBool_def by (rule reads_bnd_ret [OF reads_readByte]) simp

lemma length_le_bytes [simp]: "length (le_bytes (w :: 'a::len word)) = LENGTH('a) div 8"
  by (simp add: le_bytes_def)

lemma bit_of_le_bytes:
  "length bs * 8 \<le> LENGTH('a::len) \<Longrightarrow>
     bit (of_le_bytes bs :: 'a word) k \<longleftrightarrow> k < length bs * 8 \<and> bit (bs ! (k div 8)) (k mod 8)"
proof (induction bs arbitrary: k)
  case Nil
  then show ?case by simp
next
  case (Cons b bs)
  then have IH: "bit (of_le_bytes bs :: 'a word) j \<longleftrightarrow> j < length bs * 8 \<and> bit (bs ! (j div 8)) (j mod 8)" for j
    by simp
  show ?case
  proof (cases "k < 8")
    case True
    with Cons.prems show ?thesis by (auto simp: bit_or_iff bit_push_bit_iff bit_ucast_iff)
  next
    case False
    then have "\<not> bit b k" using bit_imp_le_length [of b k] by auto
    moreover have "k div 8 = Suc ((k - 8) div 8)" "(k - 8) mod 8 = k mod 8"
      using False by (simp_all add: le_div_geq le_mod_geq)
    ultimately show ?thesis using False Cons.prems IH [of "k - 8"]
      by (auto simp: bit_or_iff bit_push_bit_iff bit_ucast_iff)
  qed
qed

lemma of_le_bytes_le_bytes:
  assumes "8 dvd LENGTH('a::len)"
  shows "of_le_bytes (le_bytes w) = (w :: 'a word)"
proof (rule bit_word_eqI)
  fix n assume n: "n < LENGTH('a)"
  have len: "LENGTH('a) div 8 * 8 = LENGTH('a)" using assms by simp
  with n have "n div 8 < LENGTH('a) div 8" by (metis less_mult_imp_div_less)
  then show "bit (of_le_bytes (le_bytes w) :: 'a word) n = bit w n"
    using n len by (simp add: bit_of_le_bytes le_bytes_def bit_ucast_iff bit_drop_bit_eq)
qed

lemma le_bytes_of_le_bytes:
  assumes "length bs * 8 = LENGTH('a::len)"
  shows "le_bytes (of_le_bytes bs :: 'a word) = bs"
proof (rule nth_equalityI)
  have "LENGTH('a) div 8 = length bs" using assms by simp
  then show "length (le_bytes (of_le_bytes bs :: 'a word)) = length bs" by simp
  fix i assume "i < length (le_bytes (of_le_bytes bs :: 'a word))"
  then have i: "i < length bs" using assms by simp
  show "le_bytes (of_le_bytes bs :: 'a word) ! i = bs ! i"
  proof (rule bit_word_eqI)
    fix n assume "n < LENGTH(8)"
    then have n: "n < 8" by simp
    then have "(8 * i + n) div 8 = i" "(8 * i + n) mod 8 = n" by auto
    then show "bit (le_bytes (of_le_bytes bs :: 'a word) ! i) n = bit (bs ! i) n"
      using n i assms by (simp add: le_bytes_def bit_ucast_iff bit_drop_bit_eq bit_of_le_bytes)
  qed
qed

text \<open>The bytes of a number in a buffer of the given byte order.\<close>

definition numeric_bytes :: "bool \<Rightarrow> 'a::len word \<Rightarrow> byte list" where
  "numeric_bytes be w = (if be then rev (le_bytes w) else le_bytes w)"

lemma length_numeric_bytes [simp]: "length (numeric_bytes be (w :: 'a::len word)) = LENGTH('a) div 8"
  by (simp add: numeric_bytes_def)

lemma appends_writeNumeric [appends_intros]: "appends be (writeNumeric w) (numeric_bytes be w)"
  unfolding writeNumeric_def numeric_bytes_def by (intro appends_gets appends_writeBytes)

lemma reads_readNumeric:
  assumes "8 dvd LENGTH('a::len)" and "LENGTH('a) \<le> 64"
  shows "reads be readNumeric (numeric_bytes be w) (w :: 'a word)"
proof -
  let ?x = "numeric_bytes be w"
  have "reads be (readBytes (LENGTH('a) div 8)) ?x ?x"
    using assms by (intro reads_readBytes) (simp_all add: max_vector_size_def)
  moreover have "reads be (bnd (gets m_isBigEndian)
      (\<lambda>be. ret (of_le_bytes (if be then rev ?x else ?x)))) [] w"
  proof (rule reads_gets)
    have "of_le_bytes (if be then rev ?x else ?x) = w"
      using assms(1) by (simp add: numeric_bytes_def of_le_bytes_le_bytes)
    then show "reads be (ret (of_le_bytes (if be then rev ?x else ?x))) [] w" by (simp add: reads_ret)
  qed
  ultimately show ?thesis unfolding readNumeric_def by (auto dest: reads_bnd)
qed

lemmas reads_readNumeric_16 [reads_intros] = reads_readNumeric [where 'a = 16, simplified]
lemmas reads_readNumeric_32 [reads_intros] = reads_readNumeric [where 'a = 32, simplified]
lemmas reads_readNumeric_64 [reads_intros] = reads_readNumeric [where 'a = 64, simplified]

section \<open>Variable-length numbers\<close>

text \<open>The result of the write loop, as a recursion over the value.\<close>

lemma var_groups_nonempty [simp]: "var_groups uv \<noteq> []"
  by (subst var_groups.simps) simp

lemma length_var_groups: "length (var_groups uv) = getVarNumericLength uv"
  by (induction uv rule: var_groups.induct)
    (subst var_groups.simps, subst getVarNumericLength.simps, simp)

lemma var_bytes_simps:
  "var_bytes uv =
     (if drop_bit 7 uv \<noteq> 0 then (ucast (uv AND 0x7F) OR 0x80) # var_bytes (drop_bit 7 uv)
      else [ucast (uv AND 0x7F) AND 0x7F])"
proof (cases "drop_bit 7 uv = 0")
  case True
  have "(ucast (uv AND 0x7F) OR 0x80) AND 0x7F = (ucast (uv AND 0x7F) AND 0x7F :: byte)"
    by (simp add: bit.conj_disj_distrib2)
  with True show ?thesis by (simp add: var_bytes_def Let_def var_groups.simps [of uv])
next
  case False
  then show ?thesis by (simp add: var_bytes_def Let_def var_groups.simps [of uv])
qed

lemma length_var_bytes [simp]: "length (var_bytes uv) = getVarNumericLength uv"
  by (simp add: var_bytes_def Let_def length_var_groups [symmetric] Suc_le_eq)

lemma unat_drop_bit_7: "unat (drop_bit 7 uv) = unat uv div 128"
  by (simp only: unat_drop_bit_eq drop_bit_nat_def) simp

lemma drop_bit_7_eq_0: "drop_bit 7 (uv :: 'a::len word) = 0 \<longleftrightarrow> unat uv < 128"
  using unat_drop_bit_7 [of uv] by (auto simp: word_unat_eq_iff div_eq_0_iff)

lemma getVarNumericLength_le_iff:
  "0 < n \<Longrightarrow> getVarNumericLength uv \<le> n \<longleftrightarrow> unat uv < 128 ^ n"
proof (induction uv arbitrary: n rule: getVarNumericLength.induct)
  case (1 uv)
  show ?case
  proof (cases "drop_bit 7 uv = 0")
    case True
    then have "unat uv < 128" by (simp add: drop_bit_7_eq_0)
    also have "(128::nat) \<le> 128 ^ n" using 1(2) by (simp add: self_le_power)
    finally show ?thesis using True 1(2) by (simp add: getVarNumericLength.simps [of uv])
  next
    case False
    then have eq: "getVarNumericLength uv = Suc (getVarNumericLength (drop_bit 7 uv))"
      by (simp add: getVarNumericLength.simps [of uv])
    have big: "\<not> unat uv < 128" using False by (simp add: drop_bit_7_eq_0)
    show ?thesis
    proof (cases "n = 1")
      case True
      have "0 < getVarNumericLength (drop_bit 7 uv)"
        by (simp add: getVarNumericLength.simps)
      with True eq big show ?thesis by simp
    next
      case n: False
      then obtain m where m: "n = Suc m" "0 < m" using 1(2) by (cases n) auto
      have "unat uv div 128 < 128 ^ m \<longleftrightarrow> unat uv < 128 ^ Suc m"
        by (simp add: div_less_iff_less_mult mult.commute)
      with 1(1) [OF False m(2)] eq m show ?thesis by (simp add: unat_drop_bit_7)
    qed
  qed
qed

lemma getVarNumericLength_max: "getVarNumericLength (uv :: 'a::len word) \<le> varNumericMaxSize TYPE('a)"
proof -
  have "LENGTH('a) \<le> 7 * varNumericMaxSize TYPE('a)"
    by (simp add: varNumericMaxSize_def)
  then have "(2::nat) ^ LENGTH('a) \<le> 2 ^ (7 * varNumericMaxSize TYPE('a))"
    by (rule power_increasing) simp
  also have "\<dots> = 128 ^ varNumericMaxSize TYPE('a)" by (simp add: power_mult)
  finally have "unat uv < 128 ^ varNumericMaxSize TYPE('a)"
    by (rule less_le_trans [OF unsigned_less])
  then show ?thesis by (subst getVarNumericLength_le_iff) (simp_all add: varNumericMaxSize_def)
qed

text \<open>One round of the read loop.\<close>

lemma word_7F: "(0x7F :: 'a::len word) = mask 7"
  by (simp add: mask_eq_exp_minus_1)

lemma ucast_7F: "ucast (ucast (uv AND 0x7F) :: byte) = (uv AND 0x7F :: 'a::len word)"
  unfolding word_7F by (rule bit_word_eqI) (auto simp: bit_simps)

lemma group_last: "(ucast (uv AND 0x7F) :: byte) AND 0x7F = ucast (uv AND 0x7F)"
  unfolding word_7F by (rule bit_word_eqI) (auto simp: bit_simps)

lemma group_more: "(ucast (uv AND 0x7F) OR 0x80 :: byte) AND 0x7F = ucast (uv AND 0x7F)"
  by (simp add: bit.conj_disj_distrib2 group_last)

lemma group_last_flag: "(ucast (uv AND 0x7F) :: byte) AND 0x80 = 0"
proof -
  have "(ucast (uv AND 0x7F) :: byte) AND 0x80 = (ucast (uv AND 0x7F) AND 0x7F) AND 0x80"
    by (simp only: group_last)
  also have "\<dots> = ucast (uv AND 0x7F) AND (0x7F AND 0x80)" by (simp only: and.assoc)
  finally show ?thesis by simp
qed

lemma group_more_flag: "(ucast (uv AND 0x7F) OR 0x80 :: byte) AND 0x80 \<noteq> 0"
  by (simp add: bit.conj_disj_distrib2 group_last_flag)

lemma split_low_group:
  "push_bit shift (uv AND 0x7F) OR push_bit (shift + 7) (drop_bit 7 uv) = push_bit shift (uv :: 'a::len word)"
  unfolding word_7F
proof (rule bit_word_eqI)
  fix n assume "n < LENGTH('a)"
  moreover have "n - shift < 7 \<or> 7 + (n - (shift + 7)) = n - shift" by arith
  ultimately show "bit (push_bit shift (uv AND mask 7) OR push_bit (shift + 7) (drop_bit 7 uv)) n
      = bit (push_bit shift uv) n"
    by (auto simp: bit_simps)
qed

lemma reads_one: "reads be (k [c]) ys y \<Longrightarrow> reads be (bnd (readBytes 1) k) (c # ys) y"
  using reads_bnd [OF reads_readBytes [of 1 "[c]"], of be k ys y] by (simp add: max_vector_size_def)

lemma reads_readVar_loop:
  "unat uv < 2 ^ (LENGTH('a) - shift) \<Longrightarrow> shift < LENGTH('a) \<Longrightarrow> LENGTH('a) \<le> n * 7 + shift \<Longrightarrow>
     reads be (readVar_loop sg n result shift) (var_bytes uv)
       (sign_extend sg (result OR push_bit shift uv))"
  for uv :: "'a::len word"
proof (induction sg n result shift arbitrary: uv rule: readVar_loop.induct)
  case (1 sg result shift)
  then show ?case by simp
next
  case (2 sg n result shift)
  show ?case
  proof (cases "drop_bit 7 uv = 0")
    case True
    then have "uv AND 0x7F = uv"
      using split_low_group [of 0 uv] by simp
    with ucast_7F [of uv] have uv7: "ucast (ucast (uv AND 0x7F) :: byte) = uv" by (rule trans)
    have "var_bytes uv = [ucast (uv AND 0x7F)]"
      using True by (simp only: var_bytes_simps [of uv] group_last) simp
    moreover have "reads be (readVar_loop sg (Suc n) result shift) [ucast (uv AND 0x7F)]
        (sign_extend sg (result OR push_bit shift uv))"
      unfolding readVar_loop.simps
      by (rule reads_one)
        (simp only: list.case Let_def group_last group_last_flag uv7 if_True refl reads_ret)
    ultimately show ?thesis by simp
  next
    case False
    let ?c = "ucast (uv AND 0x7F) OR 0x80 :: byte"
    have big: "128 \<le> unat uv" using False by (simp add: drop_bit_7_eq_0)
    with 2(2) have "(2::nat) ^ 7 < 2 ^ (LENGTH('a) - shift)" by simp
    then have s: "7 < LENGTH('a) - shift" by (simp only: power_strict_increasing_iff)
    then have s7: "\<not> LENGTH('a) \<le> shift + 7" by simp
    have "LENGTH('a) - shift = 7 + (LENGTH('a) - (shift + 7))" using s by simp
    then have "(2::nat) ^ (LENGTH('a) - shift) = 128 * 2 ^ (LENGTH('a) - (shift + 7))"
      by (simp only: power_add) simp
    with 2(2) have b: "unat (drop_bit 7 uv) < 2 ^ (LENGTH('a) - (shift + 7))"
      by (simp add: unat_drop_bit_7 div_less_iff_less_mult mult.commute)
    let ?r = "result OR push_bit shift (ucast (?c AND 0x7F))"
    have "?r OR push_bit (shift + 7) (drop_bit 7 uv) = result OR push_bit shift uv"
      by (simp only: group_more ucast_7F or.assoc split_low_group)
    moreover have "shift + 7 < LENGTH('a)" "LENGTH('a) \<le> n * 7 + (shift + 7)" using s 2(4) by simp_all
    note 2(1) [OF refl group_more_flag [of uv] s7 b this]
    ultimately have "reads be (readVar_loop sg n ?r (shift + 7)) (var_bytes (drop_bit 7 uv))
        (sign_extend sg (result OR push_bit shift uv))" by (simp only:)
    moreover have "var_bytes uv = ?c # var_bytes (drop_bit 7 uv)"
      using False by (simp only: var_bytes_simps [of uv]) simp
    moreover have "reads be (readVar_loop sg (Suc n) result shift) (?c # ys) y"
      if "reads be (readVar_loop sg n ?r (shift + 7)) ys y" for ys y
      unfolding readVar_loop.simps
      by (rule reads_one) (simp only: list.case Let_def group_more_flag s7 if_False that)
    ultimately show ?thesis by (simp only:)
  qed
qed

text \<open>
  The sign extension in \<open>readVarNumeric\<close> sets a bit that is already set: it never changes
  the value.
\<close>

lemma sign_extend_id [simp]: "sign_extend sg w = (w :: 'a::len word)"
proof (rule bit_word_eqI)
  fix n assume "n < LENGTH('a)"
  then have "LENGTH('a) - 1 \<le> n \<Longrightarrow> n = LENGTH('a) - 1" by arith
  then show "bit (sign_extend sg w) n = bit w n"
    by (auto simp: sign_extend_def bit_simps)
qed
 
lemma appends_writeVarNumeric [appends_intros]: "appends be (writeVarNumeric v) (var_bytes v)"
  by (simp add: writeVarNumeric_def appends_writeBytes)

lemma reads_readVarNumeric [reads_intros]:
  "reads be (readVarNumeric sg) (var_bytes v) (v :: 'a::len word)"
proof -
  have "reads be (readVar_loop sg (varNumericMaxSize TYPE('a)) 0 0) (var_bytes v)
      (sign_extend sg (0 OR push_bit 0 v))"
    by (rule reads_readVar_loop) (auto simp: varNumericMaxSize_def)
  then show ?thesis by (simp add: readVarNumeric_def)
qed

text \<open>Zig-zag coding is a bijection on words of any width.\<close>

lemma sign_bits:
  "n < LENGTH('a) \<Longrightarrow> bit (signed_drop_bit (LENGTH('a) - 1) v) n = bit (v :: 'a::len word) (LENGTH('a) - 1)"
  by (cases n) (auto simp: bit_signed_drop_bit_iff)

lemma bit_zigzag:
  "n < LENGTH('a) \<Longrightarrow>
     bit (zigzag v) n \<longleftrightarrow> (0 < n \<and> bit v (n - 1)) \<noteq> bit (v :: 'a::len word) (LENGTH('a) - 1)"
  by (simp only: zigzag_def bit_xor_iff sign_bits bit_push_bit_iff) (cases n; simp)

lemma bit_unzigzag:
  "n < LENGTH('a) \<Longrightarrow> bit (unzigzag uv) n \<longleftrightarrow> bit uv (Suc n) \<noteq> bit (uv :: 'a::len word) 0"
proof -
  assume n: "n < LENGTH('a)"
  have "uv AND 1 = (if bit uv 0 then 1 else 0)"
    by (rule bit_word_eqI) (auto simp: bit_and_iff bit_1_iff intro!: gr0I)
  then have "bit (- (uv AND 1)) n = bit uv 0" using n by simp
  then show ?thesis using n
    by (simp only: unzigzag_def bit_xor_iff bit_drop_bit_eq) simp
qed

lemma unzigzag_zigzag [simp]: "unzigzag (zigzag v) = (v :: 'a::len word)"
proof (rule bit_word_eqI)
  fix n assume n: "n < LENGTH('a)"
  have "bit (zigzag v) 0 = bit v (LENGTH('a) - 1)" by (subst bit_zigzag) simp_all
  moreover have "bit (zigzag v) (Suc n) \<longleftrightarrow> Suc n < LENGTH('a) \<and> bit v n \<noteq> bit v (LENGTH('a) - 1)"
    using bit_imp_le_length [of "zigzag v" "Suc n"] bit_zigzag [of "Suc n" v] by auto
  moreover have "\<not> Suc n < LENGTH('a) \<Longrightarrow> n = LENGTH('a) - 1" using n by arith
  ultimately show "bit (unzigzag (zigzag v)) n = bit v n"
    using n by (auto simp: bit_unzigzag)
qed

lemma appends_writeZigZag [appends_intros]:
  "appends be (writeZigZagVarNumeric v) (var_bytes (zigzag v))"
  by (simp add: writeZigZagVarNumeric_def appends_writeVarNumeric)

lemma reads_readZigZag [reads_intros]:
  "reads be readZigZagVarNumeric (var_bytes (zigzag v)) (v :: 'a::len word)"
  unfolding readZigZagVarNumeric_def by (rule reads_bnd_ret [OF reads_readVarNumeric]) simp

section \<open>Strings and byte arrays\<close>

text \<open>A length prefix: the \<open>VarInt\<close> of a \<open>size_t\<close> cast to \<open>int\<close>.\<close>

definition size_bytes :: "nat \<Rightarrow> byte list" where
  "size_bytes n = var_bytes (int_of_size n)"

lemma appends_size [appends_intros]: "appends be (writeVarInt (int_of_size n)) (size_bytes n)"
  unfolding size_bytes_def by (rule appends_writeVarNumeric)

lemma reads_size [reads_intros]:
  assumes "n < 2 ^ 31" and "reads be (k n) xs x"
  shows "reads be (bnd readVarInt (\<lambda>v. k (size_of_int v))) (size_bytes n @ xs) x"
  unfolding size_bytes_def by (rule reads_bnd [OF reads_readVarNumeric]) (use assms in simp)

definition string_bytes :: "string \<Rightarrow> byte list" where
  "string_bytes s = size_bytes (length s) @ bytes_of_string s"

definition prefixed_bytes :: "byte list \<Rightarrow> byte list" where
  "prefixed_bytes xs = size_bytes (length xs) @ xs"

lemma appends_writeString [appends_intros]: "appends be (writeString s) (string_bytes s)"
  unfolding writeString_def string_bytes_def by (intro appends_intros)

lemma reads_readString [reads_intros]:
  assumes "length s < 2 ^ 31"
  shows "reads be readString (string_bytes s) s"
proof -
  have "reads be (bnd (readBytes (length s)) (\<lambda>bytes. ret (string_of_bytes bytes))) (bytes_of_string s) s"
    using assms by (intro reads_bnd_ret [OF reads_readBytes]) (simp_all add: max_vector_size_def)
  with assms show ?thesis unfolding readString_def string_bytes_def by (rule reads_size)
qed

lemma appends_writePrefixedByteArray [appends_intros]:
  "appends be (writePrefixedByteArray xs) (prefixed_bytes xs)"
  unfolding writePrefixedByteArray_def prefixed_bytes_def by (intro appends_intros)

lemma reads_readPrefixedByteArray [reads_intros]:
  assumes "length xs < 2 ^ 31"
  shows "reads be readPrefixedByteArray (prefixed_bytes xs) xs"
proof -
  have "reads be (readBytes (length xs)) xs xs"
    using assms by (intro reads_readBytes) (simp_all add: max_vector_size_def)
  with assms show ?thesis unfolding readPrefixedByteArray_def prefixed_bytes_def by (rule reads_size)
qed

section \<open>The contract of an element codec\<close>

text \<open>
  The templates are given a writer and a reader of the element type. What they rely on: for the
  values the format can carry (\<open>ok\<close>), the writer appends \<open>enc x\<close> and the reader turns these
  bytes back into \<open>x\<close>. The optional and array templates then have the same contract.
\<close>

locale codec =
  fixes w :: "'a \<Rightarrow> unit bb" and r :: "'a bb" and be :: bool
    and enc :: "'a \<Rightarrow> byte list" and ok :: "'a \<Rightarrow> bool"
  assumes writes: "ok x \<Longrightarrow> appends be (w x) (enc x)"
    and reads_back: "ok x \<Longrightarrow> reads be r (enc x) x"
begin

lemma round_trip:
  "ok x \<Longrightarrow> \<exists>b. bnd (w x) (\<lambda>_. r) (new_bb be) = Inr (x, b) \<and> bb_unread b = []"
  using write_read [OF writes reads_back] by blast

lemma appends_writeOptional:
  "pred_option ok v \<Longrightarrow> appends be (writeOptional w v) (case v of None \<Rightarrow> [] | Some x \<Rightarrow> enc x)"
  by (auto simp: writeOptional_def intro: appends_ret writes split: option.split)

lemma appends_writePrefixedOptional:
  "pred_option ok v \<Longrightarrow>
     appends be (writePrefixedOptional w v)
       (byte_of_bool (v \<noteq> None) # (case v of None \<Rightarrow> [] | Some x \<Rightarrow> enc x))"
  unfolding writePrefixedOptional_def
  by (rule appends_cong [OF appends_thn [OF appends_writeBool appends_writeOptional]]) simp_all

lemma reads_readOptional:
  "pred_option ok v \<Longrightarrow>
     reads be (readOptional r (v \<noteq> None)) (case v of None \<Rightarrow> [] | Some x \<Rightarrow> enc x) v"
  by (cases v) (auto simp: readOptional_def intro: reads_ret reads_bnd_ret reads_back)

lemma reads_readPrefixedOptional:
  "pred_option ok v \<Longrightarrow>
     reads be (readPrefixedOptional r)
       (byte_of_bool (v \<noteq> None) # (case v of None \<Rightarrow> [] | Some x \<Rightarrow> enc x)) v"
  unfolding readPrefixedOptional_def
  using reads_bnd [OF reads_readBool [of be "v \<noteq> None"], of "readOptional r", OF reads_readOptional]
  by simp

lemma appends_writeArray:
  "list_all ok xs \<Longrightarrow> appends be (writeArray w xs) (concat (map enc xs))"
  unfolding writeArray_def by (rule appends_each) (auto simp: list_all_iff intro: writes)

lemma reads_readArray:
  "list_all ok xs \<Longrightarrow> reads be (readArray r (length xs)) (concat (map enc xs)) xs"
  using reads_collect [of xs be r enc "\<lambda>x. x"]
  by (auto simp: readArray_def list_all_iff intro: reads_back)

lemma appends_writePrefixedArray:
  "list_all ok xs \<Longrightarrow>
     appends be (writePrefixedArray w xs) (size_bytes (length xs) @ concat (map enc xs))"
  unfolding writePrefixedArray_def by (intro appends_thn appends_size appends_writeArray)

lemma reads_readPrefixedArray:
  "list_all ok xs \<Longrightarrow> length xs < 2 ^ 31 \<Longrightarrow>
     reads be (readPrefixedArray r) (size_bytes (length xs) @ concat (map enc xs)) xs"
  unfolding readPrefixedArray_def by (intro reads_size reads_readArray)

end

text \<open>Contract from contract: the array and optional templates as codecs themselves.\<close>

definition array_bytes :: "('a \<Rightarrow> byte list) \<Rightarrow> 'a list \<Rightarrow> byte list" where
  "array_bytes enc xs = size_bytes (length xs) @ concat (map enc xs)"

definition array_ok :: "('a \<Rightarrow> bool) \<Rightarrow> 'a list \<Rightarrow> bool" where
  "array_ok ok xs \<longleftrightarrow> length xs < 2 ^ 31 \<and> list_all ok xs"

definition optional_bytes :: "('a \<Rightarrow> byte list) \<Rightarrow> 'a option \<Rightarrow> byte list" where
  "optional_bytes enc v = byte_of_bool (v \<noteq> None) # (case v of None \<Rightarrow> [] | Some x \<Rightarrow> enc x)"

lemma codec_array:
  "codec w r be enc ok \<Longrightarrow>
     codec (writePrefixedArray w) (readPrefixedArray r) be (array_bytes enc) (array_ok ok)"
  by (auto simp: codec_def array_bytes_def array_ok_def list_all_iff
      intro!: codec.appends_writePrefixedArray codec.reads_readPrefixedArray)

lemma codec_optional:
  "codec w r be enc ok \<Longrightarrow>
     codec (writePrefixedOptional w) (readPrefixedOptional r) be (optional_bytes enc) (pred_option ok)"
  unfolding optional_bytes_def
  by (rule codec.intro) (fact codec.appends_writePrefixedOptional codec.reads_readPrefixedOptional)+

text \<open>The codecs of the buffer itself, in either byte order.\<close>

interpretation byte_codec: codec writeByte readByte be "\<lambda>c. [c]" "\<lambda>_. True" for be
  by unfold_locales (intro appends_intros reads_intros)+

interpretation bool_codec: codec writeBool readBool be "\<lambda>v. [byte_of_bool v]" "\<lambda>_. True" for be
  by unfold_locales (intro appends_intros reads_intros)+

interpretation short_codec: codec writeNumeric readNumeric be "numeric_bytes be" "\<lambda>_ :: i16. True" for be
  by unfold_locales (intro appends_intros reads_intros)+

interpretation int_codec: codec writeNumeric readNumeric be "numeric_bytes be" "\<lambda>_ :: i32. True" for be
  by unfold_locales (intro appends_intros reads_intros)+

interpretation long_codec: codec writeNumeric readNumeric be "numeric_bytes be" "\<lambda>_ :: i64. True" for be
  by unfold_locales (intro appends_intros reads_intros)+

interpretation varint_codec: codec writeVarInt readVarInt be var_bytes "\<lambda>_. True" for be
  by unfold_locales (intro appends_intros reads_intros)+

interpretation zigzag_codec: codec writeZigZagVarNumeric readZigZagVarNumeric be
  "\<lambda>v :: i32. var_bytes (zigzag v)" "\<lambda>_. True" for be
  by unfold_locales (intro appends_intros reads_intros)+

interpretation string_codec: codec writeString readString be string_bytes "\<lambda>s. length s < 2 ^ 31" for be
  by unfold_locales (auto intro: appends_intros reads_intros)

interpretation bytes_codec: codec writePrefixedByteArray readPrefixedByteArray be prefixed_bytes
  "\<lambda>xs. length xs < 2 ^ 31" for be
  by unfold_locales (auto intro: appends_intros reads_intros)

interpretation varints_codec: codec "writePrefixedArray writeVarInt" "readPrefixedArray readVarInt" be
  "array_bytes var_bytes" "array_ok (\<lambda>_. True)" for be
  by (rule codec_array) (rule varint_codec.codec_axioms)

section \<open>Readers on arbitrary input\<close>

text \<open>
  A reader may be run on any bytes. \<open>terminates k r\<close> says that on a buffer in a good state,
  without block recycling, with at most \<open>k\<close> bytes left to read, the reader never runs out of
  its recursion depth, and if it returns, at most \<open>k\<close> bytes are left.
\<close>

definition input_ok :: "ByteBuffer \<Rightarrow> bool" where
  "input_ok b \<longleftrightarrow> ibuf_inv (m_internalBuffer b) \<and> \<not> areBlocksRecycled (m_internalBuffer b)"

definition remaining :: "ByteBuffer \<Rightarrow> nat" where
  "remaining b = wpos (m_internalBuffer b) - rpos (m_internalBuffer b)"

definition terminates :: "nat \<Rightarrow> 'a bb \<Rightarrow> bool" where
  "terminates k r \<longleftrightarrow> (\<forall>b. input_ok b \<and> remaining b \<le> k \<longrightarrow>
     (case r b of Inl e \<Rightarrow> e \<noteq> StackExhausted | Inr (x, b') \<Rightarrow> input_ok b' \<and> remaining b' \<le> k))"

lemma terminates_readBytes:
  assumes "input_ok b"
  shows "(max_vector_size < n \<and> readBytes n b = Inl LengthError) \<or> (\<exists>b'. readBytes n b =
      Inr (take n (drop (rpos (m_internalBuffer b)) (flat (m_internalBuffer b))), b')
    \<and> input_ok b' \<and> remaining b' = remaining b - n)"
proof (cases "max_vector_size < n")
  case True
  then show ?thesis by (simp add: readBytes_def ibuf_read_def)
next
  case False
  let ?i = "m_internalBuffer b"
  have inv: "ibuf_inv ?i" "\<not> areBlocksRecycled ?i" using assms by (auto simp: input_ok_def)
  obtain i' where i': "read_loop n [] ?i = Inr (take n (drop (rpos ?i) (flat ?i)), i')" "ibuf_inv i'"
    "wpos i' = wpos ?i" "\<not> areBlocksRecycled i'" "rpos i' = min (rpos ?i + n) (max (rpos ?i) (length (flat ?i)))"
    using read_loop_flat [OF inv, of n "[]"] by auto
  have "wpos ?i \<le> length (flat ?i)"
    using inv(1) by (auto simp: ibuf_inv_def flat_def wpos_def length_concat_blocks)
  then have "wpos i' - rpos i' = wpos ?i - rpos ?i - n" using i'(3,5) by (simp add: min_def max_def)
  with i' False show ?thesis
    by (auto simp: readBytes_def ibuf_read_def input_ok_def remaining_def)
qed

lemma terminates_readBytes' [terminates_intros]: "terminates k (readBytes n)"
  unfolding terminates_def
proof (intro allI impI, elim conjE)
  fix b assume "input_ok b" "remaining b \<le> k"
  with terminates_readBytes [OF this(1), of n]
  show "case readBytes n b of Inl e \<Rightarrow> e \<noteq> StackExhausted | Inr (x, b') \<Rightarrow> input_ok b' \<and> remaining b' \<le> k"
    by auto
qed

lemma terminates_ret [terminates_intros]: "terminates k (ret x)"
  by (simp add: terminates_def ret_def)

lemma terminates_fail [terminates_intros]: "e \<noteq> StackExhausted \<Longrightarrow> terminates k (fail e)"
  by (simp add: terminates_def fail_def)

lemma terminates_gets [terminates_intros]: "terminates k (gets f)"
  by (simp add: terminates_def gets_def)

lemma terminates_bnd [terminates_intros]:
  "terminates k r \<Longrightarrow> (\<And>x. terminates k (f x)) \<Longrightarrow> terminates k (bnd r f)"
  unfolding terminates_def
proof (intro allI impI, elim conjE)
  fix b assume r: "\<forall>b. input_ok b \<and> remaining b \<le> k \<longrightarrow>
      (case r b of Inl e \<Rightarrow> e \<noteq> StackExhausted | Inr (x, b') \<Rightarrow> input_ok b' \<and> remaining b' \<le> k)"
    and f: "\<And>x. \<forall>b. input_ok b \<and> remaining b \<le> k \<longrightarrow>
      (case f x b of Inl e \<Rightarrow> e \<noteq> StackExhausted | Inr (x, b') \<Rightarrow> input_ok b' \<and> remaining b' \<le> k)"
    and b: "input_ok b" "remaining b \<le> k"
  show "case bnd r f b of Inl e \<Rightarrow> e \<noteq> StackExhausted | Inr (x, b') \<Rightarrow> input_ok b' \<and> remaining b' \<le> k"
  proof (cases "r b")
    case (Inl e)
    with r b show ?thesis by (auto simp: bnd_Inl)
  next
    case (Inr y)
    obtain x b' where y: "y = (x, b')" by (cases y)
    with r b Inr have "input_ok b'" "remaining b' \<le> k" by auto
    with f [of x] Inr y show ?thesis by (simp add: bnd_Inr)
  qed
qed

lemma terminates_collect [terminates_intros]: "terminates k r \<Longrightarrow> terminates k (collect n r)"
  by (induction n) (auto intro!: terminates_ret terminates_bnd)

lemma terminates_if [terminates_intros]:
  "terminates k r \<Longrightarrow> terminates k s \<Longrightarrow> terminates k (if c then r else s)"
  by simp

lemma terminates_readByte [terminates_intros]: "terminates k readByte"
  unfolding readByte_def by (intro terminates_bnd terminates_readBytes') (auto intro: terminates_intros split: list.split)

lemma terminates_readNumeric [terminates_intros]: "terminates k readNumeric"
  unfolding readNumeric_def by (intro terminates_intros)

lemma terminates_readVar_loop [terminates_intros]: "terminates k (readVar_loop sg n result shift)"
  by (induction sg n result shift rule: readVar_loop.induct)
    (auto simp: Let_def intro!: terminates_intros split: list.split)

lemma terminates_readVarNumeric [terminates_intros]: "terminates k (readVarNumeric sg)"
  unfolding readVarNumeric_def by (rule terminates_readVar_loop)

lemma terminates_readZigZag [terminates_intros]: "terminates k readZigZagVarNumeric"
  unfolding readZigZagVarNumeric_def by (intro terminates_intros)

lemma terminates_readString [terminates_intros]: "terminates k readString"
  unfolding readString_def by (intro terminates_intros)

text \<open>A byte read uses one byte up, or, when none is left, is a zero.\<close>

lemma readByte_cases:
  assumes "input_ok b"
  shows "(\<exists>e. readByte b = Inl e \<and> e \<noteq> StackExhausted)
    \<or> (\<exists>c b'. readByte b = Inr (c, b') \<and> input_ok b' \<and> remaining b' = remaining b - 1 \<and> (remaining b = 0 \<longrightarrow> c = 0))"
proof -
  let ?i = "m_internalBuffer b"
  let ?xs = "take 1 (drop (rpos ?i) (flat ?i))"
  from terminates_readBytes [OF assms, of 1] obtain b' where
    b': "readBytes 1 b = Inr (?xs, b')" "input_ok b'" "remaining b' = remaining b - 1"
    by (auto simp: readBytes_def ibuf_read_def max_vector_size_def)
  show ?thesis
  proof (cases ?xs)
    case Nil
    then show ?thesis using b' by (simp add: readByte_def bnd_def fail_def)
  next
    case (Cons c cs)
    have "c = 0" if "remaining b = 0"
    proof -
      have "wpos ?i \<le> rpos ?i" using that by (simp add: remaining_def)
      then have "c \<in> set (drop (wpos ?i) (flat ?i))"
        using Cons by (metis in_set_takeD list.set_intros(1) set_drop_subset_set_drop subsetD)
      then show ?thesis using assms by (auto simp: input_ok_def ibuf_inv_def)
    qed
    with b' Cons show ?thesis by (simp add: readByte_def bnd_def ret_def)
  qed
qed

lemma terminates_bnd_readByte:
  assumes "\<And>c. 0 < k \<Longrightarrow> terminates (k - 1) (f c)" and "k = 0 \<Longrightarrow> terminates 0 (f 0)"
  shows "terminates k (bnd readByte f)"
  unfolding terminates_def
proof (intro allI impI, elim conjE)
  fix b assume b: "input_ok b" "remaining b \<le> k"
  from readByte_cases [OF b(1)]
  show "case bnd readByte f b of Inl e \<Rightarrow> e \<noteq> StackExhausted | Inr (x, b') \<Rightarrow> input_ok b' \<and> remaining b' \<le> k"
  proof (elim disjE exE conjE)
    fix c b' assume c: "readByte b = Inr (c, b')" "input_ok b'" "remaining b' = remaining b - 1" "remaining b = 0 \<longrightarrow> c = 0"
    show ?thesis
    proof (cases "k = 0")
      case True
      with b c assms(2) show ?thesis by (auto simp: terminates_def bnd_Inr)
    next
      case False
      have t: "terminates (k - 1) (f c)" using False assms(1) by simp
      have "remaining b' \<le> k - 1" using b(2) c(3) by simp
      with t c(2) have "case f c b' of Inl e \<Rightarrow> e \<noteq> StackExhausted | Inr (x, b') \<Rightarrow> input_ok b' \<and> remaining b' \<le> k - 1"
        unfolding terminates_def by blast
      with c(1) show ?thesis by (auto simp: bnd_Inr split: sum.splits)
    qed
  qed (simp add: bnd_Inl)
qed

lemma terminates_bnd_more:
  assumes "terminates k (f False)" and "0 < k \<Longrightarrow> terminates k (f True)"
  shows "terminates k (bnd (gets (\<lambda>b. getReaderPointer b < bb_size b)) f)"
proof -
  have "getReaderPointer b < bb_size b \<Longrightarrow> 0 < remaining b" for b
    by (simp add: getReaderPointer_def bb_size_def getReader_def getWriter_def remaining_def wpos_def rpos_def Let_def)
  then have more: "getReaderPointer b < bb_size b \<Longrightarrow> remaining b \<le> k \<Longrightarrow> 0 < k" for b
    by (metis less_le_trans)
  show ?thesis unfolding terminates_def
  proof (intro allI impI, elim conjE)
    fix b assume b: "input_ok b" "remaining b \<le> k"
    let ?more = "getReaderPointer b < bb_size b"
    have "terminates k (f ?more)" using more [OF _ b(2)] assms by (cases ?more) auto
    with b show "case bnd (gets (\<lambda>b. getReaderPointer b < bb_size b)) f b of Inl e \<Rightarrow> e \<noteq> StackExhausted
        | Inr (x, b') \<Rightarrow> input_ok b' \<and> remaining b' \<le> k"
      by (simp add: bnd_def gets_def terminates_def)
  qed
qed

section \<open>Properties\<close>

lemma bb_size_eq: "bb_wf b \<Longrightarrow> bb_size b = length (getBytes b)"
  by (simp add: getBytes_written bb_wf_def ibuf_wf_def bb_size_def getWriter_def
      wpos_def Let_def)

lemma getReaderPointer_new [simp]: "getReaderPointer (new_bb e) = 0"
  by (simp add: new_bb_def getReaderPointer_def getReader_def new_ibuf_def)

text \<open>Writing any sequence of byte chunks to a fresh \<open>ByteBuffer\<close> succeeds; \<open>getBytes\<close> then
  returns their concatenation and \<open>size\<close> its length, whatever the block boundaries.\<close>

theorem chunks_are_concatenated:
  "\<exists>b. each writeBytes chunks (new_bb be) = Inr ((), b) \<and> getBytes b = concat chunks
     \<and> bb_size b = length (concat chunks) \<and> getReaderPointer b = 0"
proof -
  have "appends be (each writeBytes chunks) (concat (map (\<lambda>x. x) chunks))"
    by (intro appends_intros)
  then show ?thesis
    by (rule appendsE [where b = "new_bb be"])
      (auto simp: bb_size_eq)
qed

text \<open>Numbers of 8 to 64 bits survive a write and a read in either byte order, and what is
  written is the object representation, most significant byte first when big-endian.\<close>

theorem numeric_round_trip:
  fixes v :: "'a::len word"
  assumes "8 dvd LENGTH('a)" and "LENGTH('a) \<le> 64"
  shows "\<exists>b. bnd (writeNumeric v) (\<lambda>_. bnd (gets getBytes) (\<lambda>bytes. bnd readNumeric (\<lambda>u. ret (bytes, u))))
      (new_bb be) = Inr ((if be then rev (le_bytes v) else le_bytes v, v), b) \<and> bb_unread b = []"
proof -
  obtain b1 where b1: "writeNumeric v (new_bb be) = Inr ((), b1)" "bb_wf b1" "m_isBigEndian b1 = be"
    "getBytes b1 = numeric_bytes be v" "bb_unread b1 = numeric_bytes be v @ []"
    using appends_writeNumeric by (rule appendsE [where b = "new_bb be"]) auto
  from reads_readNumeric [OF assms] b1(2,3,5) obtain b2 where
    "readNumeric b1 = Inr (v, b2)" "bb_unread b2 = []" by (rule readsE)
  with b1 show ?thesis by (auto simp: bnd_def gets_def ret_def numeric_bytes_def)
qed

theorem numeric_round_trip_witness:
  "\<exists>b. bnd (writeNumeric (0x01020304 :: i32)) (\<lambda>_. bnd (gets getBytes) (\<lambda>bytes.
      bnd readNumeric (\<lambda>u. ret (bytes, u)))) (new_bb True) = Inr (([1, 2, 3, 4], 0x01020304 :: i32), b)
    \<and> bb_unread b = []"
proof -
  have "rev (le_bytes (0x01020304 :: i32)) = [1, 2, 3, 4]"
    by (simp add: le_bytes_def upt_rec drop_bit_eq_div)
  with numeric_round_trip [of "0x01020304 :: i32" True] show ?thesis by simp
qed

text \<open>C6: A \<open>VarInt\<close> or \<open>VarLong\<close> (any width, signed or unsigned) survives a write and a read, and
  its length in bytes is the number \<open>getVarNumericLength\<close> predicts.\<close>

theorem var_numeric_round_trip:
  fixes v :: "'a::len word"
  shows "\<exists>b1 b2. writeVarNumeric v (new_bb be) = Inr ((), b1) \<and> bb_size b1 = getVarNumericLength v
    \<and> readVarNumeric is_signed b1 = Inr (v, b2) \<and> bb_unread b2 = []"
proof -
  obtain b1 where b1: "writeVarNumeric v (new_bb be) = Inr ((), b1)" "bb_wf b1"
    "m_isBigEndian b1 = be" "getBytes b1 = var_bytes v" "bb_unread b1 = var_bytes v @ []"
    using appends_writeVarNumeric by (rule appendsE [where b = "new_bb be"]) auto
  from reads_readVarNumeric [of be is_signed v] b1(2,3,5) obtain b2 where
    "readVarNumeric is_signed b1 = Inr (v, b2)" "bb_unread b2 = []" by (rule readsE)
  with b1 show ?thesis by (auto simp: bb_size_eq)
qed

text \<open>C37: The write loop of \<open>writeVarNumeric\<close> never leaves its array \<open>temp\<close>, and it uses \<open>n\<close> bytes
  or fewer exactly when the value fits in \<open>n\<close> groups of seven bits.\<close>

theorem var_numeric_temp_bound:
  fixes v :: "'a::len word"
  shows "length (var_groups v) = getVarNumericLength v
    \<and> length (var_groups v) \<le> varNumericMaxSize TYPE('a)
    \<and> (getVarNumericLength v \<le> Suc n) = (unat v < 128 ^ Suc n)"
  by (intro conjI; simp only: length_var_groups getVarNumericLength_max getVarNumericLength_le_iff zero_less_Suc)

lemma reads_overlong:
  "\<forall>c \<in> set cs. c AND 0x80 \<noteq> 0 \<Longrightarrow> cs \<noteq> [] \<Longrightarrow> length cs \<le> n \<Longrightarrow>
     shift + 7 * (length cs - 1) < LENGTH('a) \<Longrightarrow> LENGTH('a) \<le> shift + 7 * length cs \<Longrightarrow>
     reads be (readVar_loop sg n result shift) cs (0 :: 'a::len word)"
proof (induction cs arbitrary: n result shift)
  case Nil
  then show ?case by simp
next
  case (Cons c cs)
  obtain m where n: "n = Suc m" using Cons.prems(3) by (cases n) auto
  have c: "(c AND 0x80 = 0) = False" using Cons.prems(1) by simp
  let ?r = "result OR push_bit shift (ucast (c AND 0x7F))"
  show ?case
  proof (cases "cs = []")
    case True
    then have "(LENGTH('a) \<le> shift + 7) = True" using Cons.prems by simp
    with True c show ?thesis unfolding n readVar_loop.simps
      by (intro reads_one) (simp only: list.case Let_def if_False if_True reads_ret)
  next
    case False
    then have s: "(LENGTH('a) \<le> shift + 7) = False" using Cons.prems(4) by (cases cs) auto
    have "reads be (readVar_loop sg m ?r (shift + 7)) cs 0"
      by (rule Cons.IH) (use Cons.prems False n in \<open>cases cs; simp\<close>)+
    with c s show ?thesis unfolding n readVar_loop.simps
      by (intro reads_one) (simp only: list.case Let_def if_False)
  qed
qed

text \<open>A \<open>VarInt\<close> whose first five bytes all announce another one is rejected: the reader consumes
  exactly these five bytes and returns 0, whatever follows.\<close>

theorem overlong_varint_is_zero:
  assumes "length cs = 5" and "\<forall>c \<in> set cs. c AND 0x80 \<noteq> 0"
  shows "\<exists>b1 b2. writeBytes (cs @ rest) (new_bb be) = Inr ((), b1)
    \<and> readVarInt b1 = Inr (0, b2) \<and> bb_unread b2 = rest"
proof -
  have "reads be readVarInt cs 0"
    unfolding readVarNumeric_def varNumericMaxSize_def
    by (rule reads_overlong) (use assms in auto)
  moreover obtain b1 where "writeBytes (cs @ rest) (new_bb be) = Inr ((), b1)" "bb_wf b1"
    "m_isBigEndian b1 = be" "bb_unread b1 = cs @ rest"
    using appends_writeBytes by (rule appendsE [where b = "new_bb be"]) auto
  ultimately show ?thesis by (auto elim!: readsE [where b = b1])
qed

theorem overlong_varint_is_zero_witness:
  "\<exists>b1 b2. writeBytes ([0xFF, 0xFF, 0xFF, 0xFF, 0xFF] @ [1]) (new_bb True) = Inr ((), b1)
    \<and> readVarInt b1 = Inr (0, b2) \<and> bb_unread b2 = [1]"
  by (rule overlong_varint_is_zero) simp_all

lemma uint_zigzag:
  "uint (zigzag v) = (if 0 \<le> sint v then 2 * sint v else - 2 * sint v - 1)"
  for v :: "'a::len word"
proof -
  have sb: "bit v (LENGTH('a) - 1) \<longleftrightarrow> sint v < 0" by (simp add: bit_last_iff)
  have sd: "signed_drop_bit (LENGTH('a) - 1) v = (if sint v < 0 then - 1 else 0)"
    by (rule bit_word_eqI) (auto simp: sign_bits [simplified] sb [simplified])
  have two: "(2::int) ^ LENGTH('a) = 2 * 2 ^ (LENGTH('a) - 1)"
    by (metis len_gt_0 power_minus_mult mult.commute)
  have r: "- (2 ^ (LENGTH('a) - 1)) \<le> sint v" "sint v < 2 ^ (LENGTH('a) - 1)"
    using sint_ge [of v] sint_less [of v] by simp_all
  have pb: "push_bit 1 v = word_of_int (2 * sint v)" by simp
  show ?thesis
  proof (cases "sint v < 0")
    case True
    have "zigzag v = word_of_int (- 2 * sint v - 1)"
      using True by (simp only: zigzag_def sd pb if_True) (simp add: not_eq_complement)
    then have "uint (zigzag v) = take_bit LENGTH('a) (- 2 * sint v - 1)" by (simp only: unsigned_of_int) simp
    then show ?thesis using True r two by (simp add: take_bit_int_eq_self)
  next
    case False
    have "zigzag v = word_of_int (2 * sint v)"
      using False by (simp only: zigzag_def sd pb if_False) simp
    then have "uint (zigzag v) = take_bit LENGTH('a) (2 * sint v)" by (simp only: unsigned_of_int) simp
    then show ?thesis using False r two by (simp add: take_bit_int_eq_self)
  qed
qed

text \<open>Zig-zag coding: the value survives a write and a read, and a number \<open>n \<ge> 0\<close> is sent as
  \<open>2 n\<close>, a negative one as \<open>- 2 n - 1\<close>.\<close>

theorem zigzag_round_trip:
  fixes v :: "'a::len word"
  shows "uint (zigzag v) = (if 0 \<le> sint v then 2 * sint v else - 2 * sint v - 1)
    \<and> (\<exists>b1 b2. writeZigZagVarNumeric v (new_bb be) = Inr ((), b1)
        \<and> bb_size b1 = getZigZagVarNumericLength v
        \<and> readZigZagVarNumeric b1 = Inr (v, b2) \<and> bb_unread b2 = [])"
proof -
  obtain b1 where b1: "writeZigZagVarNumeric v (new_bb be) = Inr ((), b1)" "bb_wf b1"
    "m_isBigEndian b1 = be" "getBytes b1 = var_bytes (zigzag v)"
    "bb_unread b1 = var_bytes (zigzag v) @ []"
    using appends_writeZigZag by (rule appendsE [where b = "new_bb be"]) auto
  from reads_readZigZag [of be v] b1(2,3,5) obtain b2 where
    "readZigZagVarNumeric b1 = Inr (v, b2)" "bb_unread b2 = []" by (rule readsE)
  with b1 show ?thesis by (auto simp: bb_size_eq uint_zigzag getZigZagVarNumericLength_def)
qed

text \<open>The element templates preserve the contract of the element functions: when these write
  \<open>enc x\<close> for \<open>x\<close> and read it back, an array of fewer than \<open>2 ^ 31\<close> elements, each of
  them possibly absent, survives \<open>writePrefixedArray\<close> and \<open>readPrefixedArray\<close> over
  \<open>writePrefixedOptional\<close> and \<open>readPrefixedOptional\<close>.\<close>

theorem array_of_optionals_round_trip:
  assumes "\<And>x. ok x \<Longrightarrow> appends be (w x) (enc x)" and "\<And>x. ok x \<Longrightarrow> reads be r (enc x) x"
    and "length xs < 2 ^ 31" and "\<forall>x. Some x \<in> set xs \<longrightarrow> ok x"
  shows "\<exists>b. bnd (writePrefixedArray (writePrefixedOptional w) xs)
      (\<lambda>_. readPrefixedArray (readPrefixedOptional r)) (new_bb be) = Inr (xs, b) \<and> bb_unread b = []"
proof -
  have "codec w r be enc ok" using assms(1,2) by unfold_locales
  moreover have "array_ok (pred_option ok) xs"
    using assms(3,4) by (auto simp: array_ok_def list_all_iff option.pred_set split: option.splits)
  ultimately show ?thesis
    by (intro codec.round_trip [OF codec_array [OF codec_optional]])
qed

theorem array_of_optionals_round_trip_witness:
  "\<exists>b. bnd (writePrefixedArray (writePrefixedOptional writeVarInt) [Some 300, None])
      (\<lambda>_. readPrefixedArray (readPrefixedOptional readVarInt)) (new_bb False) = Inr ([Some 300, None], b)
    \<and> bb_unread b = []"
  by (rule array_of_optionals_round_trip [where ok = "\<lambda>_. True" and enc = var_bytes])
    (auto intro: appends_intros reads_intros)

end
