(* ===== verification/Bit_Set.thy ===== *)
theory Bit_Set
  imports Byte_Buffer
begin

text \<open>
  \<open>BitSet\<close> of \<open>inc/type/BitSet.h\<close> and \<open>src/type/BitSet.cpp\<close>, and its four wire forms in
  \<open>src/type/ByteBuffer.cpp\<close>. Positions are \<open>unsigned long\<close>, so \<open>pos + 64\<close> wraps around in
  \<open>set\<close> and \<open>flip\<close>; \<open>m_highestSet\<close> is cached, with \<open>NPOS\<close> for the empty set.

  The abstract state is the set of the positions whose bit is set (\<open>bits\<close>), and the invariant
  says that the cache names its maximum.
\<close>

section \<open>State and the compiler's bit counting\<close>

record BitSet =
  m_data :: "i64 list"
  m_highestSet :: i64

definition NPOS :: i64 where
  "NPOS = - 1"

definition new_BitSet :: BitSet where
  "new_BitSet = \<lparr>m_data = [], m_highestSet = NPOS\<rparr>"

definition sized_BitSet :: "i64 \<Rightarrow> BitSet" where
  "sized_BitSet n = \<lparr>m_data = replicate (unat ((n + 63) div 64)) 0, m_highestSet = NPOS\<rparr>"

definition builtin_clzll :: "i64 \<Rightarrow> nat" where
  "builtin_clzll w = length (takeWhile (\<lambda>i. \<not> bit w (63 - i)) [0..<64])"

definition builtin_ctzll :: "i64 \<Rightarrow> nat" where
  "builtin_ctzll w = length (takeWhile (\<lambda>i. \<not> bit w i) [0..<64])"

definition builtin_popcountll :: "i64 \<Rightarrow> nat" where
  "builtin_popcountll w = length (filter (bit w) [0..<64])"

definition resize_data :: "nat \<Rightarrow> i64 list \<Rightarrow> i64 list" where
  "resize_data n xs = take n xs @ replicate (n - length xs) 0"

section \<open>Operations\<close>

fun findHighest_loop :: "i64 list \<Rightarrow> nat \<Rightarrow> i64" where
  "findHighest_loop data 0 = NPOS"
| "findHighest_loop data (Suc i) =
     (if data ! i \<noteq> 0 then word_of_nat (i * 64) + word_of_nat (63 - builtin_clzll (data ! i))
      else findHighest_loop data i)"

definition findHighestSet :: "i64 list \<Rightarrow> i64" where
  "findHighestSet data = findHighest_loop data (length data)"

definition bs_raise :: "i64 \<Rightarrow> i64 \<Rightarrow> i64" where
  "bs_raise pos highest = (if highest = NPOS \<or> highest < pos then pos else highest)"

definition bs_room :: "i64 \<Rightarrow> i64 list \<Rightarrow> i64 list" where
  "bs_room pos data =
     (if unat ((pos + 64) div 64) > length data then resize_data (unat ((pos + 64) div 64)) data
      else data)"

definition bs_set :: "i64 \<Rightarrow> BitSet \<Rightarrow> zinc_error + BitSet" where
  "bs_set pos b =
     (let data = bs_room pos (m_data b); i = unat (pos div 64); m = push_bit (unat (pos mod 64)) 1
      in if length data \<le> i then Inl OutOfBounds
         else if data ! i AND m = 0
         then Inr (b\<lparr>m_data := data[i := data ! i OR m], m_highestSet := bs_raise pos (m_highestSet b)\<rparr>)
         else Inr (b\<lparr>m_data := data\<rparr>))"

definition bs_clear :: "i64 \<Rightarrow> BitSet \<Rightarrow> BitSet" where
  "bs_clear pos b =
     (let i = unat (pos div 64); m = push_bit (unat (pos mod 64)) 1
      in if length (m_data b) \<le> i then b
         else if m_data b ! i AND m \<noteq> 0
         then (let data = (m_data b)[i := m_data b ! i AND NOT m]
               in b\<lparr>m_data := data,
                    m_highestSet := if pos = m_highestSet b then findHighestSet data else m_highestSet b\<rparr>)
         else b)"

definition bs_flip :: "i64 \<Rightarrow> BitSet \<Rightarrow> zinc_error + BitSet" where
  "bs_flip pos b =
     (let data = bs_room pos (m_data b); i = unat (pos div 64); m = push_bit (unat (pos mod 64)) 1
      in if length data \<le> i then Inl OutOfBounds
         else let data' = data[i := data ! i XOR m]
              in if data' ! i AND m \<noteq> 0
                 then Inr (b\<lparr>m_data := data', m_highestSet := bs_raise pos (m_highestSet b)\<rparr>)
                 else Inr (b\<lparr>m_data := data',
                             m_highestSet := if pos = m_highestSet b then findHighestSet data'
                               else m_highestSet b\<rparr>))"

definition bs_get :: "i64 \<Rightarrow> BitSet \<Rightarrow> bool" where
  "bs_get pos b \<longleftrightarrow> \<not> length (m_data b) \<le> unat (pos div 64)
     \<and> m_data b ! unat (pos div 64) AND push_bit (unat (pos mod 64)) 1 \<noteq> 0"

definition bs_size :: "BitSet \<Rightarrow> i64" where
  "bs_size b = (if m_highestSet b = NPOS then 0 else m_highestSet b + 1)"

definition bs_count :: "BitSet \<Rightarrow> i64" where
  "bs_count b = fold (\<lambda>block total. total + word_of_nat (builtin_popcountll block)) (m_data b) 0"

definition bs_any :: "BitSet \<Rightarrow> bool" where
  "bs_any b \<longleftrightarrow> m_highestSet b \<noteq> NPOS"

definition bs_none :: "BitSet \<Rightarrow> bool" where
  "bs_none b \<longleftrightarrow> m_highestSet b = NPOS"

text \<open>
  The four binary operators: a loop over the common blocks, then what happens to the blocks of
  the longer set, then the highest bit is searched again.
\<close>

definition with_data :: "i64 list \<Rightarrow> BitSet \<Rightarrow> BitSet" where
  "with_data data b = b\<lparr>m_data := data, m_highestSet := findHighestSet data\<rparr>"

definition bs_andNot :: "BitSet \<Rightarrow> BitSet \<Rightarrow> BitSet" where
  "bs_andNot b other =
     (let n = min (length (m_data b)) (length (m_data other))
      in with_data (map2 (\<lambda>x y. x AND NOT y) (take n (m_data b)) (take n (m_data other))
           @ drop n (m_data b)) b)"

definition bs_and :: "BitSet \<Rightarrow> BitSet \<Rightarrow> BitSet" where
  "bs_and b other =
     (let n = min (length (m_data b)) (length (m_data other))
      in with_data (map2 (AND) (take n (m_data b)) (take n (m_data other))
           @ replicate (length (m_data b) - n) 0) b)"

definition bs_grow :: "BitSet \<Rightarrow> BitSet \<Rightarrow> i64 list" where
  "bs_grow b other =
     (let n = max (length (m_data b)) (length (m_data other))
      in if n > length (m_data b) then resize_data n (m_data b) else m_data b)"

definition bs_or :: "BitSet \<Rightarrow> BitSet \<Rightarrow> BitSet" where
  "bs_or b other =
     (let data = bs_grow b other; n = length (m_data other)
      in with_data (map2 (OR) (take n data) (m_data other) @ drop n data) b)"

definition bs_xor :: "BitSet \<Rightarrow> BitSet \<Rightarrow> BitSet" where
  "bs_xor b other =
     (let data = bs_grow b other; n = length (m_data other)
      in with_data (map2 (XOR) (take n data) (m_data other) @ drop n data) b)"

definition bs_block :: "BitSet \<Rightarrow> nat \<Rightarrow> i64" where
  "bs_block b i = (if i < length (m_data b) then m_data b ! i else 0)"

definition bs_eq :: "BitSet \<Rightarrow> BitSet \<Rightarrow> bool" where
  "bs_eq a b \<longleftrightarrow>
     list_all (\<lambda>i. bs_block a i = bs_block b i) [0..<max (length (m_data a)) (length (m_data b))]"

fun nextSet_loop :: "i64 list \<Rightarrow> nat \<Rightarrow> nat \<Rightarrow> i64" where
  "nextSet_loop [] block_idx bit_offset = NPOS"
| "nextSet_loop (block # rest) block_idx bit_offset =
     (if block \<noteq> 0 \<and> drop_bit bit_offset block \<noteq> 0
      then word_of_nat (block_idx * 64) + word_of_nat bit_offset
        + word_of_nat (builtin_ctzll (drop_bit bit_offset block))
      else nextSet_loop rest (Suc block_idx) 0)"

definition bs_nextSetBit :: "i64 \<Rightarrow> BitSet \<Rightarrow> i64" where
  "bs_nextSetBit fromIndex b =
     (if m_highestSet b < fromIndex then NPOS
      else nextSet_loop (drop (unat (fromIndex div 64)) (m_data b))
             (unat (fromIndex div 64)) (unat (fromIndex mod 64)))"

fun nextClear_loop :: "i64 list \<Rightarrow> nat \<Rightarrow> nat \<Rightarrow> nat \<Rightarrow> i64" where
  "nextClear_loop [] blocks block_idx bit_offset = word_of_nat (blocks * 64)"
| "nextClear_loop (block # rest) blocks block_idx bit_offset =
     (let free = NOT block AND NOT (push_bit bit_offset 1 - 1)
      in if free \<noteq> 0 then word_of_nat (block_idx * 64) + word_of_nat (builtin_ctzll free)
         else nextClear_loop rest blocks (Suc block_idx) 0)"

definition bs_nextClearBit :: "i64 \<Rightarrow> BitSet \<Rightarrow> i64" where
  "bs_nextClearBit fromIndex b =
     nextClear_loop (drop (unat (fromIndex div 64)) (m_data b)) (length (m_data b))
       (unat (fromIndex div 64)) (unat (fromIndex mod 64))"

section \<open>Array forms\<close>

definition toLongArray :: "BitSet \<Rightarrow> i64 list" where
  "toLongArray b =
     (if m_highestSet b = NPOS then [] else take (unat (m_highestSet b div 64) + 1) (m_data b))"

definition byte_of_bits :: "BitSet \<Rightarrow> i64 \<Rightarrow> byte" where
  "byte_of_bits b i =
     fold (\<lambda>j byte. if bs_get (i * 8 + word_of_nat j) b then byte OR push_bit j 1 else byte) [0..<8] 0"

definition toByteArray :: "BitSet \<Rightarrow> byte list" where
  "toByteArray b =
     (if m_highestSet b = NPOS then []
      else map (\<lambda>i. byte_of_bits b (word_of_nat i)) [0..<unat ((m_highestSet b + 7) div 8)])"

definition fromLongArray :: "i64 list \<Rightarrow> BitSet" where
  "fromLongArray longs = \<lparr>m_data = longs, m_highestSet = findHighestSet longs\<rparr>"

definition block_of_bytes :: "byte list \<Rightarrow> nat \<Rightarrow> i64" where
  "block_of_bytes bytes i =
     fold (\<lambda>j block. if length bytes \<le> i * 8 + j then block
       else block OR push_bit (j * 8) (ucast (bytes ! (i * 8 + j)))) [0..<8] 0"

definition fromByteArray :: "byte list \<Rightarrow> BitSet" where
  "fromByteArray bytes =
     (let data = map (block_of_bytes bytes) [0..<(length bytes + 7) div 8]
      in \<lparr>m_data = data, m_highestSet = findHighestSet data\<rparr>)"

text \<open>The wire forms.\<close>

definition writeBitSet :: "BitSet \<Rightarrow> unit bb" where
  "writeBitSet b = writePrefixedArray writeNumeric (toLongArray b)"

definition readBitSet :: "BitSet bb" where
  "readBitSet = bnd (readPrefixedArray readNumeric) (\<lambda>longs. ret (fromLongArray longs))"

definition writeFixedBitSet :: "BitSet \<Rightarrow> unit bb" where
  "writeFixedBitSet b = writeArray writeUnsignedByte (toByteArray b)"

definition readFixedBitSet :: "nat \<Rightarrow> BitSet bb" where
  "readFixedBitSet len = bnd (readArray readUnsignedByte len) (\<lambda>bytes. ret (fromByteArray bytes))"

text \<open>Enumerations are their numbers; \<open>(unsigned long)\<close> of a number is the number.\<close>

fun set_all :: "i64 list \<Rightarrow> BitSet \<Rightarrow> zinc_error + BitSet" where
  "set_all [] b = Inr b"
| "set_all (v # vs) b = (case bs_set v b of Inl e \<Rightarrow> Inl e | Inr b' \<Rightarrow> set_all vs b')"

definition writeEnumSet :: "i64 list \<Rightarrow> unit bb" where
  "writeEnumSet enumSet = bnd (lift_result (set_all enumSet new_BitSet)) writeFixedBitSet"

definition readEnumSet :: "nat \<Rightarrow> i64 list bb" where
  "readEnumSet len = bnd (readFixedBitSet len) (\<lambda>bitSet.
     ret (filter (\<lambda>i. bs_get i bitSet) (map word_of_nat [0..<len * 8])))"

section \<open>Bit counting\<close>

lemma length_takeWhile_upt:
  assumes "m = length (takeWhile P [0..<n])"
  shows "m \<le> n" and "\<And>i. i < m \<Longrightarrow> P i" and "m < n \<Longrightarrow> \<not> P m"
proof -
  show le: "m \<le> n" using assms length_takeWhile_le [of P "[0..<n]"] by simp
  show "m < n \<Longrightarrow> \<not> P m"
    using assms nth_length_takeWhile [of P "[0..<n]"] by simp
  fix i assume "i < m"
  moreover have "takeWhile P [0..<n] ! i \<in> set (takeWhile P [0..<n])"
    using \<open>i < m\<close> assms by (intro nth_mem) simp
  ultimately show "P i" using le assms by (auto simp: takeWhile_nth dest: set_takeWhileD)
qed

lemma word_nonzero_bit: "w \<noteq> 0 \<Longrightarrow> \<exists>n < LENGTH('a). bit w n" for w :: "'a::len word"
  by (metis bit_word_eqI bit_0_eq bot_apply bot_bool_def)

lemma clz_highest:
  assumes "w \<noteq> 0"
  shows "bit w (63 - builtin_clzll w)" and "\<And>k. bit w k \<Longrightarrow> k \<le> 63 - builtin_clzll w"
proof -
  let ?m = "builtin_clzll w"
  note tw = length_takeWhile_upt [OF builtin_clzll_def [of w]]
  obtain n where n: "n < 64" "bit w n" using word_nonzero_bit [OF assms] by auto
  have lt: "?m < 64"
  proof (rule ccontr)
    assume "\<not> ?m < 64"
    then have "\<not> bit w (63 - (63 - n))" by (intro tw(2)) simp
    with n show False by simp
  qed
  with tw(3) show "bit w (63 - ?m)" by simp
  fix k assume k: "bit w k"
  then have "k < 64" using bit_imp_le_length [of w k] by simp
  with tw(2) [of "63 - k"] k show "k \<le> 63 - ?m" by (cases "63 - k < ?m") auto
qed

lemma ctz_lowest:
  assumes "w \<noteq> 0"
  shows "builtin_ctzll w < 64" and "bit w (builtin_ctzll w)" and "\<And>k. k < builtin_ctzll w \<Longrightarrow> \<not> bit w k"
proof -
  note tw = length_takeWhile_upt [OF builtin_ctzll_def [of w]]
  obtain n where "n < 64" "bit w n" using word_nonzero_bit [OF assms] by auto
  then have "\<not> n < builtin_ctzll w" using tw(2) by blast
  with \<open>n < 64\<close> show "builtin_ctzll w < 64" by simp
  with tw(2,3) show "bit w (builtin_ctzll w)" "\<And>k. k < builtin_ctzll w \<Longrightarrow> \<not> bit w k" by auto
qed

lemma popcount_card: "builtin_popcountll w = card {k. bit w k}"
proof -
  have "{k. bit w k} = set (filter (bit w) [0..<64])"
    using bit_imp_le_length [of w] by auto
  then show ?thesis
    by (simp only: builtin_popcountll_def distinct_card [symmetric] distinct_filter distinct_upt)
qed

lemma and_mask_nonzero:
  fixes w :: "'a::len word"
  assumes "n < LENGTH('a)"
  shows "(w AND push_bit n 1 = 0) = (\<not> bit w n)" and "(w AND 2 ^ n = 0) = (\<not> bit w n)"
proof -
  have "bit w n \<Longrightarrow> bit (w AND push_bit n 1) n" using assms by (simp add: bit_simps)
  moreover have "\<not> bit w n \<Longrightarrow> w AND push_bit n 1 = 0"
    by (rule bit_word_eqI) (auto simp: bit_simps)
  ultimately show "(w AND push_bit n 1 = 0) = (\<not> bit w n)" by (metis bit_0_eq bot_apply bot_bool_def)
  then show "(w AND 2 ^ n = 0) = (\<not> bit w n)" by simp
qed

section \<open>The set a bit set stands for\<close>

definition bits_of :: "i64 list \<Rightarrow> nat set" where
  "bits_of data = {n. n div 64 < length data \<and> bit (data ! (n div 64)) (n mod 64)}"

definition bits :: "BitSet \<Rightarrow> nat set" where
  "bits b = bits_of (m_data b)"

definition highest_of :: "nat set \<Rightarrow> i64" where
  "highest_of S = (if S = {} then NPOS else word_of_nat (Max S))"

definition bs_inv :: "BitSet \<Rightarrow> bool" where
  "bs_inv b \<longleftrightarrow> length (m_data b) \<le> 2 ^ 57 \<and> m_highestSet b = highest_of (bits b)"

lemma bits_of_less: "n \<in> bits_of data \<Longrightarrow> n < 64 * length data"
  by (simp add: bits_of_def less_mult_imp_div_less div_less_iff_less_mult mult.commute)

lemma finite_bits_of [simp]: "finite (bits_of data)"
  by (rule finite_subset [of _ "{..<64 * length data}"]) (auto dest: bits_of_less)

lemma bits_of_Nil [simp]: "bits_of [] = {}"
  by (simp add: bits_of_def)

lemma bits_of_snoc: "bits_of (data @ [w]) = bits_of data \<union> (\<lambda>k. length data * 64 + k) ` {k. bit w k}"
proof (intro set_eqI)
  fix n
  have lt: "bit w k \<Longrightarrow> k div 64 = 0" "bit w k \<Longrightarrow> k mod 64 = k" for k
    using bit_imp_le_length [of w k] by simp_all
  have "n div 64 = length data \<Longrightarrow> n = length data * 64 + n mod 64"
    using div_mult_mod_eq [of n 64] by simp
  then show "n \<in> bits_of (data @ [w]) \<longleftrightarrow> n \<in> bits_of data \<union> (\<lambda>k. length data * 64 + k) ` {k. bit w k}"
    by (auto simp: bits_of_def nth_append less_Suc_eq image_iff lt)
qed

lemma bits_of_update:
  "i < length data \<Longrightarrow>
     bits_of (data[i := w]) = {n. if n div 64 = i then bit w (n mod 64) else n \<in> bits_of data}"
  by (auto simp: bits_of_def nth_list_update)

lemma bits_of_append_zeros [simp]: "bits_of (data @ replicate k 0) = bits_of data"
  by (auto simp: bits_of_def nth_append split: if_splits)
    (metis add_diff_inverse_nat bit_0_eq bot_apply bot_bool_def nat_add_left_cancel_less nth_replicate)

lemma findHighest_loop_eq:
  "i \<le> length data \<Longrightarrow> findHighest_loop data i = highest_of (bits_of (take i data))"
proof (induction i)
  case 0
  then show ?case by (simp add: highest_of_def)
next
  case (Suc i)
  then have i: "i < length data" by simp
  have S: "bits_of (take (Suc i) data)
      = bits_of (take i data) \<union> (\<lambda>k. i * 64 + k) ` {k. bit (data ! i) k}" (is "_ = ?A \<union> ?B")
    using i bits_of_snoc [of "take i data" "data ! i"] by (simp add: take_Suc_conv_app_nth)
  show ?case
  proof (cases "data ! i = 0")
    case True
    with S Suc show ?thesis by simp
  next
    case False
    let ?h = "63 - builtin_clzll (data ! i)"
    have "Max (?A \<union> ?B) = i * 64 + ?h"
    proof (rule Max_eqI)
      show "finite (?A \<union> ?B)" using finite_bits_of [of "take (Suc i) data"] S by simp
      show "i * 64 + ?h \<in> ?A \<union> ?B" using clz_highest(1) [OF False] by auto
      show "y \<le> i * 64 + ?h" if "y \<in> ?A \<union> ?B" for y
        using that clz_highest(2) [OF False] i bits_of_less [of y "take i data"] by auto
    qed
    moreover have "?A \<union> ?B \<noteq> {}" using clz_highest(1) [OF False] by auto
    ultimately have "highest_of (?A \<union> ?B) = word_of_nat (i * 64 + ?h)"
      by (simp only: highest_of_def if_False)
    with False show ?thesis by (simp add: S)
  qed
qed

lemma findHighestSet_eq: "findHighestSet data = highest_of (bits_of data)"
  by (simp add: findHighestSet_def findHighest_loop_eq)

lemma bits_less:
  assumes "bs_inv b" and "n \<in> bits b"
  shows "n < 2 ^ 63"
proof -
  have "n < 64 * length (m_data b)" using assms(2) by (simp add: bits_def bits_of_less)
  also have "\<dots> \<le> 64 * 2 ^ 57" using assms(1) by (intro mult_le_mono) (simp_all add: bs_inv_def)
  finally show ?thesis by simp
qed

lemma unat_highest:
  assumes "bs_inv b" and "bits b \<noteq> {}"
  shows "unat (m_highestSet b) = Max (bits b)" and "m_highestSet b \<noteq> NPOS" and "Max (bits b) < 2 ^ 63"
proof -
  have "Max (bits b) \<in> bits b" using assms(2) by (intro Max_in) (simp_all add: bits_def)
  then show lt: "Max (bits b) < 2 ^ 63" using bits_less [OF assms(1)] by blast
  then show u: "unat (m_highestSet b) = Max (bits b)"
    using assms by (simp add: bs_inv_def highest_of_def unat_of_nat take_bit_nat_eq_self)
  have "unat NPOS = 2 ^ 64 - 1" by (simp add: NPOS_def unsigned_minus_1_eq_mask mask_eq_exp_minus_1)
  with u lt show "m_highestSet b \<noteq> NPOS" by auto
qed

lemma highest_NPOS: "bs_inv b \<Longrightarrow> m_highestSet b = NPOS \<longleftrightarrow> bits b = {}"
  using unat_highest(2) [of b] by (auto simp: bs_inv_def highest_of_def)

section \<open>The operations as set operations\<close>

lemma highest_of_insert_raise:
  assumes "bs_inv b" and "unat pos < 2 ^ 63"
  shows "bs_raise pos (highest_of (bits b)) = highest_of (insert (unat pos) (bits b))"
proof (cases "bits b = {}")
  case True
  then show ?thesis by (simp add: bs_raise_def highest_of_def)
next
  case False
  note u = unat_highest [OF assms(1) False]
  have h: "highest_of (bits b) = m_highestSet b" "word_of_nat (Max (bits b)) = m_highestSet b"
    using assms(1) False by (simp_all add: bs_inv_def highest_of_def)
  have "Max (insert (unat pos) (bits b)) = max (unat pos) (Max (bits b))"
    using False by (simp add: bits_def)
  with u h show ?thesis
    by (cases "Max (bits b) < unat pos") (simp_all add: bs_raise_def highest_of_def word_less_nat_alt max_def False)
qed

lemma bs_room_facts:
  assumes "unat pos < 2 ^ 63"
  shows "length (bs_room pos data) = max (length data) (Suc (unat pos div 64))"
    and "bits_of (bs_room pos data) = bits_of data"
    and "unat pos div 64 < length (bs_room pos data)"
proof -
  have "unat (pos + 64) = unat pos + 64" using assms by (simp add: unat_add_lem [THEN iffD1])
  then have "unat ((pos + 64) div 64) = Suc (unat pos div 64)"
    by (simp add: unat_div)
  then show "length (bs_room pos data) = max (length data) (Suc (unat pos div 64))"
    "bits_of (bs_room pos data) = bits_of data" "unat pos div 64 < length (bs_room pos data)"
    by (auto simp: bs_room_def resize_data_def)
qed

lemma bits_of_point_update:
  assumes "unat pos div 64 < length data" and "\<And>k. k \<noteq> unat pos mod 64 \<Longrightarrow> k < 64 \<Longrightarrow> bit w k = bit (data ! (unat pos div 64)) k"
  shows "bits_of (data[unat pos div 64 := w])
    = (if bit w (unat pos mod 64) then insert (unat pos) (bits_of data) else bits_of data - {unat pos})"
proof -
  have eq: "n div 64 = unat pos div 64 \<Longrightarrow> n mod 64 = unat pos mod 64 \<Longrightarrow> n = unat pos" for n
    by (metis div_mult_mod_eq)
  have "n \<in> bits_of (data[unat pos div 64 := w])
      \<longleftrightarrow> (if n = unat pos then bit w (unat pos mod 64) else n \<in> bits_of data)" for n
  proof (cases "n div 64 = unat pos div 64 \<and> n \<noteq> unat pos")
    case True
    with eq have "n mod 64 \<noteq> unat pos mod 64" by blast
    with True assms show ?thesis by (simp add: bits_of_update) (simp add: bits_of_def)
  next
    case False
    with assms show ?thesis by (auto simp: bits_of_update)
  qed
  then show ?thesis by (auto simp: set_eq_iff)
qed

lemma unat_div_mod_64:
  "unat (pos div 64 :: i64) = unat pos div 64" "unat (pos mod 64 :: i64) = unat pos mod 64"
  by (simp_all add: unat_div unat_mod)

lemma bs_get_eq: "bs_get pos b \<longleftrightarrow> unat pos \<in> bits b"
  by (auto simp: bs_get_def bits_def bits_of_def and_mask_nonzero unat_div_mod_64)

lemma bs_set_bits:
  assumes "bs_inv b" and "unat pos < 2 ^ 63"
  shows "\<exists>b'. bs_set pos b = Inr b' \<and> bs_inv b' \<and> bits b' = insert (unat pos) (bits b)"
proof -
  note room = bs_room_facts [OF assms(2), of "m_data b"]
  let ?data = "bs_room pos (m_data b)" and ?i = "unat pos div 64" and ?j = "unat pos mod 64"
  let ?new = "?data[?i := ?data ! ?i OR push_bit ?j 1]"
  have len: "length ?data \<le> 2 ^ 57" using room(1) assms by (auto simp: bs_inv_def)
  have new: "bits_of ?new = insert (unat pos) (bits b)"
    using bits_of_point_update [OF room(3), of "?data ! ?i OR push_bit ?j 1"] room(2)
    by (auto simp: bit_simps bits_def)
  show ?thesis
  proof (cases "bit (?data ! ?i) ?j")
    case True
    then have "unat pos \<in> bits_of ?data" using room(3) by (simp add: bits_of_def)
    then have "insert (unat pos) (bits b) = bits b" using room(2) by (simp add: bits_def insert_absorb)
    moreover have "bs_set pos b = Inr (b\<lparr>m_data := ?data\<rparr>)"
      using True room(3) by (simp add: bs_set_def Let_def unat_div_mod_64 and_mask_nonzero)
    ultimately show ?thesis using len room(2) assms(1) by (simp add: bs_inv_def bits_def)
  next
    case False
    then have "bs_set pos b = Inr (b\<lparr>m_data := ?new, m_highestSet := bs_raise pos (m_highestSet b)\<rparr>)"
      using room(3) by (simp add: bs_set_def Let_def unat_div_mod_64 and_mask_nonzero)
    with len new assms(1) highest_of_insert_raise [OF assms] show ?thesis
      by (simp add: bs_inv_def bits_def)
  qed
qed

lemma remove_max_or_keep:
  assumes "bs_inv b" and "m_highestSet b \<noteq> pos"
  shows "highest_of (bits b - {unat pos}) = highest_of (bits b)"
proof (cases "bits b = {}")
  case False
  note u = unat_highest [OF assms(1) False]
  have "unat pos \<noteq> Max (bits b)" using assms(2) u(1) by (metis word_unat_eq_iff)
  moreover have "Max (bits b) \<in> bits b" using False by (simp add: bits_def)
  ultimately have "Max (bits b) \<in> bits b - {unat pos}" by simp
  moreover from this have "Max (bits b - {unat pos}) = Max (bits b)"
    by (intro Max_eqI) (auto simp: bits_def)
  ultimately show ?thesis by (auto simp: highest_of_def)
qed simp

lemma bs_clear_bits:
  assumes "bs_inv b"
  shows "bs_inv (bs_clear pos b)" and "bits (bs_clear pos b) = bits b - {unat pos}"
proof -
  let ?i = "unat pos div 64" and ?j = "unat pos mod 64" and ?data = "m_data b"
  have "bs_inv (bs_clear pos b) \<and> bits (bs_clear pos b) = bits b - {unat pos}"
  proof (cases "unat pos \<in> bits b")
    case False
    then have "bs_clear pos b = b"
      by (auto simp: bs_clear_def Let_def unat_div_mod_64 and_mask_nonzero bits_def bits_of_def)
    with False assms show ?thesis by simp
  next
    case True
    then have i: "?i < length ?data" "bit (?data ! ?i) ?j" by (auto simp: bits_def bits_of_def)
    let ?new = "?data[?i := ?data ! ?i AND NOT (push_bit ?j 1)]"
    have new: "bits_of ?new = bits b - {unat pos}"
      using bits_of_point_update [OF i(1), of "?data ! ?i AND NOT (push_bit ?j 1)"]
      by (auto simp: bit_simps bits_def)
    have len: "length ?new \<le> 2 ^ 57" using assms by (simp add: bs_inv_def)
    have "bs_clear pos b = b\<lparr>m_data := ?new,
        m_highestSet := if pos = m_highestSet b then findHighestSet ?new else m_highestSet b\<rparr>"
      using i by (simp add: bs_clear_def Let_def unat_div_mod_64 and_mask_nonzero del: push_bit_of_1)
    then show ?thesis using new len remove_max_or_keep [OF assms, of pos] assms
      by (cases "pos = m_highestSet b") (simp_all add: bs_inv_def bits_def findHighestSet_eq)
  qed
  then show "bs_inv (bs_clear pos b)" "bits (bs_clear pos b) = bits b - {unat pos}" by auto
qed

lemma bs_flip_bits:
  assumes "bs_inv b" and "unat pos < 2 ^ 63"
  shows "\<exists>b'. bs_flip pos b = Inr b' \<and> bs_inv b'
    \<and> bits b' = (if unat pos \<in> bits b then bits b - {unat pos} else insert (unat pos) (bits b))"
proof -
  note room = bs_room_facts [OF assms(2), of "m_data b"]
  let ?data = "bs_room pos (m_data b)" and ?i = "unat pos div 64" and ?j = "unat pos mod 64"
  let ?new = "?data[?i := ?data ! ?i XOR push_bit ?j 1]"
  have len: "length ?data \<le> 2 ^ 57" using room(1) assms by (auto simp: bs_inv_def)
  have mem: "unat pos \<in> bits b \<longleftrightarrow> bit (?data ! ?i) ?j"
    using room(2,3) by (auto simp: bits_def bits_of_def set_eq_iff)
  have bit: "bit (?new ! ?i) ?j \<longleftrightarrow> unat pos \<notin> bits b"
    using room(3) by (simp add: bit_simps mem)
  have new: "bits_of ?new = (if unat pos \<in> bits b then bits b - {unat pos} else insert (unat pos) (bits b))"
    using bits_of_point_update [OF room(3), of "?data ! ?i XOR push_bit ?j 1"] room(2)
    by (auto simp: bit_simps bits_def mem [unfolded bits_def])
  show ?thesis
  proof (cases "unat pos \<in> bits b")
    case True
    then have "bs_flip pos b = Inr (b\<lparr>m_data := ?new,
        m_highestSet := if pos = m_highestSet b then findHighestSet ?new else m_highestSet b\<rparr>)"
      using bit room(3) by (simp add: bs_flip_def Let_def unat_div_mod_64 and_mask_nonzero del: nth_list_update_eq)
    with True new len remove_max_or_keep [OF assms(1), of pos] assms(1) show ?thesis
      by (cases "pos = m_highestSet b") (simp_all add: bs_inv_def bits_def findHighestSet_eq)
  next
    case False
    then have "bs_flip pos b = Inr (b\<lparr>m_data := ?new, m_highestSet := bs_raise pos (m_highestSet b)\<rparr>)"
      using bit room(3) by (simp add: bs_flip_def Let_def unat_div_mod_64 and_mask_nonzero del: nth_list_update_eq)
    with False new len assms(1) highest_of_insert_raise [OF assms] show ?thesis
      by (simp add: bs_inv_def bits_def)
  qed
qed

lemma bs_inv_new [simp]: "bs_inv new_BitSet" "bits new_BitSet = {}"
  by (simp_all add: bs_inv_def new_BitSet_def bits_def highest_of_def)

lemma bs_size_eq:
  "bs_inv b \<Longrightarrow> unat (bs_size b) = (if bits b = {} then 0 else Suc (Max (bits b)))"
proof (cases "bits b = {}")
  case False
  assume inv: "bs_inv b"
  note u = unat_highest [OF inv False]
  have "unat (m_highestSet b + 1) = unat (m_highestSet b) + 1"
    using u by (simp add: unat_add_lem [THEN iffD1])
  with u False show ?thesis by (simp add: bs_size_def)
qed (simp add: bs_size_def highest_NPOS)

lemma card_bits_of: "card (bits_of data) = sum_list (map builtin_popcountll data)"
proof (induction data rule: rev_induct)
  case (snoc w data)
  have "finite {k. bit w k}"
    by (rule finite_subset [of _ "{..<64}"]) (use bit_imp_le_length [of w] in auto)
  moreover have "bits_of data \<inter> (\<lambda>k. length data * 64 + k) ` {k. bit w k} = {}"
    by (auto dest: bits_of_less)
  ultimately show ?case using snoc
    by (simp add: bits_of_snoc card_Un_disjoint card_image inj_on_def popcount_card)
qed simp

lemma bs_count_fold:
  "fold (\<lambda>block total. total + word_of_nat (builtin_popcountll block)) data (word_of_nat n)
     = word_of_nat (n + sum_list (map builtin_popcountll data))"
  by (induction data arbitrary: n) (simp_all add: add.assoc flip: of_nat_add)

lemma bs_count_eq: "bs_inv b \<Longrightarrow> unat (bs_count b) = card (bits b)"
proof -
  assume inv: "bs_inv b"
  have "card (bits b) \<le> card {..<(2::nat) ^ 63}"
    using bits_less [OF inv] by (intro card_mono) auto
  then have "card (bits b) < 2 ^ 64" by simp
  moreover have "bs_count b = word_of_nat (card (bits b))"
    using bs_count_fold [of "m_data b" 0] by (simp add: bs_count_def bits_def card_bits_of)
  ultimately show ?thesis by (simp add: unat_of_nat take_bit_nat_eq_self)
qed

section \<open>The binary operators\<close>

lemma bits_of_iff: "n \<in> bits_of data \<longleftrightarrow> n div 64 < length data \<and> bit (data ! (n div 64)) (n mod 64)"
  by (simp add: bits_of_def)

lemma bits_with_data [simp]: "bits (with_data data b) = bits_of data"
  by (simp add: bits_def with_data_def)

lemma bs_inv_with_data: "length data \<le> 2 ^ 57 \<Longrightarrow> bs_inv (with_data data b)"
  by (simp add: bs_inv_def with_data_def bits_def findHighestSet_eq)

lemma bits_of_grow: "bits_of (bs_grow a b) = bits a"
  "length (bs_grow a b) = max (length (m_data a)) (length (m_data b))"
  by (auto simp: bs_grow_def Let_def resize_data_def bits_def)

lemma bits_of_zip:
  assumes "length ys \<le> length xs"
  shows "n \<in> bits_of (map2 f (take (length ys) xs) ys @ drop (length ys) xs) \<longleftrightarrow>
    (if n div 64 < length ys then bit (f (xs ! (n div 64)) (ys ! (n div 64))) (n mod 64) else n \<in> bits_of xs)"
  using assms by (auto simp: bits_of_iff nth_append)

lemma bits_of_combined:
  assumes "\<And>x y. bit (f x y) = (\<lambda>k. g (bit x k) (bit (y :: i64) k))" and "\<And>p. g p False = p"
  shows "n \<in> bits_of (map2 f (take (length (m_data b)) (bs_grow a b)) (m_data b)
      @ drop (length (m_data b)) (bs_grow a b)) \<longleftrightarrow> g (n \<in> bits a) (n \<in> bits b)"
proof -
  have z: "length (m_data b) \<le> length (bs_grow a b)" by (simp add: bits_of_grow)
  have n: "n \<in> bits a \<longleftrightarrow> n \<in> bits_of (bs_grow a b)" by (simp add: bits_of_grow)
  show ?thesis
  proof (cases "n div 64 < length (m_data b)")
    case True
    with z have "n div 64 < length (bs_grow a b)" by simp
    with True show ?thesis
      by (simp only: bits_of_zip [OF z] n bits_def [of b] bits_of_iff [of n] assms(1) if_True simp_thms)
  next
    case False
    then have "n \<notin> bits b" by (simp add: bits_def bits_of_iff)
    with False show ?thesis by (simp add: bits_of_zip [OF z] n assms(2))
  qed
qed

lemma bs_inv_combined:
  assumes "bs_inv a" and "bs_inv b"
  shows "bs_inv (with_data (map2 f (take (length (m_data b)) (bs_grow a b)) (m_data b)
      @ drop (length (m_data b)) (bs_grow a b)) a)"
  using assms bits_of_grow(2) [of a b] by (intro bs_inv_with_data) (simp add: bs_inv_def)

lemma bs_or_bits:
  assumes "bs_inv a" and "bs_inv b"
  shows "bs_inv (bs_or a b)" and "bits (bs_or a b) = bits a \<union> bits b"
  using bs_inv_combined [OF assms, of "(OR)"] bits_of_combined [of "(OR)" "(\<or>)" _ b a]
  by (auto simp: bs_or_def Let_def bit_or_iff fun_eq_iff)

lemma bs_xor_bits:
  assumes "bs_inv a" and "bs_inv b"
  shows "bs_inv (bs_xor a b)" and "bits (bs_xor a b) = (bits a - bits b) \<union> (bits b - bits a)"
  using bs_inv_combined [OF assms, of "(XOR)"] bits_of_combined [of "(XOR)" "(\<noteq>)" _ b a]
  by (auto simp: bs_xor_def Let_def bit_xor_iff fun_eq_iff)

lemma bs_and_bits:
  assumes "bs_inv a"
  shows "bs_inv (bs_and a b)" and "bits (bs_and a b) = bits a \<inter> bits b"
proof -
  have "length (m_data a) \<le> 2 ^ 57" using assms by (simp add: bs_inv_def)
  then show "bs_inv (bs_and a b)" unfolding bs_and_def Let_def by (intro bs_inv_with_data) simp
  have "n \<in> bits (bs_and a b) \<longleftrightarrow> n \<in> bits a \<inter> bits b" for n
    by (auto simp: bs_and_def Let_def bits_def [of a] bits_def [of b] bits_of_iff nth_append bit_and_iff)
  then show "bits (bs_and a b) = bits a \<inter> bits b" by blast
qed

lemma bs_andNot_bits:
  assumes "bs_inv a"
  shows "bs_inv (bs_andNot a b)" and "bits (bs_andNot a b) = bits a - bits b"
proof -
  have "length (m_data a) \<le> 2 ^ 57" using assms by (simp add: bs_inv_def)
  then show "bs_inv (bs_andNot a b)" unfolding bs_andNot_def Let_def by (intro bs_inv_with_data) simp
  have "n \<in> bits (bs_andNot a b) \<longleftrightarrow> n \<in> bits a - bits b" for n
    by (auto simp: bs_andNot_def Let_def bits_def [of a] bits_def [of b] bits_of_iff nth_append bit_and_iff bit_not_iff)
  then show "bits (bs_andNot a b) = bits a - bits b" by blast
qed

lemma bit_block: "bit (bs_block b i) k \<longleftrightarrow> k < 64 \<and> 64 * i + k \<in> bits b"
proof (cases "k < 64")
  case True
  then have "(64 * i + k) div 64 = i" "(64 * i + k) mod 64 = k" by auto
  with True show ?thesis by (auto simp: bs_block_def bits_def bits_of_iff)
next
  case False
  then show ?thesis using bit_imp_le_length [of "bs_block b i" k] by auto
qed

lemma bs_eq_iff: "bs_eq a b \<longleftrightarrow> bits a = bits b"
proof
  assume "bits a = bits b"
  then have "bs_block a i = bs_block b i" for i by (intro bit_word_eqI) (simp add: bit_block)
  then show "bs_eq a b" by (simp add: bs_eq_def list_all_iff)
next
  assume eq: "bs_eq a b"
  have "bs_block a i = bs_block b i" for i
    using eq by (cases "i < max (length (m_data a)) (length (m_data b))")
      (auto simp: bs_eq_def list_all_iff bs_block_def)
  then have "64 * (n div 64) + n mod 64 \<in> bits a \<longleftrightarrow> 64 * (n div 64) + n mod 64 \<in> bits b" for n
    using bit_block [of a "n div 64" "n mod 64"] bit_block [of b "n div 64" "n mod 64"] by simp
  then show "bits a = bits b" by (simp add: set_eq_iff)
qed

section \<open>Searching\<close>

text \<open>The least member of a set that is not below a bound.\<close>

definition next_in :: "nat set \<Rightarrow> nat \<Rightarrow> nat option" where
  "next_in S n = (if \<exists>m \<in> S. n \<le> m then Some (LEAST m. m \<in> S \<and> n \<le> m) else None)"

lemma next_in_Some: "next_in S n = Some m \<longleftrightarrow> m \<in> S \<and> n \<le> m \<and> (\<forall>k. n \<le> k \<and> k < m \<longrightarrow> k \<notin> S)"
proof
  assume "next_in S n = Some m"
  then have ex: "\<exists>m. m \<in> S \<and> n \<le> m" and m: "m = (LEAST m. m \<in> S \<and> n \<le> m)"
    by (auto simp: next_in_def split: if_splits)
  from LeastI_ex [OF ex] not_less_Least [of _ "\<lambda>m. m \<in> S \<and> n \<le> m"] m
  show "m \<in> S \<and> n \<le> m \<and> (\<forall>k. n \<le> k \<and> k < m \<longrightarrow> k \<notin> S)" by auto
next
  assume m: "m \<in> S \<and> n \<le> m \<and> (\<forall>k. n \<le> k \<and> k < m \<longrightarrow> k \<notin> S)"
  then have "(LEAST m. m \<in> S \<and> n \<le> m) = m" by (intro Least_equality) (auto simp: not_less [symmetric])
  with m show "next_in S n = Some m" by (auto simp: next_in_def)
qed

lemma next_in_None: "next_in S n = None \<longleftrightarrow> (\<forall>m. n \<le> m \<longrightarrow> m \<notin> S)"
  by (auto simp: next_in_def)

lemma next_in_skip:
  assumes "x \<le> y" and "\<And>k. x \<le> k \<Longrightarrow> k < y \<Longrightarrow> k \<notin> S"
  shows "next_in S x = next_in S y"
proof -
  have "m \<in> S \<and> x \<le> m \<longleftrightarrow> m \<in> S \<and> y \<le> m" for m
    using assms by (meson le_trans not_less)
  then show ?thesis by (simp add: next_in_def Bex_def)
qed

definition pos_of :: "nat option \<Rightarrow> i64" where
  "pos_of r = (case r of None \<Rightarrow> NPOS | Some m \<Rightarrow> word_of_nat m)"

lemma div_mod_block:
  fixes i k :: nat
  assumes "i * 64 \<le> k" and "k < Suc i * 64"
  shows "k div 64 = i" and "k mod 64 = k - i * 64"
proof -
  show "k div 64 = i" using assms by (intro div_nat_eqI) simp_all
  then show "k mod 64 = k - i * 64" by (metis minus_div_mult_eq_mod)
qed

lemma nextSet_loop_eq:
  "off < 64 \<Longrightarrow> nextSet_loop (drop i data) i off = pos_of (next_in (bits_of data) (i * 64 + off))"
proof (induction "length data - i" arbitrary: i off)
  case 0
  then have "next_in (bits_of data) (i * 64 + off) = None"
    by (auto simp: next_in_None dest!: bits_of_less)
  with 0 show ?case by (simp add: pos_of_def)
next
  case (Suc n)
  then have i: "i < length data" by simp
  then have d: "drop i data = data ! i # drop (Suc i) data" by (simp add: Cons_nth_drop_Suc)
  let ?w = "drop_bit off (data ! i)"
  show ?case
  proof (cases "?w = 0")
    case True
    have none: "k \<notin> bits_of data" if k: "i * 64 + off \<le> k" "k < Suc i * 64" for k
    proof -
      have kd: "k div 64 = i" "off \<le> k mod 64"
        using k div_mod_block [of i k] by simp_all
      have "bit ?w (k mod 64 - off) = bit (data ! i) (k mod 64)"
        using kd by (simp add: bit_drop_bit_eq)
      with True kd show ?thesis by (simp add: bits_of_iff)
    qed
    have "next_in (bits_of data) (i * 64 + off) = next_in (bits_of data) (Suc i * 64 + 0)"
      using none Suc.prems by (intro next_in_skip) simp_all
    with True Suc show ?thesis by (auto simp: d)
  next
    case False
    let ?c = "builtin_ctzll ?w"
    note ctz = ctz_lowest [OF False]
    have nz: "data ! i \<noteq> 0" using False by auto
    have oc: "bit (data ! i) (off + ?c)" using ctz(2) by (simp add: bit_drop_bit_eq)
    then have lt: "off + ?c < 64" using bit_imp_le_length [of "data ! i" "off + ?c"] by simp
    have "next_in (bits_of data) (i * 64 + off) = Some (i * 64 + off + ?c)"
      unfolding next_in_Some
    proof (intro conjI allI impI)
      have "(i * 64 + off + ?c) div 64 = i" "(i * 64 + off + ?c) mod 64 = off + ?c"
        using lt by (auto simp: add.assoc)
      with i oc show "i * 64 + off + ?c \<in> bits_of data" by (simp add: bits_of_iff)
      fix k assume k: "i * 64 + off \<le> k \<and> k < i * 64 + off + ?c"
      then have kd: "k div 64 = i" "k mod 64 = off + (k - (i * 64 + off))"
        using lt div_mod_block [of i k] by simp_all
      have "k - (i * 64 + off) < ?c" using k by auto
      from ctz(3) [OF this] kd show "k \<notin> bits_of data"
        by (simp add: bits_of_iff bit_drop_bit_eq)
    qed simp
    with False nz show ?thesis by (simp add: d pos_of_def)
  qed
qed

lemma finite_bits [simp]: "finite (bits b)"
  by (simp add: bits_def)

lemma bits_le_highest:
  assumes "bs_inv b" and "n \<in> bits b"
  shows "n \<le> unat (m_highestSet b)"
proof -
  from assms(2) have "bits b \<noteq> {}" by auto
  with assms show ?thesis by (simp add: unat_highest(1))
qed

lemma bs_nextSetBit_eq:
  assumes "bs_inv b"
  shows "bs_nextSetBit from b = pos_of (next_in (bits b) (unat from))"
proof (cases "m_highestSet b < from")
  case True
  have "n \<notin> bits b" if "unat from \<le> n" for n
    using that True bits_le_highest [OF assms, of n] by (auto simp: word_less_nat_alt)
  with True show ?thesis by (simp add: bs_nextSetBit_def next_in_None [THEN iffD2] pos_of_def)
next
  case False
  have "unat from mod 64 < 64" "unat from div 64 * 64 + unat from mod 64 = unat from" by simp_all
  with nextSet_loop_eq [of "unat from mod 64" "unat from div 64" "m_data b"] False show ?thesis
    by (simp only: bs_nextSetBit_def unat_div_mod_64 bits_def if_False)
qed

lemma next_in_block:
  assumes "\<And>k. bit w k \<longleftrightarrow> k < 64 \<and> off \<le> k \<and> i * 64 + k \<in> S"
  shows "w \<noteq> 0 \<Longrightarrow> next_in S (i * 64 + off) = Some (i * 64 + builtin_ctzll w)"
    and "w = 0 \<Longrightarrow> off < 64 \<Longrightarrow> next_in S (i * 64 + off) = next_in S (Suc i * 64)"
proof -
  show "next_in S (i * 64 + off) = Some (i * 64 + builtin_ctzll w)" if "w \<noteq> 0"
    unfolding next_in_Some
  proof (intro conjI allI impI)
    note ctz = ctz_lowest [OF that]
    show "i * 64 + builtin_ctzll w \<in> S" "i * 64 + off \<le> i * 64 + builtin_ctzll w"
      using ctz(2) assms by auto
    fix k assume k: "i * 64 + off \<le> k \<and> k < i * 64 + builtin_ctzll w"
    then have "k - i * 64 < builtin_ctzll w" "i * 64 + (k - i * 64) = k" by auto
    with ctz(1) ctz(3) [of "k - i * 64"] assms [of "k - i * 64"] k show "k \<notin> S" by auto
  qed
  show "next_in S (i * 64 + off) = next_in S (Suc i * 64)" if "w = 0" "off < 64"
  proof (rule next_in_skip)
    fix k assume k: "i * 64 + off \<le> k" "k < Suc i * 64"
    then have "i * 64 + (k - i * 64) = k" by simp
    with that(1) assms [of "k - i * 64"] k show "k \<notin> S" by auto
  qed (use that in simp)
qed

lemma nextClear_loop_eq:
  fixes data :: "i64 list"
  defines "S \<equiv> {..<length data * 64} - bits_of data"
  shows "off < 64 \<Longrightarrow> nextClear_loop (drop i data) (length data) i off
    = (case next_in S (i * 64 + off) of None \<Rightarrow> word_of_nat (length data * 64) | Some m \<Rightarrow> word_of_nat m)"
proof (induction "length data - i" arbitrary: i off)
  case 0
  then have "next_in S (i * 64 + off) = None" by (auto simp: next_in_None S_def)
  with 0 show ?case by simp
next
  case (Suc n)
  then have i: "i < length data" by simp
  then have d: "drop i data = data ! i # drop (Suc i) data" by (simp add: Cons_nth_drop_Suc)
  let ?free = "NOT (data ! i) AND NOT (push_bit off 1 - 1)"
  have free: "bit ?free k \<longleftrightarrow> k < 64 \<and> off \<le> k \<and> i * 64 + k \<in> S" for k
  proof (cases "k < 64")
    case True
    then have "(i * 64 + k) div 64 = i" "(i * 64 + k) mod 64 = k" "i * 64 + k < length data * 64"
      using i by auto
    moreover have "push_bit off 1 - 1 = (mask off :: i64)" by (simp add: mask_eq_exp_minus_1)
    ultimately show ?thesis using True i
      by (auto simp: bit_and_iff bit_not_iff bit_mask_iff S_def bits_of_iff)
  next
    case False
    then show ?thesis using bit_imp_le_length [of ?free k] by auto
  qed
  show ?case
  proof (cases "?free = 0")
    case True
    with next_in_block(2) [OF free True] Suc show ?thesis by (simp add: d)
  next
    case False
    with next_in_block(1) [OF free False] show ?thesis by (simp add: d Let_def)
  qed
qed

section \<open>The array forms\<close>

lemma bs_inv_fromLongArray: "length longs \<le> 2 ^ 57 \<Longrightarrow> bs_inv (fromLongArray longs)"
  by (simp add: bs_inv_def fromLongArray_def bits_def findHighestSet_eq)

lemma bits_fromLongArray [simp]: "bits (fromLongArray longs) = bits_of longs"
  by (simp add: bits_def fromLongArray_def)

lemma bits_toLongArray:
  assumes "bs_inv b"
  shows "bits_of (toLongArray b) = bits b"
proof (cases "bits b = {}")
  case True
  with assms show ?thesis by (simp add: toLongArray_def highest_NPOS)
next
  case False
  have "n div 64 < unat (m_highestSet b) div 64 + 1" if "n \<in> bits b" for n
    using bits_le_highest [OF assms that] by (simp add: div_le_mono less_Suc_eq_le)
  with False assms show ?thesis
    by (auto simp: toLongArray_def highest_NPOS unat_div_mod_64 bits_def bits_of_iff)
qed

lemma bit_fold_or:
  "bit (fold (\<lambda>j acc. if c j then acc else acc OR f j) js acc) k
     \<longleftrightarrow> bit acc k \<or> (\<exists>j \<in> set js. \<not> c j \<and> bit (f j) k)" for acc :: "'a::len word"
  by (induction js arbitrary: acc) (auto simp: bit_or_iff)

lemma bit_block_of_bytes:
  "bit (block_of_bytes bytes i) k \<longleftrightarrow> k < 64 \<and> i * 8 + k div 8 < length bytes
     \<and> bit (bytes ! (i * 8 + k div 8)) (k mod 8)"
proof -
  have push: "bit (push_bit (j * 8) (ucast x :: i64)) k \<longleftrightarrow> k < 64 \<and> j = k div 8 \<and> bit x (k mod 8)"
    for x :: byte and j
  proof (cases "j = k div 8")
    case True
    then show ?thesis by (simp add: bit_push_bit_iff bit_ucast_iff minus_div_mult_eq_mod) auto
  next
    case False
    then have "j * 8 \<le> k \<Longrightarrow> 8 \<le> k - j * 8" by auto
    with False show ?thesis
      using bit_imp_le_length [of x "k - j * 8"] by (auto simp: bit_push_bit_iff bit_ucast_iff)
  qed
  have "k < 64 \<Longrightarrow> k div 8 < 8" by auto
  then show ?thesis unfolding block_of_bytes_def bit_fold_or push by (auto simp: not_le)
qed

lemma bits_fromByteArray:
  "bits (fromByteArray bytes) = {n. n div 8 < length bytes \<and> bit (bytes ! (n div 8)) (n mod 8)}"
proof -
  have "n \<in> bits (fromByteArray bytes) \<longleftrightarrow> n div 8 < length bytes \<and> bit (bytes ! (n div 8)) (n mod 8)" for n
  proof -
    have d: "n div 64 = n div 8 div 8" "n mod 64 = 8 * (n div 8 mod 8) + n mod 8"
      using div_mult2_eq [of n 8 8] mod_mult2_eq [of n 8 8] by simp_all
    then have n: "n div 64 * 8 + n mod 64 div 8 = n div 8" "n mod 64 mod 8 = n mod 8" by simp_all
    have "n div 8 < length bytes \<Longrightarrow> n div 64 < (length bytes + 7) div 8" unfolding d by linarith
    then show ?thesis
      by (auto simp: bits_def fromByteArray_def Let_def bits_of_iff bit_block_of_bytes n)
  qed
  then show ?thesis by auto
qed

lemma bs_inv_fromByteArray:
  "length bytes \<le> 2 ^ 60 \<Longrightarrow> bs_inv (fromByteArray bytes)"
  by (simp add: bs_inv_def fromByteArray_def bits_def findHighestSet_eq Let_def)

lemma bit_fold_or_if:
  "bit (fold (\<lambda>j acc. if c j then acc OR f j else acc) js acc) k
     \<longleftrightarrow> bit acc k \<or> (\<exists>j \<in> set js. c j \<and> bit (f j) k)" for acc :: "'a::len word"
  by (induction js arbitrary: acc) (auto simp: bit_or_iff)

lemma bit_byte_of_bits:
  "bit (byte_of_bits b i) k \<longleftrightarrow> k < 8 \<and> unat (i * 8 + word_of_nat k) \<in> bits b"
  unfolding byte_of_bits_def bit_fold_or_if by (auto simp: bit_simps bs_get_eq)

lemma div_8_less_iff:
  fixes n h :: nat
  assumes "n \<le> h"
  shows "n div 8 < (h + 7) div 8 \<longleftrightarrow> \<not> (8 dvd h \<and> n = h)"
proof (cases "8 dvd h")
  case True
  then obtain q where "h = 8 * q" by (auto elim: dvdE)
  with assms show ?thesis by (auto simp: div_less_iff_less_mult)
next
  case False
  then have "0 < h mod 8" "h mod 8 < 8" by (auto simp: dvd_eq_mod_eq_0)
  moreover have "(h + 7) div 8 = h div 8 + (h mod 8 + 7) div 8"
    by (metis add.assoc div_mult_self3 mod_div_decomp zero_neq_numeral)
  ultimately have "(h + 7) div 8 = Suc (h div 8)" by linarith
  with assms False show ?thesis by (simp add: div_le_mono less_Suc_eq_le)
qed

lemma toByteArray_bits:
  assumes "bs_inv b"
  shows "bits (fromByteArray (toByteArray b))
    = bits b - (if 8 dvd unat (m_highestSet b) then {unat (m_highestSet b)} else {})"
proof (cases "bits b = {}")
  case True
  with assms show ?thesis by (simp add: toByteArray_def highest_NPOS bits_fromByteArray)
next
  case False
  let ?h = "unat (m_highestSet b)"
  have h: "?h < 2 ^ 63" using unat_highest [OF assms False] by simp
  have "unat (m_highestSet b + 7) = ?h + 7" using h by (simp add: unat_add_lem [THEN iffD1])
  then have len: "unat ((m_highestSet b + 7) div 8) = (?h + 7) div 8" by (simp add: unat_div)
  have nb: "unat (word_of_nat (n div 8) * 8 + word_of_nat (n mod 8) :: i64) = n" if "n < 2 ^ 63" for n
  proof -
    have "word_of_nat (n div 8) * 8 + word_of_nat (n mod 8) = (word_of_nat (n div 8 * 8 + n mod 8) :: i64)"
      by (simp only: of_nat_add of_nat_mult of_nat_numeral)
    with that show ?thesis by (simp add: unat_of_nat take_bit_nat_eq_self)
  qed
  have "n \<in> bits (fromByteArray (toByteArray b)) \<longleftrightarrow> n \<in> bits b \<and> n div 8 < (?h + 7) div 8" for n
  proof (cases "n div 8 < (?h + 7) div 8")
    case True
    moreover have "(?h + 7) div 8 \<le> 2 ^ 60" using h by simp
    ultimately have "n div 8 < 2 ^ 60" by (rule less_le_trans)
    then have "n < 2 ^ 63" by (simp add: div_less_iff_less_mult)
    with True False assms show ?thesis
      by (simp add: toByteArray_def highest_NPOS bits_fromByteArray len bit_byte_of_bits nb)
  qed (use False assms in \<open>simp add: toByteArray_def highest_NPOS bits_fromByteArray len\<close>)
  moreover have "n div 8 < (?h + 7) div 8 \<longleftrightarrow> \<not> (8 dvd ?h \<and> n = ?h)" if "n \<in> bits b" for n
    using bits_le_highest [OF assms that] by (rule div_8_less_iff)
  ultimately show ?thesis by auto
qed

section \<open>Refinement\<close>

text \<open>A sequence of updates, on the implementation and on the set it stands for.\<close>

datatype bs_op = SetBit i64 | ClearBit i64 | FlipBit i64

fun op_pos :: "bs_op \<Rightarrow> i64" where
  "op_pos (SetBit p) = p"
| "op_pos (ClearBit p) = p"
| "op_pos (FlipBit p) = p"

fun run_bs_op :: "bs_op \<Rightarrow> BitSet \<Rightarrow> zinc_error + BitSet" where
  "run_bs_op (SetBit p) b = bs_set p b"
| "run_bs_op (ClearBit p) b = Inr (bs_clear p b)"
| "run_bs_op (FlipBit p) b = bs_flip p b"

fun run_bs :: "bs_op list \<Rightarrow> BitSet \<Rightarrow> zinc_error + BitSet" where
  "run_bs [] b = Inr b"
| "run_bs (oper # opers) b = (case run_bs_op oper b of Inl e \<Rightarrow> Inl e | Inr b' \<Rightarrow> run_bs opers b')"

fun set_op :: "bs_op \<Rightarrow> nat set \<Rightarrow> nat set" where
  "set_op (SetBit p) S = insert (unat p) S"
| "set_op (ClearBit p) S = S - {unat p}"
| "set_op (FlipBit p) S = (if unat p \<in> S then S - {unat p} else insert (unat p) S)"

lemma run_bs_op_bits:
  "bs_inv b \<Longrightarrow> unat (op_pos oper) < 2 ^ 63 \<Longrightarrow>
     \<exists>b'. run_bs_op oper b = Inr b' \<and> bs_inv b' \<and> bits b' = set_op oper (bits b)"
  by (cases oper) (auto simp: bs_set_bits bs_flip_bits bs_clear_bits simp del: bits_of_Nil)

lemma run_bs_bits:
  "bs_inv b \<Longrightarrow> \<forall>oper \<in> set opers. unat (op_pos oper) < 2 ^ 63 \<Longrightarrow>
     \<exists>b'. run_bs opers b = Inr b' \<and> bs_inv b' \<and> bits b' = fold set_op opers (bits b)"
proof (induction opers arbitrary: b)
  case (Cons oper opers)
  then obtain b1 where b1: "run_bs_op oper b = Inr b1" "bs_inv b1" "bits b1 = set_op oper (bits b)"
    using run_bs_op_bits [of b oper] by auto
  with Cons.IH [OF b1(2)] Cons.prems show ?case by simp
qed simp

section \<open>Properties\<close>

text \<open>C11: After any sequence of \<open>set\<close>, \<open>clear\<close> and \<open>flip\<close> at positions below \<open>2 ^ 63\<close>, every
  observer of a \<open>BitSet\<close> agrees with the set of positions: \<open>get\<close> is membership, \<open>size\<close> one
  more than the maximum, \<open>count\<close> the cardinality, \<open>none\<close> emptiness, and \<open>nextSetBit\<close> the
  least member from a position on. No call leaves the storage.\<close>

theorem bitset_refines_set:
  assumes "\<forall>oper \<in> set opers. unat (op_pos oper) < 2 ^ 63" and "S = fold set_op opers {}"
  shows "\<exists>b. run_bs opers new_BitSet = Inr b
    \<and> bs_get p b = (unat p \<in> S)
    \<and> unat (bs_size b) = (if S = {} then 0 else Suc (Max S))
    \<and> unat (bs_count b) = card S
    \<and> bs_none b = (S = {}) \<and> bs_any b = (S \<noteq> {})
    \<and> bs_nextSetBit p b = pos_of (next_in S (unat p))"
proof -
  obtain b where b: "run_bs opers new_BitSet = Inr b" "bs_inv b" "bits b = S"
    using run_bs_bits [OF bs_inv_new(1) assms(1)] assms(2) by auto
  then show ?thesis
    by (intro exI [of _ b])
      (simp add: bs_get_eq bs_size_eq bs_count_eq bs_none_def bs_any_def highest_NPOS bs_nextSetBit_eq)
qed

theorem bitset_refines_set_witness:
  "\<exists>b. run_bs [SetBit 70, FlipBit 3, ClearBit 70] new_BitSet = Inr b
    \<and> bs_get 3 b = (unat (3 :: i64) \<in> {3}) \<and> unat (bs_size b) = (if {3} = ({} :: nat set) then 0 else Suc (Max {3}))
    \<and> unat (bs_count b) = card {3 :: nat} \<and> bs_none b = ({3 :: nat} = {}) \<and> bs_any b = ({3 :: nat} \<noteq> {})
    \<and> bs_nextSetBit 3 b = pos_of (next_in {3} (unat (3 :: i64)))"
  by (rule bitset_refines_set) (auto simp: set_eq_iff)

text \<open>The operators \<open>|=\<close>, \<open>&=\<close>, \<open>^=\<close> and \<open>andNot\<close> are union, intersection, symmetric
  difference and difference, they keep the cached highest bit right, and \<open>==\<close> is equality of
  the sets, whatever the lengths of the two stores.\<close>

theorem bitset_operators:
  assumes "bs_inv a" and "bs_inv b"
  shows "bits (bs_or a b) = bits a \<union> bits b \<and> bits (bs_and a b) = bits a \<inter> bits b
    \<and> bits (bs_xor a b) = (bits a - bits b) \<union> (bits b - bits a) \<and> bits (bs_andNot a b) = bits a - bits b
    \<and> bs_inv (bs_or a b) \<and> bs_inv (bs_and a b) \<and> bs_inv (bs_xor a b) \<and> bs_inv (bs_andNot a b)
    \<and> bs_eq a b = (bits a = bits b)"
  by (simp add: bs_or_bits bs_and_bits bs_xor_bits bs_andNot_bits bs_eq_iff assms)

theorem bitset_operators_witness:
  "bits (bs_or (fromLongArray [5]) (fromLongArray [0, 1])) = bits_of [5] \<union> bits_of [0, 1]"
proof -
  have "bs_inv (fromLongArray [5])" "bs_inv (fromLongArray [0, 1])"
    by (simp_all add: bs_inv_fromLongArray)
  from bitset_operators [OF this] show ?thesis by simp
qed

lemma length_toLongArray:
  assumes "bs_inv b" and "\<forall>n \<in> bits b. n < 2 ^ 36"
  shows "length (toLongArray b) < 2 ^ 31"
proof (cases "bits b = {}")
  case False
  have "Max (bits b) < 2 ^ 36" using False assms(2) by simp
  then have "unat (m_highestSet b) < 2 ^ 36" by (simp add: unat_highest(1) [OF assms(1) False])
  then have "unat (m_highestSet b) div 64 < 2 ^ 30" by (simp add: div_less_iff_less_mult)
  moreover have "length (toLongArray b) \<le> Suc (unat (m_highestSet b) div 64)"
    by (simp add: toLongArray_def unat_div_mod_64)
  ultimately show ?thesis by simp
qed (use assms(1) in \<open>simp add: toLongArray_def highest_NPOS\<close>)

lemma appends_writeBitSet [appends_intros]:
  "appends be (writeBitSet b) (array_bytes (numeric_bytes be) (toLongArray b))"
  unfolding writeBitSet_def array_bytes_def
  by (intro long_codec.appends_writePrefixedArray) (simp add: list_all_iff)

lemma reads_readBitSet [reads_intros]:
  "length longs < 2 ^ 31 \<Longrightarrow>
     reads be readBitSet (array_bytes (numeric_bytes be) longs) (fromLongArray longs)"
  unfolding readBitSet_def array_bytes_def
  by (intro reads_bnd_ret [OF long_codec.reads_readPrefixedArray]) (simp_all add: list_all_iff)

lemma readUnsignedByte_codec: "codec writeUnsignedByte readUnsignedByte be (\<lambda>c. [c]) (\<lambda>_. True)"
  unfolding writeUnsignedByte_def [abs_def] readUnsignedByte_def by (rule byte_codec.codec_axioms)

lemma appends_writeFixedBitSet [appends_intros]:
  "appends be (writeFixedBitSet b) (toByteArray b)"
  unfolding writeFixedBitSet_def
  using codec.appends_writeArray [OF readUnsignedByte_codec, of "toByteArray b" be]
  by (simp add: list_all_iff)

lemma reads_readFixedBitSet [reads_intros]:
  "n = length bytes \<Longrightarrow> reads be (readFixedBitSet n) bytes (fromByteArray bytes)"
  unfolding readFixedBitSet_def
  using codec.reads_readArray [OF readUnsignedByte_codec, of bytes be]
  by (auto simp: list_all_iff intro: reads_bnd_ret)

text \<open>A \<open>BitSet\<close> with positions below \<open>2 ^ 36\<close> sent with \<open>writeBitSet\<close> is received by
  \<open>readBitSet\<close> as a set with the same members, and with its highest bit cached.\<close>

theorem bitset_wire_round_trip:
  assumes "bs_inv b" and "\<forall>n \<in> bits b. n < 2 ^ 36"
  shows "\<exists>b' buf. bnd (writeBitSet b) (\<lambda>_. readBitSet) (new_bb be) = Inr (b', buf)
    \<and> bb_unread buf = [] \<and> bits b' = bits b \<and> m_highestSet b' = m_highestSet b"
proof -
  have "m_highestSet (fromLongArray (toLongArray b)) = m_highestSet b"
    using assms(1) by (simp add: fromLongArray_def findHighestSet_eq bits_toLongArray bs_inv_def)
  with write_read [OF appends_writeBitSet reads_readBitSet [OF length_toLongArray [OF assms]]]
  show ?thesis using bits_toLongArray [OF assms(1)] by fastforce
qed

theorem bitset_wire_round_trip_witness:
  "\<exists>b' buf. bnd (writeBitSet (fromLongArray [0, 3, 0])) (\<lambda>_. readBitSet) (new_bb True) = Inr (b', buf)
    \<and> bb_unread buf = [] \<and> bits b' = bits (fromLongArray [0, 3, 0])
    \<and> m_highestSet b' = m_highestSet (fromLongArray [0, 3, 0])"
proof (rule bitset_wire_round_trip)
  show "\<forall>n \<in> bits (fromLongArray [0, 3, 0]). n < 2 ^ 36"
    by (auto dest: bits_of_less)
qed (simp add: bs_inv_fromLongArray)

text \<open>The fixed form, \<open>writeFixedBitSet\<close>, sends \<open>(highest + 7) / 8\<close> bytes. Read back with the
  number of bytes sent, the set is the same except when its highest member is a multiple of
  eight: that member has no byte and is lost.\<close>

theorem fixed_bitset_loses_top_bit:
  assumes "bs_inv b"
  shows "\<exists>b' buf. bnd (writeFixedBitSet b) (\<lambda>_. readFixedBitSet (length (toByteArray b))) (new_bb be) = Inr (b', buf)
    \<and> bb_unread buf = []
    \<and> bits b' = bits b - (if 8 dvd unat (m_highestSet b) then {unat (m_highestSet b)} else {})"
  using write_read [OF appends_writeFixedBitSet reads_readFixedBitSet [OF refl]] toByteArray_bits [OF assms]
  by blast

theorem fixed_bitset_loses_top_bit_witness:
  "\<exists>b' buf. bnd (writeFixedBitSet (fromLongArray [256])) (\<lambda>_. readFixedBitSet (length (toByteArray (fromLongArray [256]))))
      (new_bb True) = Inr (b', buf)
    \<and> bb_unread buf = []
    \<and> bits b' = bits (fromLongArray [256]) - (if 8 dvd unat (m_highestSet (fromLongArray [256]))
        then {unat (m_highestSet (fromLongArray [256]))} else {})"
  by (rule fixed_bitset_loses_top_bit) (simp add: bs_inv_fromLongArray)

end
