(* ===== verification/Value_Types.thy ===== *)
theory Value_Types
  imports Bit_Set
begin

text \<open>
  The small value types of \<open>inc/type/\<close> and their wire forms in \<open>src/type/ByteBuffer.cpp\<close>:
  \<open>Identifier\<close>, \<open>Vector2\<close>, \<open>Vector3\<close>, the packed block position, \<open>IDorX\<close>, \<open>XorY\<close>, \<open>IDSet\<close>,
  \<open>SoundEvent\<close>, \<open>PlayerLocation\<close>, \<open>TeleportFlags\<close> and UUIDs. Where a constructor call reads
  its arguments from the buffer, the order of evaluation is a parameter.
\<close>

section \<open>Identifier\<close>

record Identifier =
  m_namespace :: string
  m_object :: string

definition default_Identifier :: Identifier where
  "default_Identifier = \<lparr>m_namespace = ''minecraft'', m_object = ''placeholder''\<rparr>"

definition Identifier_toString :: "Identifier \<Rightarrow> string" where
  "Identifier_toString i = m_namespace i @ '':'' @ m_object i"

text \<open>
  The constructor from a string: without a colon \<open>find\<close> returns \<open>npos\<close>, and
  \<open>resize(npos)\<close> throws \<open>std::length_error\<close>.
\<close>

definition string_find :: "char \<Rightarrow> string \<Rightarrow> nat option" where
  "string_find c s = (let pos = length (takeWhile (\<lambda>x. x \<noteq> c) s)
     in if pos < length s then Some pos else None)"

definition Identifier_of_string :: "string \<Rightarrow> zinc_error + Identifier" where
  "Identifier_of_string v = (case string_find (CHR '':'') v of
     None \<Rightarrow> Inl LengthError
   | Some pos \<Rightarrow> Inr \<lparr>m_namespace = take pos v, m_object = drop (pos + 1) v\<rparr>)"

definition Identifier_eq :: "Identifier \<Rightarrow> Identifier \<Rightarrow> bool" where
  "Identifier_eq a b \<longleftrightarrow> Identifier_toString a = Identifier_toString b"

definition writeIdentifier :: "Identifier \<Rightarrow> unit bb" where
  "writeIdentifier v = writeString (Identifier_toString v)"

definition readIdentifier :: "Identifier bb" where
  "readIdentifier = bnd readString (\<lambda>s. lift_result (Identifier_of_string s))"

section \<open>Vectors and positions\<close>

record 'a Vector2 =
  v2_x :: 'a
  v2_y :: 'a

record 'a Vector3 =
  v3_x :: 'a
  v3_y :: 'a
  v3_z :: 'a

type_synonym Vector2f = "i32 Vector2"
type_synonym Vector3i = "i32 Vector3"
type_synonym Vector3f = "i32 Vector3"

definition mk_Vector2 :: "'a \<Rightarrow> 'a \<Rightarrow> 'a Vector2" where
  "mk_Vector2 x y = \<lparr>v2_x = x, v2_y = y\<rparr>"

definition mk_Vector3 :: "'a \<Rightarrow> 'a \<Rightarrow> 'a \<Rightarrow> 'a Vector3" where
  "mk_Vector3 x y z = \<lparr>v3_x = x, v3_y = y, v3_z = z\<rparr>"

definition Vector2_at :: "'a Vector2 \<Rightarrow> nat \<Rightarrow> 'a" where
  "Vector2_at v i = (if i = 0 then v2_x v else v2_y v)"

definition Vector3_at :: "'a Vector3 \<Rightarrow> nat \<Rightarrow> 'a" where
  "Vector3_at v i = (if i = 0 then v3_x v else if i = 1 then v3_y v else v3_z v)"

definition Vector2_getValues :: "'a Vector2 \<Rightarrow> 'a list" where
  "Vector2_getValues v = [v2_x v, v2_y v]"

definition Vector3_getValues :: "'a Vector3 \<Rightarrow> 'a list" where
  "Vector3_getValues v = [v3_x v, v3_y v, v3_z v]"

text \<open>\<open>==\<close> compares the vectors of the components with the \<open>==\<close> of the component type.\<close>

definition Vector2_eq :: "('a \<Rightarrow> 'a \<Rightarrow> bool) \<Rightarrow> 'a Vector2 \<Rightarrow> 'a Vector2 \<Rightarrow> bool" where
  "Vector2_eq eq a b \<longleftrightarrow> list_all2 eq (Vector2_getValues b) (Vector2_getValues a)"

definition Vector3_eq :: "('a \<Rightarrow> 'a \<Rightarrow> bool) \<Rightarrow> 'a Vector3 \<Rightarrow> 'a Vector3 \<Rightarrow> bool" where
  "Vector3_eq eq a b \<longleftrightarrow> list_all2 eq (Vector3_getValues b) (Vector3_getValues a)"

definition writeVector3 :: "Vector3f \<Rightarrow> unit bb" where
  "writeVector3 v = thn (writeNumeric (v3_x v)) (thn (writeNumeric (v3_y v)) (writeNumeric (v3_z v)))"

definition readVector3 :: "arg_order \<Rightarrow> Vector3f bb" where
  "readVector3 ord = args3 ord readNumeric readNumeric readNumeric mk_Vector3"

definition writeVector2 :: "Vector2f \<Rightarrow> unit bb" where
  "writeVector2 v = thn (writeNumeric (v2_x v)) (writeNumeric (v2_y v))"

definition readVector2 :: "arg_order \<Rightarrow> Vector2f bb" where
  "readVector2 ord = args2 ord readNumeric readNumeric mk_Vector2"

definition writeBlockCoordinates :: "Vector3i \<Rightarrow> unit bb" where
  "writeBlockCoordinates v =
     thn (writeVarInt (v3_x v)) (thn (writeVarInt (v3_y v)) (writeVarInt (v3_z v)))"

definition readBlockCoordinates :: "arg_order \<Rightarrow> Vector3i bb" where
  "readBlockCoordinates ord = args3 ord readVarInt readVarInt readVarInt mk_Vector3"

text \<open>Positions packed into 64 bits: 26 for x, 26 for z, 12 for y.\<close>

definition pack_position :: "Vector3i \<Rightarrow> i64" where
  "pack_position v =
     (push_bit 38 (scast (v3_x v) AND 0x3FFFFFF) OR push_bit 12 (scast (v3_z v) AND 0x3FFFFFF))
       OR (scast (v3_y v) AND 0xFFF)"

definition unpack_position :: "i64 \<Rightarrow> Vector3i" where
  "unpack_position longVal =
     (let x = ucast (signed_drop_bit 38 longVal);
          z = ucast (signed_drop_bit 12 longVal AND 0x3FFFFFF);
          y = ucast (longVal AND 0xFFF);
          x' = signed_drop_bit 6 (push_bit 6 x);
          z' = signed_drop_bit 6 (push_bit 6 z);
          y' = signed_drop_bit 20 (push_bit 20 y)
      in mk_Vector3 x' y' z')"

definition writePosition :: "Vector3i \<Rightarrow> unit bb" where
  "writePosition v = writeNumeric (pack_position v)"

definition readPosition :: "Vector3i bb" where
  "readPosition = bnd readNumeric (\<lambda>longVal. ret (unpack_position longVal))"

section \<open>IDorX and XorY\<close>

record 'a IDorX =
  x_id :: i32
  x_value :: "'a option"

definition IDorX_new :: "'a IDorX" where
  "IDorX_new = \<lparr>x_id = - 1, x_value = None\<rparr>"

definition IDorX_of_id :: "i32 \<Rightarrow> 'a IDorX" where
  "IDorX_of_id i = \<lparr>x_id = i, x_value = None\<rparr>"

definition IDorX_of_value :: "'a \<Rightarrow> 'a IDorX" where
  "IDorX_of_value v = \<lparr>x_id = 0, x_value = Some v\<rparr>"

definition IDorX_setId :: "i32 \<Rightarrow> 'a IDorX \<Rightarrow> 'a IDorX" where
  "IDorX_setId i x = (let x' = x\<lparr>x_id := i\<rparr> in if i \<noteq> 0 then x'\<lparr>x_value := None\<rparr> else x')"

definition IDorX_setValue :: "'a \<Rightarrow> 'a IDorX \<Rightarrow> 'a IDorX" where
  "IDorX_setValue v x = x\<lparr>x_id := 0, x_value := Some v\<rparr>"

text \<open>The reference getter throws without a value, the \<open>const\<close> one returns \<open>T{}\<close>.\<close>

definition IDorX_valueRef :: "'a IDorX \<Rightarrow> zinc_error + 'a" where
  "IDorX_valueRef x = (case x_value x of None \<Rightarrow> Inl BadOptionalAccess | Some v \<Rightarrow> Inr v)"

definition IDorX_getValue :: "'a \<Rightarrow> 'a IDorX \<Rightarrow> 'a" where
  "IDorX_getValue default_T x = (case x_value x of None \<Rightarrow> default_T | Some v \<Rightarrow> v)"

definition IDorX_eq :: "'a \<Rightarrow> ('a \<Rightarrow> 'a \<Rightarrow> bool) \<Rightarrow> 'a IDorX \<Rightarrow> 'a IDorX \<Rightarrow> bool" where
  "IDorX_eq default_T eq a b \<longleftrightarrow>
     x_id b = x_id a \<and> eq (IDorX_getValue default_T b) (IDorX_getValue default_T a)"

definition writeIDorX :: "'a \<Rightarrow> ('a \<Rightarrow> unit bb) \<Rightarrow> 'a IDorX \<Rightarrow> unit bb" where
  "writeIDorX default_T func v =
     thn (writeVarInt (x_id v)) (if x_id v = 0 then func (IDorX_getValue default_T v) else ret ())"

definition readIDorX :: "'a bb \<Rightarrow> 'a IDorX bb" where
  "readIDorX func = bnd readVarInt (\<lambda>i.
     let result = IDorX_setId i IDorX_new
     in if x_id result = 0 then bnd func (\<lambda>v. ret (IDorX_setValue v result)) else ret result)"

record ('a, 'b) XorY =
  xy_x :: "'a option"
  xy_y :: "'b option"

definition XorY_of_x :: "'a \<Rightarrow> ('a, 'b) XorY" where
  "XorY_of_x x = \<lparr>xy_x = Some x, xy_y = None\<rparr>"

definition XorY_of_y :: "'b \<Rightarrow> ('a, 'b) XorY" where
  "XorY_of_y y = \<lparr>xy_x = None, xy_y = Some y\<rparr>"

definition XorY_eq ::
  "('a \<Rightarrow> 'a \<Rightarrow> bool) \<Rightarrow> ('b \<Rightarrow> 'b \<Rightarrow> bool) \<Rightarrow> ('a, 'b) XorY \<Rightarrow> ('a, 'b) XorY \<Rightarrow> bool" where
  "XorY_eq eqx eqy a b \<longleftrightarrow>
     (if (xy_x a \<noteq> None) \<noteq> (xy_x b \<noteq> None) then False
      else if (xy_y a \<noteq> None) \<noteq> (xy_y b \<noteq> None) then False
      else case (xy_x a, xy_x b) of (Some x, Some x') \<Rightarrow> eqx x x'
        | _ \<Rightarrow> (case (xy_y a, xy_y b) of (Some y, Some y') \<Rightarrow> eqy y y' | _ \<Rightarrow> False))"

text \<open>
  The two overloads of \<open>writeXorY\<close>: the one over functions sends which alternative follows,
  the one over member functions does not.
\<close>

definition writeXorY_payload ::
  "('a \<Rightarrow> unit bb) \<Rightarrow> ('b \<Rightarrow> unit bb) \<Rightarrow> ('a, 'b) XorY \<Rightarrow> unit bb" where
  "writeXorY_payload funcX funcY v =
     (case xy_x v of Some x \<Rightarrow> funcX x
      | None \<Rightarrow> (case xy_y v of Some y \<Rightarrow> funcY y | None \<Rightarrow> fail BadOptionalAccess))"

definition writeXorY :: "('a \<Rightarrow> unit bb) \<Rightarrow> ('b \<Rightarrow> unit bb) \<Rightarrow> ('a, 'b) XorY \<Rightarrow> unit bb" where
  "writeXorY funcX funcY v =
     (if (xy_x v \<noteq> None) = (xy_y v \<noteq> None) then ret ()
      else thn (writeBool (xy_x v \<noteq> None)) (writeXorY_payload funcX funcY v))"

definition writeXorY_members :: "('a \<Rightarrow> unit bb) \<Rightarrow> ('b \<Rightarrow> unit bb) \<Rightarrow> ('a, 'b) XorY \<Rightarrow> unit bb" where
  "writeXorY_members funcX funcY v =
     (if (xy_x v \<noteq> None) = (xy_y v \<noteq> None) then ret () else writeXorY_payload funcX funcY v)"

definition readXorY :: "'a bb \<Rightarrow> 'b bb \<Rightarrow> ('a, 'b) XorY bb" where
  "readXorY funcX funcY = bnd readBool (\<lambda>isX.
     if isX then bnd funcX (\<lambda>x. ret (XorY_of_x x)) else bnd funcY (\<lambda>y. ret (XorY_of_y y)))"

section \<open>IDSet\<close>

record IDSet =
  m_type :: i32
  m_identifier :: Identifier
  m_ids :: "i32 list"

definition IDSet_new :: IDSet where
  "IDSet_new = \<lparr>m_type = - 1, m_identifier = default_Identifier, m_ids = []\<rparr>"

definition IDSet_of_identifier :: "Identifier \<Rightarrow> IDSet" where
  "IDSet_of_identifier i = \<lparr>m_type = 0, m_identifier = i, m_ids = []\<rparr>"

definition IDSet_of_ids :: "i32 list \<Rightarrow> IDSet" where
  "IDSet_of_ids ids = \<lparr>m_type = int_of_size (length ids + 1), m_identifier = default_Identifier, m_ids = ids\<rparr>"

definition IDSet_setIdentifier :: "Identifier \<Rightarrow> IDSet \<Rightarrow> IDSet" where
  "IDSet_setIdentifier i s = s\<lparr>m_type := 0, m_identifier := i\<rparr>"

definition IDSet_setIDs :: "i32 list \<Rightarrow> IDSet \<Rightarrow> IDSet" where
  "IDSet_setIDs ids s = s\<lparr>m_type := int_of_size (length ids + 1), m_ids := ids\<rparr>"

definition IDSet_setType :: "i32 \<Rightarrow> IDSet \<Rightarrow> IDSet" where
  "IDSet_setType t s = (let s' = s\<lparr>m_type := t\<rparr> in if t = 0 then s'\<lparr>m_ids := []\<rparr> else s')"

definition IDSet_eq :: "IDSet \<Rightarrow> IDSet \<Rightarrow> bool" where
  "IDSet_eq a b \<longleftrightarrow> m_type b = m_type a \<and> Identifier_eq (m_identifier b) (m_identifier a) \<and> m_ids b = m_ids a"

definition writeIDSet :: "IDSet \<Rightarrow> unit bb" where
  "writeIDSet s = thn (writeVarInt (m_type s))
     (if m_type s = 0 then writeIdentifier (m_identifier s) else writeArray writeVarInt (m_ids s))"

definition readIDSet :: "IDSet bb" where
  "readIDSet = bnd readVarInt (\<lambda>t.
     let result = IDSet_setType t IDSet_new
     in if m_type result \<noteq> 0
        then bnd (readArray readVarInt (size_of_int (m_type result - 1))) (\<lambda>ids. ret (IDSet_setIDs ids result))
        else bnd readIdentifier (\<lambda>i. ret (IDSet_setIdentifier i result)))"

section \<open>SoundEvent\<close>

record SoundEvent =
  s_identifier :: Identifier
  s_fixedRange :: "i32 option"

definition SoundEvent_new :: "Identifier \<Rightarrow> SoundEvent" where
  "SoundEvent_new i = \<lparr>s_identifier = i, s_fixedRange = None\<rparr>"

definition default_SoundEvent :: SoundEvent where
  "default_SoundEvent = SoundEvent_new default_Identifier"

definition SoundEvent_hasFixedRange :: "SoundEvent \<Rightarrow> bool" where
  "SoundEvent_hasFixedRange s \<longleftrightarrow> s_fixedRange s \<noteq> None"

definition SoundEvent_getFixedRange :: "SoundEvent \<Rightarrow> i32" where
  "SoundEvent_getFixedRange s = (case s_fixedRange s of Some r \<Rightarrow> r | None \<Rightarrow> 0)"

definition SoundEvent_setIdentifier :: "Identifier \<Rightarrow> SoundEvent \<Rightarrow> SoundEvent" where
  "SoundEvent_setIdentifier i s = s\<lparr>s_identifier := i\<rparr>"

definition SoundEvent_setFixedRange :: "i32 \<Rightarrow> SoundEvent \<Rightarrow> SoundEvent" where
  "SoundEvent_setFixedRange r s = s\<lparr>s_fixedRange := Some r\<rparr>"

definition SoundEvent_resetFixedRange :: "SoundEvent \<Rightarrow> SoundEvent" where
  "SoundEvent_resetFixedRange s = s\<lparr>s_fixedRange := None\<rparr>"

text \<open>\<open>operator==\<close> calls \<open>m_fixedRange.value()\<close> also when neither side has a range.\<close>

definition SoundEvent_eq :: "SoundEvent \<Rightarrow> SoundEvent \<Rightarrow> zinc_error + bool" where
  "SoundEvent_eq a b =
     (if (s_fixedRange a \<noteq> None) = SoundEvent_hasFixedRange b
      then (case s_fixedRange a of None \<Rightarrow> Inl BadOptionalAccess
            | Some r \<Rightarrow> Inr (float_eq r (SoundEvent_getFixedRange b)
                \<and> Identifier_eq (s_identifier a) (s_identifier b)))
      else Inr False)"

definition writeSoundEvent :: "SoundEvent \<Rightarrow> unit bb" where
  "writeSoundEvent s = thn (writeIdentifier (s_identifier s))
     (thn (writeBool (SoundEvent_hasFixedRange s)) (writeNumeric (SoundEvent_getFixedRange s)))"

definition readSoundEvent :: "SoundEvent bb" where
  "readSoundEvent = bnd readIdentifier (\<lambda>i. bnd readBool (\<lambda>has.
     if has then bnd readNumeric (\<lambda>r. ret (SoundEvent_setFixedRange r (SoundEvent_new i)))
     else ret (SoundEvent_new i)))"

section \<open>PlayerLocation\<close>

record PlayerLocation =
  m_position :: Vector3f
  m_pitch :: i32
  m_headYaw :: i32
  m_yaw :: i32

definition PlayerLocation_new :: PlayerLocation where
  "PlayerLocation_new = \<lparr>m_position = mk_Vector3 0 0 0, m_pitch = 0, m_headYaw = 0, m_yaw = 0\<rparr>"

definition setPosition :: "Vector3f \<Rightarrow> PlayerLocation \<Rightarrow> PlayerLocation" where
  "setPosition p l = l\<lparr>m_position := p\<rparr>"

definition setPitch :: "i32 \<Rightarrow> PlayerLocation \<Rightarrow> PlayerLocation" where
  "setPitch v l = l\<lparr>m_pitch := v\<rparr>"

definition setHeadYaw :: "i32 \<Rightarrow> PlayerLocation \<Rightarrow> PlayerLocation" where
  "setHeadYaw v l = l\<lparr>m_headYaw := v\<rparr>"

definition setYaw :: "i32 \<Rightarrow> PlayerLocation \<Rightarrow> PlayerLocation" where
  "setYaw v l = l\<lparr>m_yaw := v\<rparr>"

definition PlayerLocation_eq :: "PlayerLocation \<Rightarrow> PlayerLocation \<Rightarrow> bool" where
  "PlayerLocation_eq a b \<longleftrightarrow> Vector3_eq float_eq (m_position a) (m_position b)
     \<and> float_eq (m_pitch a) (m_pitch b) \<and> float_eq (m_headYaw a) (m_headYaw b)
     \<and> float_eq (m_yaw a) (m_yaw b)"

section \<open>TeleportFlags\<close>

record TeleportFlags =
  m_relX :: bool
  m_relY :: bool
  m_relZ :: bool
  m_relYaw :: bool
  m_relPitch :: bool
  m_relVelocityX :: bool
  m_relVelocityY :: bool
  m_relVelocityZ :: bool
  m_rotVelocity :: bool

definition no_flags :: TeleportFlags where
  "no_flags = \<lparr>m_relX = False, m_relY = False, m_relZ = False, m_relYaw = False, m_relPitch = False, m_relVelocityX = False, m_relVelocityY = False, m_relVelocityZ = False, m_rotVelocity = False\<rparr>"

definition flags_of_int :: "i32 \<Rightarrow> TeleportFlags" where
  "flags_of_int v = \<lparr>m_relX = (v AND 1 \<noteq> 0),
     m_relY = (v AND 2 \<noteq> 0),
     m_relZ = (v AND 4 \<noteq> 0),
     m_relYaw = (v AND 8 \<noteq> 0),
     m_relPitch = (v AND 16 \<noteq> 0),
     m_relVelocityX = (v AND 32 \<noteq> 0),
     m_relVelocityY = (v AND 64 \<noteq> 0),
     m_relVelocityZ = (v AND 128 \<noteq> 0),
     m_rotVelocity = (v AND 256 \<noteq> 0)\<rparr>"

definition flags_of_bitset :: "BitSet \<Rightarrow> TeleportFlags" where
  "flags_of_bitset b = \<lparr>m_relX = bs_get 0 b, m_relY = bs_get 1 b, m_relZ = bs_get 2 b, m_relYaw = bs_get 3 b, m_relPitch = bs_get 4 b, m_relVelocityX = bs_get 5 b, m_relVelocityY = bs_get 6 b, m_relVelocityZ = bs_get 7 b, m_rotVelocity = bs_get 8 b\<rparr>"

definition setRelX :: "bool \<Rightarrow> TeleportFlags \<Rightarrow> TeleportFlags" where
  "setRelX v f = f\<lparr>m_relX := v\<rparr>"

definition setRelY :: "bool \<Rightarrow> TeleportFlags \<Rightarrow> TeleportFlags" where
  "setRelY v f = f\<lparr>m_relY := v\<rparr>"

definition setRelZ :: "bool \<Rightarrow> TeleportFlags \<Rightarrow> TeleportFlags" where
  "setRelZ v f = f\<lparr>m_relZ := v\<rparr>"

definition setRelYaw :: "bool \<Rightarrow> TeleportFlags \<Rightarrow> TeleportFlags" where
  "setRelYaw v f = f\<lparr>m_relYaw := v\<rparr>"

definition setRelPitch :: "bool \<Rightarrow> TeleportFlags \<Rightarrow> TeleportFlags" where
  "setRelPitch v f = f\<lparr>m_relPitch := v\<rparr>"

definition setRelVelocityX :: "bool \<Rightarrow> TeleportFlags \<Rightarrow> TeleportFlags" where
  "setRelVelocityX v f = f\<lparr>m_relVelocityX := v\<rparr>"

definition setRelVelocityY :: "bool \<Rightarrow> TeleportFlags \<Rightarrow> TeleportFlags" where
  "setRelVelocityY v f = f\<lparr>m_relVelocityY := v\<rparr>"

definition setRelVelocityZ :: "bool \<Rightarrow> TeleportFlags \<Rightarrow> TeleportFlags" where
  "setRelVelocityZ v f = f\<lparr>m_relVelocityZ := v\<rparr>"

definition setRotVelocity :: "bool \<Rightarrow> TeleportFlags \<Rightarrow> TeleportFlags" where
  "setRotVelocity v f = f\<lparr>m_rotVelocity := v\<rparr>"

definition flipRelX :: "TeleportFlags \<Rightarrow> TeleportFlags" where
  "flipRelX f = f\<lparr>m_relX := \<not> m_relX f\<rparr>"

definition flipRelY :: "TeleportFlags \<Rightarrow> TeleportFlags" where
  "flipRelY f = f\<lparr>m_relY := \<not> m_relY f\<rparr>"

definition flipRelZ :: "TeleportFlags \<Rightarrow> TeleportFlags" where
  "flipRelZ f = f\<lparr>m_relZ := \<not> m_relZ f\<rparr>"

definition flipRelYaw :: "TeleportFlags \<Rightarrow> TeleportFlags" where
  "flipRelYaw f = f\<lparr>m_relYaw := \<not> m_relYaw f\<rparr>"

definition flipRelPitch :: "TeleportFlags \<Rightarrow> TeleportFlags" where
  "flipRelPitch f = f\<lparr>m_relPitch := \<not> m_relPitch f\<rparr>"

definition flipRelVelocityX :: "TeleportFlags \<Rightarrow> TeleportFlags" where
  "flipRelVelocityX f = f\<lparr>m_relVelocityX := \<not> m_relVelocityX f\<rparr>"

definition flipRelVelocityY :: "TeleportFlags \<Rightarrow> TeleportFlags" where
  "flipRelVelocityY f = f\<lparr>m_relVelocityY := \<not> m_relVelocityY f\<rparr>"

definition flipRelVelocityZ :: "TeleportFlags \<Rightarrow> TeleportFlags" where
  "flipRelVelocityZ f = f\<lparr>m_relVelocityZ := \<not> m_relVelocityZ f\<rparr>"

definition flipRotVelocity :: "TeleportFlags \<Rightarrow> TeleportFlags" where
  "flipRotVelocity f = f\<lparr>m_rotVelocity := \<not> m_rotVelocity f\<rparr>"

definition flags_encode :: "TeleportFlags \<Rightarrow> i32" where
  "flags_encode f =
     (if m_relX f then 1 else 0)
     + (if m_relY f then 2 else 0)
     + (if m_relZ f then 4 else 0)
     + (if m_relYaw f then 8 else 0)
     + (if m_relPitch f then 16 else 0)
     + (if m_relVelocityX f then 32 else 0)
     + (if m_relVelocityY f then 64 else 0)
     + (if m_relVelocityZ f then 128 else 0)
     + (if m_rotVelocity f then 256 else 0)"

definition flags_eq :: "TeleportFlags \<Rightarrow> TeleportFlags \<Rightarrow> bool" where
  "flags_eq a b \<longleftrightarrow> flags_encode a = flags_encode b"

definition writeTeleportFlags :: "TeleportFlags \<Rightarrow> unit bb" where
  "writeTeleportFlags f = writeNumeric (flags_encode f)"

definition readTeleportFlags :: "TeleportFlags bb" where
  "readTeleportFlags = bnd readNumeric (\<lambda>v. ret (flags_of_int v))"

section \<open>UUID\<close>

text \<open>
  A \<open>uuids::uuid\<close> is its 16 bytes. The array that \<open>readUUID\<close> fills is not initialised: a
  short read leaves the rest of it indeterminate.
\<close>

definition writeUUID :: "byte list \<Rightarrow> unit bb" where
  "writeUUID uuid = each writeUnsignedByte uuid"

definition readUUID :: "byte list bb" where
  "readUUID = bnd (readBytes 16) (\<lambda>bytes. if length bytes = 16 then ret bytes else fail Indeterminate)"

section \<open>Round trips\<close>

lemma Identifier_of_toString:
  "CHR '':'' \<notin> set (m_namespace i) \<Longrightarrow> Identifier_of_string (Identifier_toString i) = Inr i"
proof -
  assume "CHR '':'' \<notin> set (m_namespace i)"
  then have "takeWhile (\<lambda>x. x \<noteq> CHR '':'') (Identifier_toString i) = m_namespace i"
    by (auto simp: Identifier_toString_def takeWhile_append)
  then show ?thesis
    by (simp add: Identifier_of_string_def string_find_def Let_def) (simp add: Identifier_toString_def)
qed

lemma Identifier_toString_of:
  "Identifier_of_string s = Inr i \<Longrightarrow> Identifier_toString i = s \<and> CHR '':'' \<notin> set (m_namespace i)"
proof -
  assume a: "Identifier_of_string s = Inr i"
  let ?n = "length (takeWhile (\<lambda>x. x \<noteq> CHR '':'') s)"
  have n: "?n < length s" and i: "i = \<lparr>m_namespace = take ?n s, m_object = drop (?n + 1) s\<rparr>"
    using a by (auto simp: Identifier_of_string_def string_find_def Let_def split: if_splits option.splits)
  have "s ! ?n = CHR '':''" using nth_length_takeWhile [OF n] by simp
  then have "take ?n s @ [CHR '':''] @ drop (?n + 1) s = s"
    using n by (metis Suc_eq_plus1 append.assoc append_take_drop_id take_Suc_conv_app_nth)
  moreover have "take ?n s = takeWhile (\<lambda>x. x \<noteq> CHR '':'') s" by (simp add: takeWhile_eq_take [symmetric])
  ultimately show ?thesis using i set_takeWhileD [of "CHR '':''" _ s]
    by (auto simp: Identifier_toString_def)
qed

definition identifier_ok :: "Identifier \<Rightarrow> bool" where
  "identifier_ok i \<longleftrightarrow> CHR '':'' \<notin> set (m_namespace i) \<and> length (Identifier_toString i) < 2 ^ 31"

definition identifier_bytes :: "Identifier \<Rightarrow> byte list" where
  "identifier_bytes i = string_bytes (Identifier_toString i)"

lemma appends_writeIdentifier [appends_intros]: "appends be (writeIdentifier i) (identifier_bytes i)"
  by (simp add: writeIdentifier_def identifier_bytes_def appends_writeString)

lemma reads_lift_ret: "v = Inr x \<Longrightarrow> reads be (lift_result v) [] x"
  by (simp add: reads_def lift_result_def)

lemma reads_readIdentifier [reads_intros]:
  "identifier_ok i \<Longrightarrow> reads be readIdentifier (identifier_bytes i) i"
  unfolding readIdentifier_def identifier_bytes_def identifier_ok_def
  by (rule reads_cong [OF reads_bnd [OF reads_readString reads_lift_ret]])
    (auto simp: Identifier_of_toString)

interpretation identifier_codec: codec writeIdentifier readIdentifier be identifier_bytes identifier_ok for be
  by unfold_locales (auto intro: appends_intros reads_intros)

lemma identifier_ok_default [simp]: "identifier_ok default_Identifier"
  by (simp add: identifier_ok_def default_Identifier_def Identifier_toString_def)

text \<open>The template \<open>writeIDorX\<close>, from the contract of the value functions.\<close>

definition idorx_ok :: "('a \<Rightarrow> bool) \<Rightarrow> 'a IDorX \<Rightarrow> bool" where
  "idorx_ok ok x \<longleftrightarrow> (if x_id x = 0 then (\<exists>v. x_value x = Some v \<and> ok v) else x_value x = None)"

definition idorx_bytes :: "('a \<Rightarrow> byte list) \<Rightarrow> 'a IDorX \<Rightarrow> byte list" where
  "idorx_bytes enc x = var_bytes (x_id x)
     @ (if x_id x = 0 then (case x_value x of Some v \<Rightarrow> enc v | None \<Rightarrow> []) else [])"

lemma codec_idorx:
  assumes "codec w r be enc ok"
  shows "codec (writeIDorX d w) (readIDorX r) be (idorx_bytes enc) (idorx_ok ok)"
proof
  fix x assume ok: "idorx_ok ok x"
  have "appends be (if x_id x = 0 then w (IDorX_getValue d x) else ret ())
      (if x_id x = 0 then (case x_value x of Some v \<Rightarrow> enc v | None \<Rightarrow> []) else [])"
    using ok codec.writes [OF assms] by (auto simp: idorx_ok_def IDorX_getValue_def intro: appends_ret)
  then show "appends be (writeIDorX d w x) (idorx_bytes enc x)"
    unfolding writeIDorX_def idorx_bytes_def by (intro appends_intros)
next
  fix x assume ok: "idorx_ok ok x"
  show "reads be (readIDorX r) (idorx_bytes enc x) x"
  proof (cases "x_id x = 0")
    case True
    with ok obtain v where v: "x_value x = Some v" "ok v" by (auto simp: idorx_ok_def)
    with True have "IDorX_setValue v (IDorX_setId 0 IDorX_new) = x"
      by (cases x) (simp add: IDorX_setValue_def IDorX_setId_def Let_def IDorX_new_def)
    with v True show ?thesis unfolding readIDorX_def idorx_bytes_def
      by (auto simp: IDorX_setId_def Let_def
          intro!: reads_bnd [OF reads_readVarNumeric] reads_bnd_ret codec.reads_back [OF assms])
  next
    case False
    with ok have "IDorX_setId (x_id x) IDorX_new = x"
      by (cases x) (simp add: IDorX_setId_def Let_def IDorX_new_def idorx_ok_def)
    with False show ?thesis unfolding readIDorX_def idorx_bytes_def
      by (intro reads_bnd [OF reads_readVarNumeric])
        (simp add: Let_def reads_ret IDorX_setId_def [of "x_id x"] cong: if_cong)
  qed
qed

definition idset_ok :: "IDSet \<Rightarrow> bool" where
  "idset_ok s \<longleftrightarrow> (if m_type s = 0 then identifier_ok (m_identifier s) \<and> m_ids s = []
     else m_identifier s = default_Identifier \<and> length (m_ids s) < 2 ^ 31 - 1
       \<and> m_type s = int_of_size (length (m_ids s) + 1))"

definition idset_bytes :: "IDSet \<Rightarrow> byte list" where
  "idset_bytes s = var_bytes (m_type s)
     @ (if m_type s = 0 then identifier_bytes (m_identifier s) else concat (map var_bytes (m_ids s)))"

lemma int_of_size_Suc: "int_of_size (Suc n) - 1 = int_of_size n"
  by (simp add: int_of_size_def)

interpretation idset_codec: codec writeIDSet readIDSet be idset_bytes idset_ok for be
proof
  fix s assume "idset_ok s"
  then show "appends be (writeIDSet s) (idset_bytes s)"
    unfolding writeIDSet_def idset_bytes_def writeArray_def
    by (auto intro: appends_intros)
next
  fix s assume ok: "idset_ok s"
  show "reads be readIDSet (idset_bytes s) s"
  proof (cases "m_type s = 0")
    case True
    with ok have "IDSet_setIdentifier (m_identifier s) (IDSet_setType 0 IDSet_new) = s"
      by (cases s) (simp add: IDSet_setIdentifier_def IDSet_setType_def IDSet_new_def Let_def idset_ok_def)
    with ok True show ?thesis unfolding readIDSet_def idset_bytes_def
      by (auto simp: IDSet_setType_def Let_def idset_ok_def
          intro!: reads_bnd [OF reads_readVarNumeric] reads_bnd_ret reads_readIdentifier)
  next
    case False
    with ok have n: "length (m_ids s) < 2 ^ 31" "m_type s - 1 = int_of_size (length (m_ids s))"
      and s: "IDSet_setIDs (m_ids s) (IDSet_setType (m_type s) IDSet_new) = s"
      by (auto simp: IDSet_setIDs_def IDSet_setType_def IDSet_new_def Let_def idset_ok_def int_of_size_Suc)
    have "reads be (readArray readVarInt (size_of_int (m_type s - 1))) (concat (map var_bytes (m_ids s))) (m_ids s)"
      using varint_codec.reads_readArray [of "m_ids s"] n by (simp add: list_all_iff)
    with False s show ?thesis unfolding readIDSet_def idset_bytes_def
      by (auto simp: Let_def IDSet_setType_def intro!: reads_bnd [OF reads_readVarNumeric] reads_bnd_ret)
  qed
qed

section \<open>Packed positions\<close>

lemma bit_small_sint:
  fixes x :: i32
  assumes "- (2 ^ m) \<le> sint x" and "sint x < 2 ^ m" and "m \<le> k" and "k < 32" and "m < 32"
  shows "bit x k = bit x m"
proof -
  have "signed_take_bit m (sint x) = sint x" using assms by (intro signed_take_bit_int_eq_self)
  then have "bit (sint x) k = bit (signed_take_bit m (sint x)) k" by simp
  also have "\<dots> = bit (sint x) m" using assms(3) by (simp add: bit_signed_take_bit_iff min_def)
  finally have "bit (sint x) k = bit (sint x) m" .
  with assms(4,5) show ?thesis by (simp add: bit_sint_iff)
qed

lemma mask_26: "(0x3FFFFFF :: i64) = mask 26" and mask_12: "(0xFFF :: i64) = mask 12"
  by (simp_all add: mask_eq_exp_minus_1)

lemma unpack_pack_position:
  assumes "- (2 ^ 25) \<le> sint (v3_x v)" "sint (v3_x v) < 2 ^ 25"
    and "- (2 ^ 25) \<le> sint (v3_z v)" "sint (v3_z v) < 2 ^ 25"
    and "- (2 ^ 11) \<le> sint (v3_y v)" "sint (v3_y v) < 2 ^ 11"
  shows "unpack_position (pack_position v) = v"
proof -
  let ?p = "pack_position v"
  have px: "bit ?p (38 + k) = bit (v3_x v) k" if "k < 26" for k
    using that bit_imp_le_length [of "?p" "38 + k"] unfolding pack_position_def mask_26 mask_12
    by (simp add: bit_simps min_def)
  have pz: "bit ?p (12 + k) = bit (v3_z v) k" if "k < 26" for k
    using that unfolding pack_position_def mask_26 mask_12 by (simp add: bit_simps min_def)
  have py: "bit ?p k = bit (v3_y v) k" if "k < 12" for k
    using that unfolding pack_position_def mask_26 mask_12 by (simp add: bit_simps min_def)
  have x: "bit (v3_x v) k = bit (v3_x v) 25" if "25 \<le> k" "k < 32" for k
    using bit_small_sint [OF assms(1,2) that] by simp
  have z: "bit (v3_z v) k = bit (v3_z v) 25" if "25 \<le> k" "k < 32" for k
    using bit_small_sint [OF assms(3,4) that] by simp
  have y: "bit (v3_y v) k = bit (v3_y v) 11" if "11 \<le> k" "k < 32" for k
    using bit_small_sint [OF assms(5,6) that] by simp
  have "signed_drop_bit 6 (push_bit 6 (ucast (signed_drop_bit 38 ?p) :: i32)) = v3_x v"
  proof (rule bit_word_eqI)
    fix n assume "n < LENGTH(32)"
    then have n: "n < 32" by simp
    show "bit (signed_drop_bit 6 (push_bit 6 (ucast (signed_drop_bit 38 ?p) :: i32))) n = bit (v3_x v) n"
      using n x [of n] px [of "min n 25"] by (cases "n < 26") (simp_all add: bit_simps min_def)
  qed
  moreover have "signed_drop_bit 6 (push_bit 6 (ucast (signed_drop_bit 12 ?p AND mask 26) :: i32)) = v3_z v"
  proof (rule bit_word_eqI)
    fix n assume "n < LENGTH(32)"
    then have n: "n < 32" by simp
    show "bit (signed_drop_bit 6 (push_bit 6 (ucast (signed_drop_bit 12 ?p AND mask 26) :: i32))) n = bit (v3_z v) n"
      using n z [of n] pz [of "min n 25"] by (cases "n < 26") (simp_all add: bit_simps min_def)
  qed
  moreover have "signed_drop_bit 20 (push_bit 20 (ucast (?p AND mask 12) :: i32)) = v3_y v"
  proof (rule bit_word_eqI)
    fix n assume "n < LENGTH(32)"
    then have n: "n < 32" by simp
    show "bit (signed_drop_bit 20 (push_bit 20 (ucast (?p AND mask 12) :: i32))) n = bit (v3_y v) n"
      using n y [of n] py [of "min n 11"] by (cases "n < 12") (simp_all add: bit_simps min_def)
  qed
  ultimately show ?thesis
    by (simp add: unpack_position_def Let_def mk_Vector3_def mask_26 mask_12)
qed

text \<open>Nine flags, nine bits.\<close>

lemma bit_flag: "bit ((if p then 1 else 0) + 2 * w :: i32) n \<longleftrightarrow> n < 32 \<and> (if n = 0 then p else bit w (n - 1))"
proof -
  have "(if p then 1 else 0) + 2 * w = (2 * w OR (if p then 1 else 0))"
    by (simp add: or_one_eq)
  moreover have "bit (if p then 1 else (0 :: i32)) n \<longleftrightarrow> p \<and> n = 0" by (simp add: bit_1_iff)
  ultimately show ?thesis by (auto simp: bit_or_iff bit_double_iff)
qed

lemma and_power_bit: "n < 32 \<Longrightarrow> v = push_bit n 1 \<Longrightarrow> (w AND v \<noteq> 0) = bit (w :: i32) n"
  using and_mask_nonzero(1) [of n w] by simp

lemma flags_of_int_encode: "flags_of_int (flags_encode f) = f"
proof -
  let ?f = "\<lambda>p. if p then 1 else (0 :: i32)"
  have "flags_encode f = ?f (m_relX f) + 2 * (?f (m_relY f) + 2 * (?f (m_relZ f) + 2 * (?f (m_relYaw f)
      + 2 * (?f (m_relPitch f) + 2 * (?f (m_relVelocityX f) + 2 * (?f (m_relVelocityY f)
      + 2 * (?f (m_relVelocityZ f) + 2 * (?f (m_rotVelocity f) + 2 * 0))))))))"
    by (simp add: flags_encode_def)
  note bits = arg_cong [where f = bit, OF this]
  show ?thesis
    by (rule TeleportFlags.equality) (simp_all add: flags_of_int_def bits bit_flag
      and_power_bit [of 0 1] and_power_bit [of 1 2] and_power_bit [of 2 4] and_power_bit [of 3 8]
      and_power_bit [of 4 16] and_power_bit [of 5 32] and_power_bit [of 6 64] and_power_bit [of 7 128]
      and_power_bit [of 8 256])
qed

lemma reads_vector3_left:
  "reads be (readVector3 LeftToRight)
     (numeric_bytes be x @ numeric_bytes be y @ numeric_bytes be z) (mk_Vector3 x y z)"
  unfolding readVector3_def args3_def arg_order.case
  by (rule reads_intros refl)+

lemma reads_vector3_right:
  "reads be (readVector3 RightToLeft)
     (numeric_bytes be x @ numeric_bytes be y @ numeric_bytes be z) (mk_Vector3 z y x)"
  unfolding readVector3_def args3_def arg_order.case
  by (rule reads_intros refl)+

lemma appends_writeVector3 [appends_intros]:
  "appends be (writeVector3 v) (numeric_bytes be (v3_x v) @ numeric_bytes be (v3_y v) @ numeric_bytes be (v3_z v))"
  unfolding writeVector3_def by (intro appends_intros)

lemma reads_readSoundEvent_ranged:
  assumes "identifier_ok (s_identifier s)" and "s_fixedRange s = Some r"
  shows "reads be readSoundEvent (identifier_bytes (s_identifier s) @ [byte_of_bool True] @ numeric_bytes be r) s"
proof -
  have s: "SoundEvent_setFixedRange r (SoundEvent_new (s_identifier s)) = s"
    using assms(2) by (cases s) (simp add: SoundEvent_setFixedRange_def SoundEvent_new_def)
  have "reads be (if True then bnd readNumeric (\<lambda>r. ret (SoundEvent_setFixedRange r (SoundEvent_new (s_identifier s))))
      else ret (SoundEvent_new (s_identifier s))) (numeric_bytes be r) s"
    unfolding if_True by (rule reads_intros s)+
  then show ?thesis unfolding readSoundEvent_def
    by (rule reads_bnd [OF reads_readIdentifier [OF assms(1)] reads_bnd [OF reads_readBool]])
qed

lemma reads_readSoundEvent_plain:
  assumes "identifier_ok i"
  shows "reads be readSoundEvent (identifier_bytes i @ [byte_of_bool False]) (SoundEvent_new i)"
proof -
  have "reads be (bnd readBool (\<lambda>has. if has then bnd readNumeric (\<lambda>r. ret (SoundEvent_setFixedRange r (SoundEvent_new i)))
      else ret (SoundEvent_new i))) ([byte_of_bool False] @ []) (SoundEvent_new i)"
    by (rule reads_bnd [OF reads_readBool]) (simp add: reads_ret)
  then show ?thesis unfolding readSoundEvent_def
    using reads_bnd [OF reads_readIdentifier [OF assms]] by simp
qed

lemma appends_writeSoundEvent [appends_intros]:
  "appends be (writeSoundEvent s) (identifier_bytes (s_identifier s)
     @ [byte_of_bool (SoundEvent_hasFixedRange s)] @ numeric_bytes be (SoundEvent_getFixedRange s))"
  unfolding writeSoundEvent_def by (intro appends_intros)

lemma write_then_read:
  assumes "appends be w (xs @ ys)" and "reads be r xs x"
  shows "\<exists>b. bnd w (\<lambda>_. r) (new_bb be) = Inr (x, b) \<and> bb_unread b = ys"
proof -
  obtain b1 where "w (new_bb be) = Inr ((), b1)" "bb_wf b1" "m_isBigEndian b1 = be" "bb_unread b1 = xs @ ys"
    using assms(1) by (rule appendsE [where b = "new_bb be"]) auto
  with assms(2) show ?thesis by (auto elim!: readsE [where b = b1 and rest = ys] simp: bnd_Inr)
qed

section \<open>Properties\<close>

text \<open>An identifier whose namespace has no colon is recovered from its string, and from the
  wire; every string with a colon parses to an identifier that prints as the same string; a
  string without one makes the constructor throw.\<close>

theorem identifier_round_trip:
  "(CHR '':'' \<notin> set (m_namespace i) \<longrightarrow> Identifier_of_string (Identifier_toString i) = Inr i)
   \<and> (case Identifier_of_string s of
        Inr j \<Rightarrow> CHR '':'' \<in> set s \<and> Identifier_toString j = s
      | Inl e \<Rightarrow> CHR '':'' \<notin> set s \<and> e = LengthError)"
proof (intro conjI impI)
  show "CHR '':'' \<notin> set (m_namespace i) \<Longrightarrow> Identifier_of_string (Identifier_toString i) = Inr i"
    by (rule Identifier_of_toString)
  show "case Identifier_of_string s of Inr j \<Rightarrow> CHR '':'' \<in> set s \<and> Identifier_toString j = s
      | Inl e \<Rightarrow> CHR '':'' \<notin> set s \<and> e = LengthError"
  proof (cases "Identifier_of_string s")
    case (Inr j)
    from Identifier_toString_of [OF Inr] have "Identifier_toString j = s" by simp
    then have "s = m_namespace j @ '':'' @ m_object j" by (simp add: Identifier_toString_def)
    then show ?thesis using Inr \<open>Identifier_toString j = s\<close> by simp
  next
    case (Inl e)
    then have "\<not> length (takeWhile (\<lambda>x. x \<noteq> CHR '':'') s) < length s" and e: "e = LengthError"
      by (auto simp: Identifier_of_string_def string_find_def Let_def split: option.splits if_splits)
    then have "takeWhile (\<lambda>x. x \<noteq> CHR '':'') s = s"
      by (metis length_takeWhile_le le_neq_implies_less take_all_iff takeWhile_eq_take)
    then have "CHR '':'' \<notin> set s" by (metis set_takeWhileD)
    with Inl e show ?thesis by simp
  qed
qed

theorem identifier_round_trip_witness:
  "Identifier_of_string (Identifier_toString \<lparr>m_namespace = ''minecraft'', m_object = ''stone''\<rparr>)
     = Inr \<lparr>m_namespace = ''minecraft'', m_object = ''stone''\<rparr>"
  using identifier_round_trip [of "\<lparr>m_namespace = ''minecraft'', m_object = ''stone''\<rparr>" "[]"] by simp

text \<open>C39: A block position with x and z in 26 bits and y in 12 bits, negative values included,
  survives \<open>writePosition\<close> and \<open>readPosition\<close>.\<close>

theorem position_round_trip:
  assumes "v3_x v \<in> {x. - (2 ^ 25) \<le> sint x \<and> sint x < 2 ^ 25}"
    and "v3_y v \<in> {y. - (2 ^ 11) \<le> sint y \<and> sint y < 2 ^ 11}"
    and "v3_z v \<in> {z. - (2 ^ 25) \<le> sint z \<and> sint z < 2 ^ 25}"
  shows "\<exists>b. bnd (writePosition v) (\<lambda>_. readPosition) (new_bb be) = Inr (v, b) \<and> bb_unread b = []"
proof (rule write_then_read [where ys = "[]", simplified])
  show "appends be (writePosition v) (numeric_bytes be (pack_position v))"
    unfolding writePosition_def by (intro appends_intros)
  have "unpack_position (pack_position v) = v" using assms by (intro unpack_pack_position) simp_all
  then show "reads be readPosition (numeric_bytes be (pack_position v)) v"
    unfolding readPosition_def by (intro reads_bnd_ret [OF reads_readNumeric_64])
qed

theorem position_round_trip_witness:
  "\<exists>b. bnd (writePosition (mk_Vector3 298 16 (- 1922))) (\<lambda>_. readPosition) (new_bb True)
     = Inr (mk_Vector3 298 16 (- 1922), b) \<and> bb_unread b = []"
  by (rule position_round_trip) (simp_all add: mk_Vector3_def)

text \<open>\<open>readVector3\<close> reads its three floats inside the argument list of the constructor. With
  left-to-right evaluation the vector written is read back; with right-to-left evaluation,
  which the language also allows, x and z come back swapped.\<close>

theorem vector3_depends_on_evaluation_order:
  "\<exists>b. bnd (writeVector3 v) (\<lambda>_. readVector3 ord) (new_bb be)
     = Inr (case ord of LeftToRight \<Rightarrow> v | RightToLeft \<Rightarrow> mk_Vector3 (v3_z v) (v3_y v) (v3_x v), b)
     \<and> bb_unread b = []"
proof -
  have "v = mk_Vector3 (v3_x v) (v3_y v) (v3_z v)" by (simp add: mk_Vector3_def)
  then have "reads be (readVector3 ord) (numeric_bytes be (v3_x v) @ numeric_bytes be (v3_y v) @ numeric_bytes be (v3_z v))
      (case ord of LeftToRight \<Rightarrow> v | RightToLeft \<Rightarrow> mk_Vector3 (v3_z v) (v3_y v) (v3_x v))"
    using reads_vector3_left reads_vector3_right by (cases ord) (metis arg_order.case)+
  then show ?thesis by (rule write_then_read [where ys = "[]", simplified, OF appends_writeVector3])
qed

text \<open>All 512 combinations of teleport flags survive the integer coding and the wire.\<close>

theorem teleport_flags_round_trip:
  "flags_of_int (flags_encode f) = f
   \<and> (\<exists>b. bnd (writeTeleportFlags f) (\<lambda>_. readTeleportFlags) (new_bb be) = Inr (f, b) \<and> bb_unread b = [])"
proof (rule conjI [OF flags_of_int_encode], rule write_then_read [where ys = "[]", simplified])
  show "appends be (writeTeleportFlags f) (numeric_bytes be (flags_encode f))"
    unfolding writeTeleportFlags_def by (intro appends_intros)
  show "reads be readTeleportFlags (numeric_bytes be (flags_encode f)) f"
    unfolding readTeleportFlags_def by (rule reads_bnd_ret reads_readNumeric_32 flags_of_int_encode)+
qed

text \<open>A sound event with a fixed range survives the wire; for one without, the writer still
  sends the four bytes of a zero range that the reader does not consume, and every following
  field is read four bytes too early.\<close>

theorem sound_event_without_range_desynchronises:
  assumes "identifier_ok (s_identifier s)"
  shows "\<exists>b. bnd (writeSoundEvent s) (\<lambda>_. readSoundEvent) (new_bb be) = Inr (s, b)
    \<and> bb_unread b = (if SoundEvent_hasFixedRange s then [] else [0, 0, 0, 0])"
proof (cases "s_fixedRange s")
  case (Some r)
  have w: "appends be (writeSoundEvent s)
      ((identifier_bytes (s_identifier s) @ [byte_of_bool True] @ numeric_bytes be r) @ [])"
    using appends_writeSoundEvent [of be s] Some
    by (simp add: SoundEvent_hasFixedRange_def SoundEvent_getFixedRange_def)
  from write_then_read [OF w reads_readSoundEvent_ranged [OF assms Some]] Some show ?thesis
    by (simp add: SoundEvent_hasFixedRange_def)
next
  case None
  have z: "numeric_bytes be (0 :: i32) = [0, 0, 0, 0]"
    by (simp add: numeric_bytes_def le_bytes_def upt_rec)
  have w: "appends be (writeSoundEvent s)
      ((identifier_bytes (s_identifier s) @ [byte_of_bool False]) @ [0, 0, 0, 0])"
    using appends_writeSoundEvent [of be s] None
    by (simp add: SoundEvent_hasFixedRange_def SoundEvent_getFixedRange_def z)
  have "SoundEvent_new (s_identifier s) = s" using None by (cases s) (simp add: SoundEvent_new_def)
  with write_then_read [OF w reads_readSoundEvent_plain [OF assms]] None show ?thesis
    by (simp add: SoundEvent_hasFixedRange_def)
qed

theorem sound_event_without_range_desynchronises_witness:
  "\<exists>b. bnd (writeSoundEvent default_SoundEvent) (\<lambda>_. readSoundEvent) (new_bb True) = Inr (default_SoundEvent, b)
    \<and> bb_unread b = (if SoundEvent_hasFixedRange default_SoundEvent then [] else [0, 0, 0, 0])"
  by (rule sound_event_without_range_desynchronises) (simp add: default_SoundEvent_def SoundEvent_new_def)

text \<open>Comparing two sound events without a fixed range throws \<open>std::bad_optional_access\<close>.\<close>

theorem sound_event_comparison_throws:
  "SoundEvent_eq a b = Inl BadOptionalAccess
     \<longleftrightarrow> \<not> SoundEvent_hasFixedRange a \<and> \<not> SoundEvent_hasFixedRange b"
  by (auto simp: SoundEvent_eq_def SoundEvent_hasFixedRange_def split: option.splits)

end
