(* ===== verification/NBT.thy ===== *)
theory NBT
  imports Value_Types
begin

text \<open>
  The NBT codec: \<open>NBTElementType\<close>, \<open>NBTSettings\<close> and \<open>NBTElement\<close> of \<open>inc/type/nbt/\<close> and
  \<open>src/type/nbt/\<close>. An element is the record of its non-recursive members (\<open>NBTFields\<close>) and the
  vector of its children; all value members exist whatever the type, as in the source.

  Encoding a child replaces its settings first, so \<open>nbt_encode_with\<close> takes the settings as an
  argument. Decoding recurses on the input; its depth, and the rounds of the loop over a
  compound, are bounded by a fuel argument.

  The specification is the data type \<open>nbt\<close> of NBT trees with its wire form \<open>nbt_payload\<close>.
\<close>

section \<open>Types and settings\<close>

datatype NBTElementType =
    NBT_End
  | NBT_Byte | NBT_Short | NBT_Int | NBT_Long | NBT_Float | NBT_Double
  | NBT_ByteArray | NBT_String | NBT_List | NBT_Compound | NBT_IntArray | NBT_LongArray
  | NBT_Unknown byte

text \<open>The enumeration has the underlying type \<open>char\<close>: a byte above 12 is a value without a name.\<close>

definition byte_of_nbt_type :: "NBTElementType \<Rightarrow> byte" where
  "byte_of_nbt_type t = (case t of
     NBT_End \<Rightarrow> 0 | NBT_Byte \<Rightarrow> 1 | NBT_Short \<Rightarrow> 2 | NBT_Int \<Rightarrow> 3 | NBT_Long \<Rightarrow> 4 | NBT_Float \<Rightarrow> 5
   | NBT_Double \<Rightarrow> 6 | NBT_ByteArray \<Rightarrow> 7 | NBT_String \<Rightarrow> 8 | NBT_List \<Rightarrow> 9 | NBT_Compound \<Rightarrow> 10
   | NBT_IntArray \<Rightarrow> 11 | NBT_LongArray \<Rightarrow> 12 | NBT_Unknown b \<Rightarrow> b)"

definition nbt_type_of_byte :: "byte \<Rightarrow> NBTElementType" where
  "nbt_type_of_byte b =
     (if b = 0 then NBT_End else if b = 1 then NBT_Byte else if b = 2 then NBT_Short
      else if b = 3 then NBT_Int else if b = 4 then NBT_Long else if b = 5 then NBT_Float
      else if b = 6 then NBT_Double else if b = 7 then NBT_ByteArray else if b = 8 then NBT_String
      else if b = 9 then NBT_List else if b = 10 then NBT_Compound else if b = 11 then NBT_IntArray
      else if b = 12 then NBT_LongArray else NBT_Unknown b)"

record NBTSettings =
  m_isInArray :: bool
  m_isNetwork :: bool
  s_type :: NBTElementType

definition default_NBTSettings :: NBTSettings where
  "default_NBTSettings = \<lparr>m_isInArray = False, m_isNetwork = False, s_type = NBT_End\<rparr>"

definition NBTSettings_eq :: "NBTSettings \<Rightarrow> NBTSettings \<Rightarrow> bool" where
  "NBTSettings_eq a b \<longleftrightarrow> m_isInArray a = m_isInArray b \<and> m_isNetwork a = m_isNetwork b \<and> s_type a = s_type b"

section \<open>Elements\<close>

record NBTFields =
  m_settings :: NBTSettings
  m_tag :: string
  m_nbtType :: NBTElementType
  m_byteValue :: byte
  m_shortValue :: i16
  m_intValue :: i32
  m_longValue :: i64
  m_floatValue :: i32
  m_doubleValue :: i64
  m_byteArrayValue :: "byte list"
  m_stringValue :: string
  m_intArrayValue :: "i32 list"
  m_longArrayValue :: "i64 list"

datatype NBTElement = NBTElement (m_fields: NBTFields) (m_childElements: "NBTElement list")

definition new_fields :: "NBTSettings \<Rightarrow> NBTFields" where
  "new_fields s = \<lparr>m_settings = s, m_tag = [], m_nbtType = NBT_End, m_byteValue = 0, m_shortValue = 0,
     m_intValue = 0, m_longValue = 0, m_floatValue = 0, m_doubleValue = 0, m_byteArrayValue = [],
     m_stringValue = [], m_intArrayValue = [], m_longArrayValue = []\<rparr>"

definition new_NBT :: "NBTSettings \<Rightarrow> NBTElement" where
  "new_NBT s = NBTElement (new_fields s) []"

abbreviation nbt_tag :: "NBTElement \<Rightarrow> string" where
  "nbt_tag e \<equiv> m_tag (m_fields e)"

abbreviation nbt_type :: "NBTElement \<Rightarrow> NBTElementType" where
  "nbt_type e \<equiv> m_nbtType (m_fields e)"

section \<open>Encoding\<close>

definition write_string16 :: "string \<Rightarrow> unit bb" where
  "write_string16 s = thn (writeNumeric (u16_of_size (length s))) (writeBytes (bytes_of_string s))"

definition nbt_write_tag :: "NBTSettings \<Rightarrow> string \<Rightarrow> unit bb" where
  "nbt_write_tag s tag = bnd (gets m_isBigEndian) (\<lambda>be.
     if \<not> be then (if \<not> m_isNetwork s then write_string16 tag else writeString tag)
     else (if \<not> (tag = [] \<and> m_isNetwork s) then write_string16 tag else ret ()))"

definition nbt_write_length :: "NBTSettings \<Rightarrow> nat \<Rightarrow> unit bb" where
  "nbt_write_length s n = bnd (gets m_isBigEndian) (\<lambda>be.
     if be then writeNumeric (int_of_size n)
     else if m_isNetwork s then writeZigZagVarNumeric (int_of_size n)
     else writeNumeric (int_of_size n))"

definition nbt_write_integer :: "NBTSettings \<Rightarrow> 'a::len word \<Rightarrow> unit bb" where
  "nbt_write_integer s v = bnd (gets m_isBigEndian) (\<lambda>be.
     if be then writeNumeric v
     else if m_isNetwork s then writeZigZagVarNumeric v else writeNumeric v)"

definition nbt_write_text :: "NBTSettings \<Rightarrow> string \<Rightarrow> unit bb" where
  "nbt_write_text s v = bnd (gets m_isBigEndian) (\<lambda>be.
     if be then write_string16 v
     else if \<not> m_isNetwork s then write_string16 v else writeString v)"

definition nbt_write_value :: "NBTSettings \<Rightarrow> NBTElementType \<Rightarrow> NBTFields \<Rightarrow> unit bb" where
  "nbt_write_value s type f = (case type of
     NBT_Byte \<Rightarrow> writeByte (m_byteValue f)
   | NBT_Short \<Rightarrow> writeNumeric (m_shortValue f)
   | NBT_Int \<Rightarrow> nbt_write_integer s (m_intValue f)
   | NBT_Long \<Rightarrow> nbt_write_integer s (m_longValue f)
   | NBT_Float \<Rightarrow> writeNumeric (m_floatValue f)
   | NBT_Double \<Rightarrow> writeNumeric (m_doubleValue f)
   | NBT_ByteArray \<Rightarrow> thn (nbt_write_length s (length (m_byteArrayValue f))) (writeByteArray (m_byteArrayValue f))
   | NBT_IntArray \<Rightarrow> thn (nbt_write_length s (length (m_intArrayValue f))) (writeArray writeNumeric (m_intArrayValue f))
   | NBT_LongArray \<Rightarrow> thn (nbt_write_length s (length (m_longArrayValue f))) (writeArray writeNumeric (m_longArrayValue f))
   | NBT_String \<Rightarrow> nbt_write_text s (m_stringValue f)
   | _ \<Rightarrow> ret ())"

definition element_settings :: "NBTElementType \<Rightarrow> NBTSettings" where
  "element_settings t = \<lparr>m_isInArray = True, m_isNetwork = False, s_type = t\<rparr>"

fun nbt_encode_with :: "NBTSettings \<Rightarrow> NBTElement \<Rightarrow> unit bb" where
  "nbt_encode_with s (NBTElement f children) =
     (let type = (if s_type s \<noteq> NBT_End then s_type s else m_nbtType f)
      in thn (if \<not> m_isInArray s then writeByte (byte_of_nbt_type type) else ret ())
         (thn (if type \<noteq> NBT_End \<and> \<not> m_isInArray s then nbt_write_tag s (m_tag f) else ret ())
         (if type = NBT_List then
            (case children of
               [] \<Rightarrow> thn (writeByte 0) (nbt_write_length s 0)
             | first # _ \<Rightarrow>
                 (let elementType = nbt_type first
                  in if \<exists>e \<in> set children. elementType \<noteq> nbt_type e
                     then thn (writeByte 0) (nbt_write_length s 0)
                     else thn (writeByte (byte_of_nbt_type elementType))
                       (thn (nbt_write_length s (length children))
                       (each (\<lambda>e. nbt_encode_with (element_settings elementType) e) children))))
          else if type = NBT_Compound then
            thn (each (\<lambda>e. nbt_encode_with default_NBTSettings e) children) (writeByte 0)
          else nbt_write_value s type f)))"

definition nbt_encode :: "NBTElement \<Rightarrow> unit bb" where
  "nbt_encode e = nbt_encode_with (m_settings (m_fields e)) e"

definition nbt_encode_bytes :: "NBTElement \<Rightarrow> zinc_error + byte list" where
  "nbt_encode_bytes e = run_writer (nbt_encode e)"

section \<open>Decoding\<close>

definition read_string16 :: "string bb" where
  "read_string16 = bnd readNumeric (\<lambda>n :: i16. bnd (readBytes (unat n)) (\<lambda>bytes. ret (string_of_bytes bytes)))"

definition nbt_read_tag :: "NBTSettings \<Rightarrow> string \<Rightarrow> string bb" where
  "nbt_read_tag s tag = bnd (gets m_isBigEndian) (\<lambda>be.
     if \<not> be then (if \<not> m_isNetwork s then read_string16 else readString)
     else (if \<not> m_isNetwork s then read_string16 else ret tag))"

definition nbt_read_length :: "NBTSettings \<Rightarrow> nat bb" where
  "nbt_read_length s = bnd (gets m_isBigEndian) (\<lambda>be.
     bnd (if be then readNumeric
          else if m_isNetwork s then readZigZagVarNumeric else readNumeric) (\<lambda>n :: i32. ret (unat n)))"

definition nbt_read_integer :: "NBTSettings \<Rightarrow> 'a::len word bb" where
  "nbt_read_integer s = bnd (gets m_isBigEndian) (\<lambda>be.
     if be then readNumeric else if m_isNetwork s then readZigZagVarNumeric else readNumeric)"

definition nbt_read_text :: "NBTSettings \<Rightarrow> string bb" where
  "nbt_read_text s = bnd (gets m_isBigEndian) (\<lambda>be.
     if be then read_string16 else if \<not> m_isNetwork s then read_string16 else readString)"

definition nbt_read_value :: "NBTSettings \<Rightarrow> NBTElementType \<Rightarrow> NBTFields \<Rightarrow> NBTFields bb" where
  "nbt_read_value s type f = (case type of
     NBT_Byte \<Rightarrow> bnd readByte (\<lambda>v. ret (f\<lparr>m_byteValue := v\<rparr>))
   | NBT_Short \<Rightarrow> bnd readNumeric (\<lambda>v. ret (f\<lparr>m_shortValue := v\<rparr>))
   | NBT_Int \<Rightarrow> bnd (nbt_read_integer s) (\<lambda>v. ret (f\<lparr>m_intValue := v\<rparr>))
   | NBT_Long \<Rightarrow> bnd (nbt_read_integer s) (\<lambda>v. ret (f\<lparr>m_longValue := v\<rparr>))
   | NBT_Float \<Rightarrow> bnd readNumeric (\<lambda>v. ret (f\<lparr>m_floatValue := v\<rparr>))
   | NBT_Double \<Rightarrow> bnd readNumeric (\<lambda>v. ret (f\<lparr>m_doubleValue := v\<rparr>))
   | NBT_ByteArray \<Rightarrow> bnd (nbt_read_length s) (\<lambda>n. bnd (readByteArray n) (\<lambda>v. ret (f\<lparr>m_byteArrayValue := v\<rparr>)))
   | NBT_IntArray \<Rightarrow> bnd (nbt_read_length s) (\<lambda>n. bnd (readArray readNumeric n) (\<lambda>v. ret (f\<lparr>m_intArrayValue := v\<rparr>)))
   | NBT_LongArray \<Rightarrow> bnd (nbt_read_length s) (\<lambda>n. bnd (readArray readNumeric n) (\<lambda>v. ret (f\<lparr>m_longArrayValue := v\<rparr>)))
   | NBT_String \<Rightarrow> bnd (nbt_read_text s) (\<lambda>v. ret (f\<lparr>m_stringValue := v\<rparr>))
   | _ \<Rightarrow> ret f)"

text \<open>\<open>byteBuffer.getBytes()[byteBuffer.getReaderPointer()]\<close>\<close>

definition peek_byte :: "byte bb" where
  "peek_byte = (\<lambda>b. if getReaderPointer b < length (getBytes b)
     then Inr (getBytes b ! getReaderPointer b, b) else Inl OutOfBounds)"

definition child_settings :: "NBTSettings \<Rightarrow> bool \<Rightarrow> NBTElementType \<Rightarrow> bool \<Rightarrow> NBTSettings" where
  "child_settings s inArray t be = \<lparr>m_isInArray = inArray, m_isNetwork = \<not> be \<and> m_isNetwork s, s_type = t\<rparr>"

fun nbt_decode :: "nat \<Rightarrow> NBTElement \<Rightarrow> NBTElement bb"
  and nbt_compound_loop :: "nat \<Rightarrow> NBTSettings \<Rightarrow> NBTElement list bb" where
  "nbt_decode 0 e = fail StackExhausted"
| "nbt_decode (Suc n) e =
     (let s = m_settings (m_fields e);
          type0 = (if s_type s \<noteq> NBT_End then s_type s else nbt_type e)
      in bnd (if \<not> m_isInArray s then bnd readByte (\<lambda>b. ret (nbt_type_of_byte b)) else ret type0) (\<lambda>type.
         bnd (if type \<noteq> NBT_End \<and> \<not> m_isInArray s then nbt_read_tag s (nbt_tag e) else ret (nbt_tag e)) (\<lambda>tag.
         let f = (m_fields e)\<lparr>m_nbtType := type, m_tag := tag\<rparr>
         in if type = NBT_List then
              bnd readByte (\<lambda>b. bnd (nbt_read_length s) (\<lambda>len. bnd (gets m_isBigEndian) (\<lambda>be.
                let elementType = nbt_type_of_byte b;
                    len' = (if elementType = NBT_End then 0 else len)
                in bnd (collect len' (nbt_decode n (new_NBT (child_settings s True elementType be)))) (\<lambda>cs.
                   ret (NBTElement f (m_childElements e @ cs))))))
            else if type = NBT_Compound then
              bnd (gets m_isBigEndian) (\<lambda>be.
                bnd (nbt_compound_loop n (child_settings s False NBT_End be)) (\<lambda>cs.
                ret (NBTElement f (m_childElements e @ cs))))
            else bnd (nbt_read_value s type f) (\<lambda>f'. ret (NBTElement f' (m_childElements e))))))"
| "nbt_compound_loop 0 s = fail StackExhausted"
| "nbt_compound_loop (Suc n) s =
     bnd (gets (\<lambda>b. getReaderPointer b < bb_size b)) (\<lambda>more.
     if \<not> more then ret []
     else bnd peek_byte (\<lambda>c.
       if c = 0 then bnd readByte (\<lambda>_. ret [])
       else bnd (nbt_decode n (new_NBT s)) (\<lambda>childElement.
            bnd (nbt_compound_loop n s) (\<lambda>cs. ret (childElement # cs)))))"

text \<open>The two calls from \<open>src/type/ByteBuffer.cpp\<close>, in network mode.\<close>

definition network_settings :: NBTSettings where
  "network_settings = default_NBTSettings\<lparr>m_isNetwork := True\<rparr>"

definition writeNBTElement :: "NBTElement \<Rightarrow> unit bb" where
  "writeNBTElement e = nbt_encode_with network_settings e"

definition readNBTElement :: "nat \<Rightarrow> NBTElement bb" where
  "readNBTElement fuel = nbt_decode fuel (new_NBT network_settings)"

section \<open>The builders\<close>

text \<open>The static functions; the overloads with a tag set it on the result of the others.\<close>

definition mk_Byte :: "byte \<Rightarrow> NBTSettings \<Rightarrow> NBTElement" where
  "mk_Byte v s = NBTElement ((new_fields s)\<lparr>m_nbtType := NBT_Byte, m_byteValue := v\<rparr>) []"

definition mk_Short :: "i16 \<Rightarrow> NBTSettings \<Rightarrow> NBTElement" where
  "mk_Short v s = NBTElement ((new_fields s)\<lparr>m_nbtType := NBT_Short, m_shortValue := v\<rparr>) []"

definition mk_Int :: "i32 \<Rightarrow> NBTSettings \<Rightarrow> NBTElement" where
  "mk_Int v s = NBTElement ((new_fields s)\<lparr>m_nbtType := NBT_Int, m_intValue := v\<rparr>) []"

definition mk_Long :: "i64 \<Rightarrow> NBTSettings \<Rightarrow> NBTElement" where
  "mk_Long v s = NBTElement ((new_fields s)\<lparr>m_nbtType := NBT_Long, m_longValue := v\<rparr>) []"

definition mk_Float :: "i32 \<Rightarrow> NBTSettings \<Rightarrow> NBTElement" where
  "mk_Float v s = NBTElement ((new_fields s)\<lparr>m_nbtType := NBT_Float, m_floatValue := v\<rparr>) []"

definition mk_Double :: "i64 \<Rightarrow> NBTSettings \<Rightarrow> NBTElement" where
  "mk_Double v s = NBTElement ((new_fields s)\<lparr>m_nbtType := NBT_Double, m_doubleValue := v\<rparr>) []"

definition mk_ByteArray :: "(byte list) \<Rightarrow> NBTSettings \<Rightarrow> NBTElement" where
  "mk_ByteArray v s = NBTElement ((new_fields s)\<lparr>m_nbtType := NBT_ByteArray, m_byteArrayValue := v\<rparr>) []"

definition mk_String :: "string \<Rightarrow> NBTSettings \<Rightarrow> NBTElement" where
  "mk_String v s = NBTElement ((new_fields s)\<lparr>m_nbtType := NBT_String, m_stringValue := v\<rparr>) []"

definition mk_IntArray :: "(i32 list) \<Rightarrow> NBTSettings \<Rightarrow> NBTElement" where
  "mk_IntArray v s = NBTElement ((new_fields s)\<lparr>m_nbtType := NBT_IntArray, m_intArrayValue := v\<rparr>) []"

definition mk_LongArray :: "(i64 list) \<Rightarrow> NBTSettings \<Rightarrow> NBTElement" where
  "mk_LongArray v s = NBTElement ((new_fields s)\<lparr>m_nbtType := NBT_LongArray, m_longArrayValue := v\<rparr>) []"

definition mk_List :: "NBTElement list \<Rightarrow> NBTSettings \<Rightarrow> NBTElement" where
  "mk_List children s = NBTElement ((new_fields s)\<lparr>m_nbtType := NBT_List\<rparr>) children"

definition mk_Compound :: "NBTElement list \<Rightarrow> NBTSettings \<Rightarrow> NBTElement" where
  "mk_Compound children s = NBTElement ((new_fields s)\<lparr>m_nbtType := NBT_Compound\<rparr>) children"

definition with_tag :: "string \<Rightarrow> NBTElement \<Rightarrow> NBTElement" where
  "with_tag tag e = NBTElement ((m_fields e)\<lparr>m_tag := tag\<rparr>) (m_childElements e)"

section \<open>Access, comparison, JSON\<close>

definition nbt_contains_tag :: "string \<Rightarrow> NBTElement \<Rightarrow> bool" where
  "nbt_contains_tag tag e \<longleftrightarrow>
     nbt_type e = NBT_Compound \<and> (\<exists>c \<in> set (m_childElements e). nbt_tag c = tag)"

definition nbt_contains_pos :: "nat \<Rightarrow> NBTElement \<Rightarrow> bool" where
  "nbt_contains_pos pos e \<longleftrightarrow> \<not> (length (m_childElements e) < pos \<or> nbt_type e \<noteq> NBT_List)"

definition nbt_at_tag :: "string \<Rightarrow> NBTElement \<Rightarrow> NBTElement" where
  "nbt_at_tag tag e =
     (if nbt_type e \<noteq> NBT_Compound then e
      else case find (\<lambda>c. nbt_tag c = tag) (m_childElements e) of Some c \<Rightarrow> c | None \<Rightarrow> e)"

definition nbt_at_pos :: "nat \<Rightarrow> NBTElement \<Rightarrow> zinc_error + NBTElement" where
  "nbt_at_pos pos e =
     (if nbt_contains_pos pos e
      then (if pos < length (m_childElements e) then Inr (m_childElements e ! pos) else Inl OutOfBounds)
      else Inr e)"

fun nbt_eq :: "NBTElement \<Rightarrow> NBTElement \<Rightarrow> bool"
  and nbt_eq_list :: "NBTElement list \<Rightarrow> NBTElement list \<Rightarrow> bool" where
  "nbt_eq (NBTElement f cs) (NBTElement g ds) =
     (if m_nbtType g \<noteq> m_nbtType f then False
      else case m_nbtType f of
        NBT_Byte \<Rightarrow> m_byteValue f = m_byteValue g
      | NBT_Short \<Rightarrow> m_shortValue f = m_shortValue g
      | NBT_Int \<Rightarrow> m_intValue f = m_intValue g
      | NBT_Long \<Rightarrow> m_longValue f = m_longValue g
      | NBT_Float \<Rightarrow> float_eq (m_floatValue f) (m_floatValue g)
      | NBT_Double \<Rightarrow> double_eq (m_doubleValue f) (m_doubleValue g)
      | NBT_ByteArray \<Rightarrow> m_byteArrayValue f = m_byteArrayValue g
      | NBT_String \<Rightarrow> m_stringValue f = m_stringValue g
      | NBT_List \<Rightarrow> nbt_eq_list cs ds
      | NBT_Compound \<Rightarrow> nbt_eq_list cs ds
      | NBT_IntArray \<Rightarrow> m_intArrayValue f = m_intArrayValue g
      | NBT_LongArray \<Rightarrow> m_longArrayValue f = m_longArrayValue g
      | _ \<Rightarrow> True)"
| "nbt_eq_list [] [] = True"
| "nbt_eq_list (c # cs) (d # ds) = (nbt_eq c d \<and> nbt_eq_list cs ds)"
| "nbt_eq_list _ _ = False"

text \<open>The pattern of every bracketed case: append each item and a comma, then drop the last comma.\<close>

definition json_items :: "string list \<Rightarrow> string" where
  "json_items items = (let s = concat (map (\<lambda>i. i @ '','') items) in if items = [] then s else butlast s)"

fun nbt_toJSON :: "NBTElement \<Rightarrow> string" where
  "nbt_toJSON (NBTElement f children) = (case m_nbtType f of
     NBT_End \<Rightarrow> []
   | NBT_Byte \<Rightarrow> (if m_byteValue f = 1 then ''true'' else if m_byteValue f = 0 then ''false''
       else int_to_string (sint (m_byteValue f)))
   | NBT_Short \<Rightarrow> int_to_string (sint (m_shortValue f))
   | NBT_Int \<Rightarrow> int_to_string (sint (m_intValue f))
   | NBT_Long \<Rightarrow> int_to_string (sint (m_longValue f))
   | NBT_Float \<Rightarrow> float_to_string (m_floatValue f)
   | NBT_Double \<Rightarrow> double_to_string (m_doubleValue f)
   | NBT_ByteArray \<Rightarrow> ''['' @ json_items (map (\<lambda>v. int_to_string (sint v)) (m_byteArrayValue f)) @ '']''
   | NBT_String \<Rightarrow> [CHR 0x22] @ m_stringValue f @ [CHR 0x22]
   | NBT_List \<Rightarrow> ''['' @ json_items (map nbt_toJSON children) @ '']''
   | NBT_Compound \<Rightarrow>
       ''{'' @ json_items (map (\<lambda>e. [CHR 0x22] @ nbt_tag e @ [CHR 0x22] @ '':'' @ nbt_toJSON e) children) @ ''}''
   | NBT_IntArray \<Rightarrow> ''['' @ json_items (map (\<lambda>v. int_to_string (sint v)) (m_intArrayValue f)) @ '']''
   | NBT_LongArray \<Rightarrow> ''['' @ json_items (map (\<lambda>v. int_to_string (sint v)) (m_longArrayValue f)) @ '']''
   | NBT_Unknown _ \<Rightarrow> ''{}'')"

section \<open>The specification: NBT trees and their wire form\<close>

datatype nbt =
    NEnd
  | NByte byte | NShort i16 | NInt i32 | NLong i64 | NFloat i32 | NDouble i64
  | NByteArray "byte list" | NString string | NList "nbt list" | NCompound "(string \<times> nbt) list"
  | NIntArray "i32 list" | NLongArray "i64 list"

fun type_of_nbt :: "nbt \<Rightarrow> NBTElementType" where
  "type_of_nbt NEnd = NBT_End"
| "type_of_nbt (NByte _) = NBT_Byte"
| "type_of_nbt (NShort _) = NBT_Short"
| "type_of_nbt (NInt _) = NBT_Int"
| "type_of_nbt (NLong _) = NBT_Long"
| "type_of_nbt (NFloat _) = NBT_Float"
| "type_of_nbt (NDouble _) = NBT_Double"
| "type_of_nbt (NByteArray _) = NBT_ByteArray"
| "type_of_nbt (NString _) = NBT_String"
| "type_of_nbt (NList _) = NBT_List"
| "type_of_nbt (NCompound _) = NBT_Compound"
| "type_of_nbt (NIntArray _) = NBT_IntArray"
| "type_of_nbt (NLongArray _) = NBT_LongArray"

definition string16_bytes :: "bool \<Rightarrow> string \<Rightarrow> byte list" where
  "string16_bytes be s = numeric_bytes be (u16_of_size (length s)) @ bytes_of_string s"

definition length_bytes :: "bool \<Rightarrow> nat \<Rightarrow> byte list" where
  "length_bytes be n = numeric_bytes be (int_of_size n)"

fun nbt_payload :: "bool \<Rightarrow> nbt \<Rightarrow> byte list"
  and nbt_payloads :: "bool \<Rightarrow> nbt list \<Rightarrow> byte list"
  and nbt_entries :: "bool \<Rightarrow> (string \<times> nbt) list \<Rightarrow> byte list" where
  "nbt_payload be NEnd = []"
| "nbt_payload be (NByte v) = [v]"
| "nbt_payload be (NShort v) = numeric_bytes be v"
| "nbt_payload be (NInt v) = numeric_bytes be v"
| "nbt_payload be (NLong v) = numeric_bytes be v"
| "nbt_payload be (NFloat v) = numeric_bytes be v"
| "nbt_payload be (NDouble v) = numeric_bytes be v"
| "nbt_payload be (NByteArray v) = length_bytes be (length v) @ v"
| "nbt_payload be (NString v) = string16_bytes be v"
| "nbt_payload be (NList ts) =
     byte_of_nbt_type (if ts = [] then NBT_End else type_of_nbt (hd ts))
       # length_bytes be (length ts) @ nbt_payloads be ts"
| "nbt_payload be (NCompound cs) = nbt_entries be cs @ [0]"
| "nbt_payload be (NIntArray v) = length_bytes be (length v) @ concat (map (numeric_bytes be) v)"
| "nbt_payload be (NLongArray v) = length_bytes be (length v) @ concat (map (numeric_bytes be) v)"
| "nbt_payloads be [] = []"
| "nbt_payloads be (t # ts) = nbt_payload be t @ nbt_payloads be ts"
| "nbt_entries be [] = []"
| "nbt_entries be ((tag, t) # cs) =
     byte_of_nbt_type (type_of_nbt t) # string16_bytes be tag @ nbt_payload be t @ nbt_entries be cs"

text \<open>The trees the format can carry.\<close>

fun nbt_valid :: "nbt \<Rightarrow> bool"
  and nbt_valid_entries :: "(string \<times> nbt) list \<Rightarrow> bool" where
  "nbt_valid (NByteArray v) = (length v < 2 ^ 32)"
| "nbt_valid (NString v) = (length v < 2 ^ 16)"
| "nbt_valid (NIntArray v) = (length v < 2 ^ 32)"
| "nbt_valid (NLongArray v) = (length v < 2 ^ 32)"
| "nbt_valid (NList ts) = (length ts < 2 ^ 32
     \<and> (\<forall>t \<in> set ts. type_of_nbt t = type_of_nbt (hd ts) \<and> type_of_nbt t \<noteq> NBT_End \<and> nbt_valid t))"
| "nbt_valid (NCompound cs) = nbt_valid_entries cs"
| "nbt_valid _ = True"
| "nbt_valid_entries [] = True"
| "nbt_valid_entries ((tag, t) # cs) =
     (length tag < 2 ^ 16 \<and> type_of_nbt t \<noteq> NBT_End \<and> nbt_valid t \<and> nbt_valid_entries cs)"

text \<open>What an element stands for: the member its type selects.\<close>

fun nbt_abs :: "NBTElement \<Rightarrow> nbt" where
  "nbt_abs (NBTElement f children) = (case m_nbtType f of
     NBT_Byte \<Rightarrow> NByte (m_byteValue f)
   | NBT_Short \<Rightarrow> NShort (m_shortValue f)
   | NBT_Int \<Rightarrow> NInt (m_intValue f)
   | NBT_Long \<Rightarrow> NLong (m_longValue f)
   | NBT_Float \<Rightarrow> NFloat (m_floatValue f)
   | NBT_Double \<Rightarrow> NDouble (m_doubleValue f)
   | NBT_ByteArray \<Rightarrow> NByteArray (m_byteArrayValue f)
   | NBT_String \<Rightarrow> NString (m_stringValue f)
   | NBT_List \<Rightarrow> NList (map nbt_abs children)
   | NBT_Compound \<Rightarrow> NCompound (map (\<lambda>c. (nbt_tag c, nbt_abs c)) children)
   | NBT_IntArray \<Rightarrow> NIntArray (m_intArrayValue f)
   | NBT_LongArray \<Rightarrow> NLongArray (m_longArrayValue f)
   | _ \<Rightarrow> NEnd)"

text \<open>Type byte and tag before a payload. Elements of a list have neither.\<close>

definition nbt_header :: "bool \<Rightarrow> NBTSettings \<Rightarrow> NBTElementType \<Rightarrow> string \<Rightarrow> byte list" where
  "nbt_header be s t tag =
     (if m_isInArray s then []
      else byte_of_nbt_type t # (if t = NBT_End \<or> (be \<and> m_isNetwork s \<and> tag = []) then []
        else string16_bytes be tag))"

section \<open>Encoding writes the wire form\<close>

lemma nbt_type_of_byte_of [simp]:
  "(\<forall>b. t \<noteq> NBT_Unknown b) \<Longrightarrow> nbt_type_of_byte (byte_of_nbt_type t) = t"
  by (cases t) (simp_all add: nbt_type_of_byte_def byte_of_nbt_type_def)

lemma byte_of_nbt_type_End [simp]: "byte_of_nbt_type NBT_End = 0"
  by (simp add: byte_of_nbt_type_def)

lemma type_of_nbt_known [simp]: "type_of_nbt t \<noteq> NBT_Unknown b"
  by (cases t) simp_all

lemma type_of_nbt_abs:
  "type_of_nbt (nbt_abs e) \<noteq> NBT_End \<Longrightarrow> type_of_nbt (nbt_abs e) = nbt_type e"
  by (cases e) (auto split: NBTElementType.splits)

lemma appends_write_string16 [appends_intros]: "appends be (write_string16 s) (string16_bytes be s)"
  unfolding write_string16_def string16_bytes_def by (intro appends_intros)

lemma appends_nbt_write_length:
  "be \<or> \<not> m_isNetwork s \<Longrightarrow> appends be (nbt_write_length s n) (length_bytes be n)"
  unfolding nbt_write_length_def length_bytes_def
  by (rule appends_gets) (auto intro: appends_writeNumeric)

lemma appends_nbt_write_integer:
  "be \<or> \<not> m_isNetwork s \<Longrightarrow> appends be (nbt_write_integer s v) (numeric_bytes be v)"
  unfolding nbt_write_integer_def by (rule appends_gets) (auto intro: appends_writeNumeric)

lemma appends_nbt_write_text:
  "be \<or> \<not> m_isNetwork s \<Longrightarrow> appends be (nbt_write_text s v) (string16_bytes be v)"
  unfolding nbt_write_text_def by (rule appends_gets) (auto intro: appends_write_string16)

lemma appends_nbt_write_tag:
  "be \<or> \<not> m_isNetwork s \<Longrightarrow>
     appends be (nbt_write_tag s tag) (if be \<and> m_isNetwork s \<and> tag = [] then [] else string16_bytes be tag)"
  unfolding nbt_write_tag_def by (rule appends_gets) (auto intro: appends_write_string16 appends_ret)

lemmas nbt_appends = appends_nbt_write_length appends_nbt_write_integer appends_nbt_write_text
  appends_writeByte appends_writeNumeric

lemma appends_write_ints: "appends be (writeArray writeNumeric (vs :: i32 list)) (concat (map (numeric_bytes be) vs))"
  by (rule int_codec.appends_writeArray) (simp add: list_all_iff)

lemma appends_write_longs: "appends be (writeArray writeNumeric (vs :: i64 list)) (concat (map (numeric_bytes be) vs))"
  by (rule long_codec.appends_writeArray) (simp add: list_all_iff)

lemma appends_nbt_write_value:
  assumes "be \<or> \<not> m_isNetwork s" and "m_nbtType f \<noteq> NBT_List" and "m_nbtType f \<noteq> NBT_Compound"
  shows "appends be (nbt_write_value s (m_nbtType f) f) (nbt_payload be (nbt_abs (NBTElement f children)))"
  using assms
  by (cases "m_nbtType f")
    (auto simp: nbt_write_value_def writeByteArray_def
      intro!: nbt_appends appends_thn appends_writeBytes appends_write_ints appends_write_longs appends_ret)

lemma nbt_payloads_concat: "nbt_payloads be ts = concat (map (nbt_payload be) ts)"
  by (induction ts) auto

lemma nbt_entries_concat:
  "nbt_entries be cs = concat (map (\<lambda>(tag, t). byte_of_nbt_type (type_of_nbt t) # string16_bytes be tag @ nbt_payload be t) cs)"
  by (induction cs) auto

lemma nbt_valid_entries_iff:
  "nbt_valid_entries cs \<longleftrightarrow>
     (\<forall>(tag, t) \<in> set cs. length tag < 2 ^ 16 \<and> type_of_nbt t \<noteq> NBT_End \<and> nbt_valid t)"
  by (induction cs) auto

lemma appends_each_map:
  assumes "\<And>x. x \<in> set xs \<Longrightarrow> appends be (w x) (enc (g x))"
  shows "appends be (each w xs) (concat (map enc (map g xs)))"
  using appends_each [of xs be w "\<lambda>x. enc (g x)"] assms by (simp add: comp_def)

lemma appends_nbt_encode:
  "be \<or> \<not> m_isNetwork s \<Longrightarrow> nbt_valid (nbt_abs e) \<Longrightarrow> type_of_nbt (nbt_abs e) = nbt_type e \<Longrightarrow>
   s_type s = NBT_End \<or> s_type s = nbt_type e \<Longrightarrow>
     appends be (nbt_encode_with s e) (nbt_header be s (nbt_type e) (nbt_tag e) @ nbt_payload be (nbt_abs e))"
proof (induction e arbitrary: s)
  case (NBTElement f children)
  note net = NBTElement.prems(1)
  have type: "(if s_type s \<noteq> NBT_End then s_type s else m_nbtType f) = m_nbtType f"
    using NBTElement.prems(4) by auto
  have header: "appends be (thn (if \<not> m_isInArray s then writeByte (byte_of_nbt_type (m_nbtType f)) else ret ())
      (thn (if m_nbtType f \<noteq> NBT_End \<and> \<not> m_isInArray s then nbt_write_tag s (m_tag f) else ret ()) body))
      (nbt_header be s (m_nbtType f) (m_tag f) @ p)" if "appends be body p" for body p
  proof -
    have "appends be (if \<not> m_isInArray s then writeByte (byte_of_nbt_type (m_nbtType f)) else ret ())
        (if m_isInArray s then [] else [byte_of_nbt_type (m_nbtType f)])"
      by (auto intro: appends_writeByte appends_ret)
    moreover have "appends be (if m_nbtType f \<noteq> NBT_End \<and> \<not> m_isInArray s then nbt_write_tag s (m_tag f) else ret ())
        (if m_isInArray s \<or> m_nbtType f = NBT_End \<or> (be \<and> m_isNetwork s \<and> m_tag f = []) then []
         else string16_bytes be (m_tag f))"
      using appends_nbt_write_tag [OF net, of "m_tag f"] by (auto intro: appends_ret split: if_splits)
    ultimately show ?thesis using that
      by (rule appends_cong [OF appends_thn [OF _ appends_thn]]) (simp add: nbt_header_def)
  qed
  show ?case
  proof (cases "m_nbtType f = NBT_List")
    case True
    let ?es = "element_settings (nbt_type (hd children))"
    have valid: "length children < 2 ^ 32"
      "c \<in> set children \<Longrightarrow> type_of_nbt (nbt_abs c) = type_of_nbt (nbt_abs (hd children))
         \<and> type_of_nbt (nbt_abs c) \<noteq> NBT_End \<and> nbt_valid (nbt_abs c)" for c
      using NBTElement.prems(2) True by (cases children; auto)+
    show ?thesis
    proof (cases children)
      case Nil
      have "appends be (thn (writeByte 0) (nbt_write_length s 0)) ([0] @ length_bytes be 0)"
        using net by (intro appends_thn nbt_appends)
      from header [OF this] show ?thesis using True Nil type by (cases "m_isInArray s") simp_all
    next
      case (Cons first rest)
      have t: "nbt_type c = nbt_type first" if "c \<in> set children" for c
        using valid(2) [OF that] valid(2) [of first] type_of_nbt_abs Cons by (metis list.sel(1) list.set_intros(1))
      have first: "type_of_nbt (nbt_abs first) = nbt_type first"
        using valid(2) [of first] type_of_nbt_abs [of first] Cons by simp
      have "appends be (nbt_encode_with ?es c) (nbt_payload be (nbt_abs c))" if "c \<in> set children" for c
        using NBTElement.IH [OF that, of ?es] valid(2) [OF that] t [OF that] first Cons
        by (simp add: element_settings_def nbt_header_def)
      then have "appends be (each (nbt_encode_with ?es) children) (concat (map (nbt_payload be) (map nbt_abs children)))"
        by (rule appends_each_map)
      then have body: "appends be (thn (writeByte (byte_of_nbt_type (nbt_type first)))
          (thn (nbt_write_length s (length children)) (each (nbt_encode_with ?es) children)))
          ([byte_of_nbt_type (nbt_type first)] @ length_bytes be (length children)
            @ concat (map (nbt_payload be) (map nbt_abs children)))"
        using net by (intro appends_thn nbt_appends)
      have "\<not> (\<exists>e \<in> set children. nbt_type first \<noteq> nbt_type e)" using t by auto
      with header [OF body] True Cons type first show ?thesis
        by (cases "m_isInArray s") (simp_all add: nbt_payloads_concat Let_def del: map_map)
    qed
  next
    case notlist: False
    show ?thesis
    proof (cases "m_nbtType f = NBT_Compound")
      case True
      let ?entry = "\<lambda>(tag, t). byte_of_nbt_type (type_of_nbt t) # string16_bytes be tag @ nbt_payload be t"
      have "appends be (nbt_encode_with default_NBTSettings c) (?entry (nbt_tag c, nbt_abs c))"
        if c: "c \<in> set children" for c
      proof -
        have "nbt_valid (nbt_abs c)" "type_of_nbt (nbt_abs c) \<noteq> NBT_End"
          using NBTElement.prems(2) True c by (auto simp: nbt_valid_entries_iff)
        with NBTElement.IH [OF c, of default_NBTSettings] type_of_nbt_abs [of c] show ?thesis
          by (simp add: default_NBTSettings_def nbt_header_def)
      qed
      then have "appends be (each (nbt_encode_with default_NBTSettings) children)
          (concat (map ?entry (map (\<lambda>c. (nbt_tag c, nbt_abs c)) children)))"
        by (rule appends_each_map)
      then have "appends be (thn (each (nbt_encode_with default_NBTSettings) children) (writeByte 0))
          (concat (map ?entry (map (\<lambda>c. (nbt_tag c, nbt_abs c)) children)) @ [0])"
        by (intro appends_thn nbt_appends)
      from header [OF this] show ?thesis using True type
        by (cases "m_isInArray s") (simp_all add: nbt_entries_concat del: map_map)
    next
      case False
      show ?thesis using header [OF appends_nbt_write_value [OF net notlist False]]
        by (simp only: nbt_encode_with.simps type Let_def notlist False if_False NBTElement.sel)
    qed
  qed
qed

section \<open>Decoding reads the wire form\<close>

text \<open>The element that decoding with given settings builds for a tree, and the fuel it needs.\<close>

fun nbt_elem :: "bool \<Rightarrow> NBTSettings \<Rightarrow> string \<Rightarrow> nbt \<Rightarrow> NBTElement"
  and nbt_elems :: "bool \<Rightarrow> NBTSettings \<Rightarrow> nbt list \<Rightarrow> NBTElement list"
  and nbt_entry_elems :: "bool \<Rightarrow> NBTSettings \<Rightarrow> (string \<times> nbt) list \<Rightarrow> NBTElement list" where
  "nbt_elem be s tag t = (let f = (new_fields s)\<lparr>m_nbtType := type_of_nbt t, m_tag := tag\<rparr> in
     (case t of
        NEnd \<Rightarrow> NBTElement f []
      | NByte v \<Rightarrow> NBTElement (f\<lparr>m_byteValue := v\<rparr>) []
      | NShort v \<Rightarrow> NBTElement (f\<lparr>m_shortValue := v\<rparr>) []
      | NInt v \<Rightarrow> NBTElement (f\<lparr>m_intValue := v\<rparr>) []
      | NLong v \<Rightarrow> NBTElement (f\<lparr>m_longValue := v\<rparr>) []
      | NFloat v \<Rightarrow> NBTElement (f\<lparr>m_floatValue := v\<rparr>) []
      | NDouble v \<Rightarrow> NBTElement (f\<lparr>m_doubleValue := v\<rparr>) []
      | NByteArray v \<Rightarrow> NBTElement (f\<lparr>m_byteArrayValue := v\<rparr>) []
      | NString v \<Rightarrow> NBTElement (f\<lparr>m_stringValue := v\<rparr>) []
      | NList ts \<Rightarrow> NBTElement f (nbt_elems be (child_settings s True
          (if ts = [] then NBT_End else type_of_nbt (hd ts)) be) ts)
      | NCompound cs \<Rightarrow> NBTElement f (nbt_entry_elems be (child_settings s False NBT_End be) cs)
      | NIntArray v \<Rightarrow> NBTElement (f\<lparr>m_intArrayValue := v\<rparr>) []
      | NLongArray v \<Rightarrow> NBTElement (f\<lparr>m_longArrayValue := v\<rparr>) []))"
| "nbt_elems be s [] = []"
| "nbt_elems be s (t # ts) = nbt_elem be s [] t # nbt_elems be s ts"
| "nbt_entry_elems be s [] = []"
| "nbt_entry_elems be s ((tag, t) # cs) = nbt_elem be s tag t # nbt_entry_elems be s cs"

declare nbt_elem.simps [simp del]

fun nbt_fuel :: "nbt \<Rightarrow> nat"
  and nbt_fuels :: "nbt list \<Rightarrow> nat"
  and nbt_entry_fuels :: "(string \<times> nbt) list \<Rightarrow> nat" where
  "nbt_fuel (NList ts) = Suc (nbt_fuels ts)"
| "nbt_fuel (NCompound cs) = Suc (Suc (nbt_entry_fuels cs))"
| "nbt_fuel _ = 1"
| "nbt_fuels [] = 0"
| "nbt_fuels (t # ts) = nbt_fuel t + nbt_fuels ts"
| "nbt_entry_fuels [] = 0"
| "nbt_entry_fuels ((tag, t) # cs) = nbt_fuel t + nbt_entry_fuels cs"

lemma nbt_elems_map: "nbt_elems be s ts = map (nbt_elem be s []) ts"
  by (induction ts) auto

lemma nbt_fuel_pos [simp]: "0 < nbt_fuel t"
  by (cases t) simp_all

lemma nbt_fuel_le: "t \<in> set ts \<Longrightarrow> nbt_fuel t \<le> nbt_fuels ts"
  by (induction ts) auto

text \<open>The tree of the decoded element is the tree decoded.\<close>

lemma nbt_abs_elem:
  "nbt_abs (nbt_elem be s tag t) = t"
  "map nbt_abs (nbt_elems be s ts) = ts"
  "map (\<lambda>c. (nbt_tag c, nbt_abs c)) (nbt_entry_elems be s cs) = cs"
proof (induction be s tag t and be s ts and be s cs rule: nbt_elem_nbt_elems_nbt_entry_elems.induct)
  case (1 be s tag t)
  then show ?case by (cases t) (simp_all add: nbt_elem.simps Let_def)
next
  case (5 be s tag t cs)
  moreover have "nbt_tag (nbt_elem be s tag t) = tag"
    by (cases t) (simp_all add: nbt_elem.simps Let_def)
  ultimately show ?case by simp
qed simp_all

lemma nbt_tag_elem [simp]: "nbt_tag (nbt_elem be s tag t) = tag" "nbt_type (nbt_elem be s tag t) = type_of_nbt t"
  by (cases t; simp add: nbt_elem.simps Let_def)+

text \<open>Looking ahead.\<close>

lemma unread_nonempty:
  assumes "bb_wf b"
  shows "getReaderPointer b < bb_size b \<longleftrightarrow> bb_unread b \<noteq> []"
    and "getReaderPointer b < length (getBytes b) \<longleftrightarrow> bb_unread b \<noteq> []"
    and "bb_unread b \<noteq> [] \<Longrightarrow> getBytes b ! getReaderPointer b = hd (bb_unread b)"
proof -
  have r: "getReaderPointer b = rpos (m_internalBuffer b)"
    by (simp add: getReaderPointer_def getReader_def rpos_def Let_def)
  have u: "bb_unread b = drop (getReaderPointer b) (getBytes b)"
    using assms by (simp add: bb_unread_def unread_def r getBytes_written)
  then show "getReaderPointer b < length (getBytes b) \<longleftrightarrow> bb_unread b \<noteq> []" by auto
  then show "getReaderPointer b < bb_size b \<longleftrightarrow> bb_unread b \<noteq> []" using assms by (simp add: bb_size_eq)
  show "bb_unread b \<noteq> [] \<Longrightarrow> getBytes b ! getReaderPointer b = hd (bb_unread b)"
    using u by (simp add: hd_drop_conv_nth)
qed

lemma reads_more:
  "reads be (k True) (c # xs) x \<Longrightarrow>
     reads be (bnd (gets (\<lambda>b. getReaderPointer b < bb_size b)) k) (c # xs) x"
  unfolding reads_def by (auto simp: bnd_def gets_def unread_nonempty)

lemma reads_peek: "reads be (k c) (c # xs) x \<Longrightarrow> reads be (bnd peek_byte k) (c # xs) x"
  unfolding reads_def by (auto simp: bnd_def peek_byte_def unread_nonempty)

lemma reads_read_string16 [reads_intros]:
  assumes "length s < 2 ^ 16"
  shows "reads be read_string16 (string16_bytes be s) s"
proof -
  have "reads be (bnd (readBytes (unat (u16_of_size (length s)))) (\<lambda>bytes. ret (string_of_bytes bytes)))
      (bytes_of_string s) s"
    using assms by (intro reads_bnd_ret [OF reads_readBytes]) (simp_all add: max_vector_size_def)
  then show ?thesis unfolding read_string16_def string16_bytes_def
    by (rule reads_bnd [OF reads_readNumeric_16])
qed

lemma reads_nbt_read_length:
  assumes "be \<or> \<not> m_isNetwork s" and "n < 2 ^ 32"
  shows "reads be (nbt_read_length s) (length_bytes be n) n"
  unfolding nbt_read_length_def length_bytes_def
  by (rule reads_gets, rule reads_bnd_ret [where x = "int_of_size n"])
    (use assms in \<open>auto intro: reads_readNumeric_32\<close>)

lemma reads_nbt_read_integer:
  "be \<or> \<not> m_isNetwork s \<Longrightarrow> 8 dvd LENGTH('a::len) \<Longrightarrow> LENGTH('a) \<le> 64 \<Longrightarrow>
     reads be (nbt_read_integer s) (numeric_bytes be v) (v :: 'a word)"
  unfolding nbt_read_integer_def by (rule reads_gets) (auto intro: reads_readNumeric)

lemma reads_nbt_read_text:
  "be \<or> \<not> m_isNetwork s \<Longrightarrow> length v < 2 ^ 16 \<Longrightarrow> reads be (nbt_read_text s) (string16_bytes be v) v"
  unfolding nbt_read_text_def by (rule reads_gets) (auto intro: reads_read_string16)

lemma reads_nbt_read_tag:
  "be \<or> \<not> m_isNetwork s \<Longrightarrow> length tag < 2 ^ 16 \<Longrightarrow> (be \<and> m_isNetwork s \<longrightarrow> tag = []) \<Longrightarrow>
     reads be (nbt_read_tag s []) (if be \<and> m_isNetwork s \<and> tag = [] then [] else string16_bytes be tag) tag"
  unfolding nbt_read_tag_def by (rule reads_gets) (auto intro: reads_read_string16 reads_ret)

lemma reads_byte_array:
  "length v < 2 ^ 32 \<Longrightarrow> reads be (readByteArray (length v)) v v"
  unfolding readByteArray_def by (rule reads_readBytes) (simp_all add: max_vector_size_def)

lemma reads_int_array: "reads be (readArray readNumeric (length v)) (concat (map (numeric_bytes be) v)) (v :: i32 list)"
  by (rule int_codec.reads_readArray) (simp add: list_all_iff)

lemma reads_long_array: "reads be (readArray readNumeric (length v)) (concat (map (numeric_bytes be) v)) (v :: i64 list)"
  by (rule long_codec.reads_readArray) (simp add: list_all_iff)

lemma reads_nbt_read_value:
  assumes "be \<or> \<not> m_isNetwork s" and "nbt_valid t" and "type_of_nbt t \<noteq> NBT_List" and "type_of_nbt t \<noteq> NBT_Compound"
  shows "reads be (nbt_read_value s (type_of_nbt t) ((new_fields s)\<lparr>m_nbtType := type_of_nbt t, m_tag := tag\<rparr>))
    (nbt_payload be t) (m_fields (nbt_elem be s tag t))"
  using assms
  by (cases t)
    (simp_all add: nbt_read_value_def nbt_elem.simps Let_def,
      (rule reads_ret reads_bnd_ret reads_bnd reads_readByte reads_readNumeric_16 reads_readNumeric_32
        reads_readNumeric_64 reads_nbt_read_integer reads_nbt_read_text reads_nbt_read_length
        reads_byte_array reads_int_array reads_long_array refl | simp; fail)+)

lemma m_childElements_elem:
  "type_of_nbt t \<noteq> NBT_List \<Longrightarrow> type_of_nbt t \<noteq> NBT_Compound \<Longrightarrow> m_childElements (nbt_elem be s tag t) = []"
  by (cases t) (simp_all add: nbt_elem.simps Let_def)

lemma new_NBT_sel [simp]:
  "m_fields (new_NBT s) = new_fields s" "m_childElements (new_NBT s) = []"
  "m_settings (new_fields s) = s" "m_tag (new_fields s) = []" "m_nbtType (new_fields s) = NBT_End"
  by (simp_all add: new_NBT_def new_fields_def)

definition decodable :: "bool \<Rightarrow> NBTSettings \<Rightarrow> string \<Rightarrow> nbt \<Rightarrow> bool" where
  "decodable be s tag t \<longleftrightarrow> (be \<or> \<not> m_isNetwork s) \<and> nbt_valid t
     \<and> (if m_isInArray s then s_type s = type_of_nbt t \<and> type_of_nbt t \<noteq> NBT_End \<and> tag = []
        else length tag < 2 ^ 16 \<and> (be \<and> m_isNetwork s \<longrightarrow> tag = []) \<and> (t = NEnd \<longrightarrow> tag = []))"

lemma type_of_nbt_End: "type_of_nbt t = NBT_End \<longleftrightarrow> t = NEnd"
  by (cases t) simp_all

text \<open>Type and tag, and then whatever reads the payload.\<close>

lemma reads_nbt_head:
  assumes "decodable be s tag t"
    and "reads be (k (type_of_nbt t) tag) (nbt_payload be t) x"
  shows "reads be
    (let type0 = (if s_type s \<noteq> NBT_End then s_type s else NBT_End)
     in bnd (if \<not> m_isInArray s then bnd readByte (\<lambda>b. ret (nbt_type_of_byte b)) else ret type0) (\<lambda>type.
        bnd (if type \<noteq> NBT_End \<and> \<not> m_isInArray s then nbt_read_tag s [] else ret []) (\<lambda>tag. k type tag)))
    (nbt_header be s (type_of_nbt t) tag @ nbt_payload be t) x"
proof (cases "m_isInArray s")
  case True
  with assms show ?thesis
    by (simp add: decodable_def nbt_header_def)
next
  case False
  let ?tag = "if t = NEnd \<or> (be \<and> m_isNetwork s \<and> tag = []) then [] else string16_bytes be tag"
  have "reads be (bnd readByte (\<lambda>b. ret (nbt_type_of_byte b))) [byte_of_nbt_type (type_of_nbt t)] (type_of_nbt t)"
    by (rule reads_bnd_ret [OF reads_readByte]) simp
  moreover have "reads be (if type_of_nbt t \<noteq> NBT_End then nbt_read_tag s [] else ret []) ?tag tag"
    using assms(1) False reads_nbt_read_tag [of be s tag]
    by (auto simp: decodable_def type_of_nbt_End intro: reads_ret)
  ultimately have "reads be (bnd (bnd readByte (\<lambda>b. ret (nbt_type_of_byte b))) (\<lambda>type.
      bnd (if type \<noteq> NBT_End then nbt_read_tag s [] else ret []) (\<lambda>tag. k type tag)))
      ([byte_of_nbt_type (type_of_nbt t)] @ ?tag @ nbt_payload be t) x"
    using assms(2) by (intro reads_bnd)
  with False show ?thesis by (simp add: nbt_header_def type_of_nbt_End)
qed

lemma nbt_decode_fresh:
  "nbt_decode (Suc n) (new_NBT s) =
    (let type0 = (if s_type s \<noteq> NBT_End then s_type s else NBT_End)
     in bnd (if \<not> m_isInArray s then bnd readByte (\<lambda>b. ret (nbt_type_of_byte b)) else ret type0) (\<lambda>type.
        bnd (if type \<noteq> NBT_End \<and> \<not> m_isInArray s then nbt_read_tag s [] else ret []) (\<lambda>tag.
        let f = (new_fields s)\<lparr>m_nbtType := type, m_tag := tag\<rparr>
         in if type = NBT_List then
              bnd readByte (\<lambda>b. bnd (nbt_read_length s) (\<lambda>len. bnd (gets m_isBigEndian) (\<lambda>be.
                let elementType = nbt_type_of_byte b;
                    len' = (if elementType = NBT_End then 0 else len)
                in bnd (collect len' (nbt_decode n (new_NBT (child_settings s True elementType be)))) (\<lambda>cs.
                   ret (NBTElement f cs)))))
            else if type = NBT_Compound then
              bnd (gets m_isBigEndian) (\<lambda>be.
                bnd (nbt_compound_loop n (child_settings s False NBT_End be)) (\<lambda>cs.
                ret (NBTElement f cs)))
            else bnd (nbt_read_value s type f) (\<lambda>f'. ret (NBTElement f' [])))))"
  unfolding nbt_decode.simps new_NBT_sel Let_def append_Nil by (rule refl)

lemma reads_list_payload:
  fixes s ts be
  defines "et \<equiv> (if ts = [] then NBT_End else type_of_nbt (hd ts))"
  assumes net: "be \<or> \<not> m_isNetwork s" and len: "length ts < 2 ^ 32"
    and typed: "\<And>u. u \<in> set ts \<Longrightarrow> type_of_nbt u = et \<and> type_of_nbt u \<noteq> NBT_End"
    and items: "\<And>u. u \<in> set ts \<Longrightarrow> reads be (dec (child_settings s True et be)) (nbt_payload be u)
      (nbt_elem be (child_settings s True et be) [] u)"
  shows "reads be (bnd readByte (\<lambda>b. bnd (nbt_read_length s) (\<lambda>len. bnd (gets m_isBigEndian) (\<lambda>be.
                let elementType = nbt_type_of_byte b;
                    len' = (if elementType = NBT_End then 0 else len)
                in bnd (collect len' (dec (child_settings s True elementType be))) (\<lambda>cs.
                   ret (NBTElement f cs))))))
     (nbt_payload be (NList ts)) (NBTElement f (nbt_elems be (child_settings s True et be) ts))"
proof -
  let ?cs = "child_settings s True et be"
  have "reads be (collect (length ts) (dec ?cs)) (nbt_payloads be ts) (nbt_elems be ?cs ts)"
    unfolding nbt_payloads_concat nbt_elems_map using items by (rule reads_collect)
  moreover have n: "(if et = NBT_End then 0 else length ts) = length ts"
    using typed [of "hd ts"] by (cases ts) auto
  moreover have et: "nbt_type_of_byte (byte_of_nbt_type et) = et" by (simp add: et_def)
  ultimately have "reads be (let elementType = nbt_type_of_byte (byte_of_nbt_type et);
        len' = (if elementType = NBT_End then 0 else length ts)
      in bnd (collect len' (dec (child_settings s True elementType be))) (\<lambda>cs. ret (NBTElement f cs)))
      (nbt_payloads be ts) (NBTElement f (nbt_elems be ?cs ts))"
    unfolding Let_def et n by (intro reads_bnd_ret) simp_all
  then have "reads be (bnd readByte (\<lambda>b. bnd (nbt_read_length s) (\<lambda>len. bnd (gets m_isBigEndian) (\<lambda>be.
                let elementType = nbt_type_of_byte b;
                    len' = (if elementType = NBT_End then 0 else len)
                in bnd (collect len' (dec (child_settings s True elementType be))) (\<lambda>cs.
                   ret (NBTElement f cs))))))
     ([byte_of_nbt_type et] @ length_bytes be (length ts) @ nbt_payloads be ts) (NBTElement f (nbt_elems be ?cs ts))"
    by (intro reads_bnd [OF reads_readByte] reads_bnd [OF reads_nbt_read_length [OF net len]] reads_gets)
  then show ?thesis by (simp only: nbt_payload.simps et_def append.simps)
qed

lemma reads_nbt_decode_step:
  assumes d: "decodable be s tag t" and fuel: "nbt_fuel t \<le> Suc n"
    and IH1: "\<And>s tag t. decodable be s tag t \<Longrightarrow> nbt_fuel t \<le> n \<Longrightarrow>
      reads be (nbt_decode n (new_NBT s)) (nbt_header be s (type_of_nbt t) tag @ nbt_payload be t)
        (nbt_elem be s tag t)"
    and IH2: "\<And>s cs. \<not> m_isInArray s \<Longrightarrow> \<not> m_isNetwork s \<Longrightarrow> nbt_valid_entries cs \<Longrightarrow> Suc (nbt_entry_fuels cs) \<le> n \<Longrightarrow>
      reads be (nbt_compound_loop n s) (nbt_entries be cs @ [0]) (nbt_entry_elems be s cs)"
  shows "reads be (nbt_decode (Suc n) (new_NBT s)) (nbt_header be s (type_of_nbt t) tag @ nbt_payload be t)
       (nbt_elem be s tag t)"
  unfolding nbt_decode_fresh
proof (rule reads_nbt_head [OF d])
  have net: "be \<or> \<not> m_isNetwork s" and valid: "nbt_valid t" using d by (auto simp: decodable_def)
  let ?f = "(new_fields s)\<lparr>m_nbtType := type_of_nbt t, m_tag := tag\<rparr>"
  let ?list = "bnd readByte (\<lambda>b. bnd (nbt_read_length s) (\<lambda>len. bnd (gets m_isBigEndian) (\<lambda>be.
                let elementType = nbt_type_of_byte b;
                    len' = (if elementType = NBT_End then 0 else len)
                in bnd (collect len' (nbt_decode n (new_NBT (child_settings s True elementType be)))) (\<lambda>cs.
                   ret (NBTElement ?f cs)))))"
  let ?comp = "bnd (gets m_isBigEndian) (\<lambda>be.
                bnd (nbt_compound_loop n (child_settings s False NBT_End be)) (\<lambda>cs.
                ret (NBTElement ?f cs)))"
  let ?val = "bnd (nbt_read_value s (type_of_nbt t) ?f) (\<lambda>f'. ret (NBTElement f' []))"
  consider ts where "t = NList ts" | cs where "t = NCompound cs"
    | "type_of_nbt t \<noteq> NBT_List" "type_of_nbt t \<noteq> NBT_Compound" by (cases t) auto
  then have "reads be (if type_of_nbt t = NBT_List then ?list else if type_of_nbt t = NBT_Compound then ?comp
      else ?val) (nbt_payload be t) (nbt_elem be s tag t)"
  proof cases
    case (1 ts)
    define et where "et = (if ts = [] then NBT_End else type_of_nbt (hd ts))"
    define cs where "cs = child_settings s True et be"
    have "length ts < 2 ^ 32 \<and> (\<forall>t \<in> set ts. type_of_nbt t = type_of_nbt (hd ts) \<and> type_of_nbt t \<noteq> NBT_End \<and> nbt_valid t)"
      using valid unfolding 1 nbt_valid.simps .
    moreover have "et = type_of_nbt (hd ts)" if "u \<in> set ts" for u using that by (cases ts) (simp_all add: et_def)
    ultimately have ts: "length ts < 2 ^ 32"
      "\<And>u. u \<in> set ts \<Longrightarrow> type_of_nbt u = et \<and> type_of_nbt u \<noteq> NBT_End \<and> nbt_valid u" by blast+
    have cs: "m_isInArray cs" "m_isNetwork cs = (\<not> be \<and> m_isNetwork s)" "s_type cs = et"
      by (simp_all add: cs_def child_settings_def)
    have items: "reads be (nbt_decode n (new_NBT cs)) (nbt_payload be u) (nbt_elem be cs [] u)" if u: "u \<in> set ts" for u
    proof -
      have "decodable be cs [] u"
        using ts(2) [OF u] cs net by (auto simp: decodable_def)
      moreover have "nbt_fuel u \<le> n" using nbt_fuel_le [OF u] fuel 1 by simp
      ultimately have "reads be (nbt_decode n (new_NBT cs)) (nbt_header be cs (type_of_nbt u) [] @ nbt_payload be u)
          (nbt_elem be cs [] u)" by (rule IH1)
      then show ?thesis using cs(1) by (simp add: nbt_header_def)
    qed
    have "reads be ?list (nbt_payload be (NList ts)) (NBTElement ?f (nbt_elems be cs ts))"
      unfolding cs_def et_def
    proof (rule reads_list_payload [OF net ts(1), where dec = "\<lambda>s. nbt_decode n (new_NBT s)"])
      fix u assume u: "u \<in> set ts"
      show "type_of_nbt u = (if ts = [] then NBT_End else type_of_nbt (hd ts)) \<and> type_of_nbt u \<noteq> NBT_End"
        using ts(2) [OF u] unfolding et_def by blast
      show "reads be (nbt_decode n (new_NBT (child_settings s True (if ts = [] then NBT_End else type_of_nbt (hd ts)) be)))
          (nbt_payload be u) (nbt_elem be (child_settings s True (if ts = [] then NBT_End else type_of_nbt (hd ts)) be) [] u)"
        using items [OF u] unfolding cs_def et_def .
    qed
    moreover have "nbt_elem be s tag t = NBTElement ?f (nbt_elems be cs ts)"
      unfolding cs_def et_def 1 nbt_elem.simps Let_def nbt.case ..
    ultimately show ?thesis unfolding 1 by (simp only: type_of_nbt.simps if_True refl)
  next
    case (2 cs)
    have "reads be (nbt_compound_loop n (child_settings s False NBT_End be)) (nbt_entries be cs @ [0])
        (nbt_entry_elems be (child_settings s False NBT_End be) cs)"
      by (rule IH2) (use valid 2 fuel net in \<open>auto simp: child_settings_def\<close>)
    then have "reads be ?comp (nbt_payload be t) (NBTElement ?f (nbt_entry_elems be (child_settings s False NBT_End be) cs))"
      unfolding 2 nbt_payload.simps by (rule reads_gets [OF reads_bnd_ret [OF _ refl]])
    moreover have "nbt_elem be s tag t = NBTElement ?f (nbt_entry_elems be (child_settings s False NBT_End be) cs)"
      unfolding 2 nbt_elem.simps Let_def nbt.case ..
    ultimately show ?thesis unfolding 2 type_of_nbt.simps by simp
  next
    case 3
    have "NBTElement (m_fields (nbt_elem be s tag t)) [] = nbt_elem be s tag t"
      using m_childElements_elem [OF 3, of be s tag] by (cases "nbt_elem be s tag t") simp
    with reads_nbt_read_value [OF net valid 3] have "reads be ?val (nbt_payload be t) (nbt_elem be s tag t)"
      by (intro reads_bnd_ret)
    with 3 show ?thesis by (simp only: if_False)
  qed
  then show "reads be (let f = ?f in if type_of_nbt t = NBT_List then
              bnd readByte (\<lambda>b. bnd (nbt_read_length s) (\<lambda>len. bnd (gets m_isBigEndian) (\<lambda>be.
                let elementType = nbt_type_of_byte b;
                    len' = (if elementType = NBT_End then 0 else len)
                in bnd (collect len' (nbt_decode n (new_NBT (child_settings s True elementType be)))) (\<lambda>cs.
                   ret (NBTElement f cs)))))
            else if type_of_nbt t = NBT_Compound then
              bnd (gets m_isBigEndian) (\<lambda>be.
                bnd (nbt_compound_loop n (child_settings s False NBT_End be)) (\<lambda>cs.
                ret (NBTElement f cs)))
            else bnd (nbt_read_value s (type_of_nbt t) f) (\<lambda>f'. ret (NBTElement f' [])))
        (nbt_payload be t) (nbt_elem be s tag t)"
    unfolding Let_def .
qed

lemma reads_nbt_loop_step:
  assumes s: "\<not> m_isInArray s" "\<not> m_isNetwork s" and valid: "nbt_valid_entries cs" and fuel: "Suc (nbt_entry_fuels cs) \<le> Suc n"
    and IH1: "\<And>s tag t. decodable be s tag t \<Longrightarrow> nbt_fuel t \<le> n \<Longrightarrow>
      reads be (nbt_decode n (new_NBT s)) (nbt_header be s (type_of_nbt t) tag @ nbt_payload be t)
        (nbt_elem be s tag t)"
    and IH2: "\<And>s cs. \<not> m_isInArray s \<Longrightarrow> \<not> m_isNetwork s \<Longrightarrow> nbt_valid_entries cs \<Longrightarrow> Suc (nbt_entry_fuels cs) \<le> n \<Longrightarrow>
      reads be (nbt_compound_loop n s) (nbt_entries be cs @ [0]) (nbt_entry_elems be s cs)"
  shows "reads be (nbt_compound_loop (Suc n) s) (nbt_entries be cs @ [0]) (nbt_entry_elems be s cs)"
proof (cases cs)
  case Nil
  have "reads be (bnd readByte (\<lambda>_. ret [])) [0] ([] :: NBTElement list)"
    by (rule reads_bnd_ret [OF reads_readByte refl])
  with Nil show ?thesis by (auto intro!: reads_more reads_peek)
next
  case (Cons c rest)
  obtain tag t where c: "c = (tag, t)" by (cases c)
  have t: "length tag < 2 ^ 16" "type_of_nbt t \<noteq> NBT_End" "nbt_valid t" "nbt_valid_entries rest"
    using valid Cons c by auto
  have f: "nbt_fuel t \<le> n" "Suc (nbt_entry_fuels rest) \<le> n"
    using fuel Cons c nbt_fuel_pos [of t] by (simp_all del: nbt_fuel_pos)
  have "decodable be s tag t" using s t by (auto simp: decodable_def type_of_nbt_End)
  from IH1 [OF this f(1)] s t(2) have head: "reads be (nbt_decode n (new_NBT s))
      (byte_of_nbt_type (type_of_nbt t) # string16_bytes be tag @ nbt_payload be t) (nbt_elem be s tag t)"
    by (simp add: nbt_header_def)
  have "reads be (bnd (nbt_compound_loop n s) (\<lambda>cs. ret (nbt_elem be s tag t # cs))) (nbt_entries be rest @ [0])
      (nbt_elem be s tag t # nbt_entry_elems be s rest)"
    by (rule reads_bnd_ret [OF IH2 [OF s t(4) f(2)] refl])
  with head have "reads be (bnd (nbt_decode n (new_NBT s)) (\<lambda>childElement. bnd (nbt_compound_loop n s) (\<lambda>cs. ret (childElement # cs))))
      ((byte_of_nbt_type (type_of_nbt t) # string16_bytes be tag @ nbt_payload be t) @ nbt_entries be rest @ [0])
      (nbt_elem be s tag t # nbt_entry_elems be s rest)" by (rule reads_bnd)
  then have "reads be (bnd (nbt_decode n (new_NBT s)) (\<lambda>childElement. bnd (nbt_compound_loop n s) (\<lambda>cs. ret (childElement # cs))))
      (nbt_entries be cs @ [0]) (nbt_entry_elems be s cs)" using Cons c by simp
  moreover have "byte_of_nbt_type (type_of_nbt t) \<noteq> 0"
    using t(2) by (cases t) (simp_all add: byte_of_nbt_type_def)
  ultimately show ?thesis using Cons c by (auto intro!: reads_more reads_peek)
qed

lemma reads_nbt_decode:
  "decodable be s tag t \<Longrightarrow> nbt_fuel t \<le> n \<Longrightarrow>
     reads be (nbt_decode n (new_NBT s)) (nbt_header be s (type_of_nbt t) tag @ nbt_payload be t)
       (nbt_elem be s tag t)"
  and reads_nbt_compound_loop:
  "\<not> m_isInArray s \<Longrightarrow> \<not> m_isNetwork s \<Longrightarrow> nbt_valid_entries cs \<Longrightarrow> Suc (nbt_entry_fuels cs) \<le> n \<Longrightarrow>
     reads be (nbt_compound_loop n s) (nbt_entries be cs @ [0]) (nbt_entry_elems be s cs)"
proof (induction n arbitrary: s tag t cs)
  case 0
  { case 1
    then show ?case using nbt_fuel_pos [of t] by simp
  next
    case 2
    then show ?case by simp }
next
  case (Suc n)
  { case 1
    then show ?case by (rule reads_nbt_decode_step) (fact Suc.IH)+
  next
    case 2
    then show ?case by (rule reads_nbt_loop_step) (fact Suc.IH)+ }
qed

section \<open>Decoding ends on every input\<close>

text \<open>A reader that also uses up a byte.\<close>

definition consumes :: "nat \<Rightarrow> 'a bb \<Rightarrow> bool" where
  "consumes k r \<longleftrightarrow> (\<forall>b. input_ok b \<and> remaining b \<le> k \<longrightarrow>
     (case r b of Inl e \<Rightarrow> e \<noteq> StackExhausted | Inr (x, b') \<Rightarrow> input_ok b' \<and> remaining b' \<le> k - 1))"

lemma consumes_bnd_readByte:
  assumes "\<And>c. terminates (k - 1) (f c)"
  shows "consumes k (bnd readByte f)"
  unfolding consumes_def
proof (intro allI impI, elim conjE)
  fix b assume b: "input_ok b" "remaining b \<le> k"
  from readByte_cases [OF b(1)]
  show "case bnd readByte f b of Inl e \<Rightarrow> e \<noteq> StackExhausted | Inr (x, b') \<Rightarrow> input_ok b' \<and> remaining b' \<le> k - 1"
  proof (elim disjE exE conjE)
    fix c b' assume c: "readByte b = Inr (c, b')" "input_ok b'" "remaining b' = remaining b - 1"
    have "remaining b' \<le> k - 1" using b(2) c(3) by simp
    with assms [of c] c(2) have "case f c b' of Inl e \<Rightarrow> e \<noteq> StackExhausted
        | Inr (x, b') \<Rightarrow> input_ok b' \<and> remaining b' \<le> k - 1" unfolding terminates_def by blast
    with c(1) show ?thesis by (simp add: bnd_Inr)
  qed (simp add: bnd_Inl)
qed

lemma terminates_bnd_consumes:
  assumes "consumes k r" and "\<And>x. terminates (k - 1) (f x)"
  shows "terminates k (bnd r f)"
  unfolding terminates_def
proof (intro allI impI, elim conjE)
  fix b assume b: "input_ok b" "remaining b \<le> k"
  show "case bnd r f b of Inl e \<Rightarrow> e \<noteq> StackExhausted | Inr (x, b') \<Rightarrow> input_ok b' \<and> remaining b' \<le> k"
  proof (cases "r b")
    case (Inl e)
    with assms(1) b show ?thesis by (auto simp: consumes_def bnd_Inl)
  next
    case (Inr y)
    obtain x b' where y: "y = (x, b')" by (cases y)
    with assms(1) b Inr have "input_ok b'" "remaining b' \<le> k - 1" by (auto simp: consumes_def)
    with assms(2) [of x] have "case f x b' of Inl e \<Rightarrow> e \<noteq> StackExhausted | Inr (x, b') \<Rightarrow> input_ok b' \<and> remaining b' \<le> k - 1"
      unfolding terminates_def by blast
    with Inr y show ?thesis by (auto simp: bnd_Inr split: sum.splits)
  qed
qed

lemma terminates_read_string16 [terminates_intros]: "terminates k read_string16"
  unfolding read_string16_def by (intro terminates_intros)

lemma terminates_nbt_read_tag [terminates_intros]: "terminates k (nbt_read_tag s tag)"
  unfolding nbt_read_tag_def by (intro terminates_intros)

lemma terminates_nbt_read_length [terminates_intros]: "terminates k (nbt_read_length s)"
  unfolding nbt_read_length_def by (intro terminates_intros)

lemma terminates_nbt_read_integer [terminates_intros]: "terminates k (nbt_read_integer s)"
  unfolding nbt_read_integer_def by (intro terminates_intros)

lemma terminates_nbt_read_text [terminates_intros]: "terminates k (nbt_read_text s)"
  unfolding nbt_read_text_def by (intro terminates_intros)

lemma terminates_nbt_read_value [terminates_intros]: "terminates k (nbt_read_value s type f)"
  unfolding nbt_read_value_def readByteArray_def readArray_def
  by (cases type; simp; intro terminates_intros)

lemma terminates_peek_byte [terminates_intros]: "terminates k peek_byte"
  by (simp add: terminates_def peek_byte_def)

text \<open>What follows type and tag, when the element's body may use up fuel \<open>n\<close>.\<close>

definition nbt_body :: "nat \<Rightarrow> NBTSettings \<Rightarrow> NBTElement list \<Rightarrow> NBTFields \<Rightarrow> NBTElementType \<Rightarrow> NBTElement bb" where
  "nbt_body n s children f type =
     (if type = NBT_List then
              bnd readByte (\<lambda>b. bnd (nbt_read_length s) (\<lambda>len. bnd (gets m_isBigEndian) (\<lambda>be.
                let elementType = nbt_type_of_byte b;
                    len' = (if elementType = NBT_End then 0 else len)
                in bnd (collect len' (nbt_decode n (new_NBT (child_settings s True elementType be)))) (\<lambda>cs.
                   ret (NBTElement f (children @ cs))))))
            else if type = NBT_Compound then
              bnd (gets m_isBigEndian) (\<lambda>be.
                bnd (nbt_compound_loop n (child_settings s False NBT_End be)) (\<lambda>cs.
                ret (NBTElement f (children @ cs))))
            else bnd (nbt_read_value s type f) (\<lambda>f'. ret (NBTElement f' children)))"

lemma nbt_decode_body:
  "nbt_decode (Suc n) e =
     (let s = m_settings (m_fields e);
          type0 = (if s_type s \<noteq> NBT_End then s_type s else nbt_type e)
      in bnd (if \<not> m_isInArray s then bnd readByte (\<lambda>b. ret (nbt_type_of_byte b)) else ret type0) (\<lambda>type.
         bnd (if type \<noteq> NBT_End \<and> \<not> m_isInArray s then nbt_read_tag s (nbt_tag e) else ret (nbt_tag e)) (\<lambda>tag.
         nbt_body n s (m_childElements e) ((m_fields e)\<lparr>m_nbtType := type, m_tag := tag\<rparr>) type)))"
  unfolding nbt_decode.simps nbt_body_def Let_def by (rule refl)

lemma terminates_nbt_body:
  assumes "\<And>s. 0 < k \<Longrightarrow> terminates (k - 1) (nbt_decode n (new_NBT s))"
    and "\<And>s. \<not> m_isInArray s \<Longrightarrow> terminates k (nbt_compound_loop n s)"
  shows "terminates k (nbt_body n s children f type)"
proof -
  have list: "terminates k (bnd readByte (\<lambda>b. bnd (nbt_read_length s) (\<lambda>len. bnd (gets m_isBigEndian) (\<lambda>be.
                let elementType = nbt_type_of_byte b;
                    len' = (if elementType = NBT_End then 0 else len)
                in bnd (collect len' (nbt_decode n (new_NBT (child_settings s True elementType be)))) (\<lambda>cs.
                   ret (NBTElement f (children @ cs)))))))"
  proof (rule terminates_bnd_readByte)
    fix c assume k: "0 < k"
    show "terminates (k - 1) (bnd (nbt_read_length s) (\<lambda>len. bnd (gets m_isBigEndian) (\<lambda>be.
                let elementType = nbt_type_of_byte c;
                    len' = (if elementType = NBT_End then 0 else len)
                in bnd (collect len' (nbt_decode n (new_NBT (child_settings s True elementType be)))) (\<lambda>cs.
                   ret (NBTElement f (children @ cs))))))"
      unfolding Let_def by (intro terminates_intros assms(1) k)
  next
    have zero: "nbt_type_of_byte 0 = NBT_End" by (simp add: nbt_type_of_byte_def)
    show "terminates 0 (bnd (nbt_read_length s) (\<lambda>len. bnd (gets m_isBigEndian) (\<lambda>be.
                let elementType = nbt_type_of_byte 0;
                    len' = (if elementType = NBT_End then 0 else len)
                in bnd (collect len' (nbt_decode n (new_NBT (child_settings s True elementType be)))) (\<lambda>cs.
                   ret (NBTElement f (children @ cs))))))"
      unfolding Let_def zero if_True simp_thms collect.simps by (intro terminates_intros)
  qed
  have "terminates k (nbt_compound_loop n (child_settings s False NBT_End be))" for be
    by (rule assms(2)) (simp add: child_settings_def)
  then show ?thesis unfolding nbt_body_def
    by (intro terminates_if list terminates_bnd terminates_gets terminates_ret terminates_nbt_read_value)
qed

lemma terminates_nbt_decode:
  "2 * k + 2 \<le> n \<Longrightarrow> terminates k (nbt_decode n e)"
  "0 < k \<Longrightarrow> 2 * k \<le> n \<Longrightarrow> \<not> m_isInArray (m_settings (m_fields e)) \<Longrightarrow> consumes k (nbt_decode n e)"
  "2 * k + 1 \<le> n \<Longrightarrow> \<not> m_isInArray s \<Longrightarrow> terminates k (nbt_compound_loop n s)"
proof (induction n arbitrary: k e s)
  case 0
  { case 1 then show ?case by simp
  next case 2 then show ?case by simp
  next case 3 then show ?case by simp }
next
  case (Suc n)
  let ?s = "\<lambda>e. m_settings (m_fields e)"
  have body: "terminates k (nbt_body n s children f type)" if "2 * k + 1 \<le> n" for k s children f type
    using Suc.IH(1) [of "k - 1"] Suc.IH(3) [of k] that by (intro terminates_nbt_body) auto
  { case 1
    show ?case unfolding nbt_decode_body Let_def
      by (intro terminates_bnd terminates_if terminates_readByte terminates_ret terminates_nbt_read_tag body)
        (use 1 in simp)
  next
    case 2
    let ?k = "\<lambda>type. bnd (if type \<noteq> NBT_End \<and> True then nbt_read_tag (?s e) (nbt_tag e) else ret (nbt_tag e))
      (\<lambda>tag. nbt_body n (?s e) (m_childElements e) ((m_fields e)\<lparr>m_nbtType := type, m_tag := tag\<rparr>) type)"
    have "nbt_decode (Suc n) e = bnd readByte (\<lambda>b. ?k (nbt_type_of_byte b))"
      using 2(3) unfolding nbt_decode_body Let_def by (simp add: bnd_assoc)
    moreover have "terminates (k - 1) (?k type)" for type
      using 2 by (intro terminates_bnd terminates_if terminates_nbt_read_tag terminates_ret body) auto
    ultimately show ?case by (simp add: consumes_bnd_readByte)
  next
    case 3
    have child: "terminates k (bnd (nbt_decode n (new_NBT s)) (\<lambda>childElement.
        bnd (nbt_compound_loop n s) (\<lambda>cs. ret (childElement # cs))))" if "0 < k"
    proof (rule terminates_bnd_consumes)
      show "consumes k (nbt_decode n (new_NBT s))" using 3 that by (intro Suc.IH(2)) auto
      show "terminates (k - 1) (bnd (nbt_compound_loop n s) (\<lambda>cs. ret (x # cs)))" for x
        using 3 that by (intro terminates_bnd terminates_ret Suc.IH(3)) auto
    qed
    show ?case unfolding nbt_compound_loop.simps
    proof (rule terminates_bnd_more)
      show "terminates k (if \<not> False then ret [] else bnd peek_byte (\<lambda>c. if c = 0 then bnd readByte (\<lambda>_. ret [])
          else bnd (nbt_decode n (new_NBT s)) (\<lambda>childElement. bnd (nbt_compound_loop n s) (\<lambda>cs. ret (childElement # cs)))))"
        by (simp add: terminates_ret)
      show "terminates k (if \<not> True then ret [] else bnd peek_byte (\<lambda>c. if c = 0 then bnd readByte (\<lambda>_. ret [])
          else bnd (nbt_decode n (new_NBT s)) (\<lambda>childElement. bnd (nbt_compound_loop n s) (\<lambda>cs. ret (childElement # cs)))))"
        if "0 < k"
        unfolding not_True_eq_False if_False
        by (intro terminates_bnd terminates_peek_byte terminates_if terminates_readByte terminates_ret child that)
    qed }
qed

lemma nbt_fuel_le_payload:
  "t \<noteq> NEnd \<Longrightarrow> nbt_valid t \<Longrightarrow> nbt_fuel t \<le> 2 * length (nbt_payload be t)"
  "(\<forall>t \<in> set ts. nbt_valid t \<and> t \<noteq> NEnd) \<Longrightarrow> nbt_fuels ts \<le> 2 * length (nbt_payloads be ts)"
  "nbt_valid_entries cs \<Longrightarrow> nbt_entry_fuels cs \<le> 2 * length (nbt_entries be cs)"
proof (induction be t and be ts and be cs rule: nbt_payload_nbt_payloads_nbt_entries.induct)
  case (10 be ts)
  then show ?case by (auto simp: length_bytes_def type_of_nbt_End)
qed (auto simp: length_bytes_def string16_bytes_def type_of_nbt_End)

lemma new_bb_input_ok: "bb_wf b \<Longrightarrow> \<not> areBlocksRecycled (m_internalBuffer b) \<Longrightarrow> input_ok b"
  by (simp add: bb_wf_def ibuf_wf_def input_ok_def)

text \<open>\<open>contains(pos)\<close> holds for one position too many, and \<open>at\<close> at that position reads past the
  children.\<close>

lemma nbt_at_position:
  "nbt_at_pos pos e =
     (if nbt_type e \<noteq> NBT_List \<or> length (m_childElements e) < pos then Inr e
      else if pos = length (m_childElements e) then Inl OutOfBounds
      else Inr (m_childElements e ! pos))"
  by (auto simp: nbt_at_pos_def nbt_contains_pos_def)

lemma nbt_decode_encoded:
  assumes "nbt_valid (nbt_abs e)" and "type_of_nbt (nbt_abs e) = nbt_type e" and "nbt_type e \<noteq> NBT_End"
    and "length (nbt_tag e) < 2 ^ 16" and "m_settings (m_fields e) = default_NBTSettings"
  shows "\<exists>b1 b2. nbt_encode e (new_bb be) = Inr ((), b1)
    \<and> getBytes b1 = byte_of_nbt_type (nbt_type e) # string16_bytes be (nbt_tag e) @ nbt_payload be (nbt_abs e)
    \<and> nbt_decode (2 * bb_size b1) (new_NBT default_NBTSettings) b1
        = Inr (nbt_elem be default_NBTSettings (nbt_tag e) (nbt_abs e), b2) \<and> bb_unread b2 = []"
proof -
  let ?t = "nbt_abs e" and ?s = default_NBTSettings
  let ?bytes = "nbt_header be ?s (nbt_type e) (nbt_tag e) @ nbt_payload be ?t"
  have s: "s_type ?s = NBT_End" "\<not> m_isInArray ?s" "\<not> m_isNetwork ?s"
    by (simp_all add: default_NBTSettings_def)
  have bytes: "?bytes = byte_of_nbt_type (nbt_type e) # string16_bytes be (nbt_tag e) @ nbt_payload be ?t"
    using s assms(3) by (simp add: nbt_header_def)
  have "appends be (nbt_encode_with ?s e) ?bytes"
    by (rule appends_nbt_encode) (use s assms in auto)
  then obtain b1 where b1: "nbt_encode e (new_bb be) = Inr ((), b1)" "bb_wf b1" "m_isBigEndian b1 = be"
    "getBytes b1 = ?bytes" "bb_unread b1 = ?bytes @ []"
    unfolding nbt_encode_def assms(5) by (rule appendsE [where b = "new_bb be"]) auto
  have "?t \<noteq> NEnd" using assms(2,3) by auto
  then have "nbt_fuel ?t \<le> 2 * bb_size b1"
    using nbt_fuel_le_payload(1) [of ?t be] assms(1) b1(2,4) by (simp add: bb_size_eq)
  moreover have "decodable be ?s (nbt_tag e) ?t" using s assms by (auto simp: decodable_def)
  ultimately have "reads be (nbt_decode (2 * bb_size b1) (new_NBT ?s)) ?bytes (nbt_elem be ?s (nbt_tag e) ?t)"
    using reads_nbt_decode [of be ?s "nbt_tag e" ?t] assms(2) by simp
  from this b1(2,3,5) obtain b2 where "nbt_decode (2 * bb_size b1) (new_NBT ?s) b1
      = Inr (nbt_elem be ?s (nbt_tag e) ?t, b2)" "bb_unread b2 = []" by (rule readsE)
  with b1 bytes show ?thesis by auto
qed

section \<open>Properties\<close>

text \<open>C7: A well-formed element, not in a list and not in network mode, is encoded as its type, its
  tag and the specified payload of its tree, in the buffer's byte order, and decoding what was
  written returns an element with the same tag and the same tree, at every nesting depth. Fuel
  twice the number of bytes is enough.\<close>

theorem nbt_round_trip:
  assumes "nbt_valid (nbt_abs e)" and "type_of_nbt (nbt_abs e) = nbt_type e" and "nbt_type e \<noteq> NBT_End"
    and "length (nbt_tag e) < 2 ^ 16" and "m_settings (m_fields e) = default_NBTSettings"
  shows "\<exists>b1 b2 e'. nbt_encode e (new_bb be) = Inr ((), b1)
    \<and> getBytes b1 = byte_of_nbt_type (nbt_type e) # string16_bytes be (nbt_tag e) @ nbt_payload be (nbt_abs e)
    \<and> nbt_decode (2 * bb_size b1) (new_NBT default_NBTSettings) b1 = Inr (e', b2)
    \<and> nbt_abs e' = nbt_abs e \<and> nbt_tag e' = nbt_tag e \<and> bb_unread b2 = []"
  using nbt_decode_encoded [OF assms, of be] by (auto simp: nbt_abs_elem)

theorem nbt_round_trip_witness:
  fixes e :: NBTElement
  defines "e \<equiv> mk_Compound [with_tag ''array'' (mk_List [mk_Int 1 default_NBTSettings, mk_Int 2 default_NBTSettings]
      default_NBTSettings)] default_NBTSettings"
  shows "\<exists>b1 b2 e'. nbt_encode e (new_bb False) = Inr ((), b1)
    \<and> getBytes b1 = byte_of_nbt_type (nbt_type e) # string16_bytes False (nbt_tag e) @ nbt_payload False (nbt_abs e)
    \<and> nbt_decode (2 * bb_size b1) (new_NBT default_NBTSettings) b1 = Inr (e', b2)
    \<and> nbt_abs e' = nbt_abs e \<and> nbt_tag e' = nbt_tag e \<and> bb_unread b2 = []"
  unfolding e_def
  by (rule nbt_round_trip) (simp_all add: mk_Compound_def mk_List_def mk_Int_def with_tag_def new_fields_def)

text \<open>C36: Decoding ends on every input, malformed or truncated: whatever a buffer holds and wherever its reader is, as long as its
  indices are within its blocks, which every operation keeps, and it does not recycle blocks, which is how a buffer is made, fuel twice
  the number of bytes left plus two is never used up. So the recursion of \<open>decode\<close> is bounded by what is left of its input, and when it
  succeeds the reader has not gone back.\<close>

theorem nbt_decode_terminates:
  assumes "ibuf_inv (m_internalBuffer b)" and "\<not> areBlocksRecycled (m_internalBuffer b)"
    and "2 * (wpos (m_internalBuffer b) - rpos (m_internalBuffer b)) + 2 \<le> n"
  shows "case nbt_decode n e b of Inl err \<Rightarrow> err \<noteq> StackExhausted
    | Inr (e', b') \<Rightarrow> ibuf_inv (m_internalBuffer b') \<and> wpos (m_internalBuffer b') - rpos (m_internalBuffer b')
        \<le> wpos (m_internalBuffer b) - rpos (m_internalBuffer b)"
  using terminates_nbt_decode(1) [of "remaining b" n e] assms
  by (auto simp: terminates_def input_ok_def remaining_def split: sum.splits)

text \<open>A reader in the middle of its buffer, before the truncated list 9, 1, 5.\<close>

theorem nbt_decode_terminates_witness:
  "\<exists>b c b1. writeBytes [8, 9, 1, 5] (new_bb True) = Inr ((), b) \<and> readByte b = Inr (c, b1)
     \<and> (case nbt_decode (2 * (wpos (m_internalBuffer b1) - rpos (m_internalBuffer b1)) + 2) (new_NBT network_settings) b1 of
          Inl err \<Rightarrow> err \<noteq> StackExhausted
        | Inr (e', b') \<Rightarrow> ibuf_inv (m_internalBuffer b') \<and> wpos (m_internalBuffer b') - rpos (m_internalBuffer b')
            \<le> wpos (m_internalBuffer b1) - rpos (m_internalBuffer b1))"
proof -
  obtain b where b: "writeBytes [8, 9, 1, 5] (new_bb True) = Inr ((), b)" "bb_wf b" "bb_unread b = [8] @ [9, 1, 5]" "m_isBigEndian b"
    using appends_writeBytes by (rule appendsE [where b = "new_bb True"]) auto
  have "\<not> areBlocksRecycled (m_internalBuffer b)"
    using b(1) ibuf_write_wf [OF ibuf_wf_new, of "[8, 9, 1, 5]"] by (auto simp: writeBytes_def new_bb_def)
  then have ok: "input_ok b" by (rule new_bb_input_ok [OF b(2)])
  obtain b1 where b1: "readByte b = Inr (8, b1)" using readsE [OF reads_readByte b(2) refl] b(3,4) by metis
  then have "input_ok b1" using terminates_readByte [of "remaining b"] ok by (force simp: terminates_def)
  then have "ibuf_inv (m_internalBuffer b1)" "\<not> areBlocksRecycled (m_internalBuffer b1)" by (simp_all add: input_ok_def)
  from nbt_decode_terminates [OF this order_refl] b(1) b1 show ?thesis by blast
qed

text \<open>In network mode a big-endian writer leaves the root tag out only when it is empty, but the
  reader never expects one. A root element with a tag is misread: a byte element comes back with
  the high byte of its tag's length for a value, the rest is left in the buffer.\<close>

theorem network_root_tag_is_misread:
  assumes "tag \<noteq> []"
  shows "\<exists>b e. bnd (writeNBTElement (with_tag tag (mk_Byte v s))) (\<lambda>_. readNBTElement (Suc n)) (new_bb True) = Inr (e, b)
    \<and> nbt_abs e = NByte (hd (numeric_bytes True (u16_of_size (length tag))))
    \<and> bb_unread b = tl (numeric_bytes True (u16_of_size (length tag))) @ bytes_of_string tag @ [v]"
proof -
  let ?e = "with_tag tag (mk_Byte v s)" and ?l = "numeric_bytes True (u16_of_size (length tag))"
  have e: "nbt_abs ?e = NByte v" "nbt_type ?e = NBT_Byte" "nbt_tag ?e = tag"
    by (simp_all add: with_tag_def mk_Byte_def new_fields_def)
  have s: "s_type network_settings = NBT_End" "\<not> m_isInArray network_settings" "m_isNetwork network_settings"
    by (simp_all add: network_settings_def default_NBTSettings_def)
  have w: "appends True (writeNBTElement ?e) ([1] @ ?l @ bytes_of_string tag @ [v])"
    using appends_nbt_encode [of True network_settings ?e] assms e s
    by (simp add: writeNBTElement_def nbt_header_def string16_bytes_def byte_of_nbt_type_def)
  have "length ?l = 2" by simp
  then have l: "?l = hd ?l # tl ?l" by (cases ?l) auto
  have "decodable True network_settings [] (NByte (hd ?l))" using s by (simp add: decodable_def)
  from reads_nbt_decode [OF this, of "Suc n"] s have "reads True (readNBTElement (Suc n)) [1, hd ?l]
      (nbt_elem True network_settings [] (NByte (hd ?l)))"
    by (simp add: readNBTElement_def nbt_header_def byte_of_nbt_type_def)
  note rd = this
  have "[1] @ ?l @ bytes_of_string tag @ [v] = [1, hd ?l] @ tl ?l @ bytes_of_string tag @ [v]"
    by (subst l) simp
  with w have "appends True (writeNBTElement ?e) ([1, hd ?l] @ tl ?l @ bytes_of_string tag @ [v])"
    by (simp only:)
  from write_then_read [OF this rd] obtain b where "bnd (writeNBTElement ?e) (\<lambda>_. readNBTElement (Suc n)) (new_bb True)
      = Inr (nbt_elem True network_settings [] (NByte (hd ?l)), b)" "bb_unread b = tl ?l @ bytes_of_string tag @ [v]"
    by blast
  then show ?thesis using nbt_abs_elem(1) by blast
qed

theorem network_root_tag_is_misread_witness:
  "\<exists>b e. bnd (writeNBTElement (with_tag ''a'' (mk_Byte 7 default_NBTSettings))) (\<lambda>_. readNBTElement (Suc 0)) (new_bb True) = Inr (e, b)
    \<and> nbt_abs e = NByte (hd (numeric_bytes True (u16_of_size (length ''a''))))
    \<and> bb_unread b = tl (numeric_bytes True (u16_of_size (length ''a''))) @ bytes_of_string ''a'' @ [7]"
  by (rule network_root_tag_is_misread) simp

end
