(* ===== verification/Text_Component.thy ===== *)
theory Text_Component
  imports Value_Types NBT
begin

text \<open>
  Chat text (\<open>inc/type/TextComponent.h\<close>, \<open>src/type/TextComponent.cpp\<close>): the component with its
  nested parts, its translation to an NBT compound, to JSON and back, and the builders. A part
  that holds components again is a datatype over the type of components, so that \<open>encode\<close> and
  \<open>encodeJSON\<close> are structural recursions; \<open>decode\<close> descends by writing a child to a fresh buffer
  and reading it back, and takes fuel.
\<close>

section \<open>UUID strings\<close>

text \<open>\<open>uuids::to_string\<close> and \<open>uuids::uuid::from_string\<close> from \<open>inc/external/UUID.h\<close>.\<close>

definition guid_encoder :: "byte \<Rightarrow> char" where
  "guid_encoder v = ''0123456789abcdef'' ! unat v"

definition uuid_hex :: "byte list \<Rightarrow> string" where
  "uuid_hex bytes = concat (map (\<lambda>v. [guid_encoder (drop_bit 4 v AND 0x0F), guid_encoder (v AND 0x0F)]) bytes)"

definition uuid_to_string :: "byte list \<Rightarrow> string" where
  "uuid_to_string u = uuid_hex (take 4 u) @ ''-'' @ uuid_hex (take 2 (drop 4 u)) @ ''-''
     @ uuid_hex (take 2 (drop 6 u)) @ ''-'' @ uuid_hex (take 2 (drop 8 u)) @ ''-'' @ uuid_hex (drop 10 u)"

definition hex2char :: "char \<Rightarrow> byte option" where
  "hex2char ch = (let n = of_char ch :: nat in
     if 48 \<le> n \<and> n \<le> 57 then Some (of_nat (n - 48))
     else if 97 \<le> n \<and> n \<le> 102 then Some (of_nat (n - 87))
     else if 65 \<le> n \<and> n \<le> 70 then Some (of_nat (n - 55))
     else None)"

text \<open>The loop over the digits: \<open>half\<close> is the pending high half, none when \<open>firstDigit\<close> holds.\<close>

fun uuid_digits :: "string \<Rightarrow> byte option \<Rightarrow> byte list \<Rightarrow> byte list option" where
  "uuid_digits [] half bytes = (if length bytes < 16 then None else Some bytes)"
| "uuid_digits (c # cs) half bytes =
     (if c = CHR ''-'' then uuid_digits cs half bytes
      else if 16 \<le> length bytes then None
      else case hex2char c of None \<Rightarrow> None
        | Some v \<Rightarrow> (case half of None \<Rightarrow> uuid_digits cs (Some (push_bit 4 v)) bytes
            | Some h \<Rightarrow> uuid_digits cs None (bytes @ [h OR v])))"

definition uuid_from_string :: "string \<Rightarrow> byte list option" where
  "uuid_from_string s =
     (if s = [] then None
      else if hd s = CHR ''{'' then
        (if last s \<noteq> CHR ''}'' then None else uuid_digits (butlast (tl s)) None [])
      else uuid_digits s None [])"

section \<open>Data\<close>

definition legacy_code :: "char \<Rightarrow> string" where
  "legacy_code c = [CHR 0xC2, CHR 0xA7, c]"

definition LEGACY_CODES :: "string list" where
  "LEGACY_CODES = map legacy_code ''0123456789abcdefklmnor''"

definition str_tag :: "string \<Rightarrow> string \<Rightarrow> NBTElement" where
  "str_tag tag v = with_tag tag (mk_String v default_NBTSettings)"

definition byte_tag :: "string \<Rightarrow> byte \<Rightarrow> NBTElement" where
  "byte_tag tag v = with_tag tag (mk_Byte v default_NBTSettings)"

definition int_tag :: "string \<Rightarrow> i32 \<Rightarrow> NBTElement" where
  "int_tag tag v = with_tag tag (mk_Int v default_NBTSettings)"

definition list_tag :: "string \<Rightarrow> NBTElement list \<Rightarrow> NBTElement" where
  "list_tag tag v = with_tag tag (mk_List v default_NBTSettings)"

definition compound_tag :: "string \<Rightarrow> NBTElement list \<Rightarrow> NBTElement" where
  "compound_tag tag v = with_tag tag (mk_Compound v default_NBTSettings)"

definition DEFAULT_SEPARATOR :: NBTElement where
  "DEFAULT_SEPARATOR = mk_Compound [str_tag ''type'' ''text'', str_tag ''color'' ''gray'', str_tag ''text'' '', '']
     default_NBTSettings"

datatype TextType = Type_Text | Type_Translatable | Type_Score | Type_Selector | Type_Keybind | Type_NBT

record Score =
  sc_name :: string
  sc_objective :: string

record Selector =
  sel_selector :: string
  sel_separator :: "NBTElement option"

datatype NBTSource = Source_Block | Source_Entity | Source_Storage

record TextNBT =
  tn_source :: "NBTSource option"
  tn_nbt :: string
  tn_interpret :: "bool option"
  tn_separator :: "NBTElement option"
  tn_block :: "string option"
  tn_entity :: "string option"
  tn_storage :: "string option"

datatype ClickAction = OpenURL | OpenFile | RunCommand | SuggestCommand | ChangePage | CopyToClipboard

record ClickEvent =
  ce_action :: "ClickAction option"
  ce_url :: "string option"
  ce_path :: "string option"
  ce_command :: "string option"
  ce_page :: "i32 option"
  ce_value :: "string option"

datatype HoverAction = ShowText | ShowItem | ShowEntity

record ShowItemData =
  si_id :: string
  si_count :: "i32 option"
  si_components :: "NBTElement list option"

datatype 't ShowEntityData =
  ShowEntityData (se_name: "'t list option") (se_id: string) (se_UUID: "byte list option")

datatype 't HoverEvent =
  HoverEvent (he_action: "HoverAction option") (he_value: "'t list option")
    (he_showItem: "ShowItemData option") (he_showEntity: "'t ShowEntityData option")

datatype 't Translatable =
  Translatable (tr_translate: string) (tr_fallback: "string option") (tr_with: "'t list option")

record TextStyle =
  t_type :: "TextType option"
  t_text :: "string option"
  t_score :: "Score option"
  t_selector :: "Selector option"
  t_keybind :: "string option"
  t_NBT :: "TextNBT option"
  t_color :: "string option"
  t_font :: "string option"
  t_bold :: "bool option"
  t_italic :: "bool option"
  t_underlined :: "bool option"
  t_strikethrough :: "bool option"
  t_obfuscated :: "bool option"
  t_insertion :: "string option"
  t_clickEvent :: "ClickEvent option"

datatype TextComponent =
  TextComponent (tc_style: TextStyle) (tc_translatable: "TextComponent Translatable option")
    (tc_extra: "TextComponent list") (tc_hoverEvent: "TextComponent HoverEvent option")

definition new_Score :: Score where
  "new_Score = \<lparr>sc_name = [], sc_objective = []\<rparr>"

definition new_Selector :: Selector where
  "new_Selector = \<lparr>sel_selector = [], sel_separator = Some DEFAULT_SEPARATOR\<rparr>"

definition new_TextNBT :: TextNBT where
  "new_TextNBT = \<lparr>tn_source = None, tn_nbt = [], tn_interpret = Some False, tn_separator = Some DEFAULT_SEPARATOR,
     tn_block = None, tn_entity = None, tn_storage = None\<rparr>"

definition new_ClickEvent :: ClickEvent where
  "new_ClickEvent = \<lparr>ce_action = None, ce_url = None, ce_path = None, ce_command = None, ce_page = None, ce_value = None\<rparr>"

definition new_ShowItem :: ShowItemData where
  "new_ShowItem = \<lparr>si_id = [], si_count = None, si_components = None\<rparr>"

definition new_ShowEntity :: "'t ShowEntityData" where
  "new_ShowEntity = ShowEntityData None [] None"

definition new_HoverEvent :: "'t HoverEvent" where
  "new_HoverEvent = HoverEvent None None None None"

definition new_Translatable :: "'t Translatable" where
  "new_Translatable = Translatable [] None None"

definition new_TextStyle :: TextStyle where
  "new_TextStyle = \<lparr>t_type = None, t_text = None, t_score = None, t_selector = None, t_keybind = None, t_NBT = None,
     t_color = None, t_font = None, t_bold = None, t_italic = None, t_underlined = None, t_strikethrough = None,
     t_obfuscated = None, t_insertion = None, t_clickEvent = None\<rparr>"

definition new_TextComponent :: TextComponent where
  "new_TextComponent = TextComponent new_TextStyle None [] None"

section \<open>Encoding\<close>

definition content_type :: "TextStyle \<Rightarrow> 'e Translatable option \<Rightarrow> TextType" where
  "content_type st tr = (case t_type st of Some t \<Rightarrow> t | None \<Rightarrow>
     if t_text st \<noteq> None then Type_Text
     else if tr \<noteq> None then Type_Translatable
     else if t_score st \<noteq> None then Type_Score
     else if t_selector st \<noteq> None then Type_Selector
     else if t_keybind st \<noteq> None then Type_Keybind
     else if t_NBT st \<noteq> None then Type_NBT
     else Type_Text)"

definition value_or :: "'a option \<Rightarrow> 'a \<Rightarrow> 'a" where
  "value_or v d = (case v of Some x \<Rightarrow> x | None \<Rightarrow> d)"

definition separator_children :: "NBTElement option \<Rightarrow> NBTElement" where
  "separator_children s = compound_tag ''separator'' (m_childElements (value_or s DEFAULT_SEPARATOR))"

definition nbt_source :: "TextNBT \<Rightarrow> NBTSource" where
  "nbt_source n = (case tn_source n of Some s \<Rightarrow> s | None \<Rightarrow>
     if tn_block n \<noteq> None then Source_Block
     else if tn_entity n \<noteq> None then Source_Entity
     else if tn_storage n \<noteq> None then Source_Storage
     else Source_Block)"

definition nbt_source_children :: "TextNBT \<Rightarrow> NBTElement list" where
  "nbt_source_children n = (case nbt_source n of
     Source_Block \<Rightarrow> [str_tag ''source'' ''block'', str_tag ''block'' (value_or (tn_block n) [])]
   | Source_Entity \<Rightarrow> [str_tag ''source'' ''entity'', str_tag ''entity'' (value_or (tn_entity n) [])]
   | Source_Storage \<Rightarrow> [str_tag ''source'' ''storage'', str_tag ''storage'' (value_or (tn_storage n) [])])"

text \<open>The argument \<open>'e Translatable\<close> holds the components of \<open>with\<close> already encoded.\<close>

definition content_children :: "TextStyle \<Rightarrow> NBTElement Translatable option \<Rightarrow> NBTElement list" where
  "content_children st tr = (case content_type st tr of
     Type_Text \<Rightarrow> [str_tag ''type'' ''text'', str_tag ''text'' (value_or (t_text st) [])]
   | Type_Translatable \<Rightarrow>
       (let t = value_or tr new_Translatable; elements = value_or (tr_with t) []
        in [str_tag ''type'' ''translatable'', str_tag ''translate'' (tr_translate t),
            str_tag ''fallback'' (value_or (tr_fallback t) ''nil'')]
           @ (if elements \<noteq> [] then [list_tag ''with'' elements] else []))
   | Type_Score \<Rightarrow>
       (let score = value_or (t_score st) new_Score
        in [str_tag ''type'' ''score'', compound_tag ''score''
              [str_tag ''name'' (sc_name score), str_tag ''objective'' (sc_objective score)]])
   | Type_Selector \<Rightarrow>
       (let selector = value_or (t_selector st) new_Selector
        in [str_tag ''type'' ''selector'', str_tag ''selector'' (sel_selector selector),
            separator_children (sel_separator selector)])
   | Type_Keybind \<Rightarrow> [str_tag ''type'' ''keybind'', str_tag ''keybind'' (value_or (t_keybind st) ''key.inventory'')]
   | Type_NBT \<Rightarrow>
       (let n = value_or (t_NBT st) new_TextNBT
        in [str_tag ''type'' ''nbt''] @ nbt_source_children n @ [str_tag ''nbt'' (tn_nbt n)]
           @ (case tn_interpret n of Some b \<Rightarrow> [byte_tag ''interpret'' (byte_of_bool b)] | None \<Rightarrow> [])
           @ [separator_children (tn_separator n)]))"

definition opt_child :: "('a \<Rightarrow> NBTElement) \<Rightarrow> 'a option \<Rightarrow> NBTElement list" where
  "opt_child f v = (case v of Some x \<Rightarrow> [f x] | None \<Rightarrow> [])"

definition style_children :: "TextStyle \<Rightarrow> NBTElement list" where
  "style_children st =
     opt_child (str_tag ''color'') (t_color st)
   @ opt_child (str_tag ''font'') (t_font st)
   @ opt_child (\<lambda>b. byte_tag ''bold'' (byte_of_bool b)) (t_bold st)
   @ opt_child (\<lambda>b. byte_tag ''italic'' (byte_of_bool b)) (t_italic st)
   @ opt_child (\<lambda>b. byte_tag ''underlined'' (byte_of_bool b)) (t_underlined st)
   @ opt_child (\<lambda>b. byte_tag ''strikethrough'' (byte_of_bool b)) (t_strikethrough st)
   @ opt_child (\<lambda>b. byte_tag ''obfuscated'' (byte_of_bool b)) (t_obfuscated st)
   @ opt_child (str_tag ''insertion'') (t_insertion st)"

definition click_action :: "ClickEvent \<Rightarrow> ClickAction" where
  "click_action e = (case ce_action e of Some a \<Rightarrow> a | None \<Rightarrow>
     if ce_url e \<noteq> None then OpenURL
     else if ce_path e \<noteq> None then OpenFile
     else if ce_page e \<noteq> None then ChangePage
     else if ce_value e \<noteq> None then CopyToClipboard
     else SuggestCommand)"

definition click_children :: "ClickEvent \<Rightarrow> NBTElement list" where
  "click_children e = (case click_action e of
     OpenURL \<Rightarrow> [str_tag ''action'' ''open_url'', str_tag ''url'' (value_or (ce_url e) ''www.example.com'')]
   | OpenFile \<Rightarrow> [str_tag ''action'' ''open_file'', str_tag ''path'' (value_or (ce_path e) [])]
   | RunCommand \<Rightarrow> [str_tag ''action'' ''run_command'', str_tag ''command'' (value_or (ce_command e) ''/say hi'')]
   | SuggestCommand \<Rightarrow> [str_tag ''action'' ''suggest_command'', str_tag ''command'' (value_or (ce_command e) ''/say hi'')]
   | ChangePage \<Rightarrow> [str_tag ''action'' ''change_page'', int_tag ''page'' (value_or (ce_page e) 0)]
   | CopyToClipboard \<Rightarrow> [str_tag ''action'' ''copy_to_clipboard'', str_tag ''value'' (value_or (ce_value e) [])])"

definition hover_action :: "'e HoverEvent \<Rightarrow> HoverAction" where
  "hover_action e = (case he_action e of Some a \<Rightarrow> a | None \<Rightarrow>
     if he_showItem e \<noteq> None then ShowItem
     else if he_showEntity e \<noteq> None then ShowEntity
     else ShowText)"

definition hover_children :: "NBTElement HoverEvent \<Rightarrow> NBTElement list" where
  "hover_children e = (case hover_action e of
     ShowText \<Rightarrow> [str_tag ''action'' ''show_text'',
       (case he_value e of Some (textNBT # _) \<Rightarrow> with_tag ''value'' textNBT | _ \<Rightarrow> str_tag ''value'' [])]
   | ShowItem \<Rightarrow>
       (let item = value_or (he_showItem e) new_ShowItem
        in [str_tag ''action'' ''show_item'', str_tag ''id'' (si_id item)]
           @ opt_child (int_tag ''count'') (si_count item)
           @ (case si_components item of Some (c # cs) \<Rightarrow> [list_tag ''components'' (c # cs)] | _ \<Rightarrow> []))
   | ShowEntity \<Rightarrow>
       (let entity = value_or (he_showEntity e) new_ShowEntity
        in [str_tag ''action'' ''show_entity'', str_tag ''id'' (se_id entity)]
           @ (case se_name entity of Some (textNBT # _) \<Rightarrow> [with_tag ''name'' textNBT] | _ \<Rightarrow> [])
           @ opt_child (\<lambda>u. str_tag ''uuid'' (uuid_to_string u)) (se_UUID entity)))"

definition text_element ::
    "TextStyle \<Rightarrow> NBTElement Translatable option \<Rightarrow> NBTElement list \<Rightarrow> NBTElement HoverEvent option \<Rightarrow> NBTElement" where
  "text_element st tr extra he = mk_Compound
     (content_children st tr
      @ (if extra \<noteq> [] then [list_tag ''extra'' extra] else [])
      @ style_children st
      @ opt_child (\<lambda>e. compound_tag ''click_event'' (click_children e)) (t_clickEvent st)
      @ opt_child (\<lambda>e. compound_tag ''hover_event'' (hover_children e)) he)
     default_NBTSettings"

primrec text_encode :: "TextComponent \<Rightarrow> NBTElement" where
  "text_encode (TextComponent st tr extra he) =
     text_element st (map_option (map_Translatable text_encode) tr) (map text_encode extra)
       (map_option (map_HoverEvent text_encode) he)"

definition json_append :: "string \<Rightarrow> string" where
  "json_append s = (if 2 < length s then '','' @ butlast (tl s) else [])"

primrec text_encodeJSON :: "TextComponent \<Rightarrow> string" where
  "text_encodeJSON (TextComponent st tr extra he) =
     ''['' @ nbt_toJSON (text_encode (TextComponent st tr [] he))
     @ concat (map json_append (map text_encodeJSON extra)) @ '']''"

definition text_eq :: "TextComponent \<Rightarrow> TextComponent \<Rightarrow> bool" where
  "text_eq a b \<longleftrightarrow> text_encodeJSON a = text_encodeJSON b"

definition writeTextComponent :: "TextComponent \<Rightarrow> unit bb" where
  "writeTextComponent c = writeNBTElement (text_encode c)"

definition writeTextJSON :: "TextComponent \<Rightarrow> unit bb" where
  "writeTextJSON c = writeString (text_encodeJSON c)"

section \<open>Decoding\<close>

text \<open>
  \<open>ByteBuffer buf; buf.writeNBTElement(text); textComponent.decode(buf);\<close> A read of one element
  from a buffer of \<open>k\<close> bytes never needs fuel beyond \<open>2 k + 2\<close> (theorem \<open>nbt_decode_terminates\<close>), so
  the reader of the buffer supplies that much.
\<close>

definition readNBT :: "NBTElement bb" where
  "readNBT = bnd (gets (\<lambda>b. 2 * bb_size b + 2)) readNBTElement"

definition reread :: "NBTElement \<Rightarrow> zinc_error + NBTElement" where
  "reread e = map_sum id fst (bnd (writeNBTElement e) (\<lambda>_. readNBT) (new_bb True))"

abbreviation nbt_string :: "NBTElement \<Rightarrow> string" where
  "nbt_string e \<equiv> m_stringValue (m_fields e)"

abbreviation nbt_bool :: "NBTElement \<Rightarrow> bool" where
  "nbt_bool e \<equiv> m_byteValue (m_fields e) \<noteq> 0"

definition upd_style :: "(TextStyle \<Rightarrow> TextStyle) \<Rightarrow> TextComponent \<Rightarrow> TextComponent" where
  "upd_style f c = TextComponent (f (tc_style c)) (tc_translatable c) (tc_extra c) (tc_hoverEvent c)"

definition add_extra :: "TextComponent list \<Rightarrow> TextComponent \<Rightarrow> TextComponent" where
  "add_extra texts c = TextComponent (tc_style c) (tc_translatable c) (tc_extra c @ texts) (tc_hoverEvent c)"

definition set_hover :: "TextComponent HoverEvent \<Rightarrow> TextComponent \<Rightarrow> TextComponent" where
  "set_hover e c = TextComponent (tc_style c) (tc_translatable c) (tc_extra c) (Some e)"

definition set_translatable :: "TextComponent Translatable \<Rightarrow> TextComponent \<Rightarrow> TextComponent" where
  "set_translatable t c = TextComponent (tc_style c) (Some t) (tc_extra c) (tc_hoverEvent c)"

text \<open>The first loop of both events: the last child with the tag \<open>action\<close> gives the action.\<close>

definition action_string :: "NBTElement list \<Rightarrow> string" where
  "action_string es = fold (\<lambda>e s. if nbt_tag e = ''action'' then nbt_string e else s) es []"

definition click_step :: "NBTElement \<Rightarrow> ClickEvent \<times> string \<Rightarrow> ClickEvent \<times> string" where
  "click_step e = (\<lambda>(event, action).
     if nbt_tag e = ''url'' then (event\<lparr>ce_url := Some (nbt_string e)\<rparr>, ''open_url'')
     else if nbt_tag e = ''path'' then (event\<lparr>ce_path := Some (nbt_string e)\<rparr>, ''open_file'')
     else if nbt_tag e = ''command'' then (event\<lparr>ce_command := Some (nbt_string e)\<rparr>, ''suggest_command'')
     else if nbt_tag e = ''page'' then (event\<lparr>ce_page := Some (m_intValue (m_fields e))\<rparr>, ''change_page'')
     else if nbt_tag e = ''value'' then (event\<lparr>ce_value := Some (nbt_string e)\<rparr>, ''copy_to_clipboard'')
     else (event, action))"

definition click_action_of :: "string \<Rightarrow> ClickAction option" where
  "click_action_of s =
     (if s = ''open_url'' then Some OpenURL
      else if s = ''open_file'' then Some OpenFile
      else if s = ''run_command'' then Some RunCommand
      else if s = ''suggest_command'' then Some SuggestCommand
      else if s = ''change_page'' then Some ChangePage
      else if s = ''copy_to_clipboard'' then Some CopyToClipboard
      else None)"

definition decode_click :: "NBTElement list \<Rightarrow> ClickEvent" where
  "decode_click es =
     (let (event, action) = (if action_string es = [] then fold click_step es (new_ClickEvent, [])
                             else (new_ClickEvent, action_string es))
      in (case click_action_of action of Some a \<Rightarrow> event\<lparr>ce_action := Some a\<rparr> | None \<Rightarrow> event))"

text \<open>
  The local variables of the hover loop. The parameter \<open>rec\<close>, here and below, decodes a nested
  component from a fresh buffer.
\<close>

record HoverState =
  hs_action :: string
  hs_value :: "TextComponent list option"
  hs_item :: ShowItemData
  hs_entity :: "TextComponent ShowEntityData"
  hs_id :: string

definition hover_step ::
    "(NBTElement \<Rightarrow> zinc_error + TextComponent) \<Rightarrow> NBTElement \<Rightarrow> HoverState \<Rightarrow> zinc_error + HoverState" where
  "hover_step rec e h =
     (if nbt_tag e = ''value'' then
        ebind (rec e) (\<lambda>c. Inr (h\<lparr>hs_action := ''show_text'', hs_value := Some [c]\<rparr>))
      else if nbt_tag e = ''components'' then
        Inr (h\<lparr>hs_action := ''show_item'', hs_item := (hs_item h)\<lparr>si_components := Some (m_childElements e)\<rparr>\<rparr>)
      else if nbt_tag e = ''count'' then
        Inr (h\<lparr>hs_action := ''show_item'', hs_item := (hs_item h)\<lparr>si_count := Some (m_intValue (m_fields e))\<rparr>\<rparr>)
      else if nbt_tag e = ''id'' then Inr (h\<lparr>hs_id := nbt_string e\<rparr>)
      else if nbt_tag e = ''uuid'' then
        Inr (h\<lparr>hs_action := ''show_entity'',
               hs_entity := ShowEntityData (se_name (hs_entity h)) (se_id (hs_entity h)) (uuid_from_string (nbt_string e))\<rparr>)
      else if nbt_tag e = ''name'' then
        ebind (rec e) (\<lambda>c. Inr (h\<lparr>hs_action := ''show_entity'',
               hs_entity := ShowEntityData (Some [c]) (se_id (hs_entity h)) (se_UUID (hs_entity h))\<rparr>))
      else Inr h)"

definition decode_hover ::
    "(NBTElement \<Rightarrow> zinc_error + TextComponent) \<Rightarrow> NBTElement list \<Rightarrow> zinc_error + TextComponent HoverEvent" where
  "decode_hover rec es =
     (let h0 = \<lparr>hs_action = action_string es, hs_value = None, hs_item = new_ShowItem, hs_entity = new_ShowEntity, hs_id = []\<rparr>
      in ebind (if action_string es = [] then efold (hover_step rec) es h0 else Inr h0) (\<lambda>h.
         Inr (if hs_action h = ''show_text'' then HoverEvent (Some ShowText) (hs_value h) None None
              else if hs_action h = ''show_item'' then
                HoverEvent (Some ShowItem) (hs_value h) (Some ((hs_item h)\<lparr>si_id := hs_id h\<rparr>)) None
              else if hs_action h = ''show_entity'' then
                HoverEvent (Some ShowEntity) (hs_value h) None
                  (Some (ShowEntityData (se_name (hs_entity h)) (hs_id h) (se_UUID (hs_entity h))))
              else HoverEvent None (hs_value h) None None)))"

text \<open>The first loop over the children of the element: everything but the content.\<close>

definition style_step ::
    "(NBTElement \<Rightarrow> zinc_error + TextComponent) \<Rightarrow> NBTElement \<Rightarrow> TextComponent \<times> string \<Rightarrow>
     zinc_error + (TextComponent \<times> string)" where
  "style_step rec e = (\<lambda>(c, type).
     if nbt_tag e = ''extra'' then ebind (emap rec (m_childElements e)) (\<lambda>texts. Inr (add_extra texts c, type))
     else if nbt_tag e = ''type'' then Inr (c, nbt_string e)
     else if nbt_tag e = ''color'' then Inr (upd_style (\<lambda>s. s\<lparr>t_color := Some (nbt_string e)\<rparr>) c, type)
     else if nbt_tag e = ''font'' then Inr (upd_style (\<lambda>s. s\<lparr>t_font := Some (nbt_string e)\<rparr>) c, type)
     else if nbt_tag e = ''bold'' then Inr (upd_style (\<lambda>s. s\<lparr>t_bold := Some (nbt_bool e)\<rparr>) c, type)
     else if nbt_tag e = ''italic'' then Inr (upd_style (\<lambda>s. s\<lparr>t_italic := Some (nbt_bool e)\<rparr>) c, type)
     else if nbt_tag e = ''underlined'' then Inr (upd_style (\<lambda>s. s\<lparr>t_underlined := Some (nbt_bool e)\<rparr>) c, type)
     else if nbt_tag e = ''strikethrough'' then Inr (upd_style (\<lambda>s. s\<lparr>t_strikethrough := Some (nbt_bool e)\<rparr>) c, type)
     else if nbt_tag e = ''obfuscated'' then Inr (upd_style (\<lambda>s. s\<lparr>t_obfuscated := Some (nbt_bool e)\<rparr>) c, type)
     else if nbt_tag e = ''insertion'' then Inr (upd_style (\<lambda>s. s\<lparr>t_insertion := Some (nbt_string e)\<rparr>) c, type)
     else if nbt_tag e = ''click_event'' then
       Inr (upd_style (\<lambda>s. s\<lparr>t_clickEvent := Some (decode_click (m_childElements e))\<rparr>) c, type)
     else if nbt_tag e = ''hover_event'' then
       ebind (decode_hover rec (m_childElements e)) (\<lambda>h. Inr (set_hover h c, type))
     else Inr (c, type))"

text \<open>The second loop, over the same children, runs when no \<open>type\<close> was found.\<close>

record ContentState =
  cs_component :: TextComponent
  cs_type :: string
  cs_translatable :: "TextComponent Translatable"
  cs_with :: "TextComponent list"
  cs_separator :: NBTElement
  cs_score :: Score
  cs_selector :: Selector
  cs_nbt :: TextNBT

definition nbt_source_of :: "string \<Rightarrow> NBTSource option \<Rightarrow> NBTSource option" where
  "nbt_source_of s old =
     (if s = ''block'' then Some Source_Block
      else if s = ''entity'' then Some Source_Entity
      else if s = ''storage'' then Some Source_Storage
      else old)"

definition score_step :: "NBTElement \<Rightarrow> Score \<Rightarrow> Score" where
  "score_step e s =
     (if nbt_tag e = ''name'' then s\<lparr>sc_name := nbt_string e\<rparr>
      else if nbt_tag e = ''objective'' then s\<lparr>sc_objective := nbt_string e\<rparr>
      else s)"

definition content_step ::
    "(NBTElement \<Rightarrow> zinc_error + TextComponent) \<Rightarrow> NBTElement \<Rightarrow> ContentState \<Rightarrow> zinc_error + ContentState" where
  "content_step rec e k =
     (let v = nbt_string e; n = cs_nbt k
      in if nbt_tag e = ''text'' then
        Inr (k\<lparr>cs_type := ''text'', cs_component := upd_style (\<lambda>s. s\<lparr>t_text := Some v\<rparr>) (cs_component k)\<rparr>)
      else if nbt_tag e = ''source'' then
        Inr (k\<lparr>cs_type := ''nbt'', cs_nbt := n\<lparr>tn_source := nbt_source_of v (tn_source n)\<rparr>\<rparr>)
      else if nbt_tag e = ''nbt'' then Inr (k\<lparr>cs_type := ''nbt'', cs_nbt := n\<lparr>tn_nbt := v\<rparr>\<rparr>)
      else if nbt_tag e = ''block'' then Inr (k\<lparr>cs_type := ''nbt'', cs_nbt := n\<lparr>tn_block := Some v\<rparr>\<rparr>)
      else if nbt_tag e = ''entity'' then Inr (k\<lparr>cs_type := ''nbt'', cs_nbt := n\<lparr>tn_entity := Some v\<rparr>\<rparr>)
      else if nbt_tag e = ''storage'' then Inr (k\<lparr>cs_type := ''nbt'', cs_nbt := n\<lparr>tn_storage := Some v\<rparr>\<rparr>)
      else if nbt_tag e = ''interpret'' then
        Inr (k\<lparr>cs_type := ''nbt'', cs_nbt := n\<lparr>tn_interpret := Some (nbt_bool e)\<rparr>\<rparr>)
      else if nbt_tag e = ''score'' then
        Inr (k\<lparr>cs_type := ''score'', cs_score := fold score_step (m_childElements e) (cs_score k)\<rparr>)
      else if nbt_tag e = ''separator'' then Inr (k\<lparr>cs_separator := e\<rparr>)
      else if nbt_tag e = ''selector'' then
        Inr (k\<lparr>cs_type := ''selector'', cs_selector := (cs_selector k)\<lparr>sel_selector := v\<rparr>\<rparr>)
      else if nbt_tag e = ''keybind'' then
        Inr (k\<lparr>cs_type := ''keybind'', cs_component := upd_style (\<lambda>s. s\<lparr>t_keybind := Some v\<rparr>) (cs_component k)\<rparr>)
      else if nbt_tag e = ''translate'' then
        Inr (k\<lparr>cs_type := ''translatable'', cs_translatable :=
          Translatable v (tr_fallback (cs_translatable k)) (tr_with (cs_translatable k))\<rparr>)
      else if nbt_tag e = ''fallback'' then
        Inr (k\<lparr>cs_type := ''translatable'', cs_translatable :=
          Translatable (tr_translate (cs_translatable k)) (Some v) (tr_with (cs_translatable k))\<rparr>)
      else if nbt_tag e = ''with'' then
        ebind (emap rec (m_childElements e)) (\<lambda>texts.
          Inr (k\<lparr>cs_type := ''translatable'', cs_with := cs_with k @ texts\<rparr>))
      else Inr k)"

text \<open>The assignments after the loops. Every known type sets \<open>m_type\<close> to \<open>Type::Text\<close>.\<close>

definition finish_content :: "ContentState \<Rightarrow> TextComponent" where
  "finish_content k =
     (let c = upd_style (\<lambda>s. s\<lparr>t_type := Some Type_Text\<rparr>) (cs_component k);
          t = cs_translatable k;
          translatable = (if cs_with k \<noteq> [] then Translatable (tr_translate t) (tr_fallback t) (Some (cs_with k)) else t)
      in if cs_type k = ''text'' then c
      else if cs_type k = ''translatable'' then set_translatable translatable c
      else if cs_type k = ''keybind'' then c
      else if cs_type k = ''selector'' then
        upd_style (\<lambda>s. s\<lparr>t_selector := Some ((cs_selector k)\<lparr>sel_separator := Some (cs_separator k)\<rparr>)\<rparr>) c
      else if cs_type k = ''score'' then upd_style (\<lambda>s. s\<lparr>t_score := Some (cs_score k)\<rparr>) c
      else if cs_type k = ''nbt'' then
        upd_style (\<lambda>s. s\<lparr>t_NBT := Some ((cs_nbt k)\<lparr>tn_separator := Some (cs_separator k)\<rparr>)\<rparr>) c
      else cs_component k)"

definition decode_with ::
    "(NBTElement \<Rightarrow> zinc_error + TextComponent) \<Rightarrow> NBTElement \<Rightarrow> TextComponent \<Rightarrow> zinc_error + TextComponent" where
  "decode_with rec e c =
     ebind (efold (style_step rec) (m_childElements e) (c, [])) (\<lambda>(c', type).
       let k = \<lparr>cs_component = c', cs_type = type, cs_translatable = new_Translatable, cs_with = [],
                cs_separator = new_NBT default_NBTSettings, cs_score = new_Score, cs_selector = new_Selector,
                cs_nbt = new_TextNBT\<rparr>
       in ebind (if type = [] then efold (content_step rec) (m_childElements e) k else Inr k)
            (\<lambda>k'. Inr (finish_content k')))"

text \<open>\<open>fuel\<close> bounds the nesting of components.\<close>

primrec text_decode :: "nat \<Rightarrow> NBTElement \<Rightarrow> TextComponent \<Rightarrow> zinc_error + TextComponent" where
  "text_decode 0 e c = Inl StackExhausted"
| "text_decode (Suc fuel) e c =
     decode_with (\<lambda>text. ebind (reread text) (\<lambda>e'. text_decode fuel e' new_TextComponent)) e c"

definition readTextComponent :: "nat \<Rightarrow> TextComponent bb" where
  "readTextComponent fuel = bnd readNBT (\<lambda>e. lift_result (text_decode fuel e new_TextComponent))"

section \<open>The builders\<close>

text \<open>Each builder holds the part it builds; a call sets one member and returns the builder.\<close>

definition translatable_translate :: "string \<Rightarrow> 't Translatable \<Rightarrow> 't Translatable" where
  "translatable_translate v t = Translatable v (tr_fallback t) (tr_with t)"

definition translatable_fallback :: "string \<Rightarrow> 't Translatable \<Rightarrow> 't Translatable" where
  "translatable_fallback v t = Translatable (tr_translate t) (Some v) (tr_with t)"

definition translatable_with :: "'t list \<Rightarrow> 't Translatable \<Rightarrow> 't Translatable" where
  "translatable_with v t = Translatable (tr_translate t) (tr_fallback t) (Some v)"

definition score_name :: "string \<Rightarrow> Score \<Rightarrow> Score" where
  "score_name v s = s\<lparr>sc_name := v\<rparr>"

definition score_objective :: "string \<Rightarrow> Score \<Rightarrow> Score" where
  "score_objective v s = s\<lparr>sc_objective := v\<rparr>"

definition selector_selector :: "string \<Rightarrow> Selector \<Rightarrow> Selector" where
  "selector_selector v s = s\<lparr>sel_selector := v\<rparr>"

definition selector_separator :: "TextComponent \<Rightarrow> Selector \<Rightarrow> Selector" where
  "selector_separator c s = s\<lparr>sel_separator := Some (text_encode c)\<rparr>"

definition nbt_nbt :: "string \<Rightarrow> TextNBT \<Rightarrow> TextNBT" where
  "nbt_nbt v n = n\<lparr>tn_nbt := v\<rparr>"

definition nbt_block :: "string \<Rightarrow> TextNBT \<Rightarrow> TextNBT" where
  "nbt_block v n = n\<lparr>tn_block := Some v, tn_source := Some Source_Block\<rparr>"

definition nbt_entity :: "string \<Rightarrow> TextNBT \<Rightarrow> TextNBT" where
  "nbt_entity v n = n\<lparr>tn_entity := Some v, tn_source := Some Source_Entity\<rparr>"

definition nbt_storage :: "string \<Rightarrow> TextNBT \<Rightarrow> TextNBT" where
  "nbt_storage v n = n\<lparr>tn_storage := Some v, tn_source := Some Source_Storage\<rparr>"

definition nbt_separator :: "TextComponent \<Rightarrow> TextNBT \<Rightarrow> TextNBT" where
  "nbt_separator c n = n\<lparr>tn_separator := Some (text_encode c)\<rparr>"

definition nbt_interpret :: "bool \<Rightarrow> TextNBT \<Rightarrow> TextNBT" where
  "nbt_interpret v n = n\<lparr>tn_interpret := Some v\<rparr>"

definition click_openUrl :: "string \<Rightarrow> ClickEvent \<Rightarrow> ClickEvent" where
  "click_openUrl v e = e\<lparr>ce_action := Some OpenURL, ce_url := Some v\<rparr>"

definition click_openFile :: "string \<Rightarrow> ClickEvent \<Rightarrow> ClickEvent" where
  "click_openFile v e = e\<lparr>ce_action := Some OpenFile, ce_path := Some v\<rparr>"

definition click_runCommand :: "string \<Rightarrow> ClickEvent \<Rightarrow> ClickEvent" where
  "click_runCommand v e = e\<lparr>ce_action := Some RunCommand, ce_command := Some v\<rparr>"

definition click_suggestCommand :: "string \<Rightarrow> ClickEvent \<Rightarrow> ClickEvent" where
  "click_suggestCommand v e = e\<lparr>ce_action := Some SuggestCommand, ce_command := Some v\<rparr>"

definition click_changePage :: "i32 \<Rightarrow> ClickEvent \<Rightarrow> ClickEvent" where
  "click_changePage v e = e\<lparr>ce_action := Some ChangePage, ce_page := Some v\<rparr>"

definition click_copyToClipboard :: "string \<Rightarrow> ClickEvent \<Rightarrow> ClickEvent" where
  "click_copyToClipboard v e = e\<lparr>ce_action := Some CopyToClipboard, ce_value := Some v\<rparr>"

definition showItem_id :: "string \<Rightarrow> ShowItemData \<Rightarrow> ShowItemData" where
  "showItem_id v i = i\<lparr>si_id := v\<rparr>"

definition showItem_count :: "i32 \<Rightarrow> ShowItemData \<Rightarrow> ShowItemData" where
  "showItem_count v i = i\<lparr>si_count := Some v\<rparr>"

definition showItem_components :: "NBTElement list \<Rightarrow> ShowItemData \<Rightarrow> ShowItemData" where
  "showItem_components v i = i\<lparr>si_components := Some v\<rparr>"

definition showEntity_name :: "'t \<Rightarrow> 't ShowEntityData \<Rightarrow> 't ShowEntityData" where
  "showEntity_name c e = ShowEntityData (Some [c]) (se_id e) (se_UUID e)"

definition showEntity_id :: "string \<Rightarrow> 't ShowEntityData \<Rightarrow> 't ShowEntityData" where
  "showEntity_id v e = ShowEntityData (se_name e) v (se_UUID e)"

definition showEntity_uuid :: "byte list \<Rightarrow> 't ShowEntityData \<Rightarrow> 't ShowEntityData" where
  "showEntity_uuid v e = ShowEntityData (se_name e) (se_id e) (Some v)"

definition hover_showText :: "'t \<Rightarrow> 't HoverEvent \<Rightarrow> 't HoverEvent" where
  "hover_showText c e = HoverEvent (Some ShowText) (Some [c]) (he_showItem e) (he_showEntity e)"

definition hover_showItem :: "ShowItemData \<Rightarrow> 't HoverEvent \<Rightarrow> 't HoverEvent" where
  "hover_showItem i e = HoverEvent (Some ShowItem) (he_value e) (Some i) (he_showEntity e)"

definition hover_showEntity :: "'t ShowEntityData \<Rightarrow> 't HoverEvent \<Rightarrow> 't HoverEvent" where
  "hover_showEntity n e = HoverEvent (Some ShowEntity) (he_value e) (he_showItem e) (Some n)"

definition build_text :: "string \<Rightarrow> TextComponent \<Rightarrow> TextComponent" where
  "build_text v = upd_style (\<lambda>s. s\<lparr>t_text := Some v, t_type := Some Type_Text\<rparr>)"

definition build_translatable :: "TextComponent Translatable \<Rightarrow> TextComponent \<Rightarrow> TextComponent" where
  "build_translatable v c = upd_style (\<lambda>s. s\<lparr>t_type := Some Type_Translatable\<rparr>) (set_translatable v c)"

definition build_score :: "Score \<Rightarrow> TextComponent \<Rightarrow> TextComponent" where
  "build_score v = upd_style (\<lambda>s. s\<lparr>t_score := Some v, t_type := Some Type_Score\<rparr>)"

definition build_selector :: "Selector \<Rightarrow> TextComponent \<Rightarrow> TextComponent" where
  "build_selector v = upd_style (\<lambda>s. s\<lparr>t_selector := Some v, t_type := Some Type_Selector\<rparr>)"

definition build_keybind :: "string \<Rightarrow> TextComponent \<Rightarrow> TextComponent" where
  "build_keybind v = upd_style (\<lambda>s. s\<lparr>t_keybind := Some v, t_type := Some Type_Keybind\<rparr>)"

definition build_nbt :: "TextNBT \<Rightarrow> TextComponent \<Rightarrow> TextComponent" where
  "build_nbt v = upd_style (\<lambda>s. s\<lparr>t_NBT := Some v, t_type := Some Type_NBT\<rparr>)"

definition build_bold :: "bool \<Rightarrow> TextComponent \<Rightarrow> TextComponent" where
  "build_bold v = upd_style (\<lambda>s. s\<lparr>t_bold := Some v\<rparr>)"

definition build_italic :: "bool \<Rightarrow> TextComponent \<Rightarrow> TextComponent" where
  "build_italic v = upd_style (\<lambda>s. s\<lparr>t_italic := Some v\<rparr>)"

definition build_underlined :: "bool \<Rightarrow> TextComponent \<Rightarrow> TextComponent" where
  "build_underlined v = upd_style (\<lambda>s. s\<lparr>t_underlined := Some v\<rparr>)"

definition build_strikethrough :: "bool \<Rightarrow> TextComponent \<Rightarrow> TextComponent" where
  "build_strikethrough v = upd_style (\<lambda>s. s\<lparr>t_strikethrough := Some v\<rparr>)"

definition build_obfuscated :: "bool \<Rightarrow> TextComponent \<Rightarrow> TextComponent" where
  "build_obfuscated v = upd_style (\<lambda>s. s\<lparr>t_obfuscated := Some v\<rparr>)"

definition build_font :: "Identifier \<Rightarrow> TextComponent \<Rightarrow> TextComponent" where
  "build_font v = upd_style (\<lambda>s. s\<lparr>t_font := Some (Identifier_toString v)\<rparr>)"

definition build_color :: "string \<Rightarrow> TextComponent \<Rightarrow> TextComponent" where
  "build_color v = upd_style (\<lambda>s. s\<lparr>t_color := Some v\<rparr>)"

definition build_append :: "TextComponent \<Rightarrow> TextComponent \<Rightarrow> TextComponent" where
  "build_append t = add_extra [t]"

definition build_insertion :: "string \<Rightarrow> TextComponent \<Rightarrow> TextComponent" where
  "build_insertion v = upd_style (\<lambda>s. s\<lparr>t_insertion := Some v\<rparr>)"

definition build_clickEvent :: "ClickEvent \<Rightarrow> TextComponent \<Rightarrow> TextComponent" where
  "build_clickEvent v = upd_style (\<lambda>s. s\<lparr>t_clickEvent := Some v\<rparr>)"

definition build_hoverEvent :: "TextComponent HoverEvent \<Rightarrow> TextComponent \<Rightarrow> TextComponent" where
  "build_hoverEvent = set_hover"

section \<open>Writing and reading one untagged element\<close>

lemma network_settings_sel [simp]:
  "s_type network_settings = NBT_End" "\<not> m_isInArray network_settings" "m_isNetwork network_settings"
  by (simp_all add: network_settings_def default_NBTSettings_def)

lemma appends_writeNBTElement:
  assumes "nbt_valid (nbt_abs e)" and "nbt_abs e \<noteq> NEnd" and "nbt_tag e = []"
  shows "appends True (writeNBTElement e) (byte_of_nbt_type (type_of_nbt (nbt_abs e)) # nbt_payload True (nbt_abs e))"
proof -
  have t: "type_of_nbt (nbt_abs e) = nbt_type e" using assms(2) type_of_nbt_abs by (simp add: type_of_nbt_End)
  from appends_nbt_encode [of True network_settings e] assms t show ?thesis
    by (simp add: writeNBTElement_def nbt_header_def)
qed

lemma reads_readNBT:
  assumes "nbt_valid t" and "t \<noteq> NEnd"
  shows "reads True readNBT (byte_of_nbt_type (type_of_nbt t) # nbt_payload True t) (nbt_elem True network_settings [] t)"
  unfolding reads_def
proof (intro allI impI, elim conjE)
  fix b rest
  assume b: "bb_wf b" "m_isBigEndian b = True"
    "bb_unread b = (byte_of_nbt_type (type_of_nbt t) # nbt_payload True t) @ rest"
  have "length (bb_unread b) \<le> bb_size b" using bb_size_eq [OF b(1)] getBytes_written [OF b(1)]
    by (simp add: bb_unread_def unread_def)
  then have "nbt_fuel t \<le> 2 * bb_size b + 2"
    using nbt_fuel_le_payload(1) [OF assms(2,1), of True] b(3) by simp
  moreover have "decodable True network_settings [] t" using assms by (simp add: decodable_def type_of_nbt_End)
  ultimately have "reads True (nbt_decode (2 * bb_size b + 2) (new_NBT network_settings))
      (byte_of_nbt_type (type_of_nbt t) # nbt_payload True t) (nbt_elem True network_settings [] t)"
    using reads_nbt_decode [of True network_settings "[]" t "2 * bb_size b + 2"] by (simp add: nbt_header_def)
  from this b obtain b' where "nbt_decode (2 * bb_size b + 2) (new_NBT network_settings) b
      = Inr (nbt_elem True network_settings [] t, b')" "bb_wf b'" "m_isBigEndian b' = True" "bb_unread b' = rest"
    by (rule readsE)
  then show "\<exists>b'. readNBT b = Inr (nbt_elem True network_settings [] t, b') \<and> bb_wf b'
      \<and> m_isBigEndian b' = True \<and> bb_unread b' = rest"
    by (simp add: readNBT_def bnd_def gets_def readNBTElement_def)
qed

lemma reread_elem:
  assumes "nbt_valid (nbt_abs e)" and "nbt_abs e \<noteq> NEnd" and "nbt_tag e = []"
  shows "reread e = Inr (nbt_elem True network_settings [] (nbt_abs e))"
  using write_read [OF appends_writeNBTElement [OF assms] reads_readNBT [OF assms(1,2)]]
  by (auto simp: reread_def)

section \<open>What the receiver of an encoded component gets\<close>

definition received_style :: "TextStyle \<Rightarrow> TextType \<Rightarrow> TextStyle" where
  "received_style st ty = st\<lparr>t_type := Some Type_Text, t_text := None,
     t_score := (if ty = Type_Score then Some new_Score else None),
     t_selector := (if ty = Type_Selector
       then Some (new_Selector\<lparr>sel_separator := Some (new_NBT default_NBTSettings)\<rparr>) else None),
     t_keybind := None,
     t_NBT := (if ty = Type_NBT then Some (new_TextNBT\<lparr>tn_separator := Some (new_NBT default_NBTSettings)\<rparr>) else None),
     t_clickEvent := map_option (\<lambda>e. new_ClickEvent\<lparr>ce_action := Some (click_action e)\<rparr>) (t_clickEvent st)\<rparr>"

definition received_hover :: "'e HoverEvent \<Rightarrow> TextComponent HoverEvent" where
  "received_hover e = (case hover_action e of
     ShowText \<Rightarrow> HoverEvent (Some ShowText) None None None
   | ShowItem \<Rightarrow> HoverEvent (Some ShowItem) None (Some new_ShowItem) None
   | ShowEntity \<Rightarrow> HoverEvent (Some ShowEntity) None None (Some new_ShowEntity))"

primrec text_received :: "TextComponent \<Rightarrow> TextComponent" where
  "text_received (TextComponent st tr extra he) =
     TextComponent (received_style st (content_type st tr))
       (if content_type st tr = Type_Translatable then Some new_Translatable else None)
       (map text_received extra) (map_option received_hover he)"

primrec text_depth :: "TextComponent \<Rightarrow> nat" where
  "text_depth (TextComponent st tr extra he) = Suc (fold max (map text_depth extra) 0)"

lemma fold_max_le: "fold max ns m \<le> (k :: nat) \<longleftrightarrow> m \<le> k \<and> (\<forall>n \<in> set ns. n \<le> k)"
  by (induction ns arbitrary: m) auto

text \<open>An element as its reader rebuilds it, with the tag it was sent under.\<close>

definition recv :: "NBTSettings \<Rightarrow> NBTElement \<Rightarrow> NBTElement" where
  "recv s e = nbt_elem True s (nbt_tag e) (nbt_abs e)"

lemma nbt_entry_elems_map:
  "nbt_entry_elems be s (map (\<lambda>e. (nbt_tag e, nbt_abs e)) es) = map (\<lambda>e. nbt_elem be s (nbt_tag e) (nbt_abs e)) es"
  by (induction es) auto

lemma builder_sel [simp]:
  "nbt_tag (str_tag tag v) = tag" "nbt_abs (str_tag tag v) = NString v"
  "nbt_tag (byte_tag tag b) = tag" "nbt_abs (byte_tag tag b) = NByte b"
  "nbt_tag (int_tag tag i) = tag" "nbt_abs (int_tag tag i) = NInt i"
  "nbt_tag (list_tag tag es) = tag" "nbt_abs (list_tag tag es) = NList (map nbt_abs es)"
  "nbt_tag (compound_tag tag es) = tag"
  "nbt_abs (compound_tag tag es) = NCompound (map (\<lambda>e. (nbt_tag e, nbt_abs e)) es)"
  "nbt_tag (mk_Compound es s) = []"
  "nbt_abs (mk_Compound es s) = NCompound (map (\<lambda>e. (nbt_tag e, nbt_abs e)) es)"
  "nbt_type (mk_Compound es s) = NBT_Compound"
  by (simp_all add: str_tag_def byte_tag_def int_tag_def list_tag_def compound_tag_def with_tag_def mk_String_def
      mk_Byte_def mk_Int_def mk_List_def mk_Compound_def new_fields_def)

lemma with_tag_sel [simp]: "nbt_tag (with_tag tag e) = tag" "nbt_abs (with_tag tag e) = nbt_abs e"
  by (cases e; simp add: with_tag_def cong: NBTElementType.case_cong)+

lemma recv_tag [simp]: "nbt_tag (recv s e) = nbt_tag e"
  by (simp add: recv_def)

lemma recv_sel [simp]:
  "nbt_string (recv s (str_tag tag v)) = v"
  "m_byteValue (m_fields (recv s (byte_tag tag b))) = b"
  "m_intValue (m_fields (recv s (int_tag tag i))) = i"
  by (simp_all add: recv_def nbt_elem.simps Let_def)

lemma m_childElements_compound:
  "m_childElements (nbt_elem True s tag (NCompound (map (\<lambda>e. (nbt_tag e, nbt_abs e)) es)))
     = map (recv (child_settings s False NBT_End True)) es"
  by (simp add: nbt_elem.simps Let_def nbt_entry_elems_map recv_def)

lemma recv_compound_children:
  "m_childElements (recv s (compound_tag tag es)) = map (recv (child_settings s False NBT_End True)) es"
  by (simp add: recv_def m_childElements_compound)

lemma recv_list_children:
  "\<exists>s'. m_childElements (recv s (list_tag tag es)) = map (\<lambda>e. nbt_elem True s' [] (nbt_abs e)) es"
  by (auto simp: recv_def nbt_elem.simps Let_def nbt_elems_map)

section \<open>The loops of the decoder on encoded children\<close>

definition style_tags :: "string list" where
  "style_tags = [''extra'', ''type'', ''color'', ''font'', ''bold'', ''italic'', ''underlined'', ''strikethrough'',
     ''obfuscated'', ''insertion'', ''click_event'', ''hover_event'']"

lemma style_step_other: "nbt_tag e \<notin> set style_tags \<Longrightarrow> style_step rec e (c, ty) = Inr (c, ty)"
  by (simp add: style_tags_def style_step_def)

lemma style_step_type: "nbt_tag e = ''type'' \<Longrightarrow> style_step rec e (c, ty) = Inr (c, nbt_string e)"
  by (simp add: style_step_def)

definition type_name :: "TextType \<Rightarrow> string" where
  "type_name ty = (case ty of Type_Text \<Rightarrow> ''text'' | Type_Translatable \<Rightarrow> ''translatable''
     | Type_Score \<Rightarrow> ''score'' | Type_Selector \<Rightarrow> ''selector'' | Type_Keybind \<Rightarrow> ''keybind'' | Type_NBT \<Rightarrow> ''nbt'')"

lemma content_children_shape:
  "\<exists>es. content_children st tr = str_tag ''type'' (type_name (content_type st tr)) # es
     \<and> (\<forall>e \<in> set es. nbt_tag e \<notin> set style_tags)"
  by (cases "content_type st tr"; cases "nbt_source (value_or (t_NBT st) new_TextNBT)";
      cases "tn_interpret (value_or (t_NBT st) new_TextNBT)")
    (simp_all add: content_children_def Let_def type_name_def separator_children_def nbt_source_children_def style_tags_def)

lemma efold_map: "efold f (map g xs) s = efold (\<lambda>x. f (g x)) xs s"
  by (induction xs arbitrary: s) (simp_all add: ebind_def split: sum.splits)

lemma style_step_content:
  "efold (style_step rec) (map (recv s) (content_children st tr)) (c, ty) = Inr (c, type_name (content_type st tr))"
proof -
  obtain es where es: "content_children st tr = str_tag ''type'' (type_name (content_type st tr)) # es"
    "\<forall>e \<in> set es. nbt_tag e \<notin> set style_tags" using content_children_shape by blast
  have "efold (\<lambda>e. style_step rec (recv s e)) es k = Inr k" for k
    by (rule efold_skip) (use es(2) in \<open>auto simp: style_step_other\<close>)
  then show ?thesis by (simp add: es(1) style_step_type efold_map)
qed

definition opt_or :: "'a option \<Rightarrow> 'a option \<Rightarrow> 'a option" where
  "opt_or v w = (case v of None \<Rightarrow> w | Some x \<Rightarrow> Some x)"

lemma opt_or_None [simp]: "opt_or v None = v"
  by (cases v) (simp_all add: opt_or_def)

lemma upd_style_upd: "upd_style f (upd_style g c) = upd_style (\<lambda>s. f (g s)) c"
  by (simp add: upd_style_def)

lemma style_step_opt:
  assumes "\<And>x. style_step rec (recv s (w x)) (c, ty) = Inr (upd_style (f (Some x)) c, ty)"
    and "upd_style (f None) c = c"
  shows "efold (style_step rec) (map (recv s) (opt_child w v)) (c, ty) = Inr (upd_style (f v) c, ty)"
  using assms by (cases v) (simp_all add: opt_child_def)

lemma upd_style_id: "(\<And>s. f s = s) \<Longrightarrow> upd_style f c = c"
  by (cases c) (simp add: upd_style_def)

lemma style_step_style:
  "efold (style_step rec) (map (recv s) (opt_child (str_tag ''color'') v)) (c, ty)
     = Inr (upd_style (\<lambda>s. s\<lparr>t_color := opt_or v (t_color s)\<rparr>) c, ty)"
  "efold (style_step rec) (map (recv s) (opt_child (str_tag ''font'') v)) (c, ty)
     = Inr (upd_style (\<lambda>s. s\<lparr>t_font := opt_or v (t_font s)\<rparr>) c, ty)"
  "efold (style_step rec) (map (recv s) (opt_child (\<lambda>b. byte_tag ''bold'' (byte_of_bool b)) w)) (c, ty)
     = Inr (upd_style (\<lambda>s. s\<lparr>t_bold := opt_or w (t_bold s)\<rparr>) c, ty)"
  "efold (style_step rec) (map (recv s) (opt_child (\<lambda>b. byte_tag ''italic'' (byte_of_bool b)) w)) (c, ty)
     = Inr (upd_style (\<lambda>s. s\<lparr>t_italic := opt_or w (t_italic s)\<rparr>) c, ty)"
  "efold (style_step rec) (map (recv s) (opt_child (\<lambda>b. byte_tag ''underlined'' (byte_of_bool b)) w)) (c, ty)
     = Inr (upd_style (\<lambda>s. s\<lparr>t_underlined := opt_or w (t_underlined s)\<rparr>) c, ty)"
  "efold (style_step rec) (map (recv s) (opt_child (\<lambda>b. byte_tag ''strikethrough'' (byte_of_bool b)) w)) (c, ty)
     = Inr (upd_style (\<lambda>s. s\<lparr>t_strikethrough := opt_or w (t_strikethrough s)\<rparr>) c, ty)"
  "efold (style_step rec) (map (recv s) (opt_child (\<lambda>b. byte_tag ''obfuscated'' (byte_of_bool b)) w)) (c, ty)
     = Inr (upd_style (\<lambda>s. s\<lparr>t_obfuscated := opt_or w (t_obfuscated s)\<rparr>) c, ty)"
  "efold (style_step rec) (map (recv s) (opt_child (str_tag ''insertion'') v)) (c, ty)
     = Inr (upd_style (\<lambda>s. s\<lparr>t_insertion := opt_or v (t_insertion s)\<rparr>) c, ty)"
  by (rule style_step_opt; simp add: style_step_def opt_or_def upd_style_id)+

definition copy_style :: "TextStyle \<Rightarrow> TextStyle \<Rightarrow> TextStyle" where
  "copy_style st s = s\<lparr>t_color := opt_or (t_color st) (t_color s), t_font := opt_or (t_font st) (t_font s),
     t_bold := opt_or (t_bold st) (t_bold s), t_italic := opt_or (t_italic st) (t_italic s),
     t_underlined := opt_or (t_underlined st) (t_underlined s),
     t_strikethrough := opt_or (t_strikethrough st) (t_strikethrough s),
     t_obfuscated := opt_or (t_obfuscated st) (t_obfuscated s),
     t_insertion := opt_or (t_insertion st) (t_insertion s)\<rparr>"

lemma style_step_styles:
  "efold (style_step rec) (map (recv s) (style_children st)) (c, ty) = Inr (upd_style (copy_style st) c, ty)"
  by (simp add: style_children_def style_step_style upd_style_upd copy_style_def [abs_def])

lemma action_string_recv:
  "(\<forall>x \<in> set es. nbt_tag x \<noteq> ''action'') \<Longrightarrow> action_string (recv s (str_tag ''action'' v) # es) = v"
proof -
  assume es: "\<forall>x \<in> set es. nbt_tag x \<noteq> ''action''"
  have "fold (\<lambda>e s. if nbt_tag e = ''action'' then nbt_string e else s) es v = v" for v
    using es by (induction es) auto
  then show ?thesis by (simp add: action_string_def)
qed

lemma decode_click_recv:
  "decode_click (map (recv s) (click_children e)) = new_ClickEvent\<lparr>ce_action := Some (click_action e)\<rparr>"
  by (cases "click_action e")
    (simp_all add: click_children_def decode_click_def action_string_recv click_action_of_def)

lemma decode_hover_recv:
  "decode_hover rec (map (recv s) (hover_children e)) = Inr (received_hover e)"
proof (cases "hover_action e")
  case ShowText
  then show ?thesis
    by (auto simp: hover_children_def received_hover_def decode_hover_def action_string_recv Let_def
        split: option.splits list.splits)
next
  case ShowItem
  let ?i = "value_or (he_showItem e) new_ShowItem"
  obtain es where es: "hover_children e = str_tag ''action'' ''show_item'' # es" "\<forall>x \<in> set es. nbt_tag x \<noteq> ''action''"
    using ShowItem by (cases "si_count ?i"; cases "si_components ?i"; cases "the (si_components ?i)")
      (auto simp: hover_children_def Let_def opt_child_def)
  show ?thesis unfolding es(1)
    by (simp add: received_hover_def decode_hover_def action_string_recv es(2) ShowItem new_ShowItem_def)
next
  case ShowEntity
  let ?i = "value_or (he_showEntity e) new_ShowEntity"
  obtain es where es: "hover_children e = str_tag ''action'' ''show_entity'' # es" "\<forall>x \<in> set es. nbt_tag x \<noteq> ''action''"
    using ShowEntity by (cases "se_name ?i"; cases "the (se_name ?i)"; cases "se_UUID ?i")
      (auto simp: hover_children_def Let_def opt_child_def)
  show ?thesis unfolding es(1)
    by (simp add: received_hover_def decode_hover_def action_string_recv es(2) ShowEntity new_ShowEntity_def)
qed

lemma content_type_map [simp]: "content_type st (map_option f tr) = content_type st tr"
  by (simp only: content_type_def option.map_disc_iff)

lemma hover_action_map [simp]: "hover_action (map_HoverEvent f e) = hover_action e"
  by (cases e) (simp only: hover_action_def HoverEvent.map HoverEvent.sel option.map_disc_iff)

lemma received_hover_map [simp]: "received_hover (map_HoverEvent f e) = received_hover e"
  by (simp add: received_hover_def)

text \<open>The first loop over a whole received element, when the nested components decode.\<close>

lemma style_step_element:
  assumes "emap rec (map (\<lambda>e. nbt_elem True s' [] (nbt_abs e)) extra) = Inr texts"
    and "m_childElements (recv s (list_tag ''extra'' extra)) = map (\<lambda>e. nbt_elem True s' [] (nbt_abs e)) extra"
    and "extra = [] \<longleftrightarrow> texts = []"
  shows "efold (style_step rec) (map (recv s) (m_childElements (text_element st tr extra he))) (new_TextComponent, [])
     = Inr (TextComponent (new_TextStyle\<lparr>t_color := t_color st, t_font := t_font st, t_bold := t_bold st,
         t_italic := t_italic st, t_underlined := t_underlined st, t_strikethrough := t_strikethrough st,
         t_obfuscated := t_obfuscated st, t_insertion := t_insertion st,
         t_clickEvent := map_option (\<lambda>e. new_ClickEvent\<lparr>ce_action := Some (click_action e)\<rparr>) (t_clickEvent st)\<rparr>)
         None texts (map_option received_hover he), type_name (content_type st tr))"
proof -
  have extra: "efold (style_step rec) (map (recv s) (if extra \<noteq> [] then [list_tag ''extra'' extra] else [])) (c, ty)
      = Inr (add_extra texts c, ty)" for c ty
    using assms by (cases "extra = []"; cases c) (simp_all add: style_step_def add_extra_def)
  have click: "efold (style_step rec) (map (recv s) (opt_child (\<lambda>e. compound_tag ''click_event'' (click_children e)) v)) (c, ty)
      = Inr (upd_style (\<lambda>s. s\<lparr>t_clickEvent := opt_or (map_option (\<lambda>e. new_ClickEvent\<lparr>ce_action := Some (click_action e)\<rparr>) v)
            (t_clickEvent s)\<rparr>) c, ty)" for v c ty
    by (rule style_step_opt; simp add: style_step_def opt_or_def upd_style_id recv_compound_children decode_click_recv)
  have hover: "efold (style_step rec) (map (recv s) (opt_child (\<lambda>e. compound_tag ''hover_event'' (hover_children e)) he)) (c, ty)
      = Inr (TextComponent (tc_style c) (tc_translatable c) (tc_extra c)
          (opt_or (map_option received_hover he) (tc_hoverEvent c)), ty)" for c ty
    by (cases he; cases c)
      (simp_all add: opt_child_def style_step_def recv_compound_children decode_hover_recv set_hover_def opt_or_def)
  have children: "m_childElements (text_element st tr extra he) = content_children st tr
      @ (if extra \<noteq> [] then [list_tag ''extra'' extra] else []) @ style_children st
      @ opt_child (\<lambda>e. compound_tag ''click_event'' (click_children e)) (t_clickEvent st)
      @ opt_child (\<lambda>e. compound_tag ''hover_event'' (hover_children e)) he"
    by (simp add: text_element_def mk_Compound_def)
  show ?thesis unfolding children map_append efold_append
    by (simp only: style_step_content extra style_step_styles click hover ebind_simps)
      (simp add: upd_style_def add_extra_def new_TextComponent_def copy_style_def new_TextStyle_def)
qed

lemma decode_with_received:
  assumes "emap rec (map (\<lambda>e. nbt_elem True s' [] (nbt_abs e)) extra) = Inr texts"
    and "m_childElements (recv s (list_tag ''extra'' extra)) = map (\<lambda>e. nbt_elem True s' [] (nbt_abs e)) extra"
    and "extra = [] \<longleftrightarrow> texts = []"
    and "m_childElements e = map (recv s) (m_childElements (text_element st tr extra he))"
  shows "decode_with rec e new_TextComponent = Inr (TextComponent (received_style st (content_type st tr))
      (if content_type st tr = Type_Translatable then Some new_Translatable else None) texts (map_option received_hover he))"
proof -
  have "type_name ty \<noteq> []" for ty by (cases ty) (simp_all add: type_name_def)
  then show ?thesis
    by (cases "content_type st tr")
      (simp_all add: decode_with_def assms(4) style_step_element [OF assms(1-3)] Let_def finish_content_def type_name_def
        upd_style_def set_translatable_def received_style_def new_TextStyle_def)
qed

lemma text_element_sel [simp]:
  "nbt_tag (text_element st tr extra he) = []" "nbt_type (text_element st tr extra he) = NBT_Compound"
  "nbt_abs (text_element st tr extra he)
     = NCompound (map (\<lambda>e. (nbt_tag e, nbt_abs e)) (m_childElements (text_element st tr extra he)))"
  by (simp_all add: text_element_def mk_Compound_def new_fields_def)

lemma text_encode_sel [simp]: "nbt_tag (text_encode c) = []" "nbt_abs (text_encode c) \<noteq> NEnd"
  by (cases c; simp)+

lemma extra_valid:
  assumes "nbt_valid (nbt_abs (text_element st tr extra he))" and "e \<in> set extra"
  shows "nbt_valid (nbt_abs e)"
proof -
  have "list_tag ''extra'' extra \<in> set (m_childElements (text_element st tr extra he))"
    using assms(2) by (auto simp: text_element_def mk_Compound_def)
  with assms have "nbt_valid (NList (map nbt_abs extra))" by (fastforce simp: nbt_valid_entries_iff)
  with assms(2) show ?thesis by simp
qed

lemma text_decode_received:
  "nbt_valid (nbt_abs (text_encode c)) \<Longrightarrow> text_depth c \<le> fuel \<Longrightarrow>
     text_decode fuel (nbt_elem True s [] (nbt_abs (text_encode c))) new_TextComponent = Inr (text_received c)"
proof (induction c arbitrary: fuel s)
  case (TextComponent st tr extra he)
  obtain n where fuel: "fuel = Suc n" and depth: "t \<in> set extra \<Longrightarrow> text_depth t \<le> n" for t
    using TextComponent.prems(2) by (cases fuel) (auto simp: fold_max_le)
  let ?tr = "map_option (map_Translatable text_encode) tr" and ?he = "map_option (map_HoverEvent text_encode) he"
  let ?extra = "map text_encode extra"
  let ?rec = "\<lambda>text. ebind (reread text) (\<lambda>e'. text_decode n e' new_TextComponent)"
  have valid: "nbt_valid (nbt_abs (text_encode t))" if "t \<in> set extra" for t
    using extra_valid [of st ?tr ?extra ?he] TextComponent.prems(1) that by simp
  have nested: "?rec (nbt_elem True s' [] (nbt_abs (text_encode t))) = Inr (text_received t)" if "t \<in> set extra" for t s'
    using reread_elem [of "nbt_elem True s' [] (nbt_abs (text_encode t))"] TextComponent.IH(2) [OF that valid [OF that] depth [OF that]]
      valid [OF that] by (simp add: nbt_abs_elem)
  obtain s' where s': "m_childElements (recv (child_settings s False NBT_End True) (list_tag ''extra'' ?extra))
      = map (\<lambda>e. nbt_elem True s' [] (nbt_abs e)) ?extra" using recv_list_children by blast
  have "emap ?rec (map (\<lambda>e. nbt_elem True s' [] (nbt_abs e)) ?extra) = Inr (map text_received extra)"
    using nested by (induction extra) simp_all
  moreover have "m_childElements (nbt_elem True s [] (nbt_abs (text_element st ?tr ?extra ?he)))
      = map (recv (child_settings s False NBT_End True)) (m_childElements (text_element st ?tr ?extra ?he))"
    by (simp add: m_childElements_compound)
  ultimately have "decode_with ?rec (nbt_elem True s [] (nbt_abs (text_element st ?tr ?extra ?he))) new_TextComponent
      = Inr (TextComponent (received_style st (content_type st ?tr))
          (if content_type st ?tr = Type_Translatable then Some new_Translatable else None)
          (map text_received extra) (map_option received_hover ?he))"
    by (intro decode_with_received [OF _ s']) simp_all
  then show ?case unfolding fuel by (simp add: option.map_comp comp_def del: text_element_sel(3))
qed

lemma reads_text_decode:
  assumes "nbt_valid t" and "t \<noteq> NEnd"
    and "text_decode fuel (nbt_elem True network_settings [] t) new_TextComponent = Inr c"
  shows "reads True (readTextComponent fuel) (byte_of_nbt_type (type_of_nbt t) # nbt_payload True t) c"
proof -
  have "reads True (readTextComponent fuel) ((byte_of_nbt_type (type_of_nbt t) # nbt_payload True t) @ []) c"
    unfolding readTextComponent_def
  proof (rule reads_bnd [OF reads_readNBT [OF assms(1,2)]])
    show "reads True (lift_result (text_decode fuel (nbt_elem True network_settings [] t) new_TextComponent)) [] c"
      using assms(3) by (simp add: reads_def lift_result_def)
  qed
  then show ?thesis by simp
qed

lemma reads_readTextComponent:
  assumes "nbt_valid (nbt_abs (text_encode c))" and "text_depth c \<le> fuel"
  shows "reads True (readTextComponent fuel)
    (byte_of_nbt_type (type_of_nbt (nbt_abs (text_encode c))) # nbt_payload True (nbt_abs (text_encode c))) (text_received c)"
  using assms text_decode_received by (intro reads_text_decode) simp_all

unbundle bit_operations_syntax

section \<open>UUID strings\<close>

lemma hex_digit:
  assumes "n < 16"
  shows "hex2char (''0123456789abcdef'' ! n) = Some (of_nat n) \<and> ''0123456789abcdef'' ! n \<noteq> CHR ''-'' \<and> ''0123456789abcdef'' ! n \<noteq> CHR ''{''"
proof -
  have "\<forall>n \<in> set [0..<16]. hex2char (''0123456789abcdef'' ! n) = Some (of_nat n) \<and> ''0123456789abcdef'' ! n \<noteq> CHR ''-'' \<and> ''0123456789abcdef'' ! n \<noteq> CHR ''{''"
    by code_simp
  with assms show ?thesis by simp
qed

lemma guid_encoder_nibble:
  "hex2char (guid_encoder (v AND 0x0F)) = Some (v AND 0x0F) \<and> guid_encoder (v AND 0x0F) \<noteq> CHR ''-'' \<and> guid_encoder (v AND 0x0F) \<noteq> CHR ''{''"
proof -
  have "v AND 0x0F = take_bit 4 v" by (simp add: take_bit_eq_mask mask_eq_exp_minus_1)
  then have "unat (v AND 0x0F) < 16"
    using take_bit_nat_less_exp [of 4 "unat v"] by (simp add: unsigned_take_bit_eq)
  from hex_digit [OF this] show ?thesis by (simp add: guid_encoder_def)
qed

lemma nibbles: "push_bit 4 (drop_bit 4 v) AND 240 OR v AND 15 = (v :: byte)"
proof (rule bit_word_eqI)
  fix n assume n: "n < LENGTH(8)"
  have m: "(15 :: byte) = mask 4" "(240 :: byte) = push_bit 4 (mask 4)" by (simp_all add: mask_eq_exp_minus_1)
  have "bit (15 :: byte) n = (n < 4)" "bit (240 :: byte) n = (4 \<le> n)"
    using n unfolding m bit_mask_iff bit_push_bit_iff by auto
  with n show "bit (push_bit 4 (drop_bit 4 v) AND 240 OR v AND 15) n = bit v n"
    by (auto simp: bit_and_iff bit_or_iff bit_push_bit_iff bit_drop_bit_eq)
qed

lemma uuid_digits_hex:
  "length acc + length bytes \<le> 16 \<Longrightarrow> uuid_digits (uuid_hex bytes @ cs) None acc = uuid_digits cs None (acc @ bytes)"
proof (induction bytes arbitrary: acc)
  case (Cons v bytes)
  then show ?case
    using guid_encoder_nibble [of "drop_bit 4 v"] guid_encoder_nibble [of v]
    by (simp add: uuid_hex_def nibbles)
qed (simp add: uuid_hex_def)

lemma uuid_digits_dash [simp]: "uuid_digits (CHR ''-'' # cs) h acc = uuid_digits cs h acc"
  by simp

lemma uuid_from_to_string:
  assumes "length u = 16"
  shows "uuid_from_string (uuid_to_string u) = Some u"
proof -
  have split: "take 4 u @ take 2 (drop 4 u) = take 6 u" "take 6 u @ take 2 (drop 6 u) = take 8 u"
    "take 8 u @ take 2 (drop 8 u) = take 10 u" "take 10 u @ drop 10 u = u"
    using take_add [of 4 2 u] take_add [of 6 2 u] take_add [of 8 2 u] by (simp_all only: append_take_drop_id) simp_all
  have "uuid_digits (uuid_to_string u) None [] = Some u"
    using assms split uuid_digits_hex [of "take 10 u" "drop 10 u" "[]"]
    by (simp add: uuid_to_string_def uuid_digits_hex)
  moreover obtain v vs where "u = v # vs" using assms by (cases u) auto
  then have "uuid_to_string u = guid_encoder (drop_bit 4 v AND 15) # tl (uuid_to_string u)"
    by (simp add: uuid_to_string_def uuid_hex_def)
  then have "uuid_to_string u \<noteq> []" "hd (uuid_to_string u) \<noteq> CHR ''{''"
    using guid_encoder_nibble [of "drop_bit 4 v"] by (metis list.distinct(1), metis list.sel(1))
  ultimately show ?thesis by (simp add: uuid_from_string_def)
qed

section \<open>JSON\<close>

text \<open>The components in document order, each without its children.\<close>

primrec text_flatten :: "TextComponent \<Rightarrow> TextComponent list" where
  "text_flatten (TextComponent st tr extra he) = TextComponent st tr [] he # concat (map text_flatten extra)"

definition join_comma :: "string list \<Rightarrow> string" where
  "join_comma xs = (case xs of [] \<Rightarrow> [] | x # xs \<Rightarrow> x @ concat (map (\<lambda>y. '','' @ y) xs))"

lemma toJSON_text: "\<exists>s. nbt_toJSON (text_encode c) = ''{'' @ s @ ''}''"
  by (cases c) (simp add: text_element_def mk_Compound_def)

section \<open>Messages without a type\<close>

lemma content_step_style: "nbt_tag e \<in> set style_tags \<Longrightarrow> content_step rec e k = Inr k"
  by (simp add: style_tags_def) (elim disjE; simp add: content_step_def Let_def)

lemma style_children_tags: "e \<in> set (style_children st) \<Longrightarrow> nbt_tag e \<in> set style_tags"
  by (auto simp: style_children_def opt_child_def style_tags_def split: option.splits)

definition untyped_text :: "string \<Rightarrow> TextStyle \<Rightarrow> NBTElement" where
  "untyped_text v st = mk_Compound (str_tag ''text'' v # style_children st) default_NBTSettings"

definition plain_style :: "string \<Rightarrow> TextStyle \<Rightarrow> TextStyle" where
  "plain_style v st = copy_style st (new_TextStyle\<lparr>t_type := Some Type_Text, t_text := Some v\<rparr>)"

lemma decode_untyped:
  assumes "m_childElements e = map (recv s) (str_tag ''text'' v # style_children st)"
  shows "decode_with rec e new_TextComponent = Inr (TextComponent (plain_style v st) None [] None)"
proof -
  have content: "efold (\<lambda>x. content_step rec (recv s x)) (style_children st) k = Inr k" for k
    by (rule efold_skip) (use style_children_tags in \<open>simp add: content_step_style\<close>)
  have first: "style_step rec (recv s (str_tag ''text'' v)) (c, ty) = Inr (c, ty)"
    "content_step rec (recv s (str_tag ''text'' v)) k
       = Inr (k\<lparr>cs_type := ''text'', cs_component := upd_style (\<lambda>s. s\<lparr>t_text := Some v\<rparr>) (cs_component k)\<rparr>)" for c ty k
    by (simp_all add: style_step_def content_step_def)
  show ?thesis unfolding decode_with_def assms list.map efold.simps first ebind_simps style_step_styles
    by (simp add: Let_def first efold_map content finish_content_def)
      (simp add: upd_style_def new_TextComponent_def plain_style_def copy_style_def)
qed

section \<open>A nested component under a tag\<close>

text \<open>The bytes of an element with a tag start with its type and a zero, the high byte of the tag's
  length; read without a tag they are an empty compound.\<close>

lemma short_length_bytes:
  assumes "n < 256"
  shows "numeric_bytes True (u16_of_size n) = [0, of_nat n]"
proof -
  have "[0..<LENGTH(16) div 8] = [0, 1]" by (simp add: upt_rec)
  moreover have "unat (drop_bit 8 (word_of_nat n :: i16)) = 0"
    unfolding unsigned_drop_bit_eq using assms by (simp add: drop_bit_eq_div unat_of_nat take_bit_eq_mod)
  then have "drop_bit 8 (word_of_nat n :: i16) = 0" by (simp only: unat_eq_0)
  ultimately show ?thesis
    using assms by (simp add: numeric_bytes_def le_bytes_def u16_of_size_def unsigned_of_nat take_bit_nat_eq_self)
qed

lemma reread_tagged_compound:
  assumes "nbt_valid (NCompound cs)" and "nbt_abs e = NCompound cs" and "nbt_tag e \<noteq> []" and "length (nbt_tag e) < 256"
  shows "reread e = Inr (nbt_elem True network_settings [] (NCompound []))"
proof -
  have t: "nbt_type e = NBT_Compound" using type_of_nbt_abs [of e] assms(2) by simp
  have "numeric_bytes True (u16_of_size (length (nbt_tag e))) = [0, of_nat (length (nbt_tag e))]"
    by (rule short_length_bytes [OF assms(4)])
  then have "appends True (writeNBTElement e) ([10, 0] @ of_nat (length (nbt_tag e)) # bytes_of_string (nbt_tag e) @ nbt_payload True (NCompound cs))"
    using appends_nbt_encode [of True network_settings e] assms t
    by (simp add: writeNBTElement_def nbt_header_def string16_bytes_def byte_of_nbt_type_def)
  moreover have "reads True readNBT [10, 0] (nbt_elem True network_settings [] (NCompound []))"
    using reads_readNBT [of "NCompound []"] by (simp add: byte_of_nbt_type_def)
  ultimately show ?thesis using write_then_read by (fastforce simp: reread_def)
qed

section \<open>Properties\<close>

text \<open>C18: A component sent with \<open>writeTextComponent\<close> and received with \<open>readTextComponent\<close> keeps its
  style and the nesting of its \<open>extra\<close> components, and loses its content: since the encoder always
  writes \<open>type\<close> and \<open>action\<close>, the decoder skips the loops that read the text, the translation, the
  events' values. Every received component has type \<open>Text\<close> and no text.\<close>

theorem text_component_loses_content:
  assumes "nbt_valid (nbt_abs (text_encode c))" and "text_depth c \<le> fuel"
  shows "\<exists>b. bnd (writeTextComponent c) (\<lambda>_. readTextComponent fuel) (new_bb True) = Inr (text_received c, b)
    \<and> bb_unread b = [] \<and> t_text (tc_style (text_received c)) = None"
proof -
  have "t_text (tc_style (text_received c)) = None" by (cases c) (simp add: received_style_def)
  moreover have "appends True (writeTextComponent c)
      (byte_of_nbt_type (type_of_nbt (nbt_abs (text_encode c))) # nbt_payload True (nbt_abs (text_encode c)))"
    unfolding writeTextComponent_def using assms by (intro appends_writeNBTElement) simp_all
  ultimately show ?thesis using write_read [OF _ reads_readTextComponent [OF assms]] by blast
qed

theorem text_component_loses_content_witness:
  fixes c :: TextComponent
  defines "c \<equiv> build_append (build_text ''b'' new_TextComponent) (build_bold True (build_text ''a'' new_TextComponent))"
  shows "\<exists>b. bnd (writeTextComponent c) (\<lambda>_. readTextComponent 2) (new_bb True) = Inr (text_received c, b)
    \<and> bb_unread b = [] \<and> t_text (tc_style (text_received c)) = None"
proof (rule text_component_loses_content)
  show "nbt_valid (nbt_abs (text_encode c))"
    by (simp add: c_def build_append_def build_bold_def build_text_def add_extra_def upd_style_def new_TextComponent_def
        new_TextStyle_def text_element_def content_children_def content_type_def value_or_def style_children_def
        opt_child_def)
  show "text_depth c \<le> 2"
    by (simp add: c_def build_append_def build_bold_def build_text_def add_extra_def upd_style_def new_TextComponent_def)
qed

text \<open>A styled text message without \<open>type\<close>, as other programs send it, is decoded completely: the
  received component has its text and every style member that was sent.\<close>

theorem untyped_text_is_decoded:
  assumes "nbt_valid (nbt_abs (untyped_text v st))"
  shows "\<exists>b. bnd (writeNBTElement (untyped_text v st)) (\<lambda>_. readTextComponent (Suc n)) (new_bb True)
      = Inr (TextComponent (plain_style v st) None [] None, b) \<and> bb_unread b = []"
proof -
  let ?t = "nbt_abs (untyped_text v st)" and ?es = "str_tag ''text'' v # style_children st"
  have t: "?t = NCompound (map (\<lambda>e. (nbt_tag e, nbt_abs e)) ?es)" "nbt_tag (untyped_text v st) = []" "?t \<noteq> NEnd"
    by (simp_all add: untyped_text_def)
  have "m_childElements (nbt_elem True network_settings [] ?t)
      = map (recv (child_settings network_settings False NBT_End True)) ?es"
    unfolding t(1) by (rule m_childElements_compound)
  from decode_untyped [OF this] have "text_decode (Suc n) (nbt_elem True network_settings [] ?t) new_TextComponent
      = Inr (TextComponent (plain_style v st) None [] None)" by simp
  from write_read [OF appends_writeNBTElement [OF assms t(3,2)] reads_text_decode [OF assms t(3) this]]
  show ?thesis by auto
qed

theorem untyped_text_is_decoded_witness:
  "\<exists>b. bnd (writeNBTElement (untyped_text ''hi'' (new_TextStyle\<lparr>t_bold := Some True\<rparr>))) (\<lambda>_. readTextComponent (Suc 0)) (new_bb True)
      = Inr (TextComponent (plain_style ''hi'' (new_TextStyle\<lparr>t_bold := Some True\<rparr>)) None [] None, b) \<and> bb_unread b = []"
  by (rule untyped_text_is_decoded)
    (simp add: untyped_text_def style_children_def opt_child_def new_TextStyle_def)

text \<open>The text of a hover event without \<open>action\<close> is lost: its child \<open>value\<close> is rewritten to a
  buffer with its tag and read back without, so whatever compound it was, an empty component
  comes out.\<close>

theorem hover_value_is_lost:
  assumes "nbt_valid (NCompound cs)" and "nbt_abs e = NCompound cs" and "nbt_tag e = ''value''"
  shows "decode_hover (\<lambda>text. ebind (reread text) (\<lambda>e'. text_decode (Suc n) e' new_TextComponent)) [e]
    = Inr (HoverEvent (Some ShowText) (Some [new_TextComponent]) None None)"
proof -
  have "reread e = Inr (nbt_elem True network_settings [] (NCompound []))"
    by (rule reread_tagged_compound) (use assms in simp_all)
  moreover have "m_childElements (nbt_elem True network_settings [] (NCompound [])) = []"
    by (simp add: nbt_elem.simps Let_def)
  then have "decode_with rec (nbt_elem True network_settings [] (NCompound [])) new_TextComponent = Inr new_TextComponent" for rec
    by (simp add: decode_with_def Let_def finish_content_def)
  ultimately show ?thesis using assms(3)
    by (simp add: decode_hover_def action_string_def hover_step_def)
qed

theorem hover_value_is_lost_witness:
  "decode_hover (\<lambda>text. ebind (reread text) (\<lambda>e'. text_decode (Suc 0) e' new_TextComponent))
      [with_tag ''value'' (untyped_text ''tip'' new_TextStyle)]
    = Inr (HoverEvent (Some ShowText) (Some [new_TextComponent]) None None)"
  by (rule hover_value_is_lost [where cs = "[(''text'', NString ''tip'')]"])
    (simp_all add: untyped_text_def style_children_def opt_child_def new_TextStyle_def)

text \<open>\<open>encodeJSON\<close> writes one flat array: the component and all its descendants in document order,
  each as the object \<open>toJSON\<close> makes of it without its children, separated by commas.\<close>

theorem json_is_flat_array:
  "text_encodeJSON c = ''['' @ join_comma (map (\<lambda>t. nbt_toJSON (text_encode t)) (text_flatten c)) @ '']''"
proof (induction c)
  case (TextComponent st tr extra he)
  have "concat (map json_append (map text_encodeJSON extra))
      = concat (map (\<lambda>y. '','' @ y) (map (\<lambda>t. nbt_toJSON (text_encode t)) (concat (map text_flatten extra))))"
    using TextComponent.IH(2)
  proof (induction extra)
    case (Cons t extra)
    obtain t' ts where t': "text_flatten t = t' # ts" by (cases t) simp
    obtain s where s: "nbt_toJSON (text_encode t') = ''{'' @ s @ ''}''" using toJSON_text by blast
    have "json_append (text_encodeJSON t)
        = concat (map (\<lambda>y. '','' @ y) (map (\<lambda>t. nbt_toJSON (text_encode t)) (text_flatten t)))"
      using Cons.prems [of t] s by (simp add: t' join_comma_def json_append_def butlast_append comp_def)
    with Cons show ?case by simp
  qed simp
  then show ?case by (simp add: join_comma_def comp_def)
qed

text \<open>A UUID printed by \<open>to_string\<close> has 36 characters and is parsed back by \<open>from_string\<close>.\<close>

theorem uuid_string_round_trip:
  assumes "length u = 16"
  shows "length (uuid_to_string u) = 36 \<and> uuid_from_string (uuid_to_string u) = Some u"
proof -
  have "length (uuid_hex bytes) = 2 * length bytes" for bytes by (induction bytes) (simp_all add: uuid_hex_def)
  then show ?thesis using assms uuid_from_to_string by (simp add: uuid_to_string_def)
qed

theorem uuid_string_round_trip_witness:
  "length (uuid_to_string (replicate 16 0xAB)) = 36
   \<and> uuid_from_string (uuid_to_string (replicate 16 0xAB)) = Some (replicate 16 0xAB)"
  by (rule uuid_string_round_trip) simp

end
