(* ===== verification/Crypto.thy ===== *)
theory Crypto
  imports Prelude
begin

unbundle bit_operations_syntax

text \<open>
  Checksums and text forms of binary data (\<open>src/util/crypto\<close>): the table-driven CRC-32, Base64 and
  the hexadecimal form of a SHA-1 digest. The OpenSSL calls are parameters.
\<close>

section \<open>CRC-32\<close>

text \<open>The two globals. \<open>initCRC32\<close> fills the table on its first call only.\<close>

record CRC32State =
  crc32Table :: "i32 list"
  isCRC32Init :: bool

definition crc32_globals :: CRC32State where
  "crc32_globals = \<lparr>crc32Table = replicate 256 0, isCRC32Init = False\<rparr>"

definition crc_step :: "i32 \<Rightarrow> i32" where
  "crc_step c = (if c AND 1 \<noteq> 0 then drop_bit 1 c XOR 0xEDB88320 else drop_bit 1 c)"

definition crc_entry :: "nat \<Rightarrow> i32" where
  "crc_entry i = (crc_step ^^ 8) (of_nat i)"

definition initCRC32 :: "CRC32State \<Rightarrow> CRC32State" where
  "initCRC32 s = (if isCRC32Init s then s
     else s\<lparr>crc32Table := map crc_entry [0..<256], isCRC32Init := True\<rparr>)"

definition crc_byte :: "CRC32State \<Rightarrow> byte \<Rightarrow> i32 \<Rightarrow> i32" where
  "crc_byte s b crc = drop_bit 8 crc XOR crc32Table s ! unat ((crc AND 0xFF) XOR ucast b)"

definition crc32 :: "CRC32State \<Rightarrow> byte list \<Rightarrow> i32" where
  "crc32 s data = fold (crc_byte s) data 0xFFFFFFFF XOR 0xFFFFFFFF"

section \<open>Base64\<close>

text \<open>
  \<open>encode_block\<close> and \<open>decode_block\<close> stand for \<open>EVP_EncodeBlock\<close> and \<open>EVP_DecodeBlock\<close>: what they store
  and the length they return, \<open>None\<close> for a negative one.
\<close>

definition calculateEncodedSize :: "nat \<Rightarrow> nat" where
  "calculateEncodedSize input_len = 4 * ((input_len + 2) div 3)"

definition calculatePadding :: "string \<Rightarrow> nat" where
  "calculatePadding encoded =
     (if encoded = [] then 0
      else (if last encoded = CHR ''='' then 1 else 0)
         + (if 1 < length encoded \<and> encoded ! (length encoded - 2) = CHR ''='' then 1 else 0))"

definition base64_encode :: "(byte list \<Rightarrow> string option) \<Rightarrow> byte list \<Rightarrow> string" where
  "base64_encode encode_block data =
     (if data = [] then []
      else case encode_block data of
        None \<Rightarrow> []
      | Some out \<Rightarrow> if out = [] \<or> length out \<noteq> calculateEncodedSize (length data) then [] else out)"

text \<open>The output of \<open>EVP_DecodeBlock\<close> goes to a vector of \<open>maxDecodedSize\<close> bytes: a longer output is
  written past its end.\<close>

definition base64_decode :: "(string \<Rightarrow> byte list option) \<Rightarrow> string \<Rightarrow> zinc_error + byte list" where
  "base64_decode decode_block encoded =
     (if encoded = [] then Inr []
      else if length encoded mod 4 \<noteq> 0 then Inr []
      else let maxDecodedSize = length encoded div 4 * 3 - calculatePadding encoded
        in case decode_block encoded of
          None \<Rightarrow> Inr []
        | Some out \<Rightarrow> if maxDecodedSize < length out then Inl OutOfBounds
            else if length out \<noteq> maxDecodedSize then Inr [] else Inr out)"

section \<open>The digest as Java prints it\<close>

text \<open>The loop from the last byte down, which stops before the first.\<close>

fun add_one_loop :: "nat \<Rightarrow> byte list \<Rightarrow> byte list" where
  "add_one_loop 0 bytes = bytes"
| "add_one_loop (Suc i) bytes =
     (let bytes' = bytes[Suc i := bytes ! Suc i + 1]
      in if bytes' ! Suc i \<noteq> 0 then bytes' else add_one_loop i bytes')"

definition twosComplement :: "byte list \<Rightarrow> byte list" where
  "twosComplement digest = add_one_loop 19 (map (\<lambda>b. NOT b) digest)"

definition hex2 :: "byte \<Rightarrow> string" where
  "hex2 b = [''0123456789abcdef'' ! unat (drop_bit 4 b), ''0123456789abcdef'' ! unat (b AND 0xF)]"

definition digestJava :: "byte list \<Rightarrow> string" where
  "digestJava digest = (let isNegative = (hd digest AND 0x80 \<noteq> 0)
     in (if isNegative then ''-'' else [])
        @ concat (map hex2 (if isNegative then twosComplement digest else digest)))"


section \<open>The table agrees with the division bit by bit\<close>

definition crc_bitwise_byte :: "byte \<Rightarrow> i32 \<Rightarrow> i32" where
  "crc_bitwise_byte b crc = (crc_step ^^ 8) (crc XOR ucast b)"

definition crc_bitwise :: "byte list \<Rightarrow> i32" where
  "crc_bitwise data = fold crc_bitwise_byte data 0xFFFFFFFF XOR 0xFFFFFFFF"

lemma crc_step_eq: "crc_step c = drop_bit 1 c XOR (if bit c 0 then 0xEDB88320 else 0)"
  by (simp add: crc_step_def and_one_eq odd_iff_mod_2_eq_one [symmetric] bit_0)

lemma crc_step_xor: "crc_step (a XOR b) = crc_step a XOR crc_step b"
  by (simp add: crc_step_eq bit_xor_iff ac_simps)

lemma crc_steps_xor: "(crc_step ^^ n) (a XOR b) = (crc_step ^^ n) a XOR (crc_step ^^ n) b"
  by (induction n) (simp_all add: crc_step_xor)

lemma crc_step_shift: "(\<forall>i < n. \<not> bit c i) \<Longrightarrow> (crc_step ^^ n) c = drop_bit n c"
proof (induction n arbitrary: c)
  case (Suc n)
  have "crc_step c = drop_bit 1 c" using Suc.prems by (simp add: crc_step_eq)
  moreover have "\<forall>i < n. \<not> bit (drop_bit 1 c) i" using Suc.prems by (simp add: bit_drop_bit_eq)
  ultimately show ?case using Suc.IH [of "drop_bit 1 c"] by (simp add: funpow_swap1 [symmetric] funpow_Suc_right del: funpow.simps)
qed simp

lemma byte_mask: "(0xFF :: i32) = mask 8"
  by (simp add: mask_eq_exp_minus_1)

lemma crc_steps_byte: "(crc_step ^^ 8) c = drop_bit 8 c XOR (crc_step ^^ 8) (c AND 0xFF)"
proof -
  have c: "c = (c AND 0xFF) XOR push_bit 8 (drop_bit 8 c)"
    unfolding byte_mask by (rule bit_word_eqI) (auto simp: bit_simps)
  have "(crc_step ^^ 8) (push_bit 8 (drop_bit 8 c)) = drop_bit 8 (push_bit 8 (drop_bit 8 c))"
    by (rule crc_step_shift) (simp add: bit_push_bit_iff)
  moreover have "drop_bit 8 (push_bit 8 (drop_bit 8 c)) = drop_bit 8 c"
    by (rule bit_word_eqI) (auto simp: bit_simps dest: bit_imp_le_length)
  ultimately show ?thesis using crc_steps_xor [of 8 "c AND 0xFF" "push_bit 8 (drop_bit 8 c)"] c
    by (simp only: xor.commute)
qed

lemma crc_index: "(crc AND 0xFF) XOR ucast (b :: byte) = ((crc XOR ucast b) AND 0xFF :: i32)"
  unfolding byte_mask by (rule bit_word_eqI) (auto simp: bit_simps dest: bit_imp_le_length)

lemma crc_index_bound: "unat ((crc AND 0xFF) XOR ucast (b :: byte) :: i32) < 256"
proof -
  have "(crc AND 0xFF) XOR ucast b = (take_bit 8 (crc XOR ucast b) :: i32)"
    unfolding crc_index unfolding byte_mask by (rule take_bit_eq_mask [symmetric])
  then show ?thesis
    using take_bit_nat_less_exp [of 8 "unat (crc XOR ucast b :: i32)"] by (simp add: unsigned_take_bit_eq del: take_bit_xor)
qed

lemma crc_table_byte: "crc_byte (initCRC32 crc32_globals) b crc = crc_bitwise_byte b crc"
proof -
  have "drop_bit 8 (crc XOR ucast b) = drop_bit 8 crc"
    by (rule bit_word_eqI) (auto simp: bit_simps dest: bit_imp_le_length)
  moreover have "crc32Table (initCRC32 crc32_globals) ! unat ((crc AND 0xFF) XOR ucast b :: i32)
      = (crc_step ^^ 8) ((crc AND 0xFF) XOR ucast b)"
    using crc_index_bound [of crc b] by (simp add: initCRC32_def crc32_globals_def crc_entry_def)
  ultimately show ?thesis
    unfolding crc_byte_def crc_bitwise_byte_def crc_steps_byte [of "crc XOR ucast b"] crc_index by simp
qed

lemma crc_zero_table: "crc_byte crc32_globals b crc = drop_bit 8 crc"
  using crc_index_bound [of crc b] by (simp add: crc_byte_def crc32_globals_def)

lemma crc32_initialised: "crc32 ((initCRC32 ^^ Suc n) crc32_globals) data = crc_bitwise data"
proof -
  have "initCRC32 (initCRC32 s) = initCRC32 s" for s by (simp add: initCRC32_def)
  then have "(initCRC32 ^^ Suc n) crc32_globals = initCRC32 crc32_globals" by (induction n) simp_all
  then show ?thesis by (simp add: crc32_def crc_bitwise_def crc_table_byte [abs_def])
qed

section \<open>The digest as a number\<close>

definition be_nat :: "byte list \<Rightarrow> nat" where
  "be_nat bytes = fold (\<lambda>b n. 256 * n + unat b) bytes 0"

lemma be_nat_simps [simp]: "be_nat [] = 0" "be_nat (xs @ [x]) = 256 * be_nat xs + unat x"
  by (simp_all add: be_nat_def)

lemma be_nat_less: "be_nat xs < 256 ^ length xs"
proof (induction xs rule: rev_induct)
  case (snoc x xs)
  have "unat x < 256" using unsigned_less [where ?'a = nat, of x] by simp
  then show ?case using snoc by simp
qed simp

lemma be_nat_Cons: "be_nat (x # xs) = unat x * 256 ^ length xs + be_nat xs"
proof (induction xs rule: rev_induct)
  case (snoc y xs)
  then show ?case by (simp only: append_Cons [symmetric] be_nat_simps) (simp add: algebra_simps)
qed (simp add: be_nat_def)

lemma be_nat_zero: "be_nat xs = 0 \<longleftrightarrow> set xs \<subseteq> {0}"
  by (induction xs rule: rev_induct) (auto simp: unat_eq_0)

lemma unat_all_ones: "unat (-1 :: byte) = 255"
  by (simp add: unsigned_minus_1_eq_mask mask_eq_exp_minus_1)

lemma unat_complement: "unat (NOT x :: byte) = 255 - unat x"
proof -
  have "unat (-1 - x) = unat (-1 :: byte) - unat x" by (rule unat_sub) simp
  then show ?thesis by (simp add: not_eq_complement minus_diff_commute unat_all_ones)
qed

lemma be_nat_complement: "be_nat (map (\<lambda>b. NOT b) xs) = 256 ^ length xs - 1 - be_nat xs"
proof (induction xs rule: rev_induct)
  case (snoc x xs)
  have "unat x \<le> 255" using unsigned_less [where ?'a = nat, of x] by simp
  then show ?case using snoc be_nat_less [of xs] by (simp add: unat_complement)
qed simp

lemma add_one_loop_value:
  "\<exists>ys. add_one_loop (length xs) (b # xs @ zs) = b # ys @ zs \<and> length ys = length xs
     \<and> be_nat ys = (be_nat xs + 1) mod 256 ^ length xs"
proof (induction xs arbitrary: zs rule: rev_induct)
  case (snoc x xs)
  have step: "add_one_loop (Suc (length xs)) (b # xs @ x # zs) =
      (if x + 1 \<noteq> 0 then b # xs @ (x + 1) # zs else add_one_loop (length xs) (b # xs @ (x + 1) # zs))"
    by (simp add: list_update_append nth_append)
  show ?case
  proof (cases "x + 1 = 0")
    case False
    then have "unat (x + 1) = unat x + 1" using unatSuc [of x] by (simp add: add.commute)
    moreover from this have "unat x + 1 < 256" using unsigned_less [where ?'a = nat, of "x + 1"] by simp
    ultimately show ?thesis using False step be_nat_less [of xs]
      by (intro exI [of _ "xs @ [x + 1]"]) simp
  next
    case True
    then have "x = -1" by (simp add: eq_neg_iff_add_eq_0)
    then have x: "unat x = 255" by (simp add: unat_all_ones)
    obtain ys where "add_one_loop (length xs) (b # xs @ 0 # zs) = b # ys @ 0 # zs" "length ys = length xs"
      "be_nat ys = (be_nat xs + 1) mod 256 ^ length xs" using snoc by blast
    then show ?thesis using True step x
      by (intro exI [of _ "ys @ [0]"]) (simp add: mult_mod_right algebra_simps)
  qed
qed simp

section \<open>Properties\<close>

text \<open>C38: Once \<open>initCRC32\<close> has run, however often, \<open>crc32\<close> is the reflected division by the polynomial
  \<open>0xEDB88320\<close>, one bit at a time, of every message; before it has run the zero table makes the
  result of a message of four bytes or more the same for all of them.\<close>

theorem crc32_table_is_bitwise:
  "crc32 ((initCRC32 ^^ Suc n) crc32_globals) data = crc_bitwise data
   \<and> crc32 crc32_globals (a # b # c # d # data) = 0xFFFFFFFF"
proof
  show "crc32 ((initCRC32 ^^ Suc n) crc32_globals) data = crc_bitwise data" by (rule crc32_initialised)
  have "fold (crc_byte crc32_globals) data 0 = 0"
    by (induction data) (simp_all add: crc_zero_table)
  then show "crc32 crc32_globals (a # b # c # d # data) = 0xFFFFFFFF"
    by (simp add: crc32_def crc_zero_table)
qed

text \<open>With the documented results of \<open>EVP_EncodeBlock\<close> (padded text of \<open>4 \<lceil>n / 3\<rceil>\<close> characters) and
  \<open>EVP_DecodeBlock\<close> (three bytes for every four characters, zeros for the padding), \<open>decode\<close> returns
  what was encoded when its length is a multiple of three; otherwise the padding makes the vector
  shorter than what \<open>EVP_DecodeBlock\<close> stores, and it writes past its end.\<close>

lemma base64_decode_encode:
  assumes "data \<noteq> []" and "encode_block data = Some out"
    and "length out = 4 * ((length data + 2) div 3)"
    and "calculatePadding out = (3 - length data mod 3) mod 3"
    and "decode_block out = Some (data @ replicate ((3 - length data mod 3) mod 3) 0)"
  shows "base64_decode decode_block (base64_encode encode_block data)
    = (if 3 dvd length data then Inr data else Inl OutOfBounds)"
proof -
  let ?pad = "(3 - length data mod 3) mod 3"
  consider "length data mod 3 = 0" | "length data mod 3 = 1" | "length data mod 3 = 2" by linarith
  then have pad: "?pad = 0 \<longleftrightarrow> 3 dvd length data" and size: "(length data + 2) div 3 * 3 = length data + ?pad"
    by (cases; simp add: dvd_eq_mod_eq_0; presburger)+
  have "out \<noteq> []" using assms(1,3) by (cases data) auto
  with assms have "base64_encode encode_block data = out"
    by (simp add: base64_encode_def calculateEncodedSize_def)
  then show ?thesis using assms(3-5) \<open>out \<noteq> []\<close> pad size by (cases "?pad = 0") (simp_all add: base64_decode_def Let_def)
qed

text \<open>\<open>Digest::digestJava\<close> prints 40 hexadecimal digits, leading zeros included, behind a minus
  sign when the top bit is set. The digits of a negative digest are those of its negation modulo
  \<open>2 ^ 160\<close>, except when every byte but the first is zero: the loop of \<open>twosComplement\<close> stops before
  byte 0, the carry is lost, and the digits are those of the complement.\<close>

theorem digest_java_digits:
  assumes "digest = b0 # t" and "length t = 19"
  shows "length (digestJava digest) = (if bit b0 7 then 41 else 40)
    \<and> (\<not> bit b0 7 \<longrightarrow> digestJava digest = concat (map hex2 digest))
    \<and> (bit b0 7 \<longrightarrow> (\<exists>magnitude. digestJava digest = CHR ''-'' # concat (map hex2 magnitude)
         \<and> length magnitude = 20
         \<and> be_nat magnitude = (if set t \<subseteq> {0} then (255 - unat b0) * 256 ^ 19 else 256 ^ 20 - be_nat digest)))"
proof -
  let ?n = "map (\<lambda>b. NOT b) t"
  have top: "(b0 AND 0x80 \<noteq> 0) = bit b0 7"
    using and_exp_eq_0_iff_not_bit [of b0 7] by simp
  obtain ys where ys: "twosComplement digest = NOT b0 # ys" "length ys = 19" "be_nat ys = (be_nat ?n + 1) mod 256 ^ 19"
    using add_one_loop_value [of ?n "NOT b0" "[]"] assms by (auto simp: twosComplement_def)
  have hex: "length (concat (map hex2 bs)) = 2 * length bs" for bs
    by (induction bs) (simp_all add: hex2_def)
  have small: "be_nat t < 256 ^ 19" using be_nat_less [of t] assms by simp
  have mag: "be_nat (NOT b0 # ys) = (if set t \<subseteq> {0} then (255 - unat b0) * 256 ^ 19 else 256 ^ 20 - be_nat digest)"
  proof (cases "be_nat t = 0")
    case True
    then show ?thesis using ys small assms
      by (simp add: be_nat_Cons be_nat_complement be_nat_zero [symmetric] unat_complement)
  next
    case False
    have "unat b0 \<le> 255" using unsigned_less [where ?'a = nat, of b0] by simp
    then obtain k where k: "unat b0 + k = 255" by (metis le_add_diff_inverse)
    then have "255 - unat b0 = k" "unat b0 = 255 - k" by simp_all
    then show ?thesis using ys small assms False k
      by (simp add: be_nat_Cons be_nat_complement be_nat_zero [symmetric] unat_complement diff_mult_distrib)
  qed
  show ?thesis
  proof (cases "bit b0 7")
    case False
    then show ?thesis using assms hex top by (simp add: digestJava_def Let_def hex2_def)
  next
    case True
    then have java: "digestJava digest = CHR ''-'' # concat (map hex2 (NOT b0 # ys))"
      using assms ys(1) top by (simp add: digestJava_def Let_def)
    then have "length (digestJava digest) = 41" using hex ys(2) by (simp del: list.map concat.simps)
    then show ?thesis using True java mag ys(2)
      by (intro conjI impI exI [of _ "NOT b0 # ys"]) simp_all
  qed
qed

theorem digest_java_digits_witness:
  "\<exists>magnitude. digestJava (0xFF # replicate 19 0) = CHR ''-'' # concat (map hex2 magnitude)
     \<and> length magnitude = 20 \<and> be_nat magnitude = 0"
  using digest_java_digits [of "0xFF # replicate 19 0" "0xFF" "replicate 19 0"]
  by (simp add: bit_numeral_rec set_replicate_conv_if)

section \<open>A digest from the constructor to the destructor\<close>

text \<open>What OpenSSL answers: a context or null, whether a context is initialised and finished, and the hash itself.\<close>

record Digests =
  md_ctx_new :: bool
  md_init :: "bool \<Rightarrow> bool"
  md_sha1 :: "byte list \<Rightarrow> byte list"
  md_final :: bool

text \<open>The context is null, alive or freed; freeing it again, or using it then, is undefined behaviour.\<close>

datatype md_ctx = Null_Ctx | Live_Ctx | Freed_Ctx

record MCSHA1 =
  sha_ctx :: md_ctx
  sha_fed :: "byte list"
  sha_digest :: "byte list"

definition new_MCSHA1 :: "Digests \<Rightarrow> MCSHA1" where
  "new_MCSHA1 S = (let ctx = (if md_ctx_new S then Live_Ctx else Null_Ctx);
       ctx' = (if \<not> md_init S (ctx = Live_Ctx) then (if ctx = Null_Ctx then Null_Ctx else Freed_Ctx) else ctx)
     in \<lparr>sha_ctx = ctx', sha_fed = [], sha_digest = replicate 20 0\<rparr>)"

definition sha_destroy :: "MCSHA1 \<Rightarrow> zinc_error + unit" where
  "sha_destroy m = (case sha_ctx m of Null_Ctx \<Rightarrow> Inr () | Live_Ctx \<Rightarrow> Inr () | Freed_Ctx \<Rightarrow> Inl OutOfBounds)"

text \<open>With a null context \<open>EVP_DigestUpdate\<close> and \<open>EVP_DigestFinal_ex\<close> are undefined too.\<close>

definition sha_update :: "byte list \<Rightarrow> MCSHA1 \<Rightarrow> zinc_error + MCSHA1" where
  "sha_update data m = (if sha_ctx m = Live_Ctx then Inr (m\<lparr>sha_fed := sha_fed m @ data\<rparr>) else Inl OutOfBounds)"

definition sha_final :: "Digests \<Rightarrow> MCSHA1 \<Rightarrow> zinc_error + MCSHA1" where
  "sha_final S m = (if sha_ctx m \<noteq> Live_Ctx then Inl OutOfBounds
     else if md_final S then Inr (m\<lparr>sha_digest := md_sha1 S (sha_fed m)\<rparr>) else Inr m)"

definition sha_session :: "Digests \<Rightarrow> byte list list \<Rightarrow> zinc_error + string" where
  "sha_session S datas = ebind (fold (\<lambda>d r. ebind r (sha_update d)) datas (Inr (new_MCSHA1 S)))
     (\<lambda>m. ebind (sha_final S m) (\<lambda>m. ebind (sha_destroy m) (\<lambda>_. Inr (digestJava (sha_digest m)))))"

lemma sha_updates:
  "sha_ctx m = Live_Ctx \<Longrightarrow> fold (\<lambda>d r. ebind r (sha_update d)) datas (Inr m) = Inr (m\<lparr>sha_fed := sha_fed m @ concat datas\<rparr>)"
  by (induction datas arbitrary: m) (simp_all add: sha_update_def ebind_def)

lemma new_MCSHA1_live:
  "md_ctx_new S \<Longrightarrow> md_init S True \<Longrightarrow> new_MCSHA1 S = \<lparr>sha_ctx = Live_Ctx, sha_fed = [], sha_digest = replicate 20 0\<rparr>"
  by (simp add: new_MCSHA1_def)

text \<open>The parts that are fed may be cut anywhere: what is printed is the digest of all of them. A final step that fails leaves the digest
  at zero, and 40 zeros are printed as if they were one.\<close>

lemma sha_session_digest:
  assumes "md_ctx_new S" and "md_init S True"
  shows "sha_session S datas = Inr (digestJava (if md_final S then md_sha1 S (concat datas) else replicate 20 0))"
proof -
  have live: "sha_ctx (new_MCSHA1 S) = Live_Ctx" using assms by (simp add: new_MCSHA1_live)
  show ?thesis unfolding sha_session_def sha_updates [OF live]
    using assms by (simp add: new_MCSHA1_live sha_final_def sha_destroy_def ebind_def)
qed

text \<open>When the context cannot be initialised the constructor frees it and the destructor frees it again.\<close>

lemma sha_double_free: "md_ctx_new S \<Longrightarrow> \<not> md_init S True \<Longrightarrow> sha_destroy (new_MCSHA1 S) = Inl OutOfBounds"
  by (simp add: new_MCSHA1_def sha_destroy_def)

end
