(* ===== verification/Registry.thy ===== *)
theory Registry
  imports NBT
begin

text \<open>
  The registries (\<open>inc/registry/DefaultRegistries.h\<close>, \<open>src/registry/DefaultRegistries.cpp\<close>): the
  template \<open>Registry\<close>, whose maps are read with \<open>operator[]\<close> and filled with \<open>emplace\<close>, the network
  form of a registry, and the registries without codecs. The ones with codecs stand with the types
  they encode.

  A \<open>std::unordered_map\<close> is a map; where the code iterates over one, the order of iteration, which
  the library leaves open, is a parameter.
\<close>

section \<open>The template\<close>

text \<open>
  An empty \<open>std::function\<close> is \<open>None\<close>. The member \<open>m_nbtWriters\<close> is left out: nothing reads it, and the
  constructor and the overload of \<open>registerValue\<close> that fill it do not compile when they are used.
\<close>

record 'a Registry =
  m_registryData :: "string \<rightharpoonup> i32"
  m_writers :: "string \<rightharpoonup> ('a \<Rightarrow> zinc_error + byte list) option"
  m_readers :: "string \<rightharpoonup> 'a bb option"
  m_defaultIdentifier :: Identifier

definition mk_Identifier :: "string \<Rightarrow> string \<Rightarrow> Identifier" where
  "mk_Identifier ns obj = \<lparr>m_namespace = ns, m_object = obj\<rparr>"

definition mc :: "string \<Rightarrow> string" where
  "mc s = ''minecraft:'' @ s"

definition Registry_empty :: "'a Registry" where
  "Registry_empty = \<lparr>m_registryData = Map.empty, m_writers = Map.empty, m_readers = Map.empty,
     m_defaultIdentifier = mk_Identifier ''minecraft'' ''default''\<rparr>"

definition Registry_new :: "(string \<times> i32) list \<Rightarrow> (string \<times> ('a \<Rightarrow> zinc_error + byte list)) list
    \<Rightarrow> (string \<times> 'a bb) list \<Rightarrow> Identifier \<Rightarrow> 'a Registry" where
  "Registry_new registryData writers readers defaultIdentifier =
     \<lparr>m_registryData = map_of registryData, m_writers = map_of (map (map_prod id Some) writers),
      m_readers = map_of (map (map_prod id Some) readers), m_defaultIdentifier = defaultIdentifier\<rparr>"

text \<open>\<open>order\<close> lists the keys as the loop over \<open>m_registryData\<close> meets them.\<close>

definition getIdentifierFromValue :: "string list \<Rightarrow> 'a Registry \<Rightarrow> i32 \<Rightarrow> zinc_error + Identifier" where
  "getIdentifierFromValue order R v =
     (case find (\<lambda>key. m_registryData R key = Some v) order of
        Some key \<Rightarrow> Identifier_of_string key
      | None \<Rightarrow> Inr (m_defaultIdentifier R))"

text \<open>\<open>emplace\<close> leaves an entry that exists as it is.\<close>

definition emplace :: "'k \<Rightarrow> 'v \<Rightarrow> ('k \<rightharpoonup> 'v) \<Rightarrow> ('k \<rightharpoonup> 'v)" where
  "emplace k v m = (case m k of None \<Rightarrow> m(k \<mapsto> v) | Some _ \<Rightarrow> m)"

definition registerValue :: "Identifier \<Rightarrow> ('a \<Rightarrow> zinc_error + byte list) \<Rightarrow> 'a bb \<Rightarrow> i32 \<Rightarrow> 'a Registry \<Rightarrow> 'a Registry" where
  "registerValue identifier w r v R =
     R\<lparr>m_registryData := emplace (Identifier_toString identifier) v (m_registryData R),
       m_writers := emplace (Identifier_toString identifier) (Some w) (m_writers R),
       m_readers := emplace (Identifier_toString identifier) (Some r) (m_readers R)\<rparr>"

definition registerValue_plain :: "Identifier \<Rightarrow> i32 \<Rightarrow> 'a Registry \<Rightarrow> 'a Registry" where
  "registerValue_plain identifier v R =
     R\<lparr>m_registryData := emplace (Identifier_toString identifier) v (m_registryData R)\<rparr>"

section \<open>Using a registry\<close>

text \<open>
  \<open>operator[]\<close> inserts the value-initialised element when the key is missing: 0 for a number, an
  empty function for a codec. Calling an empty \<open>std::function\<close> throws.
\<close>

definition index_map :: "'v \<Rightarrow> 'k \<Rightarrow> ('k \<rightharpoonup> 'v) \<Rightarrow> 'v \<times> ('k \<rightharpoonup> 'v)" where
  "index_map init k m = (case m k of None \<Rightarrow> (init, m(k \<mapsto> init)) | Some v \<Rightarrow> (v, m))"

definition index_data :: "string \<Rightarrow> 'a Registry \<Rightarrow> i32 \<times> 'a Registry" where
  "index_data key R = (let (v, m) = index_map 0 key (m_registryData R) in (v, R\<lparr>m_registryData := m\<rparr>))"

definition index_writer :: "string \<Rightarrow> 'a Registry \<Rightarrow> ('a \<Rightarrow> zinc_error + byte list) option \<times> 'a Registry" where
  "index_writer key R = (let (v, m) = index_map None key (m_writers R) in (v, R\<lparr>m_writers := m\<rparr>))"

definition index_reader :: "string \<Rightarrow> 'a Registry \<Rightarrow> 'a bb option \<times> 'a Registry" where
  "index_reader key R = (let (v, m) = index_map None key (m_readers R) in (v, R\<lparr>m_readers := m\<rparr>))"

text \<open>
  The common part of \<open>toBytes\<close> of the types with a registry: the number and then the data, as bytes,
  with the registry as the two accesses leave it.
\<close>

definition registry_encode :: "string \<Rightarrow> 'a \<Rightarrow> 'a Registry \<Rightarrow> (zinc_error + byte list) \<times> 'a Registry" where
  "registry_encode key data R =
     (let (value, R1) = index_data key R; (writer, R2) = index_writer key R1
      in (case writer of
            None \<Rightarrow> Inl BadFunctionCall
          | Some w \<Rightarrow> run_writer (thn (writeVarInt value) (bnd (lift_result (w data)) writeByteArray)), R2))"

text \<open>The common part of the readers of these types: the type and its data.\<close>

definition registry_decode :: "string list \<Rightarrow> 'a Registry \<Rightarrow> (Identifier \<times> 'a) bb" where
  "registry_decode order R = bnd readVarInt (\<lambda>v.
     bnd (lift_result (getIdentifierFromValue order R v)) (\<lambda>i.
       case fst (index_reader (Identifier_toString i) R) of
         None \<Rightarrow> fail BadFunctionCall
       | Some r \<Rightarrow> bnd r (\<lambda>data. ret (i, data))))"

section \<open>The network form\<close>

text \<open>The overload over a map takes its entries in the order of iteration.\<close>

definition getNetworkRegistry :: "(string \<times> NBTElement) list \<Rightarrow> Identifier \<Rightarrow> unit bb" where
  "getNetworkRegistry registryData registryIdentifier =
     thn (writeIdentifier registryIdentifier)
       (thn (writeVarInt (int_of_size (length registryData)))
         (each (\<lambda>(key, v). thn (writeString key) (thn (writeBool True) (writeNBTElement v))) registryData))"

definition getNetworkRegistry_names :: "string list \<Rightarrow> Identifier \<Rightarrow> unit bb" where
  "getNetworkRegistry_names registryData registryIdentifier =
     thn (writeIdentifier registryIdentifier)
       (thn (writeVarInt (int_of_size (length registryData)))
         (each (\<lambda>key. thn (writeString key) (writeBool False)) registryData))"

section \<open>The registries without codecs\<close>

definition g_fireworkExplosionShapesRegistry :: "byte Registry" where
  "g_fireworkExplosionShapesRegistry = Registry_new
     [(mc ''small'', 0), (mc ''large'', 1), (mc ''star'', 2), (mc ''creeper'', 3), (mc ''burst'', 4)]
     [] [] (mk_Identifier ''minecraft'' ''small'')"

definition g_dyeColorsRegistry :: "byte Registry" where
  "g_dyeColorsRegistry = Registry_new
     [(mc ''white'', 0), (mc ''orange'', 1), (mc ''magenta'', 2), (mc ''light_blue'', 3),
      (mc ''yellow'', 4), (mc ''lime'', 5), (mc ''pink'', 6), (mc ''gray'', 7),
      (mc ''light_gray'', 8), (mc ''cyan'', 9), (mc ''purple'', 10), (mc ''blue'', 11),
      (mc ''brown'', 12), (mc ''green'', 13), (mc ''red'', 14), (mc ''black'', 15)]
     [] [] (mk_Identifier ''minecraft'' ''white'')"

definition g_mushroomVariantsRegistry :: "byte Registry" where
  "g_mushroomVariantsRegistry = Registry_new [(mc ''red'', 0), (mc ''brown'', 1)] [] []
     (mk_Identifier ''minecraft'' ''red'')"

section \<open>Reading what a registered writer wrote\<close>

lemma registry_encode_bytes:
  assumes "m_registryData R key = Some v" and "m_writers R key = Some (Some w)" and "w x = Inr xs"
  shows "registry_encode key x R = (Inr (var_bytes v @ xs), R)"
proof -
  have "appends True (thn (writeVarInt v) (bnd (lift_result (Inr xs)) writeByteArray)) (var_bytes v @ xs)"
    by (intro appends_intros appends_lift [OF HOL.refl]) (simp add: writeByteArray_def appends_writeBytes)
  from run_writer_appends [OF this] assms show ?thesis
    by (simp add: registry_encode_def index_data_def index_writer_def index_map_def)
qed

lemma getIdentifierFromValue_key:
  assumes "m_registryData R (Identifier_toString i) = Some v" and "CHR '':'' \<notin> set (m_namespace i)"
    and "\<And>k. m_registryData R k = Some v \<Longrightarrow> k = Identifier_toString i" and "Identifier_toString i \<in> set order"
  shows "getIdentifierFromValue order R v = Inr i"
proof -
  have hit: "m_registryData R k = Some v \<longleftrightarrow> k = Identifier_toString i" for k
    using assms(1) assms(3) [of k] by blast
  have "find (\<lambda>key. key = a) order = Some a" if "a \<in> set order" for a :: string
    using that by (induction order) auto
  then have "find (\<lambda>key. m_registryData R key = Some v) order = Some (Identifier_toString i)"
    using assms(4) unfolding hit by simp
  then show ?thesis unfolding getIdentifierFromValue_def
    by (simp only: option.case Identifier_of_toString [OF assms(2)])
qed

lemma reads_registry_decode:
  assumes "m_registryData R (Identifier_toString i) = Some v" and "CHR '':'' \<notin> set (m_namespace i)"
    and "\<And>k. m_registryData R k = Some v \<Longrightarrow> k = Identifier_toString i" and "Identifier_toString i \<in> set order"
    and "m_readers R (Identifier_toString i) = Some (Some r)" and "reads be r xs x"
  shows "reads be (registry_decode order R) (var_bytes v @ xs) (i, x)"
proof -
  have get: "getIdentifierFromValue order R v = Inr i"
    by (rule getIdentifierFromValue_key [OF assms(1,2) _ assms(4)]) (rule assms(3))
  have "reads be (bnd r (\<lambda>data. ret (i, data))) xs (i, x)" by (rule reads_bnd_ret [OF assms(6)]) simp
  then have "reads be (case fst (index_reader (Identifier_toString i) R) of None \<Rightarrow> fail BadFunctionCall
      | Some r \<Rightarrow> bnd r (\<lambda>data. ret (i, data))) xs (i, x)"
    using assms(5) by (simp add: index_reader_def index_map_def)
  then have "reads be (bnd (lift_result (getIdentifierFromValue order R v)) (\<lambda>i.
      case fst (index_reader (Identifier_toString i) R) of None \<Rightarrow> fail BadFunctionCall
      | Some r \<Rightarrow> bnd r (\<lambda>data. ret (i, data)))) xs (i, x)" by (rule reads_lift [OF get])
  then show ?thesis unfolding registry_decode_def by (rule reads_bnd [OF reads_readVarNumeric])
qed

section \<open>The registry as a state\<close>

text \<open>What the program and its plugins do with a registry, as steps.\<close>

inductive registry_step :: "'a Registry \<Rightarrow> 'a Registry \<Rightarrow> bool" where
  step_register: "registry_step R (registerValue i w r v R)"
| step_register_plain: "registry_step R (registerValue_plain i v R)"
| step_encode: "registry_step R (snd (registry_encode key data R))"
| step_decode: "registry_step R (snd (index_reader key R))"

inductive registry_steps :: "'a Registry \<Rightarrow> 'a Registry \<Rightarrow> bool" where
  steps_refl: "registry_steps R R"
| steps_step: "registry_steps R S \<Longrightarrow> registry_step S T \<Longrightarrow> registry_steps R T"

lemma emplace_le [simp]: "m \<subseteq>\<^sub>m emplace k v m"
  by (auto simp: emplace_def map_le_def split: option.split)

lemma index_map_le [simp]: "m \<subseteq>\<^sub>m snd (index_map i k m)"
  by (auto simp: index_map_def map_le_def split: option.split)

definition registry_le :: "'a Registry \<Rightarrow> 'a Registry \<Rightarrow> bool" where
  "registry_le R S \<longleftrightarrow> m_registryData R \<subseteq>\<^sub>m m_registryData S \<and> m_writers R \<subseteq>\<^sub>m m_writers S
     \<and> m_readers R \<subseteq>\<^sub>m m_readers S \<and> m_defaultIdentifier S = m_defaultIdentifier R"

lemma registry_le_trans: "registry_le R S \<Longrightarrow> registry_le S T \<Longrightarrow> registry_le R T"
  unfolding registry_le_def by (intro conjI; elim conjE; (erule (1) map_le_trans | simp))

lemma snd_registry_encode: "snd (registry_encode key data R) =
    R\<lparr>m_registryData := snd (index_map 0 key (m_registryData R)), m_writers := snd (index_map None key (m_writers R))\<rparr>"
  by (simp add: registry_encode_def index_data_def index_writer_def Let_def case_prod_beta)

lemma snd_index_reader: "snd (index_reader key R) = R\<lparr>m_readers := snd (index_map None key (m_readers R))\<rparr>"
  by (simp add: index_reader_def Let_def case_prod_beta)

lemma registry_step_le: "registry_step R S \<Longrightarrow> registry_le R S"
  by (induction rule: registry_step.induct)
    (simp_all add: registry_le_def registerValue_def registerValue_plain_def snd_registry_encode snd_index_reader)

lemma registry_steps_le: "registry_steps R S \<Longrightarrow> registry_le R S"
proof (induction rule: registry_steps.induct)
  case (steps_step R S T)
  then show ?case by (blast intro: registry_le_trans registry_step_le)
qed (simp add: registry_le_def)

section \<open>Properties\<close>

text \<open>Whatever the program and its plugins do with a registry, an entry that is there keeps its number,
  its writer and its reader: a plugin can add types and cannot change one.\<close>

theorem registry_entries_are_permanent:
  assumes "registry_steps R S"
  shows "(m_registryData R key = Some v \<longrightarrow> m_registryData S key = Some v)
    \<and> (m_writers R key = Some w \<longrightarrow> m_writers S key = Some w)
    \<and> (m_readers R key = Some r \<longrightarrow> m_readers S key = Some r)"
  using registry_steps_le [OF assms] by (auto simp: registry_le_def map_le_def dom_def)

theorem registry_entries_are_permanent_witness:
  "m_registryData (registerValue_plain (mk_Identifier ''minecraft'' ''white'') 7 g_dyeColorsRegistry) (mc ''white'') = Some 0"
proof -
  have "registry_steps g_dyeColorsRegistry (registerValue_plain (mk_Identifier ''minecraft'' ''white'') 7 g_dyeColorsRegistry)"
    by (rule steps_step [OF steps_refl step_register_plain])
  from registry_entries_are_permanent [OF this, of "mc ''white''" 0]
  show ?thesis by (simp add: g_dyeColorsRegistry_def Registry_new_def)
qed

text \<open>Encoding a value of a type that is not registered throws, and leaves an empty writer and the
  number 0 behind: a plugin that registers the type later has no effect, and the type can never be
  encoded again.\<close>

theorem use_before_register_is_forever:
  assumes "m_writers R key = None" and "m_registryData R key = None"
    and "registry_steps (snd (registry_encode key x R)) S"
  shows "fst (registry_encode key x R) = Inl BadFunctionCall
    \<and> m_registryData S key = Some 0
    \<and> fst (registry_encode key y (registerValue i w r v S)) = Inl BadFunctionCall"
proof -
  let ?R = "snd (registry_encode key x R)"
  have poisoned: "fst (registry_encode key z T) = Inl BadFunctionCall" if "m_writers T key = Some None" for z and T :: "'a Registry"
    using that by (simp add: registry_encode_def index_data_def index_writer_def index_map_def Let_def case_prod_beta)
  have first: "fst (registry_encode key x R) = Inl BadFunctionCall"
    using assms(1) by (simp add: registry_encode_def index_data_def index_writer_def index_map_def Let_def case_prod_beta)
  have "m_writers ?R key = Some None" "m_registryData ?R key = Some 0"
    using assms(1,2) by (simp_all add: snd_registry_encode index_map_def)
  moreover have "registry_le ?R S" using assms(3) by (rule registry_steps_le)
  moreover have "registry_le S (registerValue i w r v S)" by (rule registry_step_le [OF step_register])
  ultimately have "m_registryData S key = Some 0" "m_writers (registerValue i w r v S) key = Some None"
    by (auto simp: registry_le_def map_le_def dom_def)
  then show ?thesis using first poisoned by blast
qed

theorem use_before_register_is_forever_witness:
  "fst (registry_encode (mc ''glow'') 3 (registerValue (mk_Identifier ''minecraft'' ''glow'') (\<lambda>_. Inr [1]) (ret 1) 9
      (snd (registry_encode (mc ''glow'') (2 :: byte) (Registry_new [] [] [] (mk_Identifier ''a'' ''b''))))))
     = Inl BadFunctionCall"
  using use_before_register_is_forever [of "Registry_new [] [] [] (mk_Identifier ''a'' ''b'')" "mc ''glow''" "2 :: byte",
      OF _ _ steps_refl]
  by (simp add: Registry_new_def)

end
