(* ===== verification/Slots.thy ===== *)
theory Slots
  imports Registry Crypto
begin

text \<open>
  Items (\<open>src/type/Slot.cpp\<close>), and the displays of items and recipes (\<open>src/type/Recipe.cpp\<close>) with their
  registries (\<open>src/registry/DefaultRegistries.cpp\<close>), whose readers and writers call the codec of
  \<open>SlotDisplay\<close> again: the codecs have a fuel argument, the depth of the recursion. A number
  that is never initialised is \<open>None\<close>; copying it is harmless, writing it is \<open>Indeterminate\<close>.
\<close>

section \<open>Slot\<close>

record ComponentWrapper =
  cw_type :: i32
  cw_dataAndType :: "byte list"

record Slot =
  m_itemId :: i32
  m_itemCount :: i32
  m_componentsToAdd :: "ComponentWrapper list"
  m_componentsToRemove :: "i32 list"

definition new_ComponentWrapper :: ComponentWrapper where
  "new_ComponentWrapper = \<lparr>cw_type = 0, cw_dataAndType = []\<rparr>"

definition new_Slot :: Slot where
  "new_Slot = \<lparr>m_itemId = - 1, m_itemCount = 0, m_componentsToAdd = [], m_componentsToRemove = []\<rparr>"

definition ComponentWrapper_eq :: "ComponentWrapper \<Rightarrow> ComponentWrapper \<Rightarrow> bool" where
  "ComponentWrapper_eq a b \<longleftrightarrow> cw_dataAndType b = cw_dataAndType a \<and> cw_type b = cw_type a"

definition slot_writer :: "Slot \<Rightarrow> unit bb" where
  "slot_writer s =
     thn (writeVarInt (m_itemCount s))
       (if 0 <s m_itemCount s then
          thn (writeVarInt (m_itemId s))
         (thn (writeVarInt (int_of_size (length (m_componentsToAdd s))))
         (thn (writeVarInt (int_of_size (length (m_componentsToRemove s))))
         (thn (each (\<lambda>component. writeByteArray (cw_dataAndType component)) (m_componentsToAdd s))
              (each writeVarInt (m_componentsToRemove s)))))
        else ret ())"

definition slot_toBytes :: "Slot \<Rightarrow> zinc_error + byte list" where
  "slot_toBytes s = run_writer (slot_writer s)"

definition slot_hash_writer :: "CRC32State \<Rightarrow> Slot \<Rightarrow> unit bb" where
  "slot_hash_writer g s =
     thn (writeBool (0 <s m_itemCount s))
       (if 0 <s m_itemCount s then
          thn (writeVarInt (m_itemId s))
         (thn (writeVarInt (m_itemCount s))
         (thn (writeVarInt (int_of_size (length (m_componentsToAdd s))))
         (thn (each (\<lambda>component. thn (writeVarInt (cw_type component))
                 (writeNumeric (crc32 g (cw_dataAndType component)))) (m_componentsToAdd s))
         (thn (writeVarInt (int_of_size (length (m_componentsToRemove s))))
              (each writeVarInt (m_componentsToRemove s))))))
        else ret ())"

definition slot_toBytesHashed :: "CRC32State \<Rightarrow> Slot \<Rightarrow> zinc_error + byte list" where
  "slot_toBytesHashed g s = run_writer (slot_hash_writer g s)"

definition slot_eq :: "Slot \<Rightarrow> Slot \<Rightarrow> bool" where
  "slot_eq a b \<longleftrightarrow> m_itemId b = m_itemId a \<and> m_itemCount b = m_itemCount a
     \<and> list_all2 ComponentWrapper_eq (m_componentsToAdd b) (m_componentsToAdd a)
     \<and> m_componentsToRemove b = m_componentsToRemove a"

definition write_result :: "zinc_error + byte list \<Rightarrow> unit bb" where
  "write_result r = bnd (lift_result r) writeByteArray"

definition writeSlot :: "Slot \<Rightarrow> unit bb" where
  "writeSlot s = write_result (slot_toBytes s)"

definition writeHashedSlot :: "CRC32State \<Rightarrow> Slot \<Rightarrow> unit bb" where
  "writeHashedSlot g s = write_result (slot_toBytesHashed g s)"

section \<open>SlotDisplay\<close>

datatype SlotDisplay = SlotDisplay (sd_type: Identifier) (sd_itemType: "i32 option") (sd_itemStack: Slot)
  (sd_tag: Identifier) (sd_children: "SlotDisplay list") (sd_customData: "byte list")

record SlotDisplayData =
  sdd_itemType :: "i32 option"
  sdd_itemStack :: Slot
  sdd_tag :: Identifier
  sdd_children :: "SlotDisplay list"
  sdd_customData :: "byte list"

definition new_SlotDisplay :: SlotDisplay where
  "new_SlotDisplay = SlotDisplay (mk_Identifier ''minecraft'' ''empty'') None new_Slot default_Identifier [] []"

definition new_SlotDisplayData :: SlotDisplayData where
  "new_SlotDisplayData = \<lparr>sdd_itemType = None, sdd_itemStack = new_Slot, sdd_tag = default_Identifier,
     sdd_children = [], sdd_customData = []\<rparr>"

definition write_int :: "i32 option \<Rightarrow> unit bb" where
  "write_int v = (case v of None \<Rightarrow> fail Indeterminate | Some i \<Rightarrow> writeVarInt i)"

definition write_float :: "i32 option \<Rightarrow> unit bb" where
  "write_float v = (case v of None \<Rightarrow> fail Indeterminate | Some f \<Rightarrow> writeNumeric f)"

text \<open>
  The writers and the readers of \<open>g_slotDisplayRegistry\<close>, over \<open>SlotDisplay::toBytes\<close> (\<open>tb\<close>) and
  \<open>ByteBuffer::readSlotDisplay\<close> (\<open>rd\<close>).
\<close>

definition children_writer :: "(SlotDisplay \<Rightarrow> zinc_error + byte list) \<Rightarrow> nat \<Rightarrow> SlotDisplayData \<Rightarrow> unit bb" where
  "children_writer tb n data = each (\<lambda>d. write_result (tb d))
     (if length (sdd_children data) \<noteq> n then replicate n new_SlotDisplay else sdd_children data)"

definition slot_display_writers :: "(SlotDisplay \<Rightarrow> zinc_error + byte list) \<Rightarrow> (string \<times> (SlotDisplayData \<Rightarrow> zinc_error + byte list)) list" where
  "slot_display_writers tb =
     [(mc ''empty'', \<lambda>_. Inr []),
      (mc ''any_fuel'', \<lambda>_. Inr []),
      (mc ''item'', \<lambda>data. run_writer (write_int (sdd_itemType data))),
      (mc ''item_stack'', \<lambda>data. run_writer (writeSlot (sdd_itemStack data))),
      (mc ''tag'', \<lambda>data. run_writer (writeIdentifier (sdd_tag data))),
      (mc ''smithing_trim'', \<lambda>data. run_writer (children_writer tb 3 data)),
      (mc ''with_remainder'', \<lambda>data. run_writer (children_writer tb 2 data)),
      (mc ''composite'', \<lambda>data. run_writer (writePrefixedArray (\<lambda>d. write_result (tb d)) (sdd_children data)))]"

definition read_children :: "SlotDisplay list bb \<Rightarrow> SlotDisplayData bb" where
  "read_children r = bnd r (\<lambda>ds. ret (new_SlotDisplayData\<lparr>sdd_children := ds\<rparr>))"

definition slot_display_readers :: "SlotDisplay bb \<Rightarrow> (string \<times> SlotDisplayData bb) list" where
  "slot_display_readers rd =
     [(mc ''empty'', ret new_SlotDisplayData),
      (mc ''any_fuel'', ret new_SlotDisplayData),
      (mc ''item'', bnd readVarInt (\<lambda>i. ret (new_SlotDisplayData\<lparr>sdd_itemType := Some i\<rparr>))),
      (mc ''item_stack'', ret new_SlotDisplayData),
      (mc ''tag'', bnd readIdentifier (\<lambda>i. ret (new_SlotDisplayData\<lparr>sdd_tag := i\<rparr>))),
      (mc ''smithing_trim'', read_children (readArray rd 3)),
      (mc ''with_remainder'', read_children (readArray rd 2)),
      (mc ''composite'', read_children (readPrefixedArray rd))]"

definition g_slotDisplayRegistry :: "(SlotDisplay \<Rightarrow> zinc_error + byte list) \<Rightarrow> SlotDisplay bb \<Rightarrow> SlotDisplayData Registry" where
  "g_slotDisplayRegistry tb rd = Registry_new
     [(mc ''empty'', 0), (mc ''any_fuel'', 1), (mc ''item'', 2), (mc ''item_stack'', 3),
      (mc ''tag'', 4), (mc ''smithing_trim'', 5), (mc ''with_remainder'', 6), (mc ''composite'', 7)]
     (slot_display_writers tb) (slot_display_readers rd) (mk_Identifier ''minecraft'' ''empty'')"

definition slot_display_data :: "SlotDisplay \<Rightarrow> SlotDisplayData" where
  "slot_display_data d = \<lparr>sdd_itemType = sd_itemType d, sdd_itemStack = sd_itemStack d, sdd_tag = sd_tag d,
     sdd_children = sd_children d, sdd_customData = sd_customData d\<rparr>"

primrec slotDisplay_toBytes :: "nat \<Rightarrow> SlotDisplay \<Rightarrow> zinc_error + byte list" where
  "slotDisplay_toBytes 0 d = Inl StackExhausted"
| "slotDisplay_toBytes (Suc n) d =
     fst (registry_encode (Identifier_toString (sd_type d)) (slot_display_data d)
       (g_slotDisplayRegistry (slotDisplay_toBytes n) (fail StackExhausted)))"

definition writeSlotDisplay :: "nat \<Rightarrow> SlotDisplay \<Rightarrow> unit bb" where
  "writeSlotDisplay n d = write_result (slotDisplay_toBytes n d)"

primrec readSlotDisplay :: "string list \<Rightarrow> nat \<Rightarrow> SlotDisplay bb" where
  "readSlotDisplay order 0 = fail StackExhausted"
| "readSlotDisplay order (Suc n) =
     bnd (registry_decode order (g_slotDisplayRegistry (\<lambda>_. Inl StackExhausted) (readSlotDisplay order n)))
       (\<lambda>(i, data). ret (SlotDisplay i (sdd_itemType data) (sdd_itemStack data) (sdd_tag data)
          (sdd_children data) (sdd_customData data)))"

definition SlotDisplay_eq :: "nat \<Rightarrow> SlotDisplay \<Rightarrow> SlotDisplay \<Rightarrow> zinc_error + bool" where
  "SlotDisplay_eq n a b =
     ebind (slotDisplay_toBytes n b) (\<lambda>x. ebind (slotDisplay_toBytes n a) (\<lambda>y. Inr (x = y)))"

section \<open>RecipeDisplay\<close>

record RecipeDisplayData =
  rdd_width :: "i32 option"
  rdd_height :: "i32 option"
  rdd_ingredients :: "SlotDisplay list"
  rdd_fuel :: SlotDisplay
  rdd_result :: SlotDisplay
  rdd_craftingStation :: SlotDisplay
  rdd_cookingTime :: "i32 option"
  rdd_experience :: "i32 option"
  rdd_customData :: "byte list"

text \<open>A \<open>RecipeDisplay\<close> has the members of its data behind its type.\<close>

record RecipeDisplay =
  rd_type :: Identifier
  rd_data :: RecipeDisplayData

definition new_RecipeDisplayData :: RecipeDisplayData where
  "new_RecipeDisplayData = \<lparr>rdd_width = None, rdd_height = None, rdd_ingredients = [], rdd_fuel = new_SlotDisplay,
     rdd_result = new_SlotDisplay, rdd_craftingStation = new_SlotDisplay, rdd_cookingTime = None,
     rdd_experience = None, rdd_customData = []\<rparr>"

definition new_RecipeDisplay :: RecipeDisplay where
  "new_RecipeDisplay = \<lparr>rd_type = mk_Identifier ''minecraft'' ''crafting_shapeless'', rd_data = new_RecipeDisplayData\<rparr>"

definition ingredients_or_empty :: "nat \<Rightarrow> RecipeDisplayData \<Rightarrow> SlotDisplay list" where
  "ingredients_or_empty n data =
     (if length (rdd_ingredients data) \<noteq> n then replicate n new_SlotDisplay else rdd_ingredients data)"

definition recipe_display_writers :: "(SlotDisplay \<Rightarrow> unit bb) \<Rightarrow> (string \<times> (RecipeDisplayData \<Rightarrow> zinc_error + byte list)) list" where
  "recipe_display_writers wr =
     [(mc ''crafting_shapeless'', \<lambda>data. run_writer
        (thn (writePrefixedArray wr (rdd_ingredients data))
        (thn (wr (rdd_result data)) (wr (rdd_craftingStation data))))),
      (mc ''crafting_shaped'', \<lambda>data. run_writer
        (thn (write_int (rdd_width data)) (thn (write_int (rdd_height data))
        (thn (writePrefixedArray wr (rdd_ingredients data))
        (thn (wr (rdd_result data)) (wr (rdd_craftingStation data))))))),
      (mc ''furnace'', \<lambda>data. run_writer
        (thn (each wr (ingredients_or_empty 1 data))
        (thn (wr (rdd_fuel data)) (thn (wr (rdd_result data)) (thn (wr (rdd_craftingStation data))
        (thn (write_int (rdd_cookingTime data)) (write_float (rdd_experience data)))))))),
      (mc ''stonecutter'', \<lambda>data. run_writer
        (thn (each wr (ingredients_or_empty 1 data))
        (thn (wr (rdd_result data)) (wr (rdd_craftingStation data))))),
      (mc ''smithing'', \<lambda>data. run_writer
        (thn (each wr (ingredients_or_empty 3 data))
        (thn (wr (rdd_result data)) (wr (rdd_craftingStation data)))))]"

definition recipe_display_readers :: "SlotDisplay bb \<Rightarrow> (string \<times> RecipeDisplayData bb) list" where
  "recipe_display_readers rd =
     [(mc ''crafting_shapeless'',
        bnd (readPrefixedArray rd) (\<lambda>ingredients. bnd rd (\<lambda>result. bnd rd (\<lambda>station.
          ret (new_RecipeDisplayData\<lparr>rdd_ingredients := ingredients, rdd_result := result,
            rdd_craftingStation := station\<rparr>))))),
      (mc ''crafting_shaped'',
        bnd readVarInt (\<lambda>width. bnd readVarInt (\<lambda>height.
        bnd (readPrefixedArray rd) (\<lambda>ingredients. bnd rd (\<lambda>result. bnd rd (\<lambda>station.
          ret (new_RecipeDisplayData\<lparr>rdd_width := Some width, rdd_height := Some height,
            rdd_ingredients := ingredients, rdd_result := result, rdd_craftingStation := station\<rparr>))))))),
      (mc ''furnace'',
        bnd rd (\<lambda>ingredient. bnd rd (\<lambda>fuel. bnd rd (\<lambda>result. bnd rd (\<lambda>station.
        bnd readVarInt (\<lambda>cookingTime. bnd readNumeric (\<lambda>experience.
          ret (new_RecipeDisplayData\<lparr>rdd_ingredients := [ingredient], rdd_fuel := fuel, rdd_result := result,
            rdd_craftingStation := station, rdd_cookingTime := Some cookingTime,
            rdd_experience := Some experience\<rparr>)))))))),
      (mc ''stonecutter'',
        bnd rd (\<lambda>ingredient. bnd rd (\<lambda>result. bnd rd (\<lambda>station.
          ret (new_RecipeDisplayData\<lparr>rdd_ingredients := [ingredient], rdd_result := result,
            rdd_craftingStation := station\<rparr>))))),
      (mc ''smithing'',
        bnd rd (\<lambda>first. bnd rd (\<lambda>second. bnd rd (\<lambda>third. bnd rd (\<lambda>result. bnd rd (\<lambda>station.
          ret (new_RecipeDisplayData\<lparr>rdd_ingredients := [first, second, third], rdd_result := result,
            rdd_craftingStation := station\<rparr>)))))))]"

definition g_recipeDisplayRegistry :: "(SlotDisplay \<Rightarrow> unit bb) \<Rightarrow> SlotDisplay bb \<Rightarrow> RecipeDisplayData Registry" where
  "g_recipeDisplayRegistry wr rd = Registry_new
     [(mc ''crafting_shapeless'', 0), (mc ''crafting_shaped'', 1), (mc ''furnace'', 2),
      (mc ''stonecutter'', 3), (mc ''smithing'', 4)]
     (recipe_display_writers wr) (recipe_display_readers rd) (mk_Identifier ''minecraft'' ''crafting_shapeless'')"

definition recipeDisplay_toBytes :: "nat \<Rightarrow> RecipeDisplay \<Rightarrow> zinc_error + byte list" where
  "recipeDisplay_toBytes n r = fst (registry_encode (Identifier_toString (rd_type r)) (rd_data r)
     (g_recipeDisplayRegistry (writeSlotDisplay n) (fail StackExhausted)))"

definition writeRecipeDisplay :: "nat \<Rightarrow> RecipeDisplay \<Rightarrow> unit bb" where
  "writeRecipeDisplay n r = write_result (recipeDisplay_toBytes n r)"

definition readRecipeDisplay :: "string list \<Rightarrow> string list \<Rightarrow> nat \<Rightarrow> RecipeDisplay bb" where
  "readRecipeDisplay order slot_order n =
     bnd (registry_decode order (g_recipeDisplayRegistry (\<lambda>_. fail StackExhausted) (readSlotDisplay slot_order n)))
       (\<lambda>(i, data). ret \<lparr>rd_type = i, rd_data = data\<rparr>)"

definition RecipeDisplay_eq :: "nat \<Rightarrow> RecipeDisplay \<Rightarrow> RecipeDisplay \<Rightarrow> zinc_error + bool" where
  "RecipeDisplay_eq n a b =
     ebind (recipeDisplay_toBytes n a) (\<lambda>x. ebind (recipeDisplay_toBytes n b) (\<lambda>y. Inr (x = y)))"

section \<open>Writers of nested buffers\<close>

lemma appends_write_result: "r = Inr xs \<Longrightarrow> appends be (write_result r) xs"
  unfolding write_result_def by (rule appends_lift, assumption) (simp add: writeByteArray_def appends_writeBytes)

lemma Identifier_toString_mk [simp]: "Identifier_toString (mk_Identifier ''minecraft'' s) = mc s"
  by (simp add: Identifier_toString_def mk_Identifier_def mc_def)

lemma mc_inject [simp]: "mc s = mc t \<longleftrightarrow> s = t"
  by (simp add: mc_def)

lemma mk_Identifier_sel [simp]: "m_namespace (mk_Identifier s t) = s" "m_object (mk_Identifier s t) = t"
  by (simp_all add: mk_Identifier_def)

section \<open>The displays that survive the wire\<close>

text \<open>
  \<open>display_ok\<close>: the type is one of the registered ones but \<open>item_stack\<close>, the members its writer sends
  have the shape it expects, and the others are as in a fresh object.
\<close>

definition display_shape :: "string \<Rightarrow> i32 option \<Rightarrow> Identifier \<Rightarrow> nat \<Rightarrow> bool" where
  "display_shape t itemType tag n \<longleftrightarrow>
     (itemType \<noteq> None \<longleftrightarrow> t = ''item'') \<and> (if t = ''tag'' then identifier_ok tag else tag = default_Identifier) \<and>
     (t \<in> {''empty'', ''any_fuel'', ''item'', ''tag''} \<and> n = 0 \<or> t = ''smithing_trim'' \<and> n = 3
      \<or> t = ''with_remainder'' \<and> n = 2 \<or> t = ''composite'' \<and> n < 2 ^ 31)"

definition display_number :: "string \<Rightarrow> i32" where
  "display_number t = (if t = ''empty'' then 0 else if t = ''any_fuel'' then 1 else if t = ''item'' then 2
     else if t = ''tag'' then 4 else if t = ''smithing_trim'' then 5 else if t = ''with_remainder'' then 6 else 7)"

fun display_ok :: "SlotDisplay \<Rightarrow> bool" where
  "display_ok (SlotDisplay i itemType stack tag children custom) \<longleftrightarrow>
     m_namespace i = ''minecraft'' \<and> stack = new_Slot \<and> custom = []
     \<and> display_shape (m_object i) itemType tag (length children) \<and> (\<forall>d \<in> set children. display_ok d)"

fun display_bytes :: "SlotDisplay \<Rightarrow> byte list" where
  "display_bytes (SlotDisplay i itemType stack tag children custom) =
     var_bytes (display_number (m_object i))
     @ (if m_object i = ''item'' then var_bytes (the itemType)
        else if m_object i = ''tag'' then identifier_bytes tag
        else (if m_object i = ''composite'' then size_bytes (length children) else [])
             @ concat (map display_bytes children))"

fun display_depth :: "SlotDisplay \<Rightarrow> nat" where
  "display_depth (SlotDisplay i itemType stack tag children custom) = Suc (Max (insert 0 (display_depth ` set children)))"

definition display_types :: "string list" where
  "display_types = map mc [''empty'', ''any_fuel'', ''item'', ''item_stack'', ''tag'', ''smithing_trim'',
     ''with_remainder'', ''composite'']"

lemmas slot_registry = g_slotDisplayRegistry_def Registry_new_def slot_display_writers_def slot_display_readers_def

lemma slot_registry_inject:
  "m_registryData (g_slotDisplayRegistry tb rd) k = Some v \<Longrightarrow> m_registryData (g_slotDisplayRegistry tb rd) l = Some v
     \<Longrightarrow> k = l"
  by (simp add: slot_registry split: if_splits)

lemma slot_registry_number:
  "display_shape t it tag n \<Longrightarrow> m_registryData (g_slotDisplayRegistry tb rd) (mc t) = Some (display_number t) \<and> mc t \<in> set display_types"
  by (auto simp: slot_registry display_shape_def display_number_def display_types_def)

lemma slot_registry_writer:
  "m_writers (g_slotDisplayRegistry tb rd) = map_of (map (map_prod id Some) (slot_display_writers tb))"
  "m_readers (g_slotDisplayRegistry tb rd) = map_of (map (map_prod id Some) (slot_display_readers rd))"
  by (simp_all add: g_slotDisplayRegistry_def Registry_new_def)

definition display_payload :: "string \<Rightarrow> i32 option \<Rightarrow> Identifier \<Rightarrow> SlotDisplay list \<Rightarrow> byte list" where
  "display_payload t itemType tag children =
     (if t = ''item'' then var_bytes (the itemType)
      else if t = ''tag'' then identifier_bytes tag
      else (if t = ''composite'' then size_bytes (length children) else []) @ concat (map display_bytes children))"

lemma display_bytes_payload: "display_bytes (SlotDisplay i it st tag ch cd) =
    var_bytes (display_number (m_object i)) @ display_payload (m_object i) it tag ch"
  by (simp add: display_payload_def)

lemma display_shapeE:
  assumes "display_shape t it tag n"
  obtains "t = ''empty'' \<or> t = ''any_fuel''" "it = None" "tag = default_Identifier" "n = 0"
    | i where "t = ''item''" "it = Some i" "tag = default_Identifier" "n = 0"
    | "t = ''tag''" "it = None" "identifier_ok tag" "n = 0"
    | "t = ''smithing_trim''" "it = None" "tag = default_Identifier" "n = 3"
    | "t = ''with_remainder''" "it = None" "tag = default_Identifier" "n = 2"
    | "t = ''composite''" "it = None" "tag = default_Identifier" "n < 2 ^ 31"
proof (rule ccontr)
  assume no: "\<not> thesis"
  note shape = assms [unfolded display_shape_def]
  have it: "(it \<noteq> None) = (t = ''item'')" using shape by (rule conjunct1)
  have tag: "if t = ''tag'' then identifier_ok tag else tag = default_Identifier"
    using shape [THEN conjunct2] by (rule conjunct1)
  from shape [THEN conjunct2, THEN conjunct2] show False
  proof (elim disjE conjE insertE emptyE)
    assume "t = ''empty''" "n = 0"
    with it tag no that(1) show False by simp
  next
    assume "t = ''any_fuel''" "n = 0"
    with it tag no that(1) show False by simp
  next
    assume "t = ''item''" "n = 0"
    with it tag no that(2) show False by auto
  next
    assume "t = ''tag''" "n = 0"
    with it tag no that(3) show False by simp
  next
    assume "t = ''smithing_trim''" "n = 3"
    with it tag no that(4) show False by simp
  next
    assume "t = ''with_remainder''" "n = 2"
    with it tag no that(5) show False by simp
  next
    assume "t = ''composite''" "n < 2 ^ 31"
    with it tag no that(6) show False by simp
  qed
qed

lemma slot_writer_payload:
  assumes children: "\<forall>d \<in> set ch. tb d = Inr (display_bytes d)" and shape: "display_shape t it tag (length ch)"
  shows "\<exists>w. m_writers (g_slotDisplayRegistry tb rd) (mc t) = Some (Some w)
    \<and> w \<lparr>sdd_itemType = it, sdd_itemStack = st, sdd_tag = tag, sdd_children = ch, sdd_customData = cd\<rparr>
        = Inr (display_payload t it tag ch)"
proof -
  have each: "appends True (each (\<lambda>d. write_result (tb d)) ch) (concat (map display_bytes ch))"
    by (intro appends_each appends_write_result) (use children in simp)
  then have array: "appends True (writePrefixedArray (\<lambda>d. write_result (tb d)) ch)
      (size_bytes (length ch) @ concat (map display_bytes ch))"
    unfolding writePrefixedArray_def writeArray_def by (intro appends_thn appends_size)
  have int: "appends True (write_int (Some i)) (var_bytes i)" for i
    by (simp add: write_int_def appends_writeVarNumeric)
  note run = run_writer_appends [OF each] run_writer_appends [OF array] run_writer_appends [OF int]
    run_writer_appends [OF appends_writeIdentifier]
  from shape show ?thesis
    by (cases rule: display_shapeE)
      (auto simp add: slot_registry_writer slot_display_writers_def display_payload_def children_writer_def run)
qed

lemma slot_reader_payload:
  assumes children: "\<forall>d \<in> set ch. reads be rd (display_bytes d) d" and shape: "display_shape t it tag (length ch)"
  shows "\<exists>r. m_readers (g_slotDisplayRegistry tb rd) (mc t) = Some (Some r)
    \<and> reads be r (display_payload t it tag ch)
        \<lparr>sdd_itemType = it, sdd_itemStack = new_Slot, sdd_tag = tag, sdd_children = ch, sdd_customData = []\<rparr>"
proof -
  have each: "reads be (readArray rd (length ch)) (concat (map display_bytes ch)) ch"
    using reads_collect [of ch be rd display_bytes "\<lambda>x. x"] children by (simp add: readArray_def)
  have array: "reads be (readPrefixedArray rd) (size_bytes (length ch) @ concat (map display_bytes ch)) ch"
    if "length ch < 2 ^ 31"
    unfolding readPrefixedArray_def using that by (intro reads_size each)
  have nested: "reads be (read_children r) xs
      \<lparr>sdd_itemType = None, sdd_itemStack = new_Slot, sdd_tag = default_Identifier, sdd_children = ch, sdd_customData = []\<rparr>"
    if "reads be r xs ch" for r xs
    unfolding read_children_def by (rule reads_bnd_ret [OF that]) (simp add: new_SlotDisplayData_def)
  have plain: "reads be (ret new_SlotDisplayData) []
      \<lparr>sdd_itemType = None, sdd_itemStack = new_Slot, sdd_tag = default_Identifier, sdd_children = [], sdd_customData = []\<rparr>"
    by (rule reads_cong [OF reads_ret]) (simp_all add: new_SlotDisplayData_def)
  have item: "reads be (bnd readVarInt (\<lambda>i. ret (new_SlotDisplayData\<lparr>sdd_itemType := Some i\<rparr>))) (var_bytes i)
      \<lparr>sdd_itemType = Some i, sdd_itemStack = new_Slot, sdd_tag = default_Identifier, sdd_children = [], sdd_customData = []\<rparr>" for i
    by (rule reads_bnd_ret [OF reads_readVarNumeric]) (simp add: new_SlotDisplayData_def)
  have tag: "reads be (bnd readIdentifier (\<lambda>i. ret (new_SlotDisplayData\<lparr>sdd_tag := i\<rparr>))) (identifier_bytes tag)
      \<lparr>sdd_itemType = None, sdd_itemStack = new_Slot, sdd_tag = tag, sdd_children = [], sdd_customData = []\<rparr>"
    if "identifier_ok tag"
    by (rule reads_bnd_ret [OF reads_readIdentifier [OF that]]) (simp add: new_SlotDisplayData_def)
  from shape show ?thesis
  proof (cases rule: display_shapeE)
    case 1
    then show ?thesis using plain by (auto simp: slot_registry_writer slot_display_readers_def display_payload_def)
  next
    case (2 i)
    then show ?thesis using item by (simp add: slot_registry_writer slot_display_readers_def display_payload_def)
  next
    case 3
    then show ?thesis using tag by (simp add: slot_registry_writer slot_display_readers_def display_payload_def)
  next
    case 4
    then show ?thesis using nested [OF each] by (simp add: slot_registry_writer slot_display_readers_def display_payload_def)
  next
    case 5
    then show ?thesis using nested [OF each] by (simp add: slot_registry_writer slot_display_readers_def display_payload_def)
  next
    case 6
    then show ?thesis using nested [OF array] by (simp add: slot_registry_writer slot_display_readers_def display_payload_def)
  qed
qed

lemma display_depth_child: "d \<in> set (sd_children e) \<Longrightarrow> display_depth d < display_depth e"
  by (cases e) (simp add: less_Suc_eq_le)

lemma display_key: "display_ok (SlotDisplay i it st tag ch cd) \<Longrightarrow> i = mk_Identifier ''minecraft'' (m_object i)"
  by (cases i) (simp add: mk_Identifier_def)

lemma slotDisplay_toBytes_ok: "display_ok d \<Longrightarrow> display_depth d \<le> n \<Longrightarrow> slotDisplay_toBytes n d = Inr (display_bytes d)"
proof (induction n arbitrary: d)
  case 0
  then show ?case by (cases d) simp
next
  case (Suc n)
  obtain i it st tag ch cd where d: "d = SlotDisplay i it st tag ch cd" by (cases d)
  have "\<forall>c \<in> set ch. slotDisplay_toBytes n c = Inr (display_bytes c)"
    using Suc.IH Suc.prems display_depth_child [of _ d] d by fastforce
  moreover have shape: "display_shape (m_object i) it tag (length ch)" using Suc.prems(1) d by simp
  ultimately obtain w where w: "m_writers (g_slotDisplayRegistry (slotDisplay_toBytes n) (fail StackExhausted)) (mc (m_object i)) = Some (Some w)"
    "w (slot_display_data d) = Inr (display_payload (m_object i) it tag ch)"
    using slot_writer_payload [of ch "slotDisplay_toBytes n"] d unfolding slot_display_data_def by fastforce
  have key: "Identifier_toString i = mc (m_object i)"
    using display_key Suc.prems(1) d by (metis Identifier_toString_mk)
  show ?case unfolding slotDisplay_toBytes.simps d SlotDisplay.sel key display_bytes_payload
    using registry_encode_bytes [OF _ w] slot_registry_number [OF shape] d by simp
qed

lemma reads_readSlotDisplay:
  "display_ok d \<Longrightarrow> display_depth d \<le> n \<Longrightarrow> set display_types \<subseteq> set order
     \<Longrightarrow> reads be (readSlotDisplay order n) (display_bytes d) d"
proof (induction n arbitrary: d)
  case 0
  then show ?case by (cases d) simp
next
  case (Suc n)
  obtain i it st tag ch cd where d: "d = SlotDisplay i it st tag ch cd" by (cases d)
  let ?R = "g_slotDisplayRegistry (\<lambda>_. Inl StackExhausted) (readSlotDisplay order n)"
  let ?x = "\<lparr>sdd_itemType = it, sdd_itemStack = new_Slot, sdd_tag = tag, sdd_children = ch, sdd_customData = []\<rparr>"
  have "\<forall>c \<in> set ch. reads be (readSlotDisplay order n) (display_bytes c) c"
    using Suc.IH Suc.prems display_depth_child [of _ d] d by fastforce
  moreover have shape: "display_shape (m_object i) it tag (length ch)" using Suc.prems(1) d by simp
  ultimately obtain r where r: "m_readers ?R (mc (m_object i)) = Some (Some r)"
    "reads be r (display_payload (m_object i) it tag ch) ?x"
    using slot_reader_payload [of ch be "readSlotDisplay order n"] by blast
  have key: "Identifier_toString i = mc (m_object i)"
    using display_key Suc.prems(1) d by (metis Identifier_toString_mk)
  have number: "m_registryData ?R (mc (m_object i)) = Some (display_number (m_object i))" "mc (m_object i) \<in> set order"
    using slot_registry_number [OF shape] Suc.prems(3) by auto
  have "reads be (registry_decode order ?R) (display_bytes d) (i, ?x)"
    unfolding d display_bytes_payload
    by (rule reads_registry_decode [where r = r])
      (use number r key Suc.prems(1) d in \<open>auto intro: slot_registry_inject\<close>)
  then have "reads be (readSlotDisplay order (Suc n)) (display_bytes d @ []) d" unfolding readSlotDisplay.simps
    by (rule reads_bnd) (use Suc.prems(1) d in \<open>simp add: reads_ret\<close>)
  then show ?case by simp
qed

section \<open>The recipes that survive the wire\<close>

text \<open>
  \<open>recipe_wire n r bytes\<close>: the five forms of a recipe, with displays of depth at most \<open>n\<close>, the members
  their type does not use as in a fresh object, and the bytes the form has on the wire.
\<close>

abbreviation part :: "nat \<Rightarrow> SlotDisplay \<Rightarrow> bool" where
  "part n d \<equiv> display_ok d \<and> display_depth d \<le> n"

definition mk_recipe :: "string \<Rightarrow> (RecipeDisplayData \<Rightarrow> RecipeDisplayData) \<Rightarrow> RecipeDisplay" where
  "mk_recipe t f = \<lparr>rd_type = mk_Identifier ''minecraft'' t, rd_data = f new_RecipeDisplayData\<rparr>"

inductive recipe_wire :: "nat \<Rightarrow> RecipeDisplay \<Rightarrow> byte list \<Rightarrow> bool" for n where
  wire_shapeless: "list_all (part n) ds \<Longrightarrow> length ds < 2 ^ 31 \<Longrightarrow> part n result \<Longrightarrow> part n station \<Longrightarrow>
     recipe_wire n (mk_recipe ''crafting_shapeless'' (\<lambda>r. r\<lparr>rdd_ingredients := ds, rdd_result := result,
         rdd_craftingStation := station\<rparr>))
       (var_bytes (0 :: i32) @ (size_bytes (length ds) @ concat (map display_bytes ds)) @ display_bytes result @ display_bytes station)"
| wire_shaped: "list_all (part n) ds \<Longrightarrow> length ds < 2 ^ 31 \<Longrightarrow> part n result \<Longrightarrow> part n station \<Longrightarrow>
     recipe_wire n (mk_recipe ''crafting_shaped'' (\<lambda>r. r\<lparr>rdd_width := Some width, rdd_height := Some height,
         rdd_ingredients := ds, rdd_result := result, rdd_craftingStation := station\<rparr>))
       (var_bytes (1 :: i32) @ var_bytes width @ var_bytes height
         @ (size_bytes (length ds) @ concat (map display_bytes ds)) @ display_bytes result @ display_bytes station)"
| wire_furnace: "part n d \<Longrightarrow> part n fuel \<Longrightarrow> part n result \<Longrightarrow> part n station \<Longrightarrow>
     recipe_wire n (mk_recipe ''furnace'' (\<lambda>r. r\<lparr>rdd_ingredients := [d], rdd_fuel := fuel, rdd_result := result,
         rdd_craftingStation := station, rdd_cookingTime := Some time, rdd_experience := Some experience\<rparr>))
       (var_bytes (2 :: i32) @ display_bytes d @ display_bytes fuel @ display_bytes result @ display_bytes station
         @ var_bytes time @ numeric_bytes True experience)"
| wire_stonecutter: "part n d \<Longrightarrow> part n result \<Longrightarrow> part n station \<Longrightarrow>
     recipe_wire n (mk_recipe ''stonecutter'' (\<lambda>r. r\<lparr>rdd_ingredients := [d], rdd_result := result,
         rdd_craftingStation := station\<rparr>))
       (var_bytes (3 :: i32) @ display_bytes d @ display_bytes result @ display_bytes station)"
| wire_smithing: "part n d \<Longrightarrow> part n e \<Longrightarrow> part n f \<Longrightarrow> part n result \<Longrightarrow> part n station \<Longrightarrow>
     recipe_wire n (mk_recipe ''smithing'' (\<lambda>r. r\<lparr>rdd_ingredients := [d, e, f], rdd_result := result,
         rdd_craftingStation := station\<rparr>))
       (var_bytes (4 :: i32) @ display_bytes d @ display_bytes e @ display_bytes f @ display_bytes result @ display_bytes station)"

lemma codec_displays:
  "set display_types \<subseteq> set order \<Longrightarrow> codec (writeSlotDisplay n) (readSlotDisplay order n) be display_bytes (part n)"
  by unfold_locales (auto simp: writeSlotDisplay_def intro: appends_write_result slotDisplay_toBytes_ok reads_readSlotDisplay)

definition recipe_types :: "string list" where
  "recipe_types = map mc [''crafting_shapeless'', ''crafting_shaped'', ''furnace'', ''stonecutter'', ''smithing'']"

lemmas recipe_registry = g_recipeDisplayRegistry_def Registry_new_def

lemma recipe_registry_inject:
  "m_registryData (g_recipeDisplayRegistry wr rd) k = Some v \<Longrightarrow> m_registryData (g_recipeDisplayRegistry wr rd) l = Some v
     \<Longrightarrow> k = l"
  by (simp add: recipe_registry split: if_splits)

lemma recipe_registry_maps:
  "m_writers (g_recipeDisplayRegistry wr rd) = map_of (map (map_prod id Some) (recipe_display_writers wr))"
  "m_readers (g_recipeDisplayRegistry wr rd) = map_of (map (map_prod id Some) (recipe_display_readers rd))"
  by (simp_all add: recipe_registry)

lemma map_of_map_prod: "map_of (map (map_prod id f) xs) k = map_option f (map_of xs k)"
  by (induction xs) auto

text \<open>The two halves of a form: what its writer sends and what its reader makes of it.\<close>

lemma recipe_form:
  assumes "m_registryData (g_recipeDisplayRegistry (writeSlotDisplay n) (fail StackExhausted)) (mc t) = Some v"
    and "map_of (recipe_display_writers (writeSlotDisplay n)) (mc t) = Some (\<lambda>data. run_writer (w data))"
    and "map_of (recipe_display_readers (readSlotDisplay slot_order n)) (mc t) = Some r"
    and "mc t \<in> set order"
    and "appends True (w (f new_RecipeDisplayData)) xs"
    and "reads be r xs (f new_RecipeDisplayData)"
  shows "recipeDisplay_toBytes n (mk_recipe t f) = Inr (var_bytes v @ xs)
    \<and> reads be (readRecipeDisplay order slot_order n) (var_bytes v @ xs) (mk_recipe t f)"
proof
  have "m_writers (g_recipeDisplayRegistry (writeSlotDisplay n) (fail StackExhausted)) (mc t) = Some (Some (\<lambda>data. run_writer (w data)))"
    using assms(2) by (simp add: recipe_registry_maps map_of_map_prod)
  from registry_encode_bytes [OF assms(1) this, of "f new_RecipeDisplayData" xs] run_writer_appends [OF assms(5)]
  show "recipeDisplay_toBytes n (mk_recipe t f) = Inr (var_bytes v @ xs)"
    by (simp add: recipeDisplay_toBytes_def mk_recipe_def)
  let ?R = "g_recipeDisplayRegistry (\<lambda>_. fail StackExhausted) (readSlotDisplay slot_order n)"
  have "m_registryData ?R (mc t) = Some v" using assms(1) by (simp add: recipe_registry)
  moreover have "m_readers ?R (mc t) = Some (Some r)"
    using assms(3) by (simp add: recipe_registry_maps map_of_map_prod)
  ultimately have "reads be (registry_decode order ?R) (var_bytes v @ xs) (mk_Identifier ''minecraft'' t, f new_RecipeDisplayData)"
    by (intro reads_registry_decode [where r = r]) (use assms(4,6) in \<open>auto intro: recipe_registry_inject\<close>)
  then have "reads be (readRecipeDisplay order slot_order n) ((var_bytes v @ xs) @ []) (mk_recipe t f)"
    unfolding readRecipeDisplay_def by (rule reads_bnd) (simp add: mk_recipe_def reads_ret)
  then show "reads be (readRecipeDisplay order slot_order n) (var_bytes v @ xs) (mk_recipe t f)" by simp
qed

lemma write_some_appends [appends_intros]:
  "appends be (write_int (Some i)) (var_bytes i)" "appends be (write_float (Some f)) (numeric_bytes be f)"
  by (simp_all add: write_int_def write_float_def appends_writeVarNumeric appends_writeNumeric)

lemma appends_display [appends_intros]: "part n d \<Longrightarrow> appends be (writeSlotDisplay n d) (display_bytes d)"
  by (simp add: writeSlotDisplay_def appends_write_result slotDisplay_toBytes_ok)

lemma recipe_wire_codec:
  assumes "recipe_wire n r bs" and "set recipe_types \<subseteq> set order" and "set display_types \<subseteq> set slot_order"
  shows "recipeDisplay_toBytes n r = Inr bs \<and> reads True (readRecipeDisplay order slot_order n) bs r"
proof -
  note c = codec_displays [OF assms(3)]
  note rd = codec.reads_back [OF c]
  note arrays = codec.appends_writePrefixedArray [OF c]
  have types: "mc t \<in> set order" if "mc t \<in> set recipe_types" for t using that assms(2) by blast
  note lookups = recipe_registry recipe_display_writers_def recipe_display_readers_def
  from assms(1) show ?thesis
  proof cases
    case (wire_shapeless ds result station)
    show ?thesis unfolding wire_shapeless(1,2)
      apply (rule recipe_form, simp add: lookups, simp add: lookups, simp add: lookups, rule types, simp add: recipe_types_def)
      apply (simp add: new_RecipeDisplayData_def del: append_assoc)
      apply (intro appends_intros arrays wire_shapeless)
      apply (rule reads_bnd rd reads_bnd_ret codec.reads_readPrefixedArray [OF c] wire_shapeless HOL.refl)+
      done
  next
    case (wire_shaped ds result station height width)
    show ?thesis unfolding wire_shaped(1,2)
      apply (rule recipe_form, simp add: lookups, simp add: lookups, simp add: lookups, rule types, simp add: recipe_types_def)
      apply (simp add: new_RecipeDisplayData_def del: append_assoc)
      apply (intro appends_intros arrays wire_shaped)
      apply (rule reads_bnd rd reads_bnd_ret reads_readVarNumeric codec.reads_readPrefixedArray [OF c] wire_shaped HOL.refl)+
      done
  next
    case (wire_furnace d fuel result station experience time)
    show ?thesis unfolding wire_furnace(1,2)
      apply (rule recipe_form, simp add: lookups, simp add: lookups, simp add: lookups, rule types, simp add: recipe_types_def)
      apply (simp add: new_RecipeDisplayData_def ingredients_or_empty_def thn_assoc del: append_assoc)
      apply (intro appends_intros arrays wire_furnace)
      apply (rule reads_bnd rd reads_bnd_ret reads_readVarNumeric reads_readNumeric_32 wire_furnace HOL.refl)+
      done
  next
    case (wire_stonecutter d result station)
    show ?thesis unfolding wire_stonecutter(1,2)
      apply (rule recipe_form, simp add: lookups, simp add: lookups, simp add: lookups, rule types, simp add: recipe_types_def)
      apply (simp add: new_RecipeDisplayData_def ingredients_or_empty_def thn_assoc del: append_assoc)
      apply (intro appends_intros arrays wire_stonecutter)
      apply (rule reads_bnd rd reads_bnd_ret wire_stonecutter HOL.refl)+
      done
  next
    case (wire_smithing d e f result station)
    show ?thesis unfolding wire_smithing(1,2)
      apply (rule recipe_form, simp add: lookups, simp add: lookups, simp add: lookups, rule types, simp add: recipe_types_def)
      apply (simp add: new_RecipeDisplayData_def ingredients_or_empty_def thn_assoc del: append_assoc)
      apply (intro appends_intros arrays wire_smithing)
      apply (rule reads_bnd rd reads_bnd_ret wire_smithing HOL.refl)+
      done
  qed
qed

section \<open>The bytes of an item\<close>

definition slot_bytes :: "Slot \<Rightarrow> byte list" where
  "slot_bytes s = var_bytes (m_itemCount s)
     @ (if 0 <s m_itemCount s then var_bytes (m_itemId s) @ size_bytes (length (m_componentsToAdd s))
          @ size_bytes (length (m_componentsToRemove s)) @ concat (map cw_dataAndType (m_componentsToAdd s))
          @ concat (map var_bytes (m_componentsToRemove s))
        else [])"

lemma appends_component: "appends be (writeByteArray xs) xs"
  by (simp add: writeByteArray_def appends_writeBytes)

lemma slot_toBytes_eq: "slot_toBytes s = Inr (slot_bytes s)"
  unfolding slot_toBytes_def slot_bytes_def
proof (rule run_writer_appends)
  show "appends True (slot_writer s) (var_bytes (m_itemCount s)
     @ (if 0 <s m_itemCount s then var_bytes (m_itemId s) @ size_bytes (length (m_componentsToAdd s))
          @ size_bytes (length (m_componentsToRemove s)) @ concat (map cw_dataAndType (m_componentsToAdd s))
          @ concat (map var_bytes (m_componentsToRemove s))
        else []))"
    unfolding slot_writer_def
    by (intro appends_thn appends_writeVarNumeric) (auto intro!: appends_intros appends_component)
qed

lemma hash_bytes: "slot_toBytesHashed g s = Inr (byte_of_bool (0 <s m_itemCount s) #
    (if 0 <s m_itemCount s then var_bytes (m_itemId s) @ var_bytes (m_itemCount s)
       @ size_bytes (length (m_componentsToAdd s))
       @ concat (map (\<lambda>c. var_bytes (cw_type c) @ numeric_bytes True (crc32 g (cw_dataAndType c))) (m_componentsToAdd s))
       @ size_bytes (length (m_componentsToRemove s)) @ concat (map var_bytes (m_componentsToRemove s))
     else []))"
proof -
  have "appends True (slot_hash_writer g s) ([byte_of_bool (0 <s m_itemCount s)] @
    (if 0 <s m_itemCount s then var_bytes (m_itemId s) @ var_bytes (m_itemCount s)
       @ size_bytes (length (m_componentsToAdd s))
       @ concat (map (\<lambda>c. var_bytes (cw_type c) @ numeric_bytes True (crc32 g (cw_dataAndType c))) (m_componentsToAdd s))
       @ size_bytes (length (m_componentsToRemove s)) @ concat (map var_bytes (m_componentsToRemove s))
     else []))"
    unfolding slot_hash_writer_def by (intro appends_thn appends_writeBool) (auto intro!: appends_intros)
  from run_writer_appends [OF this] show ?thesis by (simp add: slot_toBytesHashed_def)
qed

section \<open>Properties\<close>

text \<open>C19: A display of any depth, built of the registered types except \<open>item_stack\<close>, survives
  \<open>writeSlotDisplay\<close> and \<open>readSlotDisplay\<close>, whatever the order of iteration of the registry.\<close>

theorem slot_display_round_trip:
  assumes "display_ok d" and "display_depth d \<le> n" and "set display_types \<subseteq> set order"
  shows "\<exists>b. bnd (writeSlotDisplay n d) (\<lambda>_. readSlotDisplay order n) (new_bb be) = Inr (d, b) \<and> bb_unread b = []"
  by (rule codec.round_trip [OF codec_displays [OF assms(3)]]) (use assms(1,2) in simp)

theorem slot_display_round_trip_witness:
  "\<exists>b. bnd (writeSlotDisplay 2 (SlotDisplay (mk_Identifier ''minecraft'' ''composite'') None new_Slot default_Identifier
        [SlotDisplay (mk_Identifier ''minecraft'' ''item'') (Some 5) new_Slot default_Identifier [] [], new_SlotDisplay] []))
      (\<lambda>_. readSlotDisplay (rev display_types) 2) (new_bb True)
    = Inr (SlotDisplay (mk_Identifier ''minecraft'' ''composite'') None new_Slot default_Identifier
        [SlotDisplay (mk_Identifier ''minecraft'' ''item'') (Some 5) new_Slot default_Identifier [] [], new_SlotDisplay] [], b)
    \<and> bb_unread b = []"
  by (rule slot_display_round_trip) (simp_all add: new_SlotDisplay_def display_shape_def)

text \<open>A display of an item stack does not: the registered reader of \<open>item_stack\<close> reads nothing, the item is
  lost and its bytes are taken for what follows.\<close>

theorem item_stack_display_is_not_read:
  assumes "set display_types \<subseteq> set order"
  shows "\<exists>b. bnd (writeSlotDisplay (Suc n) (SlotDisplay (mk_Identifier ''minecraft'' ''item_stack'') itemType stack tag children custom))
      (\<lambda>_. readSlotDisplay order (Suc m)) (new_bb be)
    = Inr (SlotDisplay (mk_Identifier ''minecraft'' ''item_stack'') None new_Slot default_Identifier [] [], b)
    \<and> bb_unread b = slot_bytes stack"
proof -
  let ?i = "mk_Identifier ''minecraft'' ''item_stack''"
  let ?d = "SlotDisplay ?i itemType stack tag children custom"
  let ?R = "g_slotDisplayRegistry (slotDisplay_toBytes n) (fail StackExhausted)"
  have "run_writer (writeSlot stack) = Inr (slot_bytes stack)"
    unfolding writeSlot_def by (rule run_writer_appends [OF appends_write_result [OF slot_toBytes_eq]])
  then have "slotDisplay_toBytes (Suc n) ?d = Inr (var_bytes (3 :: i32) @ slot_bytes stack)"
    using registry_encode_bytes [of ?R "mc ''item_stack''" 3 "\<lambda>data. run_writer (writeSlot (sdd_itemStack data))" "slot_display_data ?d"]
    by (simp add: slot_registry slot_display_data_def)
  then have w: "appends be (writeSlotDisplay (Suc n) ?d) (var_bytes (3 :: i32) @ slot_bytes stack)"
    unfolding writeSlotDisplay_def by (rule appends_write_result)
  let ?S = "g_slotDisplayRegistry (\<lambda>_. Inl StackExhausted) (readSlotDisplay order m)"
  have "reads be (registry_decode order ?S) (var_bytes (3 :: i32) @ []) (?i, new_SlotDisplayData)"
  proof (rule reads_registry_decode [where r = "ret new_SlotDisplayData"])
    show "Identifier_toString ?i \<in> set order"
      using assms by (auto simp: display_types_def)
    show "m_readers ?S (Identifier_toString ?i) = Some (Some (ret new_SlotDisplayData))" by (simp add: slot_registry)
    show num: "m_registryData ?S (Identifier_toString ?i) = Some 3" by (simp add: slot_registry)
    show "k = Identifier_toString ?i" if "m_registryData ?S k = Some 3" for k
      using slot_registry_inject that num by blast
  qed (simp_all add: reads_ret)
  then have "reads be (readSlotDisplay order (Suc m)) ((var_bytes (3 :: i32) @ []) @ [])
      (SlotDisplay ?i None new_Slot default_Identifier [] [])"
    unfolding readSlotDisplay.simps by (rule reads_bnd) (simp add: reads_ret new_SlotDisplayData_def)
  from write_then_read [OF w] this show ?thesis by simp
qed

theorem item_stack_display_is_not_read_witness:
  "\<exists>b. bnd (writeSlotDisplay 1 (SlotDisplay (mk_Identifier ''minecraft'' ''item_stack'') None new_Slot default_Identifier [] []))
      (\<lambda>_. readSlotDisplay display_types 1) (new_bb True)
    = Inr (SlotDisplay (mk_Identifier ''minecraft'' ''item_stack'') None new_Slot default_Identifier [] [], b)
    \<and> bb_unread b = slot_bytes new_Slot"
  using item_stack_display_is_not_read [of display_types 0 None new_Slot default_Identifier "[]" "[]" 0 True] by simp

text \<open>The five kinds of recipe, with their displays, have the wire form that \<open>recipe_wire\<close> lists, and what
  \<open>writeRecipeDisplay\<close> sends \<open>readRecipeDisplay\<close> reads back.\<close>

theorem recipe_display_round_trip:
  assumes "recipe_wire n r bs" and "set recipe_types \<subseteq> set order" and "set display_types \<subseteq> set slot_order"
  shows "recipeDisplay_toBytes n r = Inr bs
    \<and> (\<exists>b. bnd (writeRecipeDisplay n r) (\<lambda>_. readRecipeDisplay order slot_order n) (new_bb True) = Inr (r, b) \<and> bb_unread b = [])"
proof (intro conjI)
  note codec = recipe_wire_codec [OF assms]
  then show "recipeDisplay_toBytes n r = Inr bs" by (rule conjunct1)
  then have "appends True (writeRecipeDisplay n r) bs" unfolding writeRecipeDisplay_def by (rule appends_write_result)
  with codec show "\<exists>b. bnd (writeRecipeDisplay n r) (\<lambda>_. readRecipeDisplay order slot_order n) (new_bb True) = Inr (r, b)
      \<and> bb_unread b = []" using write_read [of True "writeRecipeDisplay n r" bs "readRecipeDisplay order slot_order n" r] by auto
qed

theorem recipe_display_round_trip_witness:
  "recipeDisplay_toBytes 1 (mk_recipe ''furnace'' (\<lambda>r. r\<lparr>rdd_ingredients := [new_SlotDisplay], rdd_fuel := new_SlotDisplay,
      rdd_result := new_SlotDisplay, rdd_craftingStation := new_SlotDisplay, rdd_cookingTime := Some 200, rdd_experience := Some 0\<rparr>))
    = Inr (var_bytes (2 :: i32) @ display_bytes new_SlotDisplay @ display_bytes new_SlotDisplay @ display_bytes new_SlotDisplay
        @ display_bytes new_SlotDisplay @ var_bytes (200 :: i32) @ numeric_bytes True (0 :: i32))"
proof -
  have "part 1 new_SlotDisplay" by (simp add: new_SlotDisplay_def display_shape_def)
  then have "recipe_wire 1 (mk_recipe ''furnace'' (\<lambda>r. r\<lparr>rdd_ingredients := [new_SlotDisplay], rdd_fuel := new_SlotDisplay,
      rdd_result := new_SlotDisplay, rdd_craftingStation := new_SlotDisplay, rdd_cookingTime := Some 200, rdd_experience := Some 0\<rparr>))
    (var_bytes (2 :: i32) @ display_bytes new_SlotDisplay @ display_bytes new_SlotDisplay @ display_bytes new_SlotDisplay
        @ display_bytes new_SlotDisplay @ var_bytes (200 :: i32) @ numeric_bytes True (0 :: i32))"
    by (intro wire_furnace)
  from recipe_display_round_trip [OF this order_refl order_refl] show ?thesis by (rule conjunct1)
qed

text \<open>Once the table is initialised, the hashed form of an item carries for each added component its
  type and the bitwise CRC-32 of its data, and an empty item (a count of zero or less) is a single zero.\<close>

theorem hashed_slot_uses_crc:
  "slot_toBytesHashed ((initCRC32 ^^ Suc k) crc32_globals) s = Inr
    (if 0 <s m_itemCount s
     then 1 # var_bytes (m_itemId s) @ var_bytes (m_itemCount s) @ size_bytes (length (m_componentsToAdd s))
       @ concat (map (\<lambda>c. var_bytes (cw_type c) @ numeric_bytes True (crc_bitwise (cw_dataAndType c))) (m_componentsToAdd s))
       @ size_bytes (length (m_componentsToRemove s)) @ concat (map var_bytes (m_componentsToRemove s))
     else [0])"
  by (simp add: hash_bytes crc32_initialised byte_of_bool_def del: funpow.simps)

end
