(* ===== verification/Registry_Data.thy ===== *)
theory Registry_Data
  imports Registry Text_Component "HOL-Library.AList" "HOL-Library.Multiset"
begin

text \<open>
  The contents of \<open>g_registries\<close> and the functions that build them (\<open>src/registry/DefaultRegistries.cpp\<close>), argument by
  argument. A floating-point literal is its IEEE bit pattern (the table below). In \<open>(c ? x, y : z)\<close> the comma is the
  comma operator: \<open>x\<close> is evaluated and dropped. An initializer list for an \<open>unordered_map\<close> keeps the first of
  two entries with the same key.
\<close>

text \<open>
  The literals: -1.0f is \<open>0xBF800000\<close>, -0.15f is \<open>0xBE19999A\<close>, 0.0f is \<open>0x00000000\<close>, 0.00625f is
  \<open>0x3BCCCCCD\<close>, 0.01428f is \<open>0x3C69F6A9\<close>, 0.025f is \<open>0x3CCCCCCD\<close>, 0.1f is \<open>0x3DCCCCCD\<close>, 0.118093334f
  is \<open>0x3DF1DAEB\<close>, 0.15f is \<open>0x3E19999A\<close>, 0.2f is \<open>0x3E4CCCCD\<close>, 0.3f is \<open>0x3E99999A\<close>, 0.33333334f is
  \<open>0x3EAAAAAB\<close>, 0.4f is \<open>0x3ECCCCCD\<close>, 0.5f is \<open>0x3F000000\<close>, 0.6f is \<open>0x3F19999A\<close>, 0.7f is
  \<open>0x3F333333\<close>, 0.8f is \<open>0x3F4CCCCD\<close>, 0.9f is \<open>0x3F666666\<close>, 0.95f is \<open>0x3F733333\<close>, 1.0f is
  \<open>0x3F800000\<close>, 2.0f is \<open>0x40000000\<close>, 3.0f is \<open>0x40400000\<close>, 4.0f is \<open>0x40800000\<close>, 7.0f is
  \<open>0x40E00000\<close>, 71.0f is \<open>0x428E0000\<close>, 73.0f is \<open>0x42920000\<close>, 96.0f is \<open>0x42C00000\<close>, 149.0f is
  \<open>0x43150000\<close>, 150.0f is \<open>0x43160000\<close>, 174.0f is \<open>0x432E0000\<close>, 176.0f is \<open>0x43300000\<close>, 178.0f is
  \<open>0x43320000\<close>, 185.0f is \<open>0x43390000\<close>, 188.0f is \<open>0x433C0000\<close>, 195.0f is \<open>0x43430000\<close>, 197.0f is
  \<open>0x43450000\<close>, 218.0f is \<open>0x435A0000\<close>, 238.0f is \<open>0x436E0000\<close>, 251.0f is \<open>0x437B0000\<close>, 256.0f is
  \<open>0x43800000\<close>, 299.0f is \<open>0x43958000\<close>, 345.0f is \<open>0x43AC8000\<close>, 0.0111 (double) is
  \<open>0x3F86BB98C7E28241\<close>, 1.0 (double) is \<open>0x3FF0000000000000\<close>, 2.0 (double) is \<open>0x4000000000000000\<close>, 8.0 (double)
  is \<open>0x4020000000000000\<close>.
\<close>

section \<open>Builders with a tag\<close>

definition long_tag :: "string \<Rightarrow> i64 \<Rightarrow> NBTElement" where
  "long_tag tag v = with_tag tag (mk_Long v default_NBTSettings)"

definition float_tag :: "string \<Rightarrow> i32 \<Rightarrow> NBTElement" where
  "float_tag tag v = with_tag tag (mk_Float v default_NBTSettings)"

definition double_tag :: "string \<Rightarrow> i64 \<Rightarrow> NBTElement" where
  "double_tag tag v = with_tag tag (mk_Double v default_NBTSettings)"

abbreviation byte_elem :: "byte \<Rightarrow> NBTElement" where
  "byte_elem v \<equiv> mk_Byte v default_NBTSettings"

abbreviation str_elem :: "string \<Rightarrow> NBTElement" where
  "str_elem v \<equiv> mk_String v default_NBTSettings"

abbreviation compound_elem :: "NBTElement list \<Rightarrow> NBTElement" where
  "compound_elem es \<equiv> mk_Compound es default_NBTSettings"

definition push_child :: "NBTElement \<Rightarrow> NBTElement \<Rightarrow> NBTElement" where
  "push_child c e = NBTElement (m_fields e) (m_childElements e @ [c])"

definition comma :: "'a \<Rightarrow> 'b \<Rightarrow> 'b" where
  "comma x y = y"

text \<open>\<open>x >= 0\<close> of a float: not a NaN, and not negative or \<open>-0\<close>.\<close>

definition float_nonneg :: "i32 \<Rightarrow> bool" where
  "float_nonneg x \<longleftrightarrow> unat (take_bit 31 x) \<le> 0x7F800000 \<and> (\<not> bit x 31 \<or> take_bit 31 x = 0)"

section \<open>Generators\<close>

definition builtinPainitingData :: "string \<Rightarrow> i32 \<Rightarrow> i32 \<Rightarrow> bool \<Rightarrow> string \<times> NBTElement" where
  "builtinPainitingData ident width height hasAuthor =
     (''minecraft:'' @ ident,
      compound_elem
        [str_tag ''asset_id'' (''minecraft:'' @ ident),
         compound_tag ''title''
           (m_childElements
              (text_encode
                 (build_color ''yellow''
                    (build_translatable
                       (translatable_translate (''painting.minecraft.'' @ ident @ ''.title'')
                          new_Translatable) new_TextComponent)))),
         if hasAuthor then comma
               (compound_tag ''author''
                  (m_childElements
                     (text_encode
                        (build_color ''gray''
                           (build_translatable
                              (translatable_translate (''painting.minecraft.'' @ ident @ ''.author'')
                                 new_Translatable) new_TextComponent))))) (int_tag ''width'' width)
         else int_tag ''width'' width,
         int_tag ''height'' height])"

definition builtinMobVariantData :: "string \<Rightarrow> string \<Rightarrow> string \<times> NBTElement" where
  "builtinMobVariantData ident variant =
     (variant, compound_elem [str_tag ''asset_id'' (''minecraft:entity/'' @ ident @ ''/'' @ variant)])"

definition builtinMobVariantData_climate :: "string \<Rightarrow> i32 \<Rightarrow> string \<times> NBTElement" where
  "builtinMobVariantData_climate ident variant =
     builtinMobVariantData ident
       (if variant <s 0 then ''cold_'' @ ident
        else if 0 <s variant then ''warm_'' @ ident else ''temperate_'' @ ident)"

definition builtinTemperatureMobVariantData :: "string \<Rightarrow> (string \<times> NBTElement) list" where
  "builtinTemperatureMobVariantData ident =
     AList.clearjunk
       [builtinMobVariantData_climate ident (- 1), builtinMobVariantData_climate ident 0,
        builtinMobVariantData_climate ident 1]"

definition builtinTrimMaterialData :: "string \<Rightarrow> string \<Rightarrow> string \<times> NBTElement" where
  "builtinTrimMaterialData ident color =
     (''minecraft:'' @ ident,
      compound_elem
        [str_tag ''asset_name'' (''minecraft:'' @ ident),
         compound_tag ''description''
           (m_childElements
              (text_encode
                 (build_color (''#'' @ color)
                    (build_translatable
                       (translatable_translate (''trim_material.minecraft.'' @ ident) new_Translatable)
                       new_TextComponent))))])"

definition builtinTrimMaterialData_override :: "string \<Rightarrow> string \<Rightarrow> string \<Rightarrow> string \<times> NBTElement" where
  "builtinTrimMaterialData_override ident color override =
     (''minecraft:'' @ ident,
      compound_elem
        [str_tag ''asset_name'' (''minecraft:'' @ ident),
         compound_tag ''override_armor_assets'' [str_tag (''minecraft:'' @ override) (ident @ ''_darker'')],
         compound_tag ''description''
           (m_childElements
              (text_encode
                 (build_color (''#'' @ color)
                    (build_translatable
                       (translatable_translate (''trim_material.minecraft.'' @ ident) new_Translatable)
                       new_TextComponent))))])"

definition builtinTrimPatternData :: "string \<Rightarrow> string \<times> NBTElement" where
  "builtinTrimPatternData ident =
     (''minecraft:'' @ ident,
      compound_elem
        [str_tag ''asset_id'' (''minecraft:'' @ ident),
         compound_tag ''description''
           (m_childElements
              (text_encode
                 (build_translatable
                    (translatable_translate (''trim_pattern.minecraft.'' @ ident) new_Translatable)
                    new_TextComponent))),
         byte_tag ''decal'' 0])"

definition builtinBannerPatternData :: "string \<Rightarrow> string \<times> NBTElement" where
  "builtinBannerPatternData ident =
     (''minecraft:'' @ ident,
      compound_elem
        [str_tag ''asset_id'' (''minecraft:'' @ ident),
         str_tag ''translation_key'' (''block.minecraft.banner.'' @ ident)])"

definition builtinEndBiomeData :: "string \<Rightarrow> string \<times> NBTElement" where
  "builtinEndBiomeData ident =
     (''minecraft:'' @ ident,
      compound_elem
        [byte_tag ''has_precipitation'' 0, float_tag ''temperature'' 0x3F000000, float_tag ''downfall'' 0x3F000000,
         compound_tag ''effects''
           [compound_tag ''mood_sound''
              [str_tag ''sound'' ''minecraft:ambient.cave'', int_tag ''tick_delay'' 6000,
               int_tag ''block_search_extent'' 8, double_tag ''offset'' 0x4000000000000000],
            int_tag ''sky_color'' 0, int_tag ''fog_color'' 10518688, int_tag ''water_color'' 4159204,
            int_tag ''water_fog_color'' 329011]])"

definition builtinDesertBiomeData :: "string \<Rightarrow> bool \<Rightarrow> string \<times> NBTElement" where
  "builtinDesertBiomeData ident enableMusic =
     (''minecraft:'' @ ident,
      compound_elem
        [byte_tag ''has_precipitation'' 0, float_tag ''temperature'' 0x40000000, float_tag ''downfall'' 0x00000000,
         compound_tag ''effects''
           [compound_tag ''mood_sound''
              [str_tag ''sound'' ''minecraft:ambient.cave'', int_tag ''tick_delay'' 6000,
               int_tag ''block_search_extent'' 8, double_tag ''offset'' 0x4000000000000000],
            if enableMusic then comma
                  (compound_tag ''music''
                     [str_tag ''sound'' ''minecraft:music.overworld.desert'', int_tag ''min_delay'' 12000,
                      int_tag ''max_delay'' 24000, byte_tag ''replace_current_music'' 0])
                  (int_tag ''sky_color'' 7254527)
            else int_tag ''sky_color'' 7254527,
            int_tag ''fog_color'' 12638463, int_tag ''water_color'' 4159204, int_tag ''water_fog_color'' 329011]])"

definition builtinWindsweptBiomeData :: "string \<Rightarrow> string \<times> NBTElement" where
  "builtinWindsweptBiomeData ident =
     (''minecraft:'' @ ident,
      compound_elem
        [byte_tag ''has_precipitation'' 1, float_tag ''temperature'' 0x3E4CCCCD, float_tag ''downfall'' 0x3E99999A,
         compound_tag ''effects''
           [compound_tag ''mood_sound''
              [str_tag ''sound'' ''minecraft:ambient.cave'', int_tag ''tick_delay'' 6000,
               int_tag ''block_search_extent'' 8, double_tag ''offset'' 0x4000000000000000],
            int_tag ''sky_color'' 8233727, int_tag ''fog_color'' 12638463, int_tag ''water_color'' 4159204,
            int_tag ''water_fog_color'' 329011]])"

definition builtinBadlandsBiomeData :: "string \<Rightarrow> string \<times> NBTElement" where
  "builtinBadlandsBiomeData ident =
     (''minecraft:'' @ ident,
      compound_elem
        [byte_tag ''has_precipitation'' 0, float_tag ''temperature'' 0x40000000, float_tag ''downfall'' 0x00000000,
         compound_tag ''effects''
           [compound_tag ''mood_sound''
              [str_tag ''sound'' ''minecraft:ambient.cave'', int_tag ''tick_delay'' 6000,
               int_tag ''block_search_extent'' 8, double_tag ''offset'' 0x4000000000000000],
            compound_tag ''music''
              [str_tag ''sound'' ''minecraft:music.overworld.badlands'', int_tag ''min_delay'' 12000,
               int_tag ''max_delay'' 24000, byte_tag ''replace_current_music'' 0],
            int_tag ''sky_color'' 7254527, int_tag ''foliage_color'' 10387789, int_tag ''grass_color'' 9470285,
            int_tag ''fog_color'' 12638463, int_tag ''water_color'' 4159204, int_tag ''water_fog_color'' 329011]])"

definition builtinOceanBiomeData :: "string \<Rightarrow> i32 \<Rightarrow> i32 \<Rightarrow> bool \<Rightarrow> string \<times> NBTElement" where
  "builtinOceanBiomeData ident waterColor waterFogColor isFrozen =
     (''minecraft:'' @ ident,
      compound_elem
        [byte_tag ''has_precipitation'' 1, float_tag ''temperature'' 0x3F000000,
         if isFrozen then comma (str_tag ''temperature_modifier'' ''frozen'') (float_tag ''downfall'' 0x3F000000)
         else float_tag ''downfall'' 0x3F000000,
         compound_tag ''effects''
           [compound_tag ''mood_sound''
              [str_tag ''sound'' ''minecraft:ambient.cave'', int_tag ''tick_delay'' 6000,
               int_tag ''block_search_extent'' 8, double_tag ''offset'' 0x4000000000000000],
            int_tag ''sky_color'' 8103167, int_tag ''fog_color'' 12638463, int_tag ''water_color'' waterColor,
            int_tag ''water_fog_color'' waterFogColor]])"

definition builtinNetherBiomeData :: "string \<Rightarrow> i32 \<Rightarrow> string \<Rightarrow> string \<times> NBTElement" where
  "builtinNetherBiomeData ident particleProbability particle =
     (''minecraft:'' @ ident,
      compound_elem
        [byte_tag ''has_precipitation'' 0, float_tag ''temperature'' 0x40000000, float_tag ''downfall'' 0x00000000,
         compound_tag ''effects''
           [compound_tag ''mood_sound''
              [str_tag ''sound'' (''minecraft:ambient.'' @ ident @ ''.mood''), int_tag ''tick_delay'' 6000,
               int_tag ''block_search_extent'' 8, double_tag ''offset'' 0x4000000000000000],
            compound_tag ''music''
              [str_tag ''sound'' (''minecraft:music.nether.'' @ ident), int_tag ''min_delay'' 12000,
               int_tag ''max_delay'' 24000, byte_tag ''replace_current_music'' 0],
            compound_tag ''additions_sound''
              [str_tag ''sound'' (''minecraft:ambient.'' @ ident @ ''.additions''),
               double_tag ''tick_chance'' 0x3F86BB98C7E28241],
            if float_nonneg particleProbability then comma
                  (compound_tag ''particle''
                     [compound_tag ''options'' [str_tag ''type'' (''minecraft:'' @ particle)],
                      float_tag ''probability'' particleProbability])
                  (str_tag ''ambient_sound'' (''minecraft:ambient.'' @ ident @ ''.loop''))
            else str_tag ''ambient_sound'' (''minecraft:ambient.'' @ ident @ ''.loop''),
            int_tag ''sky_color'' 7254527, int_tag ''fog_color'' 6840176, int_tag ''water_color'' 4159204,
            int_tag ''water_fog_color'' 329011]])"

definition builtinPlainsBiomeData :: "string \<Rightarrow> string \<times> NBTElement" where
  "builtinPlainsBiomeData ident =
     (''minecraft:'' @ ident,
      compound_elem
        [byte_tag ''has_precipitation'' 1, float_tag ''temperature'' 0x3F4CCCCD, float_tag ''downfall'' 0x3ECCCCCD,
         compound_tag ''effects''
           [compound_tag ''mood_sound''
              [str_tag ''sound'' ''minecraft:ambient.cave'', int_tag ''tick_delay'' 6000,
               int_tag ''block_search_extent'' 8, double_tag ''offset'' 0x4000000000000000],
            int_tag ''sky_color'' 7907327, int_tag ''fog_color'' 12638463, int_tag ''water_color'' 4159204,
            int_tag ''water_fog_color'' 329011]])"

definition builtinCaveBiomeData :: "string \<Rightarrow> string \<times> NBTElement" where
  "builtinCaveBiomeData ident =
     (''minecraft:'' @ ident,
      compound_elem
        [byte_tag ''has_precipitation'' 1, float_tag ''temperature'' 0x3F4CCCCD, float_tag ''downfall'' 0x3ECCCCCD,
         compound_tag ''effects''
           [compound_tag ''mood_sound''
              [str_tag ''sound'' ''minecraft:ambient.cave'', int_tag ''tick_delay'' 6000,
               int_tag ''block_search_extent'' 8, double_tag ''offset'' 0x4000000000000000],
            compound_tag ''music''
              [str_tag ''sound'' (''minecraft:music.overworld.'' @ ident), int_tag ''min_delay'' 12000,
               int_tag ''max_delay'' 24000, byte_tag ''replace_current_music'' 0],
            int_tag ''sky_color'' 7907327, int_tag ''fog_color'' 12638463, int_tag ''water_color'' 4159204,
            int_tag ''water_fog_color'' 329011]])"

definition builtinJungleBiomeData :: "string \<Rightarrow> i32 \<Rightarrow> string \<times> NBTElement" where
  "builtinJungleBiomeData ident downfall =
     (''minecraft:'' @ ident,
      compound_elem
        [byte_tag ''has_precipitation'' 1, float_tag ''temperature'' 0x3F733333, float_tag ''downfall'' downfall,
         compound_tag ''effects''
           [compound_tag ''mood_sound''
              [str_tag ''sound'' ''minecraft:ambient.cave'', int_tag ''tick_delay'' 6000,
               int_tag ''block_search_extent'' 8, double_tag ''offset'' 0x4000000000000000],
            compound_tag ''music''
              [str_tag ''sound'' (''minecraft:music.overworld.'' @ ident), int_tag ''min_delay'' 12000,
               int_tag ''max_delay'' 24000, byte_tag ''replace_current_music'' 0],
            int_tag ''sky_color'' 7842047, int_tag ''fog_color'' 12638463, int_tag ''water_color'' 4159204,
            int_tag ''water_fog_color'' 329011]])"

definition builtinPeaksBiomeData :: "string \<Rightarrow> i32 \<Rightarrow> i32 \<Rightarrow> i32 \<Rightarrow> string \<times> NBTElement" where
  "builtinPeaksBiomeData ident downfall temperature skyColor =
     (''minecraft:'' @ ident,
      compound_elem
        [byte_tag ''has_precipitation'' 1, float_tag ''temperature'' temperature, float_tag ''downfall'' downfall,
         compound_tag ''effects''
           [compound_tag ''mood_sound''
              [str_tag ''sound'' ''minecraft:ambient.cave'', int_tag ''tick_delay'' 6000,
               int_tag ''block_search_extent'' 8, double_tag ''offset'' 0x4000000000000000],
            compound_tag ''music''
              [str_tag ''sound'' (''minecraft:music.overworld.'' @ ident), int_tag ''min_delay'' 12000,
               int_tag ''max_delay'' 24000, byte_tag ''replace_current_music'' 0],
            int_tag ''sky_color'' skyColor, int_tag ''fog_color'' 12638463, int_tag ''water_color'' 4159204,
            int_tag ''water_fog_color'' 329011]])"

definition builtinTaigaBiomeData :: "string \<Rightarrow> string \<Rightarrow> i32 \<Rightarrow> string \<times> NBTElement" where
  "builtinTaigaBiomeData ident music skyColor =
     (''minecraft:'' @ ident,
      compound_elem
        [byte_tag ''has_precipitation'' 1, float_tag ''temperature'' 0x3E99999A, float_tag ''downfall'' 0x3F4CCCCD,
         compound_tag ''effects''
           [compound_tag ''mood_sound''
              [str_tag ''sound'' ''minecraft:ambient.cave'', int_tag ''tick_delay'' 6000,
               int_tag ''block_search_extent'' 8, double_tag ''offset'' 0x4000000000000000],
            compound_tag ''music''
              [str_tag ''sound'' (''minecraft:music.overworld.'' @ music), int_tag ''min_delay'' 12000,
               int_tag ''max_delay'' 24000, byte_tag ''replace_current_music'' 0],
            int_tag ''sky_color'' skyColor, int_tag ''fog_color'' 12638463, int_tag ''water_color'' 4159204,
            int_tag ''water_fog_color'' 329011]])"

definition builtinRiverBiomeData :: "string \<Rightarrow> i32 \<Rightarrow> i32 \<Rightarrow> string \<times> NBTElement" where
  "builtinRiverBiomeData ident temperature waterColor =
     (''minecraft:'' @ ident,
      compound_elem
        [byte_tag ''has_precipitation'' 1, float_tag ''temperature'' temperature,
         float_tag ''downfall'' 0x3F000000,
         compound_tag ''effects''
           [compound_tag ''mood_sound''
              [str_tag ''sound'' ''minecraft:ambient.cave'', int_tag ''tick_delay'' 6000,
               int_tag ''block_search_extent'' 8, double_tag ''offset'' 0x4000000000000000],
            int_tag ''sky_color'' 8364543, int_tag ''fog_color'' 12638463, int_tag ''water_color'' waterColor,
            int_tag ''water_fog_color'' 329011]])"

definition builtinBirchForestBiomeData :: "string \<Rightarrow> string \<times> NBTElement" where
  "builtinBirchForestBiomeData ident =
     (''minecraft:'' @ ident,
      compound_elem
        [byte_tag ''has_precipitation'' 1, float_tag ''temperature'' 0x3F19999A, float_tag ''downfall'' 0x3F19999A,
         compound_tag ''effects''
           [compound_tag ''mood_sound''
              [str_tag ''sound'' ''minecraft:ambient.cave'', int_tag ''tick_delay'' 6000,
               int_tag ''block_search_extent'' 8, double_tag ''offset'' 0x4000000000000000],
            compound_tag ''music''
              [str_tag ''sound'' ''minecraft:music.overworld.forest'', int_tag ''min_delay'' 12000,
               int_tag ''max_delay'' 24000, byte_tag ''replace_current_music'' 0],
            int_tag ''sky_color'' 8037887, int_tag ''fog_color'' 12638463, int_tag ''water_color'' 4159204,
            int_tag ''water_fog_color'' 329011]])"

definition builtinSnowyPlainsBiomeData :: "string \<Rightarrow> string \<times> NBTElement" where
  "builtinSnowyPlainsBiomeData ident =
     (''minecraft:'' @ ident,
      compound_elem
        [byte_tag ''has_precipitation'' 1, float_tag ''temperature'' 0x00000000, float_tag ''downfall'' 0x3F000000,
         compound_tag ''effects''
           [compound_tag ''mood_sound''
              [str_tag ''sound'' ''minecraft:ambient.cave'', int_tag ''tick_delay'' 6000,
               int_tag ''block_search_extent'' 8, double_tag ''offset'' 0x4000000000000000],
            int_tag ''sky_color'' 8364543, int_tag ''fog_color'' 12638463, int_tag ''water_color'' 4159204,
            int_tag ''water_fog_color'' 329011]])"

definition builtinLushCaveBiomeData :: "string \<Rightarrow> bool \<Rightarrow> string \<times> NBTElement" where
  "builtinLushCaveBiomeData ident hasMusic =
     (''minecraft:'' @ ident,
      compound_elem
        [byte_tag ''has_precipitation'' 1, float_tag ''temperature'' 0x3F000000, float_tag ''downfall'' 0x3F000000,
         compound_tag ''effects''
           [compound_tag ''mood_sound''
              [str_tag ''sound'' ''minecraft:ambient.cave'', int_tag ''tick_delay'' 6000,
               int_tag ''block_search_extent'' 8, double_tag ''offset'' 0x4000000000000000],
            if hasMusic then comma
                  (compound_tag ''music''
                     [str_tag ''sound'' ''minecraft:music.overworld.lush_caves'', int_tag ''min_delay'' 12000,
                      int_tag ''max_delay'' 24000, byte_tag ''replace_current_music'' 0])
                  (int_tag ''sky_color'' 8103167)
            else int_tag ''sky_color'' 8103167,
            int_tag ''fog_color'' 12638463, int_tag ''water_color'' 4159204, int_tag ''water_fog_color'' 329011]])"

definition builtinWolfSoundData :: "string \<Rightarrow> bool \<Rightarrow> string \<times> NBTElement" where
  "builtinWolfSoundData ident hasCustomId =
     (''minecraft:'' @ ident,
      compound_elem
        [str_tag ''hurt_sound''
           (''minecraft:entity.wolf'' @ (if hasCustomId then ''_'' @ ident else []) @ ''.hurt''),
         str_tag ''pant_sound''
           (''minecraft:entity.wolf'' @ (if hasCustomId then ''_'' @ ident else []) @ ''.pant''),
         str_tag ''whine_sound''
           (''minecraft:entity.wolf'' @ (if hasCustomId then ''_'' @ ident else []) @ ''.whine''),
         str_tag ''ambient_sound''
           (''minecraft:entity.wolf'' @ (if hasCustomId then ''_'' @ ident else []) @ ''.ambient''),
         str_tag ''death_sound''
           (''minecraft:entity.wolf'' @ (if hasCustomId then ''_'' @ ident else []) @ ''.death''),
         str_tag ''growl_sound''
           (''minecraft:entity.wolf'' @ (if hasCustomId then ''_'' @ ident else []) @ ''.growl'')])"

definition builtinWolfData :: "string \<Rightarrow> string list \<Rightarrow> string \<times> NBTElement" where
  "builtinWolfData ident biomes =
     (let biomesList = list_tag ''biomes'' [];
          result = compound_elem
            [compound_tag ''assets''
               [str_tag ''wild'' ''minecraft:entity/wolf/wolf_ashen'', str_tag ''tame'' ''minecraft:entity/wolf/wolf_ashen_tame'',
                str_tag ''angry'' ''minecraft:entity/wolf/wolf_ashen_angry'']];
          biomesList = fold (\<lambda>biome. push_child (str_elem (''minecraft:'' @ biome))) biomes biomesList;
          result = (if biomes \<noteq> [] then push_child biomesList result else result)
      in (''minecraft:'' @ ident, result))"

text \<open>The map of strings is an initializer list with distinct keys; \<open>at\<close> is reached with the key present only.\<close>

definition builtinChatTypeData :: "string \<Rightarrow> (string \<times> string list) list \<Rightarrow> NBTElement \<Rightarrow> string \<times> NBTElement" where
  "builtinChatTypeData ident chatTypeData style =
     (let contains = (\<lambda>k. map_of chatTypeData k \<noteq> None); at = (\<lambda>k. the (map_of chatTypeData k));
          fail = (\<not> contains ''chat_translate'' \<or> \<not> contains ''chat_parameters''
            \<or> \<not> contains ''narration_translate'' \<or> \<not> contains ''narration_parameters''
            \<or> (contains ''chat_translate'' \<and> at ''chat_translate'' = [])
            \<or> (contains ''narration_translate'' \<and> at ''narration_translate'' = []))
      in if fail then
        (''minecraft:'' @ ident,
         compound_elem
           [compound_tag ''chat''
              [str_tag ''translation_key'' ''chat.type.text'',
               list_tag ''parameters'' [str_elem ''sender'', str_elem ''content'']],
            compound_tag ''narration''
              [str_tag ''translation_key'' ''chat.type.text.narrate'',
               list_tag ''parameters'' [str_elem ''sender'', str_elem ''content'']]])
      else
        (let chatParameters = fold (\<lambda>p. push_child (str_elem p)) (at ''chat_parameters'') (list_tag ''parameters'' []);
             narrationParameters = fold (\<lambda>p. push_child (str_elem p)) (at ''narration_parameters'') (list_tag ''parameters'' []);
             dat = compound_tag ''chat'' [str_tag ''translation_key'' (at ''chat_translate'' ! 0), chatParameters];
             dat = (if nbt_type style = NBT_Compound then push_child (compound_tag ''style'' (m_childElements style)) dat else dat)
         in (''minecraft:'' @ ident,
             compound_elem
               [dat, compound_tag ''narration''
                  [str_tag ''translation_key'' (at ''narration_translate'' ! 0), narrationParameters]])))"

definition builtinDamageType :: "string \<Rightarrow> i32 \<Rightarrow> string \<Rightarrow> bool \<Rightarrow> string \<times> NBTElement" where
  "builtinDamageType ident exhaustion mId isAlways =
     (''minecrat:'' @ ident,
      compound_elem
        [float_tag ''exhaustion'' exhaustion, str_tag ''message_id'' mId,
         str_tag ''scaling'' (if isAlways then ''always'' else ''when_caused_by_living_non_player'')])"

definition builtinDamageEffectType :: "string \<Rightarrow> i32 \<Rightarrow> string \<Rightarrow> string \<Rightarrow> bool \<Rightarrow> string \<times> NBTElement" where
  "builtinDamageEffectType ident exhaustion mId effect isAlways =
     (''minecrat:'' @ ident,
      compound_elem
        [float_tag ''exhaustion'' exhaustion, str_tag ''message_id'' mId, str_tag ''effects'' effect,
         str_tag ''scaling'' (if isAlways then ''always'' else ''when_caused_by_living_non_player'')])"

definition builtinDamageMessageType :: "string \<Rightarrow> i32 \<Rightarrow> string \<Rightarrow> string \<Rightarrow> bool \<Rightarrow> string \<times> NBTElement" where
  "builtinDamageMessageType ident exhaustion mId message isAlways =
     (''minecrat:'' @ ident,
      compound_elem
        [float_tag ''exhaustion'' exhaustion, str_tag ''message_id'' mId, str_tag ''death_message_type'' message,
         str_tag ''scaling'' (if isAlways then ''always'' else ''when_caused_by_living_non_player'')])"

definition builtinGoatHorn :: "string \<Rightarrow> i32 \<Rightarrow> string \<times> NBTElement" where
  "builtinGoatHorn ident soundId =
     (''minecraft:'' @ ident,
      compound_elem
        [str_tag ''sound_event'' (''minecraft:item.goat_horn.sound.'' @ (int_to_string (sint soundId))),
         float_tag ''use_duration'' 0x40E00000, float_tag ''range'' 0x43800000,
         compound_tag ''description''
           (m_childElements
              (text_encode
                 (build_translatable
                    (translatable_translate (''instrument.minecraft.'' @ ident) new_Translatable)
                    new_TextComponent)))])"

definition builtinJukeBoxSongHorn :: "string \<Rightarrow> i32 \<Rightarrow> i32 \<Rightarrow> string \<times> NBTElement" where
  "builtinJukeBoxSongHorn ident seconds comparator =
     (''minecraft:'' @ ident,
      compound_elem
        [str_tag ''sound_event'' (''minecraft:music_disc.'' @ ident), float_tag ''length_in_seconds'' seconds,
         int_tag ''comparator_output'' comparator,
         compound_tag ''description''
           (m_childElements
              (text_encode
                 (build_translatable
                    (translatable_translate (''jukebox_song.minecraft.'' @ ident) new_Translatable)
                    new_TextComponent)))])"

definition builtinEnchantment_exclusive :: "string \<Rightarrow> i32 \<Rightarrow> i32 \<Rightarrow> i32 \<Rightarrow> i32 \<Rightarrow> i32 \<Rightarrow> string list \<Rightarrow> string
    \<Rightarrow> i32 \<Rightarrow> i32 \<Rightarrow> NBTElement list \<Rightarrow> string \<Rightarrow> string \<times> NBTElement" where
  "builtinEnchantment_exclusive ident minBase minInc maxBase maxInc anvil slots supportedItems weight maxLevel effects exclusiveSet =
     (let slotsNBT = fold (\<lambda>slot. push_child (str_elem slot)) slots (list_tag ''slots'' [])
      in (''minecraft:'' @ ident,
          compound_elem
            ([compound_tag ''description''
                (m_childElements
                   (text_encode
                      (build_translatable
                         (translatable_translate (''enchantment.minecraft.'' @ ident) new_Translatable) new_TextComponent))),
              compound_tag ''min_cost'' [int_tag ''base'' minBase, int_tag ''per_level_above_first'' minInc],
              compound_tag ''max_cost'' [int_tag ''base'' maxBase, int_tag ''per_level_above_first'' maxInc],
              int_tag ''anvil_cost'' anvil, slotsNBT, str_tag ''supported_items'' supportedItems,
              str_tag ''exclusive_set'' exclusiveSet,
              int_tag ''weight'' weight, int_tag ''max_level'' maxLevel, compound_tag ''effects'' effects])))"

definition builtinEnchantment_primary :: "string \<Rightarrow> i32 \<Rightarrow> i32 \<Rightarrow> i32 \<Rightarrow> i32 \<Rightarrow> i32 \<Rightarrow> string list \<Rightarrow> string
    \<Rightarrow> i32 \<Rightarrow> i32 \<Rightarrow> NBTElement list \<Rightarrow> string \<Rightarrow> string \<Rightarrow> string \<times> NBTElement" where
  "builtinEnchantment_primary ident minBase minInc maxBase maxInc anvil slots supportedItems weight maxLevel effects exclusiveSet primaryItems =
     (let slotsNBT = fold (\<lambda>slot. push_child (str_elem slot)) slots (list_tag ''slots'' [])
      in (''minecraft:'' @ ident,
          compound_elem
            ([compound_tag ''description''
                (m_childElements
                   (text_encode
                      (build_translatable
                         (translatable_translate (''enchantment.minecraft.'' @ ident) new_Translatable) new_TextComponent))),
              compound_tag ''min_cost'' [int_tag ''base'' minBase, int_tag ''per_level_above_first'' minInc],
              compound_tag ''max_cost'' [int_tag ''base'' maxBase, int_tag ''per_level_above_first'' maxInc],
              int_tag ''anvil_cost'' anvil, slotsNBT, str_tag ''supported_items'' supportedItems,
              str_tag ''primary_items'' primaryItems,
              str_tag ''exclusive_set'' exclusiveSet,
              int_tag ''weight'' weight, int_tag ''max_level'' maxLevel, compound_tag ''effects'' effects])))"

definition builtinEnchantment :: "string \<Rightarrow> i32 \<Rightarrow> i32 \<Rightarrow> i32 \<Rightarrow> i32 \<Rightarrow> i32 \<Rightarrow> string list \<Rightarrow> string
    \<Rightarrow> i32 \<Rightarrow> i32 \<Rightarrow> NBTElement list \<Rightarrow> string \<times> NBTElement" where
  "builtinEnchantment ident minBase minInc maxBase maxInc anvil slots supportedItems weight maxLevel effects =
     (let slotsNBT = fold (\<lambda>slot. push_child (str_elem slot)) slots (list_tag ''slots'' [])
      in (''minecraft:'' @ ident,
          compound_elem
            ([compound_tag ''description''
                (m_childElements
                   (text_encode
                      (build_translatable
                         (translatable_translate (''enchantment.minecraft.'' @ ident) new_Translatable) new_TextComponent))),
              compound_tag ''min_cost'' [int_tag ''base'' minBase, int_tag ''per_level_above_first'' minInc],
              compound_tag ''max_cost'' [int_tag ''base'' maxBase, int_tag ''per_level_above_first'' maxInc],
              int_tag ''anvil_cost'' anvil, slotsNBT, str_tag ''supported_items'' supportedItems,
              int_tag ''weight'' weight, int_tag ''max_level'' maxLevel, compound_tag ''effects'' effects])))"

definition attributeBuilder :: "string \<Rightarrow> string \<Rightarrow> string \<Rightarrow> i32 \<Rightarrow> i32 \<Rightarrow> string \<Rightarrow> NBTElement" where
  "attributeBuilder ident attr operation base perLevel type =
     compound_elem
       [str_tag ''id'' (''minecraft:'' @ ident), str_tag ''attribute'' (''minecraft:'' @ attr),
        str_tag ''operation'' operation,
        compound_tag ''amount''
          [str_tag ''type'' (''minecraft:'' @ type), float_tag ''base'' base,
           float_tag ''per_level_above_first'' perLevel]]"

section \<open>The registries\<close>

definition registry_chat_type :: "(string \<times> NBTElement) list" where
  "registry_chat_type =
     [builtinChatTypeData ''chat''
        [(''chat_translate'', [''chat.type.text'']), (''narration_translate'', [''chat.type.text.narrate'']),
         (''chat_parameters'', [''sender'', ''content'']), (''narration_parameters'', [''sender'', ''content''])]
        (byte_elem 0),
      builtinChatTypeData ''emote_command''
        [(''chat_translate'', [''chat.type.emote'']), (''narration_translate'', [''chat.type.emote'']),
         (''chat_parameters'', [''sender'', ''content'']), (''narration_parameters'', [''sender'', ''content''])]
        (byte_elem 0),
      builtinChatTypeData ''msg_command_incoming''
        [(''chat_translate'', [''commands.message.display.incoming'']),
         (''narration_translate'', [''chat.type.text.narrate'']),
         (''chat_parameters'', [''sender'', ''content'']), (''narration_parameters'', [''sender'', ''content''])]
        (compound_elem [byte_tag ''italic'' 0, str_tag ''color'' ''gray'']),
      builtinChatTypeData ''msg_command_incoming''
        [(''chat_translate'', [''commands.message.display.outgoing'']),
         (''narration_translate'', [''chat.type.text.narrate'']),
         (''chat_parameters'', [''sender'', ''content'']), (''narration_parameters'', [''sender'', ''content''])]
        (compound_elem [byte_tag ''italic'' 0, str_tag ''color'' ''gray'']),
      builtinChatTypeData ''say_command''
        [(''chat_translate'', [''chat.type.announcement'']),
         (''narration_translate'', [''chat.type.text.narrate'']),
         (''chat_parameters'', [''sender'', ''content'']), (''narration_parameters'', [''sender'', ''content''])]
        (byte_elem 0),
      builtinChatTypeData ''team_msg_command_incoming''
        [(''chat_translate'', [''chat.type.team.text'']), (''narration_translate'', [''chat.type.text.narrate'']),
         (''chat_parameters'', [''target'', ''sender'', ''content'']),
         (''narration_parameters'', [''sender'', ''content''])] (byte_elem 0),
      builtinChatTypeData ''team_msg_command_outgoing''
        [(''chat_translate'', [''chat.type.team.text'']), (''narration_translate'', [''chat.type.text.narrate'']),
         (''chat_parameters'', [''target'', ''sender'', ''content'']),
         (''narration_parameters'', [''sender'', ''content''])] (byte_elem 0)]"

definition registry_banner_pattern :: "(string \<times> NBTElement) list" where
  "registry_banner_pattern =
     [builtinBannerPatternData ''base'', builtinBannerPatternData ''border'', builtinBannerPatternData ''bricks'',
      builtinBannerPatternData ''circle'', builtinBannerPatternData ''creeper'', builtinBannerPatternData ''cross'',
      builtinBannerPatternData ''curly_border'', builtinBannerPatternData ''diagonal_left'',
      builtinBannerPatternData ''diagonal_right'', builtinBannerPatternData ''diagonal_left_up'',
      builtinBannerPatternData ''diagonal_right_up'', builtinBannerPatternData ''flow'',
      builtinBannerPatternData ''flower'', builtinBannerPatternData ''globe'', builtinBannerPatternData ''gradient'',
      builtinBannerPatternData ''gradient_up'', builtinBannerPatternData ''guster'',
      builtinBannerPatternData ''half_horizontal'', builtinBannerPatternData ''half_horizontal_bottom'',
      builtinBannerPatternData ''half_vertical'', builtinBannerPatternData ''half_vertical_right'',
      builtinBannerPatternData ''mojang'', builtinBannerPatternData ''piglin'', builtinBannerPatternData ''rhombus'',
      builtinBannerPatternData ''skull'', builtinBannerPatternData ''small_stripes'',
      builtinBannerPatternData ''square_bottom_left'', builtinBannerPatternData ''square_bottom_right'',
      builtinBannerPatternData ''square_top_left'', builtinBannerPatternData ''square_top_right'',
      builtinBannerPatternData ''straight_cross'', builtinBannerPatternData ''stripe_bottom'',
      builtinBannerPatternData ''stripe_center'', builtinBannerPatternData ''stripe_downleft'',
      builtinBannerPatternData ''stripe_downright'', builtinBannerPatternData ''stripe_left'',
      builtinBannerPatternData ''stripe_middle'', builtinBannerPatternData ''stripe_right'',
      builtinBannerPatternData ''stripe_top'', builtinBannerPatternData ''triangle_bottom'',
      builtinBannerPatternData ''triangle_top'', builtinBannerPatternData ''triangles_bottom'',
      builtinBannerPatternData ''triangles_top'']"

definition registry_trim_pattern :: "(string \<times> NBTElement) list" where
  "registry_trim_pattern =
     [builtinTrimPatternData ''bolt'', builtinTrimPatternData ''coast'', builtinTrimPatternData ''dune'',
      builtinTrimPatternData ''eye'', builtinTrimPatternData ''host'', builtinTrimPatternData ''raiser'',
      builtinTrimPatternData ''rib'', builtinTrimPatternData ''sentry'', builtinTrimPatternData ''shaper'',
      builtinTrimPatternData ''silence'', builtinTrimPatternData ''snout'', builtinTrimPatternData ''spire'',
      builtinTrimPatternData ''tide'', builtinTrimPatternData ''vex'', builtinTrimPatternData ''ward'',
      builtinTrimPatternData ''wayfinder'', builtinTrimPatternData ''wild'']"

definition registry_damage_type :: "(string \<times> NBTElement) list" where
  "registry_damage_type =
     [builtinDamageType ''arrow'' 0x3DCCCCCD ''arrow'' False,
      builtinDamageMessageType ''bad_respawn_point'' 0x3DCCCCCD ''badRespawnPoint'' ''intentional_game_design'' True,
      builtinDamageType ''cactus'' 0x3DCCCCCD ''cactus'' False,
      builtinDamageEffectType ''campfire'' 0x3DCCCCCD ''inFire'' ''burning'' False,
      builtinDamageType ''cramming'' 0x00000000 ''cramming'' False,
      builtinDamageType ''dragon_breath'' 0x00000000 ''dragonBreath'' False,
      builtinDamageEffectType ''drown'' 0x00000000 ''drown'' ''drowning'' False,
      builtinDamageType ''dry_out'' 0x3DCCCCCD ''dryout'' False,
      builtinDamageMessageType ''ender_pearl'' 0x00000000 ''fall'' ''fall_variants'' False,
      builtinDamageType ''explosion'' 0x3DCCCCCD ''explosion'' True,
      builtinDamageMessageType ''fall'' 0x00000000 ''fall'' ''fall_variants'' False,
      builtinDamageType ''falling_anvil'' 0x3DCCCCCD ''anvil'' False,
      builtinDamageType ''falling_block'' 0x3DCCCCCD ''fallingBlock'' False,
      builtinDamageType ''falling_stalactite'' 0x3DCCCCCD ''fallingStalactite'' False,
      builtinDamageEffectType ''fireball'' 0x3DCCCCCD ''fireball'' ''burning'' False,
      builtinDamageType ''fireworks'' 0x3DCCCCCD ''fireworks'' False,
      builtinDamageType ''fly_into_wall'' 0x00000000 ''flyIntoWall'' False,
      builtinDamageEffectType ''freeze'' 0x00000000 ''freeze'' ''freezing'' False,
      builtinDamageType ''generic'' 0x00000000 ''generic'' False,
      builtinDamageType ''generic_kill'' 0x00000000 ''genericKill'' False,
      builtinDamageEffectType ''hot_floor'' 0x3DCCCCCD ''hotFloor'' ''burning'' False,
      builtinDamageEffectType ''in_fire'' 0x3DCCCCCD ''inFire'' ''burning'' False,
      builtinDamageType ''in_wall'' 0x00000000 ''inWall'' False,
      builtinDamageType ''indirect_magic'' 0x00000000 ''indirectMagic'' False,
      builtinDamageEffectType ''lava'' 0x3DCCCCCD ''lava'' ''burning'' False,
      builtinDamageType ''lightning_bolt'' 0x3DCCCCCD ''lightningBolt'' False,
      builtinDamageType ''mace_smash'' 0x3DCCCCCD ''mace_smash'' False,
      builtinDamageType ''magic'' 0x00000000 ''magic'' False,
      builtinDamageType ''mob_attack'' 0x3DCCCCCD ''mob'' False,
      builtinDamageType ''mob_attack_no_aggro'' 0x3DCCCCCD ''mob'' False,
      builtinDamageType ''mob_projectile'' 0x3DCCCCCD ''mob'' False,
      builtinDamageEffectType ''on_fire'' 0x00000000 ''onFire'' ''burning'' False,
      builtinDamageType ''out_of_world'' 0x00000000 ''outOfWorld'' False,
      builtinDamageType ''outside_border'' 0x00000000 ''outsideBorder'' False,
      builtinDamageType ''player_attack'' 0x00000000 ''player'' False,
      builtinDamageType ''player_explosion'' 0x3DCCCCCD ''explosion.player'' True,
      builtinDamageType ''sonic_boom'' 0x3DCCCCCD ''sonic_boom'' True,
      builtinDamageType ''spit'' 0x00000000 ''mob'' False,
      builtinDamageType ''stalagmite'' 0x3DCCCCCD ''stalagmite'' False,
      builtinDamageType ''starve'' 0x00000000 ''starve'' False,
      builtinDamageType ''sting'' 0x00000000 ''sting'' False,
      builtinDamageEffectType ''sweet_berry_bush'' 0x3DCCCCCD ''sweetBerryBush'' ''poking'' False,
      builtinDamageEffectType ''thorns'' 0x3DCCCCCD ''thorns'' ''thorns'' False,
      builtinDamageType ''thrown'' 0x3DCCCCCD ''thrown'' False,
      builtinDamageType ''trident'' 0x3DCCCCCD ''trident'' False,
      builtinDamageEffectType ''unattributed_fireball'' 0x3DCCCCCD ''onFire'' ''burning'' False,
      builtinDamageType ''wind_charge'' 0x3DCCCCCD ''mob'' False,
      builtinDamageType ''wither'' 0x00000000 ''wither'' False,
      builtinDamageType ''wither_skull'' 0x3DCCCCCD ''witherSkull'' False]"

definition registry_trim_material :: "(string \<times> NBTElement) list" where
  "registry_trim_material =
     [builtinTrimMaterialData ''amethyst'' ''9A5CC6'', builtinTrimMaterialData ''copper'' ''B4684D'',
      builtinTrimMaterialData_override ''diamond'' ''6EECD2'' ''diamond'',
      builtinTrimMaterialData_override ''iron'' ''ECECEC'' ''iron'',
      builtinTrimMaterialData_override ''gold'' ''DEB12D'' ''gold'',
      builtinTrimMaterialData_override ''netherite'' ''625859'' ''netherite'',
      builtinTrimMaterialData ''lapis'' ''416E97'', builtinTrimMaterialData ''quartz'' ''E3D4C4'',
      builtinTrimMaterialData ''redstone'' ''971607'', builtinTrimMaterialData ''resin'' ''FC7812'',
      builtinTrimMaterialData ''emerald'' ''11A036'']"

definition registry_dimension_type :: "(string \<times> NBTElement) list" where
  "registry_dimension_type =
     [(''minecraft:overworld'',
       compound_elem
         [str_tag ''infiniburn'' ''#minecraft:infiniburn_overworld'',
          str_tag ''effects'' ''minecraft:overworld'', float_tag ''ambient_light'' 0x00000000,
          byte_tag ''piglin_safe'' 0, byte_tag ''has_raids'' 1, byte_tag ''respawn_anchor_works'' 0,
          byte_tag ''ultrawarm'' 0, byte_tag ''natural'' 1, byte_tag ''bed_works'' 1,
          byte_tag ''has_skylight'' 1, byte_tag ''has_ceiling'' 0, int_tag ''monster_spawn_block_light_limit'' 0,
          int_tag ''min_y'' (- 64), int_tag ''height'' 384, int_tag ''logical_height'' 384,
          double_tag ''coordinate_scale'' 0x3FF0000000000000,
          compound_tag ''monster_spawn_light_level''
            [int_tag ''min_inclusive'' 0, int_tag ''max_inclusive'' 7, str_tag ''type'' ''minecraft:uniform'']]),
      (''minecraft:overworld_caves'',
       compound_elem
         [str_tag ''infiniburn'' ''#minecraft:infiniburn_overworld'',
          str_tag ''effects'' ''minecraft:overworld'', float_tag ''ambient_light'' 0x00000000,
          byte_tag ''piglin_safe'' 0, byte_tag ''has_raids'' 1, byte_tag ''respawn_anchor_works'' 0,
          byte_tag ''ultrawarm'' 0, byte_tag ''natural'' 1, byte_tag ''bed_works'' 1,
          byte_tag ''has_skylight'' 1, byte_tag ''has_ceiling'' 0, int_tag ''monster_spawn_block_light_limit'' 0,
          int_tag ''min_y'' (- 64), int_tag ''height'' 384, int_tag ''logical_height'' 384,
          double_tag ''coordinate_scale'' 0x3FF0000000000000,
          compound_tag ''monster_spawn_light_level''
            [int_tag ''min_inclusive'' 0, int_tag ''max_inclusive'' 7, str_tag ''type'' ''minecraft:uniform'']]),
      (''minecraft:the_end'',
       compound_elem
         [str_tag ''infiniburn'' ''#minecraft:infiniburn_end'', str_tag ''effects'' ''minecraft:the_end'',
          float_tag ''ambient_light'' 0x00000000, byte_tag ''piglin_safe'' 0, byte_tag ''has_raids'' 1,
          byte_tag ''respawn_anchor_works'' 0, byte_tag ''ultrawarm'' 0, byte_tag ''natural'' 0,
          byte_tag ''bed_works'' 0, byte_tag ''has_skylight'' 1, byte_tag ''has_ceiling'' 0,
          int_tag ''monster_spawn_block_light_limit'' 0, int_tag ''min_y'' 0, int_tag ''height'' 256,
          int_tag ''logical_height'' 256, long_tag ''fixed_type'' 6000,
          double_tag ''coordinate_scale'' 0x3FF0000000000000,
          compound_tag ''monster_spawn_light_level''
            [int_tag ''min_inclusive'' 0, int_tag ''max_inclusive'' 7, str_tag ''type'' ''minecraft:uniform'']]),
      (''minecraft:the_nether'',
       compound_elem
         [str_tag ''infiniburn'' ''#minecraft:infiniburn_nether'', str_tag ''effects'' ''minecraft:the_nether'',
          float_tag ''ambient_light'' 0x3DCCCCCD, byte_tag ''piglin_safe'' 1, byte_tag ''has_raids'' 0,
          byte_tag ''respawn_anchor_works'' 1, byte_tag ''ultrawarm'' 1, byte_tag ''natural'' 0,
          byte_tag ''bed_works'' 0, byte_tag ''has_skylight'' 0, byte_tag ''has_ceiling'' 1,
          int_tag ''monster_spawn_block_light_limit'' 15, int_tag ''min_y'' 0, int_tag ''height'' 256,
          int_tag ''logical_height'' 128, long_tag ''fixed_type'' 18000,
          double_tag ''coordinate_scale'' 0x4020000000000000, int_tag ''monster_spawn_light_level'' 7])]"

definition registry_biome_1 :: "(string \<times> NBTElement) list" where
  "registry_biome_1 =
     [builtinJungleBiomeData ''bamboo_jungle'' 0x3F666666,
      builtinNetherBiomeData ''basalt_deltas'' 0x3DF1DAEB ''white_ash'']"

definition registry_biome_2 :: "(string \<times> NBTElement) list" where
  "registry_biome_2 =
     [builtinOceanBiomeData ''cold_ocean'' 4020182 329011 False,
      builtinNetherBiomeData ''crimson_forest'' 0x3CCCCCCD ''crimson_spore'']"

definition registry_biome_3 :: "(string \<times> NBTElement) list" where
  "registry_biome_3 =
     [builtinOceanBiomeData ''deep_cold_ocean'' 4020182 329011 False,
      builtinOceanBiomeData ''deep_frozen_ocean'' 3750089 329011 True,
      builtinOceanBiomeData ''deep_lukewarm_ocean'' 4566514 267827 False,
      builtinOceanBiomeData ''deep_ocean'' 4159204 329011 False, builtinDesertBiomeData ''desert'' True,
      builtinCaveBiomeData ''dripstone_caves'', builtinEndBiomeData ''end_barrens'',
      builtinEndBiomeData ''end_highlands'', builtinEndBiomeData ''end_midlands'',
      builtinBadlandsBiomeData ''eroded_badlands'',
      (''minecraft:flower_forest'',
       compound_elem
         [byte_tag ''has_precipitation'' 1, float_tag ''temperature'' 0x3F333333,
          float_tag ''downfall'' 0x3F4CCCCD,
          compound_tag ''effects''
            [compound_tag ''mood_sound''
               [str_tag ''sound'' ''minecraft:ambient.cave'', int_tag ''tick_delay'' 6000,
                int_tag ''block_search_extent'' 8, double_tag ''offset'' 0x4000000000000000],
             compound_tag ''music''
               [str_tag ''sound'' ''minecraft:music.overworld.flower_forest'', int_tag ''min_delay'' 12000,
                int_tag ''max_delay'' 24000, byte_tag ''replace_current_music'' 0],
             int_tag ''sky_color'' 7972607, int_tag ''fog_color'' 12638463, int_tag ''water_color'' 4159204,
             int_tag ''water_fog_color'' 329011]])]"

definition registry_biome_4 :: "(string \<times> NBTElement) list" where
  "registry_biome_4 =
     [builtinOceanBiomeData ''frozen_ocean'' 3750089 329011 True]"

definition registry_biome_5 :: "(string \<times> NBTElement) list" where
  "registry_biome_5 =
     [builtinJungleBiomeData ''jungle'' 0x3F666666, builtinOceanBiomeData ''lukewarm_ocean'' 4566514 267827 False]"

definition registry_biome_6 :: "(string \<times> NBTElement) list" where
  "registry_biome_6 =
     [builtinNetherBiomeData ''nether_wastes'' 0xBF800000 [], builtinOceanBiomeData ''ocean'' 4159204 329011 False]"

definition registry_biome_7 :: "(string \<times> NBTElement) list" where
  "registry_biome_7 =
     [builtinDesertBiomeData ''savanna'' False, builtinDesertBiomeData ''savanna_plateau'' False]"

definition registry_biome_8 :: "(string \<times> NBTElement) list" where
  "registry_biome_8 =
     [builtinNetherBiomeData ''soul_sand_valley'' 0x3BCCCCCD ''ash'',
      builtinJungleBiomeData ''sparse_jungle'' 0x3F4CCCCD]"

definition registry_biome_9 :: "(string \<times> NBTElement) list" where
  "registry_biome_9 =
     [builtinNetherBiomeData ''warped_forest'' 0x3C69F6A9 ''warped_spore'',
      builtinDesertBiomeData ''windswept_savanna'' False]"

definition registry_biome :: "(string \<times> NBTElement) list" where
  "registry_biome = registry_biome_1 @ registry_biome_2 @ registry_biome_3 @ registry_biome_4 @ registry_biome_5 @ registry_biome_6 @ registry_biome_7 @ registry_biome_8 @ registry_biome_9"

definition registry_pig_variant :: "(string \<times> NBTElement) list" where
  "registry_pig_variant = builtinTemperatureMobVariantData ''pig''"

definition registry_frog_variant :: "(string \<times> NBTElement) list" where
  "registry_frog_variant = builtinTemperatureMobVariantData ''frog''"

definition registry_cow_variant :: "(string \<times> NBTElement) list" where
  "registry_cow_variant = builtinTemperatureMobVariantData ''cow''"

definition registry_chicken_variant :: "(string \<times> NBTElement) list" where
  "registry_chicken_variant = builtinTemperatureMobVariantData ''chicken''"

definition registry_wolf_variant :: "(string \<times> NBTElement) list" where
  "registry_wolf_variant =
     [builtinWolfData ''ashen'' [''snowy_taiga''], builtinWolfData ''chestnut'' [''old_growth_pine_taiga''],
      builtinWolfData ''pale'' [''old_growth_spruce_taiga''], builtinWolfData ''rusty'' [''sparse_jungle''],
      builtinWolfData ''snowy'' [''grove''], builtinWolfData ''spotted'' [''savanna_plateau''],
      builtinWolfData ''striped'' [''wooded_badlands''], builtinWolfData ''woods'' [''forest'']]"

definition registry_wolf_sound_variant :: "(string \<times> NBTElement) list" where
  "registry_wolf_sound_variant =
     [builtinWolfSoundData ''angry'' True, builtinWolfSoundData ''big'' True, builtinWolfSoundData ''classic'' False,
      builtinWolfSoundData ''cute'' True, builtinWolfSoundData ''grumpy'' True, builtinWolfSoundData ''puglin'' True,
      builtinWolfSoundData ''sad'' True]"

definition registry_test_environment :: "(string \<times> NBTElement) list" where
  "registry_test_environment =
     [(''minecraft:default'', compound_elem [str_tag ''type'' ''minecraft:all_of'', list_tag ''definitions'' []])]"

definition registry_test_instance :: "(string \<times> NBTElement) list" where
  "registry_test_instance =
     [(''minecrat:always_pass'',
       compound_elem
         [byte_tag ''required'' 0, int_tag ''max_ticks'' 1, int_tag ''setup_ticks'' 1,
          str_tag ''function'' ''minecraft:always_pass'', str_tag ''environment'' ''minecraft:default'',
          str_tag ''structure'' ''minecraft:empty'', str_tag ''type'' ''minecraft:function''])]"

definition registry_painting_variant :: "(string \<times> NBTElement) list" where
  "registry_painting_variant =
     [builtinPainitingData ''alban'' 1 1 True, builtinPainitingData ''aztec'' 1 1 True,
      builtinPainitingData ''aztec2'' 1 1 True, builtinPainitingData ''backyard'' 3 4 True,
      builtinPainitingData ''baroque'' 2 2 True, builtinPainitingData ''bomb'' 1 1 True,
      builtinPainitingData ''bouquet'' 3 3 True, builtinPainitingData ''burning_skull'' 4 4 True,
      builtinPainitingData ''bust'' 2 2 True, builtinPainitingData ''cavebird'' 3 3 True,
      builtinPainitingData ''changing'' 4 2 True, builtinPainitingData ''cotan'' 3 3 True,
      builtinPainitingData ''courbet'' 2 1 True, builtinPainitingData ''creebet'' 2 1 True,
      builtinPainitingData ''donkey_kong'' 4 3 True, builtinPainitingData ''earth'' 2 2 False,
      builtinPainitingData ''endboss'' 3 3 True, builtinPainitingData ''fern'' 3 3 True,
      builtinPainitingData ''fighters'' 4 2 True, builtinPainitingData ''finding'' 4 2 True,
      builtinPainitingData ''fire'' 2 2 False, builtinPainitingData ''graham'' 1 2 True,
      builtinPainitingData ''humble'' 2 2 True, builtinPainitingData ''kebab'' 1 1 True,
      builtinPainitingData ''lowmist'' 4 2 True, builtinPainitingData ''match'' 2 2 True,
      builtinPainitingData ''meditative'' 1 1 True, builtinPainitingData ''orb'' 4 4 True,
      builtinPainitingData ''owlemons'' 3 3 True, builtinPainitingData ''passage'' 4 2 True,
      builtinPainitingData ''pigscene'' 4 4 True, builtinPainitingData ''plant'' 1 1 True,
      builtinPainitingData ''pointer'' 4 4 True, builtinPainitingData ''pond'' 3 4 True,
      builtinPainitingData ''pool'' 2 1 True, builtinPainitingData ''prairie_ride'' 1 2 True,
      builtinPainitingData ''sea'' 2 1 True, builtinPainitingData ''skeleton'' 4 3 True,
      builtinPainitingData ''skull_and_roses'' 2 2 True, builtinPainitingData ''stage'' 2 2 True,
      builtinPainitingData ''sunflowers'' 3 3 True, builtinPainitingData ''sunset'' 2 1 True,
      builtinPainitingData ''tides'' 3 3 True, builtinPainitingData ''unpacked'' 4 4 True,
      builtinPainitingData ''void'' 2 2 True, builtinPainitingData ''wanderer'' 1 2 True,
      builtinPainitingData ''wasteland'' 1 1 True, builtinPainitingData ''water'' 2 2 False,
      builtinPainitingData ''wind'' 2 2 False, builtinPainitingData ''wither'' 2 2 False]"

definition registry_cat_variant :: "(string \<times> NBTElement) list" where
  "registry_cat_variant =
     [builtinMobVariantData ''cat'' ''all_black'', builtinMobVariantData ''cat'' ''black'',
      builtinMobVariantData ''cat'' ''british_shorthair'', builtinMobVariantData ''cat'' ''tabby'',
      builtinMobVariantData ''cat'' ''ragdoll'', builtinMobVariantData ''cat'' ''persian'',
      builtinMobVariantData ''cat'' ''jellie'', builtinMobVariantData ''cat'' ''calico'',
      builtinMobVariantData ''cat'' ''red'', builtinMobVariantData ''cat'' ''siamese'',
      builtinMobVariantData ''cat'' ''white'']"

definition registry_instrument :: "(string \<times> NBTElement) list" where
  "registry_instrument =
     [builtinGoatHorn ''admire_goat_horn'' 4, builtinGoatHorn ''call_goat_horn'' 5,
      builtinGoatHorn ''dream_goat_horn'' 7, builtinGoatHorn ''feel_goat_horn'' 3,
      builtinGoatHorn ''ponder_goat_horn'' 0, builtinGoatHorn ''seek_goat_horn'' 2,
      builtinGoatHorn ''sing_goat_horn'' 1, builtinGoatHorn ''yearn_goat_horn'' 6]"

definition registry_jukebox_song :: "(string \<times> NBTElement) list" where
  "registry_jukebox_song =
     [builtinJukeBoxSongHorn ''11'' 0x428E0000 11, builtinJukeBoxSongHorn ''13'' 0x43320000 1,
      builtinJukeBoxSongHorn ''5'' 0x43320000 15, builtinJukeBoxSongHorn ''blocks'' 0x43AC8000 3,
      builtinJukeBoxSongHorn ''cat'' 0x43390000 2, builtinJukeBoxSongHorn ''chirp'' 0x43390000 4,
      builtinJukeBoxSongHorn ''creator'' 0x43300000 12, builtinJukeBoxSongHorn ''creator_music_box'' 0x42920000 11,
      builtinJukeBoxSongHorn ''far'' 0x432E0000 5, builtinJukeBoxSongHorn ''mall'' 0x43450000 6,
      builtinJukeBoxSongHorn ''mellohi'' 0x42C00000 7, builtinJukeBoxSongHorn ''otherside'' 0x43430000 14,
      builtinJukeBoxSongHorn ''pigstep'' 0x43150000 13, builtinJukeBoxSongHorn ''precipice'' 0x43958000 13,
      builtinJukeBoxSongHorn ''relic'' 0x435A0000 14, builtinJukeBoxSongHorn ''stal'' 0x43160000 8,
      builtinJukeBoxSongHorn ''strad'' 0x433C0000 9, builtinJukeBoxSongHorn ''wait'' 0x436E0000 12,
      builtinJukeBoxSongHorn ''ward'' 0x437B0000 10]"

definition registry_enchantment_1 :: "(string \<times> NBTElement) list" where
  "registry_enchantment_1 =
     [builtinEnchantment ''aqua_affinity'' 1 0 41 0 4 [''head''] ''#minecraft:enchantable/head_armor'' 2 1
        [list_tag ''minecraft:attributes''
           [attributeBuilder ''enchantment.aqua_affinity'' ''submerged_mining_speed''
              ''add_multiplied_total'' 0x40800000 0x40800000 ''linear'']],
      builtinEnchantment ''binding_curse'' 25 0 50 0 8 [''armor''] ''#minecraft:enchantable/equippable'' 1 1
        [compound_tag ''minecraft:prevent_armor_change'' []],
      builtinEnchantment ''vanishing_curse'' 25 0 50 0 8 [''any''] ''#minecraft:enchantable/vanishing'' 1 1
        [compound_tag ''minecraft:prevent_equipment_drop'' []],
      builtinEnchantment_exclusive ''blast_protection'' 5 8 13 8 4 [''armor''] ''#minecraft:enchantable/armor'' 2 4
        [list_tag ''minecraft:attributes''
           [attributeBuilder ''enchantment.blast_protection'' ''explosion_knockback_resistance''
              ''add_value'' 0x3E19999A 0x3E19999A ''linear''],
         list_tag ''minecraft:damage_protection''
           [compound_elem
              [compound_tag ''effect''
                 [str_tag ''type'' ''minecraft:add'',
                  compound_tag ''value''
                    [float_tag ''base'' 0x40000000, float_tag ''per_level_above_first'' 0x40000000,
                     str_tag ''type'' ''minecraft:linear'']],
               compound_tag ''requirements''
                 [compound_tag ''predicate''
                    [list_tag ''tags''
                       [compound_elem
                          [byte_tag ''expected'' 1, str_tag ''id'' ''minecraft:is_explosion''],
                        compound_elem
                          [byte_tag ''expected'' 0,
                           str_tag ''id'' ''minecraft:bypasses_invulnerability'']]],
                  str_tag ''condition'' ''minecraft:damage_source_properties'']]]]
        ''#minecraft:exclusive_set/armor'',
      builtinEnchantment_exclusive ''depth_strider'' 10 10 10 10 4 [''feet''] ''#minecraft:enchantable/foot_armor''
        2 3
        [list_tag ''minecraft:attributes''
           [attributeBuilder ''enchantment.depth_strider'' ''water_movement_efficiency'' ''add_value''
              0x3EAAAAAB 0x3EAAAAAB ''linear'']] ''#minecraft:exclusive_set/boots'',
      builtinEnchantment ''feather_falling'' 5 6 11 6 2 [''armor''] ''#minecraft:enchantable/foot_armor'' 5 4
        [list_tag ''minecraft:damage_protection''
           [compound_elem
              [compound_tag ''effect''
                 [str_tag ''type'' ''minecraft:add'',
                  compound_tag ''value''
                    [float_tag ''base'' 0x40400000, float_tag ''per_level_above_first'' 0x40400000,
                     str_tag ''type'' ''minecraft:linear'']],
               compound_tag ''requirements''
                 [compound_tag ''predicate''
                    [list_tag ''tags''
                       [compound_elem
                          [byte_tag ''expected'' 1, str_tag ''id'' ''minecraft:is_fall''],
                        compound_elem
                          [byte_tag ''expected'' 0,
                           str_tag ''id'' ''minecraft:bypasses_invulnerability'']]],
                  str_tag ''condition'' ''minecraft:damage_source_properties'']]]],
      builtinEnchantment_exclusive ''protection'' 1 11 12 11 1 [''armor''] ''#minecraft:enchantable/armor'' 10 4
        [list_tag ''minecraft:damage_protection''
           [compound_elem
              [compound_tag ''effect''
                 [str_tag ''type'' ''minecraft:add'',
                  compound_tag ''value''
                    [float_tag ''base'' 0x3F800000, float_tag ''per_level_above_first'' 0x3F800000,
                     str_tag ''type'' ''minecraft:linear'']],
               compound_tag ''requirements''
                 [compound_tag ''predicate''
                    [list_tag ''tags''
                       [compound_elem
                          [byte_tag ''expected'' 0,
                           str_tag ''id'' ''minecraft:bypasses_invulnerability'']]],
                  str_tag ''condition'' ''minecraft:damage_source_properties'']]]]
        ''#minecraft:exclusive_set/armor'',
      builtinEnchantment_exclusive ''fire_protection'' 10 8 18 8 2 [''armor''] ''#minecraft:enchantable/armor'' 5 4
        [list_tag ''minecraft:attributes''
           [attributeBuilder ''enchantment.fire_protection'' ''burning_time'' ''add_value'' 0xBE19999A
              0xBE19999A ''linear''],
         list_tag ''minecraft:damage_protection''
           [compound_elem
              [compound_tag ''effect''
                 [str_tag ''type'' ''minecraft:add'',
                  compound_tag ''value''
                    [float_tag ''base'' 0x40000000, float_tag ''per_level_above_first'' 0x40000000,
                     str_tag ''type'' ''minecraft:linear'']],
               compound_tag ''requirements''
                 [compound_tag ''predicate''
                    [list_tag ''tags''
                       [compound_elem
                          [byte_tag ''expected'' 1, str_tag ''id'' ''minecraft:is_fire''],
                        compound_elem
                          [byte_tag ''expected'' 0,
                           str_tag ''id'' ''minecraft:bypasses_invulnerability'']]],
                  str_tag ''condition'' ''minecraft:all_of'']]]] ''#minecraft:exclusive_set/armor'']"

definition registry_enchantment_2 :: "(string \<times> NBTElement) list" where
  "registry_enchantment_2 =
     [builtinEnchantment_exclusive ''projectile_protection'' 3 6 9 6 2 [''armor''] ''#minecraft:enchantable/armor''
        5 4
        [list_tag ''minecraft:damage_protection''
           [compound_elem
              [compound_tag ''effect''
                 [str_tag ''type'' ''minecraft:add'',
                  compound_tag ''value''
                    [float_tag ''base'' 0x40000000, float_tag ''per_level_above_first'' 0x40000000,
                     str_tag ''type'' ''minecraft:linear'']],
               compound_tag ''requirements''
                 [compound_tag ''predicate''
                    [list_tag ''tags''
                       [compound_elem
                          [byte_tag ''expected'' 1, str_tag ''id'' ''minecraft:is_projectile''],
                        compound_elem
                          [byte_tag ''expected'' 0,
                           str_tag ''id'' ''minecraft:bypasses_invulnerability'']]],
                  str_tag ''condition'' ''minecraft:damage_source_properties'']]]]
        ''#minecraft:exclusive_set/armor'']"

definition registry_enchantment :: "(string \<times> NBTElement) list" where
  "registry_enchantment = registry_enchantment_1 @ registry_enchantment_2"

definition g_registries :: "(string \<times> (string \<times> NBTElement) list) list" where
  "g_registries = map (\<lambda>(name, entries). (name, AList.clearjunk entries))
     [(''chat_type'', registry_chat_type),
      (''banner_pattern'', registry_banner_pattern),
      (''trim_pattern'', registry_trim_pattern),
      (''damage_type'', registry_damage_type),
      (''trim_material'', registry_trim_material),
      (''dimension_type'', registry_dimension_type),
      (''worldgen/biome'', registry_biome),
      (''pig_variant'', registry_pig_variant),
      (''frog_variant'', registry_frog_variant),
      (''cow_variant'', registry_cow_variant),
      (''chicken_variant'', registry_chicken_variant),
      (''wolf_variant'', registry_wolf_variant),
      (''wolf_sound_variant'', registry_wolf_sound_variant),
      (''test_environment'', registry_test_environment),
      (''test_instance'', registry_test_instance),
      (''painting_variant'', registry_painting_variant),
      (''cat_variant'', registry_cat_variant),
      (''instrument'', registry_instrument),
      (''jukebox_song'', registry_jukebox_song),
      (''enchantment'', registry_enchantment)]"

section \<open>Entries a client can read\<close>

text \<open>A valid compound without a tag. The bound of 8192 bytes keeps a registry packet below the largest frame.\<close>

definition entry_ok :: "string \<times> NBTElement \<Rightarrow> bool" where
  "entry_ok p \<longleftrightarrow> length (fst p) + length (nbt_payload True (nbt_abs (snd p))) < 8192 \<and> nbt_tag (snd p) = [] \<and> nbt_type (snd p) = NBT_Compound \<and> nbt_valid (nbt_abs (snd p))"

lemma more_builder_sel [simp]:
  "nbt_tag (long_tag tag l) = tag" "nbt_abs (long_tag tag l) = NLong l"
  "nbt_tag (float_tag tag i) = tag" "nbt_abs (float_tag tag i) = NFloat i"
  "nbt_tag (double_tag tag l) = tag" "nbt_abs (double_tag tag l) = NDouble l"
  "nbt_tag (mk_String v s) = []" "nbt_abs (mk_String v s) = NString v"
  by (simp_all add: long_tag_def float_tag_def double_tag_def mk_Long_def mk_Float_def mk_Double_def mk_String_def new_fields_def)

lemma children_sel [simp]:
  "m_childElements (mk_Compound es s) = es" "m_childElements (compound_tag tag es) = es" "m_childElements (list_tag tag es) = es"
  "nbt_type (mk_Byte b s) = NBT_Byte"
  by (simp_all add: mk_Compound_def compound_tag_def list_tag_def mk_List_def with_tag_def mk_Byte_def)

lemma fold_push_child: "fold (\<lambda>x. push_child (f x)) xs e = NBTElement (m_fields e) (m_childElements e @ map f xs)"
  by (induction xs arbitrary: e) (simp_all add: push_child_def)

lemma push_list_tag: "NBTElement (m_fields (list_tag tag es)) (es @ cs) = list_tag tag (es @ cs)"
  by (simp add: list_tag_def mk_List_def with_tag_def)

lemma push_compound: "NBTElement (m_fields (mk_Compound es s)) (es @ cs) = mk_Compound (es @ cs) s"
  by (simp add: mk_Compound_def)

lemma push_compound_tag: "NBTElement (m_fields (compound_tag tag es)) (es @ cs) = compound_tag tag (es @ cs)"
  by (simp add: compound_tag_def mk_Compound_def with_tag_def)

lemma push_child_simps [simp]:
  "fold (\<lambda>x. push_child (f x)) xs (list_tag tag es) = list_tag tag (es @ map f xs)"
  "push_child c (list_tag tag es) = list_tag tag (es @ [c])"
  "push_child c (mk_Compound es s) = mk_Compound (es @ [c]) s"
  "push_child c (compound_tag tag es) = compound_tag tag (es @ [c])"
  using push_list_tag push_compound push_compound_tag by (simp_all add: fold_push_child push_child_def)

definition translated_children :: "string \<Rightarrow> NBTElement list" where
  "translated_children s = [str_tag ''type'' ''translatable'', str_tag ''translate'' s, str_tag ''fallback'' ''nil'']"

lemma encode_translated [simp]:
  "m_childElements (text_encode (build_translatable (translatable_translate s new_Translatable) new_TextComponent)) = translated_children s"
  "m_childElements (text_encode (build_color c (build_translatable (translatable_translate s new_Translatable) new_TextComponent)))
     = translated_children s @ [str_tag ''color'' c]"
  by (simp_all add: build_translatable_def build_color_def upd_style_def set_translatable_def translatable_translate_def new_TextComponent_def
    text_element_def content_children_def content_type_def new_TextStyle_def value_or_def new_Translatable_def style_children_def opt_child_def
    translated_children_def)

lemma comma_simp [simp]: "comma x y = y"
  by (simp add: comma_def)

lemma nbt_valid_entries_append [simp]: "nbt_valid_entries (xs @ ys) \<longleftrightarrow> nbt_valid_entries xs \<and> nbt_valid_entries ys"
  by (induction xs) auto

lemma translated_valid [simp]:
  "nbt_valid_entries (map (\<lambda>e. (nbt_tag e, nbt_abs e)) (translated_children s)) \<longleftrightarrow> length s < 2 ^ 16"
  by (simp add: translated_children_def)

lemma length_string16 [simp]: "length (string16_bytes be s) = 2 + length s"
  by (simp add: string16_bytes_def)

lemma length_length_bytes [simp]: "length (length_bytes be n) = 4"
  by (simp add: length_bytes_def)

lemma nbt_entries_append [simp]: "nbt_entries be (xs @ ys) = nbt_entries be xs @ nbt_entries be ys"
  by (induction xs) auto

lemma length_translated [simp]: "length (nbt_entries be (map (\<lambda>e. (nbt_tag e, nbt_abs e)) (translated_children s))) = length s + 51"
  by (simp add: translated_children_def)

lemma painting_ok: "length ident < 500 \<Longrightarrow> entry_ok (builtinPainitingData ident width height hasAuthor)"
  by (simp add: entry_ok_def builtinPainitingData_def)

lemma banner_ok: "length ident < 500 \<Longrightarrow> entry_ok (builtinBannerPatternData ident)"
  by (simp add: entry_ok_def builtinBannerPatternData_def)

lemma trim_pattern_ok: "length ident < 500 \<Longrightarrow> entry_ok (builtinTrimPatternData ident)"
  by (simp add: entry_ok_def builtinTrimPatternData_def)

lemma damage_ok:
  "length ident < 500 \<Longrightarrow> length mId < 500 \<Longrightarrow> entry_ok (builtinDamageType ident x mId a)"
  "length ident < 500 \<Longrightarrow> length mId < 500 \<Longrightarrow> length e < 500 \<Longrightarrow> entry_ok (builtinDamageEffectType ident x mId e a)"
  "length ident < 500 \<Longrightarrow> length mId < 500 \<Longrightarrow> length e < 500 \<Longrightarrow> entry_ok (builtinDamageMessageType ident x mId e a)"
  by (simp_all add: entry_ok_def builtinDamageType_def builtinDamageEffectType_def builtinDamageMessageType_def)

lemma jukebox_ok: "length ident < 500 \<Longrightarrow> entry_ok (builtinJukeBoxSongHorn ident l c)"
  by (simp add: entry_ok_def builtinJukeBoxSongHorn_def)

lemma wolf_sound_ok: "length ident < 500 \<Longrightarrow> entry_ok (builtinWolfSoundData ident c)"
  by (simp add: entry_ok_def builtinWolfSoundData_def)

lemma climate_ok: "length ident < 500 \<Longrightarrow> list_all entry_ok (builtinTemperatureMobVariantData ident)"
  by (simp add: entry_ok_def builtinTemperatureMobVariantData_def builtinMobVariantData_climate_def builtinMobVariantData_def word_sless_alt)

lemmas generators_ok = painting_ok banner_ok trim_pattern_ok damage_ok jukebox_ok wolf_sound_ok climate_ok

lemma ok_registry_chat_type: "list_all entry_ok registry_chat_type"
  by (simp add: registry_chat_type_def generators_ok entry_ok_def builtinChatTypeData_def)

lemma ok_registry_banner_pattern: "list_all entry_ok registry_banner_pattern"
  by (simp add: registry_banner_pattern_def generators_ok)

lemma ok_registry_trim_pattern: "list_all entry_ok registry_trim_pattern"
  by (simp add: registry_trim_pattern_def generators_ok)

lemma ok_registry_damage_type: "list_all entry_ok registry_damage_type"
  by (simp add: registry_damage_type_def generators_ok)

lemma ok_registry_trim_material: "list_all entry_ok registry_trim_material"
  by (simp add: registry_trim_material_def generators_ok entry_ok_def builtinTrimMaterialData_def builtinTrimMaterialData_override_def)

lemma ok_registry_dimension_type: "list_all entry_ok registry_dimension_type"
  by (simp add: registry_dimension_type_def generators_ok entry_ok_def )

lemma ok_registry_biome_1: "list_all entry_ok registry_biome_1"
  by (simp add: registry_biome_1_def generators_ok entry_ok_def builtinJungleBiomeData_def builtinNetherBiomeData_def)

lemma ok_registry_biome_2: "list_all entry_ok registry_biome_2"
  by (simp add: registry_biome_2_def generators_ok entry_ok_def builtinNetherBiomeData_def builtinOceanBiomeData_def)

lemma ok_registry_biome_3: "list_all entry_ok registry_biome_3"
  by (simp add: registry_biome_3_def generators_ok entry_ok_def builtinBadlandsBiomeData_def builtinCaveBiomeData_def builtinDesertBiomeData_def builtinEndBiomeData_def builtinOceanBiomeData_def)

lemma ok_registry_biome_4: "list_all entry_ok registry_biome_4"
  by (simp add: registry_biome_4_def generators_ok entry_ok_def builtinOceanBiomeData_def)

lemma ok_registry_biome_5: "list_all entry_ok registry_biome_5"
  by (simp add: registry_biome_5_def generators_ok entry_ok_def builtinJungleBiomeData_def builtinOceanBiomeData_def)

lemma ok_registry_biome_6: "list_all entry_ok registry_biome_6"
  by (simp add: registry_biome_6_def generators_ok entry_ok_def builtinNetherBiomeData_def builtinOceanBiomeData_def)

lemma ok_registry_biome_7: "list_all entry_ok registry_biome_7"
  by (simp add: registry_biome_7_def generators_ok entry_ok_def builtinDesertBiomeData_def)

lemma ok_registry_biome_8: "list_all entry_ok registry_biome_8"
  by (simp add: registry_biome_8_def generators_ok entry_ok_def builtinJungleBiomeData_def builtinNetherBiomeData_def)

lemma ok_registry_biome_9: "list_all entry_ok registry_biome_9"
  by (simp add: registry_biome_9_def generators_ok entry_ok_def builtinDesertBiomeData_def builtinNetherBiomeData_def)

lemma ok_registry_biome: "list_all entry_ok registry_biome"
  by (simp add: registry_biome_def ok_registry_biome_1 ok_registry_biome_2 ok_registry_biome_3 ok_registry_biome_4 ok_registry_biome_5 ok_registry_biome_6 ok_registry_biome_7 ok_registry_biome_8 ok_registry_biome_9)

lemma ok_registry_pig_variant: "list_all entry_ok registry_pig_variant"
  by (simp add: registry_pig_variant_def generators_ok)

lemma ok_registry_frog_variant: "list_all entry_ok registry_frog_variant"
  by (simp add: registry_frog_variant_def generators_ok)

lemma ok_registry_cow_variant: "list_all entry_ok registry_cow_variant"
  by (simp add: registry_cow_variant_def generators_ok)

lemma ok_registry_chicken_variant: "list_all entry_ok registry_chicken_variant"
  by (simp add: registry_chicken_variant_def generators_ok)

lemma ok_registry_wolf_variant: "list_all entry_ok registry_wolf_variant"
  by (simp add: registry_wolf_variant_def generators_ok entry_ok_def builtinWolfData_def)

lemma ok_registry_wolf_sound_variant: "list_all entry_ok registry_wolf_sound_variant"
  by (simp add: registry_wolf_sound_variant_def generators_ok)

lemma ok_registry_test_environment: "list_all entry_ok registry_test_environment"
  by (simp add: registry_test_environment_def generators_ok entry_ok_def )

lemma ok_registry_test_instance: "list_all entry_ok registry_test_instance"
  by (simp add: registry_test_instance_def generators_ok entry_ok_def )

lemma ok_registry_painting_variant: "list_all entry_ok registry_painting_variant"
  by (simp add: registry_painting_variant_def generators_ok)

lemma ok_registry_cat_variant: "list_all entry_ok registry_cat_variant"
  by (simp add: registry_cat_variant_def generators_ok entry_ok_def builtinMobVariantData_def)

lemma ok_registry_instrument: "list_all entry_ok registry_instrument"
  by (simp add: registry_instrument_def generators_ok entry_ok_def builtinGoatHorn_def int_to_string_def digits_to_string.simps)

lemma ok_registry_jukebox_song: "list_all entry_ok registry_jukebox_song"
  by (simp add: registry_jukebox_song_def generators_ok)

lemma ok_registry_enchantment_1: "list_all entry_ok registry_enchantment_1"
  by (simp add: registry_enchantment_1_def generators_ok entry_ok_def attributeBuilder_def builtinEnchantment_def builtinEnchantment_exclusive_def)

lemma ok_registry_enchantment_2: "list_all entry_ok registry_enchantment_2"
  by (simp add: registry_enchantment_2_def generators_ok entry_ok_def builtinEnchantment_exclusive_def)

lemma ok_registry_enchantment: "list_all entry_ok registry_enchantment"
  by (simp add: registry_enchantment_def ok_registry_enchantment_1 ok_registry_enchantment_2)

lemmas registries_ok =
  ok_registry_chat_type
  ok_registry_banner_pattern
  ok_registry_trim_pattern
  ok_registry_damage_type
  ok_registry_trim_material
  ok_registry_dimension_type
  ok_registry_biome
  ok_registry_pig_variant
  ok_registry_frog_variant
  ok_registry_cow_variant
  ok_registry_chicken_variant
  ok_registry_wolf_variant
  ok_registry_wolf_sound_variant
  ok_registry_test_environment
  ok_registry_test_instance
  ok_registry_painting_variant
  ok_registry_cat_variant
  ok_registry_instrument
  ok_registry_jukebox_song
  ok_registry_enchantment


lemma set_clearjunk: "set (AList.clearjunk xs) \<subseteq> set xs"
  by (metis AList.graph_map_of map_of_SomeD subsetI surj_pair in_graphD)

lemma list_all_clearjunk: "list_all P xs \<Longrightarrow> list_all P (AList.clearjunk xs)"
  using set_clearjunk [of xs] by (auto simp: list_all_iff)

lemma length_climate: "length (builtinTemperatureMobVariantData ident) \<le> 3"
  unfolding builtinTemperatureMobVariantData_def by (rule order.trans [OF length_clearjunk]) simp

lemma length_clearjunk_less: "length xs < n \<Longrightarrow> length (AList.clearjunk xs) < n"
  using length_clearjunk [of xs] by simp

lemma registries_length:
  "length registry_chat_type < 2 ^ 16"
  "length registry_banner_pattern < 2 ^ 16"
  "length registry_trim_pattern < 2 ^ 16"
  "length registry_damage_type < 2 ^ 16"
  "length registry_trim_material < 2 ^ 16"
  "length registry_dimension_type < 2 ^ 16"
  "length registry_biome < 2 ^ 16"
  "length registry_pig_variant < 2 ^ 16"
  "length registry_frog_variant < 2 ^ 16"
  "length registry_cow_variant < 2 ^ 16"
  "length registry_chicken_variant < 2 ^ 16"
  "length registry_wolf_variant < 2 ^ 16"
  "length registry_wolf_sound_variant < 2 ^ 16"
  "length registry_test_environment < 2 ^ 16"
  "length registry_test_instance < 2 ^ 16"
  "length registry_painting_variant < 2 ^ 16"
  "length registry_cat_variant < 2 ^ 16"
  "length registry_instrument < 2 ^ 16"
  "length registry_jukebox_song < 2 ^ 16"
  "length registry_enchantment < 2 ^ 16"
  by (simp_all add: registry_chat_type_def registry_banner_pattern_def registry_trim_pattern_def registry_damage_type_def registry_trim_material_def registry_dimension_type_def registry_biome_1_def registry_biome_2_def registry_biome_3_def registry_biome_4_def registry_biome_5_def registry_biome_6_def registry_biome_7_def registry_biome_8_def registry_biome_9_def registry_biome_def registry_pig_variant_def registry_frog_variant_def registry_cow_variant_def registry_chicken_variant_def registry_wolf_variant_def registry_wolf_sound_variant_def registry_test_environment_def registry_test_instance_def registry_painting_variant_def registry_cat_variant_def registry_instrument_def registry_jukebox_song_def registry_enchantment_1_def registry_enchantment_2_def registry_enchantment_def le_less_trans [OF length_climate])

lemma g_registries_sizes: "list_all (\<lambda>(name, entries). length name < 2 ^ 10 \<and> length entries < 2 ^ 16) g_registries"
  using registries_length unfolding g_registries_def by (simp add: length_clearjunk_less)

lemma g_registries_entries: "list_all (\<lambda>(name, entries). list_all entry_ok entries) g_registries"
  using registries_ok unfolding g_registries_def by (simp add: list_all_clearjunk)

lemma g_registries_ok:
  assumes "(name, entries) \<in> set g_registries"
  shows "list_all entry_ok entries" "length name < 2 ^ 10" "length entries < 2 ^ 16"
  using g_registries_entries g_registries_sizes assms by (auto simp: list_all_iff)


section \<open>The registry packets\<close>

text \<open>The body of a registry packet as a client reads it: the identifier, and a prefixed array of entries, each a name and
  an optional NBT element.\<close>

definition readRegistryEntry :: "(string \<times> NBTElement option) bb" where
  "readRegistryEntry = bnd readString (\<lambda>key. bnd (readPrefixedOptional readNBT) (\<lambda>v. ret (key, v)))"

definition readNetworkRegistry :: "(Identifier \<times> (string \<times> NBTElement option) list) bb" where
  "readNetworkRegistry = bnd readIdentifier (\<lambda>i. bnd (readPrefixedArray readRegistryEntry) (\<lambda>es. ret (i, es)))"

definition received_entry :: "string \<times> NBTElement \<Rightarrow> string \<times> NBTElement option" where
  "received_entry p = (fst p, Some (nbt_elem True network_settings [] (nbt_abs (snd p))))"

definition nbt_wire :: "NBTElement \<Rightarrow> byte list" where
  "nbt_wire e = byte_of_nbt_type (type_of_nbt (nbt_abs e)) # nbt_payload True (nbt_abs e)"

definition entry_wire :: "string \<times> NBTElement \<Rightarrow> byte list" where
  "entry_wire p = string_bytes (fst p) @ [byte_of_bool True] @ nbt_wire (snd p)"

lemma nbt_abs_compound: "nbt_type e = NBT_Compound \<Longrightarrow> nbt_abs e \<noteq> NEnd"
  by (cases e) simp

lemma appends_entry: "entry_ok p \<Longrightarrow> appends True (case p of (key, v) \<Rightarrow> thn (writeString key) (thn (writeBool True) (writeNBTElement v))) (entry_wire p)"
  unfolding entry_wire_def nbt_wire_def
  by (cases p) (auto simp: entry_ok_def simp del: append.simps dest: nbt_abs_compound intro!: appends_thn appends_writeString appends_writeBool appends_writeNBTElement)

lemma reads_entry:
  assumes "entry_ok p"
  shows "reads True readRegistryEntry (entry_wire p) (received_entry p)"
proof -
  have "reads True readNBT (nbt_wire (snd p)) (nbt_elem True network_settings [] (nbt_abs (snd p)))"
    unfolding nbt_wire_def using assms by (intro reads_readNBT) (auto simp: entry_ok_def nbt_abs_compound)
  then have "reads True (readOptional readNBT True) (nbt_wire (snd p)) (Some (nbt_elem True network_settings [] (nbt_abs (snd p))))"
    by (simp add: readOptional_def reads_bnd_ret)
  then have "reads True (readPrefixedOptional readNBT) ([byte_of_bool True] @ nbt_wire (snd p))
      (Some (nbt_elem True network_settings [] (nbt_abs (snd p))))"
    unfolding readPrefixedOptional_def by (rule reads_bnd [OF reads_readBool])
  then have "reads True (bnd (readPrefixedOptional readNBT) (\<lambda>v. ret (fst p, v))) ([byte_of_bool True] @ nbt_wire (snd p)) (received_entry p)"
    by (rule reads_bnd_ret) (simp add: received_entry_def)
  then show ?thesis unfolding readRegistryEntry_def entry_wire_def
    using assms by (intro reads_bnd [OF reads_readString]) (simp_all add: entry_ok_def)
qed

text \<open>The body of the packet for the registry \<open>minecraft:name\<close>.\<close>

definition registry_wire :: "string \<Rightarrow> (string \<times> NBTElement) list \<Rightarrow> byte list" where
  "registry_wire name es = identifier_bytes (mk_Identifier ''minecraft'' name) @ size_bytes (length es) @ concat (map entry_wire es)"

text \<open>A registry as a loop over the map may visit it: the entries of one of \<open>g_registries\<close> in some order.\<close>

definition visits :: "string \<Rightarrow> (string \<times> NBTElement) list \<Rightarrow> bool" where
  "visits name es \<longleftrightarrow> (\<exists>entries. (name, entries) \<in> set g_registries \<and> mset es = mset entries)"

lemma visits_ok:
  assumes "visits name es"
  shows "p \<in> set es \<Longrightarrow> entry_ok p" "length es < 2 ^ 16" "length name < 2 ^ 10"
    "identifier_ok (mk_Identifier ''minecraft'' name)"
proof -
  obtain entries where e: "(name, entries) \<in> set g_registries" "mset es = mset entries" using assms by (auto simp: visits_def)
  show "p \<in> set es \<Longrightarrow> entry_ok p"
    using g_registries_ok(1) [OF e(1)] unfolding list_all_iff mset_eq_setD [OF e(2)] by blast
  show "length es < 2 ^ 16" "length name < 2 ^ 10"
    using g_registries_ok(2,3) [OF e(1)] by (simp_all add: mset_eq_length [OF e(2)])
  then show "identifier_ok (mk_Identifier ''minecraft'' name)"
    by (simp add: identifier_ok_def mk_Identifier_def Identifier_toString_def)
qed

lemma mc_identifier: "Identifier_of_string (mc name) = Inr (mk_Identifier ''minecraft'' name)"
    "Identifier_toString (mk_Identifier ''minecraft'' name) = mc name"
  by (simp_all add: Identifier_of_string_def string_find_def mc_def mk_Identifier_def Identifier_toString_def)

lemma appends_registry: "visits name es \<Longrightarrow> appends True (getNetworkRegistry es (mk_Identifier ''minecraft'' name)) (registry_wire name es)"
  unfolding getNetworkRegistry_def registry_wire_def
  by (intro appends_thn appends_writeIdentifier appends_size appends_each appends_entry visits_ok)

lemma reads_registry:
  assumes "visits name es"
  shows "reads True readNetworkRegistry (registry_wire name es) (mk_Identifier ''minecraft'' name, map received_entry es)"
proof -
  have "length es < 2 ^ 31" using visits_ok(2) [OF assms] by simp
  then have "reads True (readPrefixedArray readRegistryEntry) (size_bytes (length es) @ concat (map entry_wire es)) (map received_entry es)"
    unfolding readPrefixedArray_def readArray_def
    by (intro reads_size reads_collect reads_entry visits_ok(1) [OF assms])
  then show ?thesis unfolding readNetworkRegistry_def registry_wire_def
    by (rule reads_bnd [OF reads_readIdentifier [OF visits_ok(4) [OF assms]] reads_bnd_ret [OF _ refl]])
qed

lemma length_size_bytes: "length (size_bytes n) \<le> 5"
  using getVarNumericLength_max [of "int_of_size n"] by (simp add: size_bytes_def varNumericMaxSize_def)

lemma length_entry_wire: "entry_ok p \<Longrightarrow> length (entry_wire p) \<le> 8200"
  using length_size_bytes [of "length (fst p)"] by (simp add: entry_ok_def entry_wire_def nbt_wire_def string_bytes_def)

lemma length_registry_wire:
  assumes "visits name es"
  shows "length (registry_wire name es) < 600000000"
proof -
  have "length (concat (map entry_wire es)) \<le> 8200 * length es"
    using visits_ok(1) [OF assms]
  proof (induction es)
    case (Cons p es)
    then show ?case using length_entry_wire [of p] by simp
  qed simp
  then show ?thesis using visits_ok(2,3) [OF assms] length_size_bytes [of "length es"] length_size_bytes [of "length (mc name)"]
    by (simp add: registry_wire_def identifier_bytes_def string_bytes_def mc_identifier mc_def)
qed

text \<open>A client gets every registry of \<open>g_registries\<close> as the server holds it: from the body that
  \<open>getNetworkRegistry\<close> writes, with the entries in any order a loop over the map may visit them, a reader of the packet format gets the
  identifier, and every entry with its name and its NBT tree.\<close>

theorem registries_reach_client:
  assumes "(name, entries) \<in> set g_registries" and "mset es = mset entries"
  shows "\<exists>i b. Identifier_of_string (mc name) = Inr i \<and> Identifier_toString i = mc name
    \<and> bnd (getNetworkRegistry es i) (\<lambda>_. readNetworkRegistry) (new_bb True) = Inr ((i, map received_entry es), b) \<and> bb_unread b = []"
proof -
  have "visits name es" using assms by (auto simp: visits_def)
  from write_read [OF appends_registry [OF this] reads_registry [OF this]] show ?thesis
    using mc_identifier [of name] by blast
qed

theorem registries_reach_client_witness:
  "\<exists>i b. Identifier_toString i = ''minecraft:pig_variant''
    \<and> bnd (getNetworkRegistry (rev (builtinTemperatureMobVariantData ''pig'')) i) (\<lambda>_. readNetworkRegistry) (new_bb True)
        = Inr ((i, map received_entry (rev (builtinTemperatureMobVariantData ''pig''))), b)"
proof -
  have "(''pig_variant'', AList.clearjunk registry_pig_variant) \<in> set g_registries"
    unfolding g_registries_def by simp
  moreover have "AList.clearjunk registry_pig_variant = builtinTemperatureMobVariantData ''pig''"
    unfolding registry_pig_variant_def builtinTemperatureMobVariantData_def by (simp only: AList.clearjunk_idem)
  ultimately show ?thesis
    using registries_reach_client [of "''pig_variant''" "builtinTemperatureMobVariantData ''pig''" "rev (builtinTemperatureMobVariantData ''pig'')"]
    by (auto simp: mc_def)
qed

lemma length_clearjunk_keys: "length (AList.clearjunk xs) = length (remdups (map fst xs))"
proof -
  have "length (AList.clearjunk xs) = card (set (map fst (AList.clearjunk xs)))"
    by (metis AList.distinct_clearjunk distinct_card length_map)
  then show ?thesis by (simp only: AList.clearjunk_keys_set length_remdups_card_conv)
qed

lemma chat_type_keys: "map fst registry_chat_type = [''minecraft:chat'', ''minecraft:emote_command'', ''minecraft:msg_command_incoming'',
    ''minecraft:msg_command_incoming'', ''minecraft:say_command'', ''minecraft:team_msg_command_incoming'', ''minecraft:team_msg_command_outgoing'']"
  by (simp add: registry_chat_type_def builtinChatTypeData_def)

lemma damage_names:
  "fst (builtinDamageType ident x mId a) = ''minecrat:'' @ ident" "fst (builtinDamageEffectType ident x mId e a) = ''minecrat:'' @ ident"
  "fst (builtinDamageMessageType ident x mId e a) = ''minecrat:'' @ ident"
  by (simp_all add: builtinDamageType_def builtinDamageEffectType_def builtinDamageMessageType_def)

lemma damage_types_distinct: "AList.clearjunk registry_damage_type = registry_damage_type"
  by (rule AList.distinct_clearjunk_id) (simp add: registry_damage_type_def damage_names)

lemma damage_types_prefix: "list_all (\<lambda>(key, _). take 9 key = ''minecrat:'') registry_damage_type"
  by (simp add: registry_damage_type_def damage_names case_prod_beta)

text \<open>What the maps hold is not what their initializers say. Two chat types are written under the name
  \<open>msg_command_incoming\<close>: the map keeps the first, the outgoing message has none, and six of the seven chat
  types are there. All damage types are named \<open>minecrat:...\<close>, so a client that looks up \<open>minecraft:...\<close> finds
  none.\<close>

theorem registry_names:
  "\<exists>chat damage. map_of g_registries ''chat_type'' = Some chat \<and> map_of g_registries ''damage_type'' = Some damage
    \<and> length chat = 6 \<and> map_of chat ''minecraft:msg_command_outgoing'' = None
    \<and> length damage = 49 \<and> list_all (\<lambda>(key, _). take 9 key = ''minecrat:'') damage \<and> map_of damage (mc s) = None"
proof (intro exI conjI)
  show "map_of g_registries ''chat_type'' = Some (AList.clearjunk registry_chat_type)"
    "map_of g_registries ''damage_type'' = Some (AList.clearjunk registry_damage_type)"
    by (simp_all add: g_registries_def)
  show "length (AList.clearjunk registry_chat_type) = 6" by (simp add: length_clearjunk_keys chat_type_keys)
  show "map_of (AList.clearjunk registry_chat_type) ''minecraft:msg_command_outgoing'' = None"
    by (simp add: AList.map_of_clearjunk map_of_eq_None_iff flip: set_map) (simp add: chat_type_keys)
  show "length (AList.clearjunk registry_damage_type) = 49" by (simp add: damage_types_distinct) (simp add: registry_damage_type_def)
  show "list_all (\<lambda>(key, _). take 9 key = ''minecrat:'') (AList.clearjunk registry_damage_type)"
    by (simp add: damage_types_distinct damage_types_prefix)
  show "map_of (AList.clearjunk registry_damage_type) (mc s) = None"
    using damage_types_prefix by (fastforce simp: AList.map_of_clearjunk map_of_eq_None_iff list_all_iff mc_def)
qed

text \<open>Optional data is dropped: where a generator means to add an element or two, \<open>(c ? x, y : z)\<close> has the value
  \<open>y\<close>. No painting has an author, no nether biome a particle, no desert its music, and no frozen ocean its
  temperature modifier: for both values of the condition the data are the same.\<close>

theorem optional_data_is_dropped:
  "builtinPainitingData ident width height True = builtinPainitingData ident width height False
   \<and> \<not> nbt_contains_tag ''author'' (snd (builtinPainitingData ident width height hasAuthor))
   \<and> builtinDesertBiomeData ident True = builtinDesertBiomeData ident False
   \<and> builtinOceanBiomeData ident waterColor waterFogColor True = builtinOceanBiomeData ident waterColor waterFogColor False
   \<and> builtinNetherBiomeData ident particleProbability particle = builtinNetherBiomeData ident (- 1) []"
  by (simp add: builtinPainitingData_def nbt_contains_tag_def builtinDesertBiomeData_def builtinOceanBiomeData_def builtinNetherBiomeData_def)

end
