(* ===== verification/Game_Types.thy ===== *)
theory Game_Types
  imports Slots Text_Component
begin

text \<open>
  The values that item components carry (\<open>src/type/GameTypes.cpp\<close>) with their readers in
  \<open>src/type/ByteBuffer.cpp\<close>, and the item components of \<open>DefaultComponents.h\<close>. Every \<open>toBytes\<close> fills a
  fresh big-endian buffer; comparing two values compares these bytes.
\<close>

definition bytes_eq :: "('a \<Rightarrow> zinc_error + byte list) \<Rightarrow> 'a \<Rightarrow> 'a \<Rightarrow> zinc_error + bool" where
  "bytes_eq toBytes a b = ebind (toBytes a) (\<lambda>x. ebind (toBytes b) (\<lambda>y. Inr (x = y)))"

text \<open>\<open>for (int i = 0; i < n; i++)\<close> with a number from the wire.\<close>

definition int_times :: "i32 \<Rightarrow> nat" where
  "int_times n = nat (sint n)"

section \<open>Matchers and properties\<close>

record PartialDataComponentMatcher =
  pm_type :: i32
  pm_predicate :: NBTElement

definition new_PartialDataComponentMatcher :: PartialDataComponentMatcher where
  "new_PartialDataComponentMatcher = \<lparr>pm_type = - 1, pm_predicate = new_NBT default_NBTSettings\<rparr>"

definition matcher_toBytes :: "PartialDataComponentMatcher \<Rightarrow> zinc_error + byte list" where
  "matcher_toBytes m = run_writer (thn (writeVarInt (pm_type m)) (writeNBTElement (pm_predicate m)))"

definition writePartialDataComponentMatcher :: "PartialDataComponentMatcher \<Rightarrow> unit bb" where
  "writePartialDataComponentMatcher m = write_result (matcher_toBytes m)"

definition readPartialDataComponentMatcher :: "PartialDataComponentMatcher bb" where
  "readPartialDataComponentMatcher = bnd readVarInt (\<lambda>t. bnd readNBT (\<lambda>p.
     ret \<lparr>pm_type = t, pm_predicate = p\<rparr>))"

record Property =
  p_name :: string
  p_isExact :: bool
  p_exactValue :: string
  p_minValue :: string
  p_maxValue :: string

definition new_Property :: Property where
  "new_Property = \<lparr>p_name = [], p_isExact = False, p_exactValue = [], p_minValue = [], p_maxValue = []\<rparr>"

definition Property_exact :: "string \<Rightarrow> string \<Rightarrow> Property" where
  "Property_exact name exact = new_Property\<lparr>p_name := name, p_isExact := True, p_exactValue := exact\<rparr>"

definition Property_range :: "string \<Rightarrow> string \<Rightarrow> string \<Rightarrow> Property" where
  "Property_range name minValue maxValue =
     new_Property\<lparr>p_name := name, p_isExact := True, p_minValue := minValue, p_maxValue := maxValue\<rparr>"

definition property_toBytes :: "Property \<Rightarrow> zinc_error + byte list" where
  "property_toBytes p = run_writer (thn (writeString (p_name p)) (thn (writeBool (p_isExact p))
     (if p_isExact p then writeString (p_exactValue p)
      else thn (writeString (p_minValue p)) (writeString (p_maxValue p)))))"

definition writeProperty :: "Property \<Rightarrow> unit bb" where
  "writeProperty p = write_result (property_toBytes p)"

definition readProperty :: "Property bb" where
  "readProperty = bnd readString (\<lambda>name. bnd readBool (\<lambda>isExact.
     if isExact then bnd readString (\<lambda>v. ret (new_Property\<lparr>p_name := name, p_isExact := True, p_exactValue := v\<rparr>))
     else bnd readString (\<lambda>lo. bnd readString (\<lambda>hi.
       ret (new_Property\<lparr>p_name := name, p_isExact := False, p_minValue := lo, p_maxValue := hi\<rparr>)))))"

section \<open>Fireworks and potions\<close>

record FireworkExplosion =
  fe_shape :: Identifier
  fe_colors :: "i32 list"
  fe_fadeColors :: "i32 list"
  fe_hasTrail :: bool
  fe_hasTwinkle :: bool

definition new_FireworkExplosion :: FireworkExplosion where
  "new_FireworkExplosion = \<lparr>fe_shape = default_Identifier, fe_colors = [], fe_fadeColors = [],
     fe_hasTrail = False, fe_hasTwinkle = False\<rparr>"

definition firework_toBytes :: "FireworkExplosion \<Rightarrow> zinc_error + byte list" where
  "firework_toBytes e = run_writer
     (thn (case m_registryData g_fireworkExplosionShapesRegistry (Identifier_toString (fe_shape e)) of
             Some v \<Rightarrow> writeVarInt v
           | None \<Rightarrow> writeVarInt 0)
     (thn (writePrefixedArray writeNumeric (fe_colors e))
     (thn (writePrefixedArray writeNumeric (fe_fadeColors e))
     (thn (writeBool (fe_hasTrail e)) (writeBool (fe_hasTwinkle e))))))"

definition writeFireworkExplosion :: "FireworkExplosion \<Rightarrow> unit bb" where
  "writeFireworkExplosion e = write_result (firework_toBytes e)"

definition readFireworkExplosion :: "string list \<Rightarrow> FireworkExplosion bb" where
  "readFireworkExplosion order = bnd readVarInt (\<lambda>v.
     bnd (lift_result (getIdentifierFromValue order g_fireworkExplosionShapesRegistry v)) (\<lambda>shape.
     bnd (readPrefixedArray readNumeric) (\<lambda>colors. bnd (readPrefixedArray readNumeric) (\<lambda>fadeColors.
     bnd readBool (\<lambda>hasTrail. bnd readBool (\<lambda>hasTwinkle.
       ret \<lparr>fe_shape = shape, fe_colors = colors, fe_fadeColors = fadeColors, fe_hasTrail = hasTrail,
         fe_hasTwinkle = hasTwinkle\<rparr>))))))"

datatype PotionEffectDetail = PotionEffectDetail (pd_amplifier: i32) (pd_duration: i32) (pd_ambient: bool)
  (pd_showParticles: bool) (pd_showIcon: bool) (pd_hiddenEffect: "PotionEffectDetail list")

definition new_PotionEffectDetail :: PotionEffectDetail where
  "new_PotionEffectDetail = PotionEffectDetail 1 30 False False False []"

definition detail_head :: "i32 \<Rightarrow> i32 \<Rightarrow> bool \<Rightarrow> bool \<Rightarrow> bool \<Rightarrow> unit bb" where
  "detail_head amplifier duration ambient showParticles showIcon =
     thn (writeVarInt amplifier) (thn (writeVarInt duration) (thn (writeBool ambient)
       (thn (writeBool showParticles) (writeBool showIcon))))"

fun detail_toBytes :: "PotionEffectDetail \<Rightarrow> zinc_error + byte list" where
  "detail_toBytes (PotionEffectDetail a d am sp si []) =
     run_writer (thn (detail_head a d am sp si) (writeBool False))"
| "detail_toBytes (PotionEffectDetail a d am sp si (hidden # rest)) =
     run_writer (thn (detail_head a d am sp si) (thn (writeBool True) (write_result (detail_toBytes hidden))))"

definition writePotionEffectDetail :: "PotionEffectDetail \<Rightarrow> unit bb" where
  "writePotionEffectDetail d = write_result (detail_toBytes d)"

primrec readPotionEffectDetail :: "nat \<Rightarrow> PotionEffectDetail bb" where
  "readPotionEffectDetail 0 = fail StackExhausted"
| "readPotionEffectDetail (Suc n) =
     bnd readVarInt (\<lambda>a. bnd readVarInt (\<lambda>d. bnd readBool (\<lambda>am. bnd readBool (\<lambda>sp. bnd readBool (\<lambda>si.
     bnd readBool (\<lambda>has.
       if has then bnd (readPotionEffectDetail n) (\<lambda>hidden. ret (PotionEffectDetail a d am sp si [hidden]))
       else ret (PotionEffectDetail a d am sp si [])))))))"

record PotionEffect =
  pe_type :: i32
  pe_detail :: PotionEffectDetail

definition new_PotionEffect :: PotionEffect where
  "new_PotionEffect = \<lparr>pe_type = - 1, pe_detail = new_PotionEffectDetail\<rparr>"

definition effect_toBytes :: "PotionEffect \<Rightarrow> zinc_error + byte list" where
  "effect_toBytes e = run_writer (thn (writeVarInt (pe_type e)) (write_result (detail_toBytes (pe_detail e))))"

definition writePotionEffect :: "PotionEffect \<Rightarrow> unit bb" where
  "writePotionEffect e = write_result (effect_toBytes e)"

definition readPotionEffect :: "nat \<Rightarrow> PotionEffect bb" where
  "readPotionEffect n = bnd readVarInt (\<lambda>t. bnd (readPotionEffectDetail n) (\<lambda>d.
     ret \<lparr>pe_type = t, pe_detail = d\<rparr>))"

section \<open>Armour trims\<close>

record TrimMaterial =
  tm_suffix :: string
  tm_overrides :: "string list list"
  tm_description :: TextComponent

definition new_TrimMaterial :: TrimMaterial where
  "new_TrimMaterial = \<lparr>tm_suffix = [], tm_overrides = [], tm_description = new_TextComponent\<rparr>"

text \<open>An entry that is not a pair is skipped, but counted.\<close>

definition write_override :: "string list \<Rightarrow> unit bb" where
  "write_override overrideValue =
     (if length overrideValue \<noteq> 2 then ret ()
      else thn (bnd (lift_result (Identifier_of_string (overrideValue ! 0))) writeIdentifier)
             (writeString (overrideValue ! 1)))"

definition trimMaterial_toBytes :: "TrimMaterial \<Rightarrow> zinc_error + byte list" where
  "trimMaterial_toBytes m = run_writer
     (thn (writeString (tm_suffix m))
     (thn (writeVarInt (int_of_size (length (tm_overrides m))))
     (thn (each write_override (tm_overrides m)) (writeTextComponent (tm_description m)))))"

definition writeTrimMaterial :: "TrimMaterial \<Rightarrow> unit bb" where
  "writeTrimMaterial m = write_result (trimMaterial_toBytes m)"

definition readTrimMaterial :: "nat \<Rightarrow> TrimMaterial bb" where
  "readTrimMaterial fuel = bnd readString (\<lambda>suffix. bnd readVarInt (\<lambda>n.
     bnd (collect (int_times n) (bnd readIdentifier (\<lambda>i. bnd readString (\<lambda>v. ret [Identifier_toString i, v])))) (\<lambda>overrides.
     bnd (readTextComponent fuel) (\<lambda>description.
       ret \<lparr>tm_suffix = suffix, tm_overrides = overrides, tm_description = description\<rparr>))))"

record TrimPattern =
  tp_asset :: string
  tp_templateItem :: i32
  tp_description :: TextComponent
  tp_decal :: bool

definition new_TrimPattern :: TrimPattern where
  "new_TrimPattern = \<lparr>tp_asset = [], tp_templateItem = - 1, tp_description = new_TextComponent, tp_decal = False\<rparr>"

definition trimPattern_toBytes :: "TrimPattern \<Rightarrow> zinc_error + byte list" where
  "trimPattern_toBytes p = run_writer
     (thn (writeString (tp_asset p)) (thn (writeVarInt (tp_templateItem p))
     (thn (writeTextComponent (tp_description p)) (writeBool (tp_decal p)))))"

definition writeTrimPattern :: "TrimPattern \<Rightarrow> unit bb" where
  "writeTrimPattern p = write_result (trimPattern_toBytes p)"

definition readTrimPattern :: "nat \<Rightarrow> TrimPattern bb" where
  "readTrimPattern fuel = bnd readString (\<lambda>asset. bnd readVarInt (\<lambda>item. bnd (readTextComponent fuel) (\<lambda>description.
     bnd readBool (\<lambda>decal.
       ret \<lparr>tp_asset = asset, tp_templateItem = item, tp_description = description, tp_decal = decal\<rparr>))))"

section \<open>Consume effects\<close>

record ConsumeEffectData =
  ced_effects :: "PotionEffect list"
  ced_probability :: "i32 option"
  ced_effectsRemove :: IDSet
  ced_diameter :: "i32 option"
  ced_sound :: SoundEvent
  ced_customData :: "byte list"

text \<open>A \<open>ConsumeEffect\<close> has the members of its data behind its type; \<open>toBytes\<close> copies them into one.\<close>

record ConsumeEffect =
  ce_type :: Identifier
  ce_data :: ConsumeEffectData

definition new_ConsumeEffectData :: ConsumeEffectData where
  "new_ConsumeEffectData = \<lparr>ced_effects = [], ced_probability = None, ced_effectsRemove = IDSet_new,
     ced_diameter = None, ced_sound = default_SoundEvent, ced_customData = []\<rparr>"

definition mk_ConsumeEffect :: "string \<Rightarrow> ConsumeEffectData \<Rightarrow> ConsumeEffect" where
  "mk_ConsumeEffect t data = \<lparr>ce_type = mk_Identifier ''minecraft'' t, ce_data = data\<rparr>"

definition new_ConsumeEffect :: ConsumeEffect where
  "new_ConsumeEffect = mk_ConsumeEffect ''clear_effects'' new_ConsumeEffectData"

definition apply_effects :: "PotionEffect list \<Rightarrow> i32 \<Rightarrow> ConsumeEffect" where
  "apply_effects effects probability = mk_ConsumeEffect ''apply_effects''
     (new_ConsumeEffectData\<lparr>ced_effects := effects, ced_probability := Some probability\<rparr>)"

definition remove_effects :: "IDSet \<Rightarrow> ConsumeEffect" where
  "remove_effects effects = mk_ConsumeEffect ''remove_effects'' (new_ConsumeEffectData\<lparr>ced_effectsRemove := effects\<rparr>)"

definition teleport_randomly :: "i32 \<Rightarrow> ConsumeEffect" where
  "teleport_randomly diameter = mk_ConsumeEffect ''teleport_randomly'' (new_ConsumeEffectData\<lparr>ced_diameter := Some diameter\<rparr>)"

definition play_sound :: "SoundEvent \<Rightarrow> ConsumeEffect" where
  "play_sound sound = mk_ConsumeEffect ''play_sound'' (new_ConsumeEffectData\<lparr>ced_sound := sound\<rparr>)"

definition consume_effect_writers :: "(string \<times> (ConsumeEffectData \<Rightarrow> zinc_error + byte list)) list" where
  "consume_effect_writers =
     [(mc ''apply_effects'', \<lambda>data. run_writer
        (thn (each (\<lambda>effect. write_result (effect_toBytes effect)) (ced_effects data)) (write_float (ced_probability data)))),
      (mc ''remove_effects'', \<lambda>data. run_writer (writeIDSet (ced_effectsRemove data))),
      (mc ''clear_effects'', \<lambda>_. Inr []),
      (mc ''teleport_randomly'', \<lambda>data. run_writer (write_float (ced_diameter data))),
      (mc ''play_sound'', \<lambda>data. run_writer (writeSoundEvent (ced_sound data)))]"

definition consume_effect_readers :: "(string \<times> ConsumeEffectData bb) list" where
  "consume_effect_readers =
     [(mc ''apply_effects'', ret new_ConsumeEffectData),
      (mc ''remove_effects'', bnd readIDSet (\<lambda>s. ret (new_ConsumeEffectData\<lparr>ced_effectsRemove := s\<rparr>))),
      (mc ''clear_effects'', ret new_ConsumeEffectData),
      (mc ''teleport_randomly'', bnd readNumeric (\<lambda>d. ret (new_ConsumeEffectData\<lparr>ced_diameter := Some d\<rparr>))),
      (mc ''play_sound'', bnd readSoundEvent (\<lambda>s. ret (new_ConsumeEffectData\<lparr>ced_sound := s\<rparr>)))]"

definition g_consumeEffectRegistry :: "ConsumeEffectData Registry" where
  "g_consumeEffectRegistry = Registry_new
     [(mc ''apply_effects'', 0), (mc ''remove_effects'', 1), (mc ''clear_effects'', 2),
      (mc ''teleport_randomly'', 3), (mc ''play_sound'', 4)]
     consume_effect_writers consume_effect_readers (mk_Identifier ''minecraft'' ''clear_effects'')"

definition consumeEffect_toBytes :: "ConsumeEffect \<Rightarrow> zinc_error + byte list" where
  "consumeEffect_toBytes e =
     fst (registry_encode (Identifier_toString (ce_type e)) (ce_data e) g_consumeEffectRegistry)"

definition writeConsumeEffect :: "ConsumeEffect \<Rightarrow> unit bb" where
  "writeConsumeEffect e = write_result (consumeEffect_toBytes e)"

definition readConsumeEffect :: "string list \<Rightarrow> ConsumeEffect bb" where
  "readConsumeEffect order = bnd (registry_decode order g_consumeEffectRegistry) (\<lambda>(i, data).
     ret \<lparr>ce_type = i, ce_data = data\<rparr>)"

section \<open>Instruments and juke boxes\<close>

record Instrument =
  in_soundEvent :: "SoundEvent IDorX"
  in_soundRange :: i32
  in_range :: i32
  in_description :: TextComponent

text \<open>The bit pattern of \<open>-1.0f\<close>.\<close>

definition float_minus_one :: i32 where
  "float_minus_one = 0xBF800000"

definition new_Instrument :: Instrument where
  "new_Instrument = \<lparr>in_soundEvent = IDorX_new, in_soundRange = float_minus_one, in_range = float_minus_one,
     in_description = new_TextComponent\<rparr>"

definition instrument_toBytes :: "Instrument \<Rightarrow> zinc_error + byte list" where
  "instrument_toBytes i = run_writer
     (thn (writeIDorX default_SoundEvent writeSoundEvent (in_soundEvent i))
     (thn (writeNumeric (in_soundRange i)) (thn (writeNumeric (in_range i)) (writeTextComponent (in_description i)))))"

definition writeInstrument :: "Instrument \<Rightarrow> unit bb" where
  "writeInstrument i = write_result (instrument_toBytes i)"

definition readInstrument :: "nat \<Rightarrow> Instrument bb" where
  "readInstrument fuel = bnd (readIDorX readSoundEvent) (\<lambda>s. bnd readNumeric (\<lambda>soundRange. bnd readNumeric (\<lambda>range.
     bnd (readTextComponent fuel) (\<lambda>description.
       ret \<lparr>in_soundEvent = s, in_soundRange = soundRange, in_range = range, in_description = description\<rparr>))))"

record JukeBox =
  jb_soundEvent :: "SoundEvent IDorX"
  jb_description :: TextComponent
  jb_duration :: i32
  jb_output :: i32

definition new_JukeBox :: JukeBox where
  "new_JukeBox = \<lparr>jb_soundEvent = IDorX_new, jb_description = new_TextComponent, jb_duration = float_minus_one,
     jb_output = - 1\<rparr>"

definition jukeBox_toBytes :: "JukeBox \<Rightarrow> zinc_error + byte list" where
  "jukeBox_toBytes j = run_writer
     (thn (writeIDorX default_SoundEvent writeSoundEvent (jb_soundEvent j))
     (thn (writeTextComponent (jb_description j)) (thn (writeNumeric (jb_duration j)) (writeVarInt (jb_output j)))))"

definition writeJukeBox :: "JukeBox \<Rightarrow> unit bb" where
  "writeJukeBox j = write_result (jukeBox_toBytes j)"

definition readJukeBox :: "nat \<Rightarrow> JukeBox bb" where
  "readJukeBox fuel = bnd (readIDorX readSoundEvent) (\<lambda>s. bnd (readTextComponent fuel) (\<lambda>description.
     bnd readNumeric (\<lambda>duration. bnd readVarInt (\<lambda>output.
       ret \<lparr>jb_soundEvent = s, jb_description = description, jb_duration = duration, jb_output = output\<rparr>))))"

section \<open>Block predicates\<close>

record BlockPredicate =
  bp_blocks :: "IDSet option"
  bp_properties :: "Property list option"
  bp_NBT :: "NBTElement option"
  bp_dataComponents :: "byte list list"
  bp_partialDataComponents :: "PartialDataComponentMatcher list"

definition new_BlockPredicate :: BlockPredicate where
  "new_BlockPredicate = \<lparr>bp_blocks = None, bp_properties = None, bp_NBT = None, bp_dataComponents = [],
     bp_partialDataComponents = []\<rparr>"

definition blockPredicate_toBytes :: "BlockPredicate \<Rightarrow> zinc_error + byte list" where
  "blockPredicate_toBytes p = run_writer
     (thn (writePrefixedOptional writeIDSet (bp_blocks p))
     (thn (writeBool (bp_properties p \<noteq> None))
     (thn (case bp_properties p of
             None \<Rightarrow> ret ()
           | Some ps \<Rightarrow> thn (writeVarInt (int_of_size (length ps))) (each (\<lambda>q. write_result (property_toBytes q)) ps))
     (thn (writePrefixedOptional writeNBTElement (bp_NBT p))
     (thn (writeVarInt (int_of_size (length (bp_dataComponents p))))
     (thn (each writeByteArray (bp_dataComponents p))
     (thn (writeVarInt (int_of_size (length (bp_partialDataComponents p))))
          (each (\<lambda>c. write_result (matcher_toBytes c)) (bp_partialDataComponents p)))))))))"

definition writeBlockPredicate :: "BlockPredicate \<Rightarrow> unit bb" where
  "writeBlockPredicate p = write_result (blockPredicate_toBytes p)"

section \<open>Item components\<close>

text \<open>
  \<open>encode\<close> returns a buffer; here the action that fills it. The numbers are those of \<open>ComponentTypes\<close>.
  The constructor of \<open>DamageComponent\<close> initialises its member with itself, whatever its argument.
\<close>

datatype ItemComponent =
    CustomDataComponent NBTElement
  | MaxStackSizeComponent i32
  | MaxDamageComponent i32
  | DamageComponent "i32 option"
  | UnbreakableComponent
  | CustomNameComponent TextComponent
  | ItemNameComponent TextComponent
  | ItemModelComponent Identifier

definition new_MaxStackSizeComponent :: ItemComponent where
  "new_MaxStackSizeComponent = MaxStackSizeComponent 64"

definition new_MaxDamageComponent :: ItemComponent where
  "new_MaxDamageComponent = MaxDamageComponent 0"

definition new_DamageComponent :: ItemComponent where
  "new_DamageComponent = DamageComponent (Some 0)"

definition mk_DamageComponent :: "i32 \<Rightarrow> ItemComponent" where
  "mk_DamageComponent damage = DamageComponent None"

definition new_CustomDataComponent :: ItemComponent where
  "new_CustomDataComponent = CustomDataComponent (mk_Compound [] default_NBTSettings)"

fun component_encode :: "ItemComponent \<Rightarrow> unit bb" where
  "component_encode (CustomDataComponent data) = thn (writeVarInt 0) (writeNBTElement data)"
| "component_encode (MaxStackSizeComponent n) = thn (writeVarInt 1) (writeVarInt n)"
| "component_encode (MaxDamageComponent n) = thn (writeVarInt 2) (writeVarInt n)"
| "component_encode (DamageComponent n) = thn (writeVarInt 3) (write_int n)"
| "component_encode UnbreakableComponent = writeVarInt 4"
| "component_encode (CustomNameComponent name) = thn (writeVarInt 5) (writeTextComponent name)"
| "component_encode (ItemNameComponent name) = thn (writeVarInt 6) (writeTextComponent name)"
| "component_encode (ItemModelComponent model) = thn (writeVarInt 7) (writeIdentifier model)"

definition custom_data_toNBT :: "NBTElement \<Rightarrow> NBTElement" where
  "custom_data_toNBT data = with_tag (mc ''custom_data'') data"

section \<open>Potion effects on the wire\<close>

text \<open>Only the first hidden effect is sent: \<open>sent_detail\<close> is a detail without the others.\<close>

fun sent_detail :: "PotionEffectDetail \<Rightarrow> PotionEffectDetail" where
  "sent_detail (PotionEffectDetail a d am sp si []) = PotionEffectDetail a d am sp si []"
| "sent_detail (PotionEffectDetail a d am sp si (hidden # rest)) = PotionEffectDetail a d am sp si [sent_detail hidden]"

fun detail_depth :: "PotionEffectDetail \<Rightarrow> nat" where
  "detail_depth (PotionEffectDetail a d am sp si []) = 1"
| "detail_depth (PotionEffectDetail a d am sp si (hidden # rest)) = Suc (detail_depth hidden)"

definition head_bytes :: "i32 \<Rightarrow> i32 \<Rightarrow> bool \<Rightarrow> bool \<Rightarrow> bool \<Rightarrow> byte list" where
  "head_bytes a d am sp si = var_bytes a @ var_bytes d @ [byte_of_bool am] @ [byte_of_bool sp] @ [byte_of_bool si]"

fun detail_bytes :: "PotionEffectDetail \<Rightarrow> byte list" where
  "detail_bytes (PotionEffectDetail a d am sp si []) = head_bytes a d am sp si @ [0]"
| "detail_bytes (PotionEffectDetail a d am sp si (hidden # rest)) = head_bytes a d am sp si @ [1] @ detail_bytes hidden"

lemma appends_detail_head: "appends be (detail_head a d am sp si) (head_bytes a d am sp si)"
  unfolding detail_head_def head_bytes_def by (intro appends_intros)

lemma detail_toBytes_eq: "detail_toBytes d = Inr (detail_bytes d)"
proof (induction d rule: detail_toBytes.induct)
  case (1 a d am sp si)
  show ?case using run_writer_appends [OF appends_thn [OF appends_detail_head appends_writeBool]]
    by (simp add: byte_of_bool_def)
next
  case (2 a d am sp si hidden rest)
  show ?case using run_writer_appends [OF appends_thn [OF appends_detail_head appends_thn [OF appends_writeBool appends_write_result [OF 2]]]]
    by (simp add: byte_of_bool_def)
qed

lemma reads_detail: "detail_depth d \<le> n \<Longrightarrow> reads be (readPotionEffectDetail n) (detail_bytes d) (sent_detail d)"
proof (induction d arbitrary: n rule: detail_bytes.induct)
  case (1 a d am sp si)
  then obtain m where n: "n = Suc m" by (cases n) auto
  have "reads be (readPotionEffectDetail n) (var_bytes a @ var_bytes d @ [byte_of_bool am] @ [byte_of_bool sp]
      @ [byte_of_bool si] @ [byte_of_bool False] @ []) (PotionEffectDetail a d am sp si [])"
    unfolding n readPotionEffectDetail.simps
    by (rule reads_bnd [OF reads_readVarNumeric] reads_bnd [OF reads_readBool])+ (simp add: reads_ret)
  then show ?case by (simp add: head_bytes_def byte_of_bool_def)
next
  case (2 a d am sp si hidden rest)
  then obtain m where n: "n = Suc m" by (cases n) auto
  with 2 have hidden: "reads be (readPotionEffectDetail m) (detail_bytes hidden) (sent_detail hidden)" by simp
  have "reads be (readPotionEffectDetail n) (var_bytes a @ var_bytes d @ [byte_of_bool am] @ [byte_of_bool sp]
      @ [byte_of_bool si] @ [byte_of_bool True] @ detail_bytes hidden) (PotionEffectDetail a d am sp si [sent_detail hidden])"
    unfolding n readPotionEffectDetail.simps
    by (rule reads_bnd [OF reads_readVarNumeric] reads_bnd [OF reads_readBool])+
      (simp add: reads_bnd_ret [OF hidden])
  then show ?case by (simp add: head_bytes_def byte_of_bool_def)
qed

section \<open>Properties\<close>

text \<open>A potion effect with a chain of hidden effects of any length survives the wire, except that of several
  hidden effects on one level only the first is sent.\<close>

theorem potion_effect_round_trip:
  assumes "detail_depth (pe_detail e) \<le> n"
  shows "\<exists>b. bnd (writePotionEffect e) (\<lambda>_. readPotionEffect n) (new_bb be) = Inr (e\<lparr>pe_detail := sent_detail (pe_detail e)\<rparr>, b)
    \<and> bb_unread b = []"
proof -
  let ?bytes = "var_bytes (pe_type e) @ detail_bytes (pe_detail e)"
  have "appends True (thn (writeVarInt (pe_type e)) (write_result (detail_toBytes (pe_detail e)))) ?bytes"
    by (intro appends_intros appends_write_result detail_toBytes_eq)
  then have w: "appends be (writePotionEffect e) ?bytes"
    unfolding writePotionEffect_def effect_toBytes_def by (intro appends_write_result run_writer_appends)
  have "reads be (readPotionEffect n) ?bytes \<lparr>pe_type = pe_type e, pe_detail = sent_detail (pe_detail e)\<rparr>"
    unfolding readPotionEffect_def
    by (rule reads_bnd [OF reads_readVarNumeric reads_bnd_ret [OF reads_detail [OF assms]]]) simp
  with write_read [OF w this] show ?thesis by (cases e) auto
qed

theorem potion_effect_round_trip_witness:
  "\<exists>b. bnd (writePotionEffect \<lparr>pe_type = 3, pe_detail = PotionEffectDetail 2 600 True True False [new_PotionEffectDetail]\<rparr>)
      (\<lambda>_. readPotionEffect 2) (new_bb True)
    = Inr (\<lparr>pe_type = 3, pe_detail = PotionEffectDetail 2 600 True True False [new_PotionEffectDetail]\<rparr>, b) \<and> bb_unread b = []"
  using potion_effect_round_trip [of "\<lparr>pe_type = 3, pe_detail = PotionEffectDetail 2 600 True True False [new_PotionEffectDetail]\<rparr>" 2 True]
  by (simp add: new_PotionEffectDetail_def)

text \<open>A block property made with the constructor for a range is marked exact: on the wire its minimum and
  maximum are gone and it arrives as the exact property with an empty value.\<close>

theorem property_range_is_lost:
  assumes "length name < 2 ^ 31"
  shows "\<exists>b. bnd (writeProperty (Property_range name lo hi)) (\<lambda>_. readProperty) (new_bb be) = Inr (Property_exact name [], b)
    \<and> bb_unread b = []"
proof -
  let ?bytes = "string_bytes name @ [byte_of_bool True] @ string_bytes []"
  have "appends True (thn (writeString name) (thn (writeBool True) (writeString []))) ?bytes" by (intro appends_intros)
  then have w: "appends be (writeProperty (Property_range name lo hi)) ?bytes"
    unfolding writeProperty_def property_toBytes_def
    by (intro appends_write_result run_writer_appends) (simp add: Property_range_def new_Property_def)
  have "reads be (bnd readString (\<lambda>v. ret (new_Property\<lparr>p_name := name, p_isExact := True, p_exactValue := v\<rparr>)))
      (string_bytes []) (Property_exact name [])"
    by (rule reads_bnd_ret [OF reads_readString]) (simp_all add: Property_exact_def)
  then have "reads be readProperty ?bytes (Property_exact name [])"
    unfolding readProperty_def by (intro reads_bnd [OF reads_readString [OF assms]] reads_bnd [OF reads_readBool]) simp
  from write_read [OF w this] show ?thesis by blast
qed

theorem property_range_is_lost_witness:
  "\<exists>b. bnd (writeProperty (Property_range ''age'' ''1'' ''3'')) (\<lambda>_. readProperty) (new_bb True) = Inr (Property_exact ''age'' [], b)
    \<and> bb_unread b = []"
  by (rule property_range_is_lost) simp

end
