(* ===== verification/Game_Comparisons.thy ===== *)
theory Game_Comparisons
  imports Game_Types
begin

text \<open>
  The comparisons of \<open>src/type/GameTypes.cpp\<close>, over the bytes of \<open>toBytes\<close>, and what they distinguish.
\<close>

section \<open>Comparisons\<close>

text \<open>\<open>operator!=\<close> is \<open>!operator==\<close>. Two values are equal when they are sent as the same bytes.\<close>

definition bytes_ne :: "('a \<Rightarrow> zinc_error + byte list) \<Rightarrow> 'a \<Rightarrow> 'a \<Rightarrow> zinc_error + bool" where
  "bytes_ne toBytes a b = map_sum id Not (bytes_eq toBytes a b)"

definition matcher_eq :: "PartialDataComponentMatcher \<Rightarrow> PartialDataComponentMatcher \<Rightarrow> zinc_error + bool" where
  "matcher_eq = bytes_eq matcher_toBytes"

definition matcher_ne :: "PartialDataComponentMatcher \<Rightarrow> PartialDataComponentMatcher \<Rightarrow> zinc_error + bool" where
  "matcher_ne = bytes_ne matcher_toBytes"

definition property_eq :: "Property \<Rightarrow> Property \<Rightarrow> zinc_error + bool" where
  "property_eq = bytes_eq property_toBytes"

definition property_ne :: "Property \<Rightarrow> Property \<Rightarrow> zinc_error + bool" where
  "property_ne = bytes_ne property_toBytes"

definition firework_eq :: "FireworkExplosion \<Rightarrow> FireworkExplosion \<Rightarrow> zinc_error + bool" where
  "firework_eq = bytes_eq firework_toBytes"

definition firework_ne :: "FireworkExplosion \<Rightarrow> FireworkExplosion \<Rightarrow> zinc_error + bool" where
  "firework_ne = bytes_ne firework_toBytes"

definition detail_eq :: "PotionEffectDetail \<Rightarrow> PotionEffectDetail \<Rightarrow> zinc_error + bool" where
  "detail_eq = bytes_eq detail_toBytes"

definition detail_ne :: "PotionEffectDetail \<Rightarrow> PotionEffectDetail \<Rightarrow> zinc_error + bool" where
  "detail_ne = bytes_ne detail_toBytes"

definition effect_eq :: "PotionEffect \<Rightarrow> PotionEffect \<Rightarrow> zinc_error + bool" where
  "effect_eq = bytes_eq effect_toBytes"

definition effect_ne :: "PotionEffect \<Rightarrow> PotionEffect \<Rightarrow> zinc_error + bool" where
  "effect_ne = bytes_ne effect_toBytes"

definition trimMaterial_eq :: "TrimMaterial \<Rightarrow> TrimMaterial \<Rightarrow> zinc_error + bool" where
  "trimMaterial_eq = bytes_eq trimMaterial_toBytes"

definition trimMaterial_ne :: "TrimMaterial \<Rightarrow> TrimMaterial \<Rightarrow> zinc_error + bool" where
  "trimMaterial_ne = bytes_ne trimMaterial_toBytes"

definition trimPattern_eq :: "TrimPattern \<Rightarrow> TrimPattern \<Rightarrow> zinc_error + bool" where
  "trimPattern_eq = bytes_eq trimPattern_toBytes"

definition trimPattern_ne :: "TrimPattern \<Rightarrow> TrimPattern \<Rightarrow> zinc_error + bool" where
  "trimPattern_ne = bytes_ne trimPattern_toBytes"

definition consumeEffect_eq :: "ConsumeEffect \<Rightarrow> ConsumeEffect \<Rightarrow> zinc_error + bool" where
  "consumeEffect_eq = bytes_eq consumeEffect_toBytes"

definition consumeEffect_ne :: "ConsumeEffect \<Rightarrow> ConsumeEffect \<Rightarrow> zinc_error + bool" where
  "consumeEffect_ne = bytes_ne consumeEffect_toBytes"

definition instrument_eq :: "Instrument \<Rightarrow> Instrument \<Rightarrow> zinc_error + bool" where
  "instrument_eq = bytes_eq instrument_toBytes"

definition instrument_ne :: "Instrument \<Rightarrow> Instrument \<Rightarrow> zinc_error + bool" where
  "instrument_ne = bytes_ne instrument_toBytes"

definition jukeBox_eq :: "JukeBox \<Rightarrow> JukeBox \<Rightarrow> zinc_error + bool" where
  "jukeBox_eq = bytes_eq jukeBox_toBytes"

definition jukeBox_ne :: "JukeBox \<Rightarrow> JukeBox \<Rightarrow> zinc_error + bool" where
  "jukeBox_ne = bytes_ne jukeBox_toBytes"

definition blockPredicate_eq :: "BlockPredicate \<Rightarrow> BlockPredicate \<Rightarrow> zinc_error + bool" where
  "blockPredicate_eq = bytes_eq blockPredicate_toBytes"

definition blockPredicate_ne :: "BlockPredicate \<Rightarrow> BlockPredicate \<Rightarrow> zinc_error + bool" where
  "blockPredicate_ne = bytes_ne blockPredicate_toBytes"

text \<open>What a reader recovers decides a comparison.\<close>

lemma bytes_eq_by_reading:
  assumes "toBytes a = Inr xs" and "toBytes b = Inr ys" and "reads True f xs x" and "reads True f ys y" and "x = y \<Longrightarrow> xs = ys"
  shows "bytes_eq toBytes a b = Inr (x = y)"
proof -
  have "x = y" if "xs = ys"
  proof -
    have "appends True (writeBytes xs) xs" by (rule appends_writeBytes)
    from write_read [OF this assms(3)] write_read [OF this] assms(4) that show ?thesis by fastforce
  qed
  with assms(5) have "(xs = ys) = (x = y)" by blast
  then show ?thesis by (simp add: bytes_eq_def assms(1,2) ebind_def)
qed

lemma detail_bytes_sent: "detail_bytes (sent_detail d) = detail_bytes d"
  by (induction d rule: sent_detail.induct) simp_all

text \<open>Two potion effects are equal when they are the same but for the hidden effects that are not sent.\<close>

theorem potion_details_compare: "detail_eq d d' = Inr (sent_detail d = sent_detail d')"
  unfolding detail_eq_def
proof (rule bytes_eq_by_reading [where toBytes = detail_toBytes, OF detail_toBytes_eq detail_toBytes_eq])
  let ?n = "max (detail_depth d) (detail_depth d')"
  show "reads True (readPotionEffectDetail ?n) (detail_bytes d) (sent_detail d)"
    "reads True (readPotionEffectDetail ?n) (detail_bytes d') (sent_detail d')" by (rule reads_detail; simp)+
qed (metis detail_bytes_sent)

text \<open>All ranges of a property are equal, and all explosions with a shape that the registry does not have.\<close>

lemma ranges_are_equal: "property_eq (Property_range name a b) (Property_range name c d) = Inr True"
proof -
  have "appends True (thn (writeString name) (thn (writeBool True) (writeString []))) (string_bytes name @ [byte_of_bool True] @ string_bytes [])"
    by (intro appends_intros)
  from run_writer_appends [OF this] show ?thesis
    by (simp add: property_eq_def bytes_eq_def property_toBytes_def Property_range_def new_Property_def ebind_def)
qed

lemma unknown_shapes_are_equal:
  assumes "m_registryData g_fireworkExplosionShapesRegistry (Identifier_toString s) = None"
    and "m_registryData g_fireworkExplosionShapesRegistry (Identifier_toString t) = None"
  shows "firework_toBytes (e\<lparr>fe_shape := s\<rparr>) = firework_toBytes (e\<lparr>fe_shape := t\<rparr>)"
  using assms by (simp add: firework_toBytes_def)

end
