(* ===== verification/Chunk_Data.thy ===== *)
theory Chunk_Data
  imports Game_Types
begin

text \<open>
  Chat types, the light of a chunk and a chunk (\<open>src/type/ChatType.cpp\<close>, \<open>src/type/LightData.cpp\<close>,
  \<open>inc/type/ChunkData.h\<close>) with their wire forms in \<open>src/type/ByteBuffer.cpp\<close>.
\<close>

section \<open>Chat types\<close>

text \<open>A parameter is its number: the reader casts any number to the enumeration.\<close>

record ChatTypeDecoration =
  cd_translationKey :: string
  cd_parameters :: "i32 list"
  cd_style :: NBTElement

record ChatType =
  ct_chat :: ChatTypeDecoration
  ct_narration :: ChatTypeDecoration

definition Parameter_Sender :: i32 where "Parameter_Sender = 0"
definition Parameter_Target :: i32 where "Parameter_Target = 1"
definition Parameter_Content :: i32 where "Parameter_Content = 2"

definition ChatTypeDecoration_eq :: "ChatTypeDecoration \<Rightarrow> ChatTypeDecoration \<Rightarrow> bool" where
  "ChatTypeDecoration_eq a b \<longleftrightarrow> cd_translationKey a = cd_translationKey b \<and> cd_parameters a = cd_parameters b
     \<and> nbt_eq (cd_style a) (cd_style b)"

definition ChatType_eq :: "ChatType \<Rightarrow> ChatType \<Rightarrow> bool" where
  "ChatType_eq a b \<longleftrightarrow> ChatTypeDecoration_eq (ct_narration a) (ct_narration b) \<and> ChatTypeDecoration_eq (ct_chat a) (ct_chat b)"

definition writeChatType :: "ChatType \<Rightarrow> unit bb" where
  "writeChatType c =
     thn (writeString (cd_translationKey (ct_chat c)))
    (thn (writePrefixedArray writeVarInt (cd_parameters (ct_chat c)))
    (thn (writeNBTElement (cd_style (ct_chat c)))
    (thn (writeString (cd_translationKey (ct_narration c)))
    (thn (writePrefixedArray writeVarInt (cd_parameters (ct_chat c)))
         (writeNBTElement (cd_style (ct_narration c)))))))"

definition readChatType :: "ChatType bb" where
  "readChatType =
     bnd readString (\<lambda>k1. bnd (readPrefixedArray readVarInt) (\<lambda>p1. bnd readNBT (\<lambda>s1.
     bnd readString (\<lambda>k2. bnd (readPrefixedArray readVarInt) (\<lambda>p2. bnd readNBT (\<lambda>s2.
       ret \<lparr>ct_chat = \<lparr>cd_translationKey = k1, cd_parameters = p1, cd_style = s1\<rparr>,
         ct_narration = \<lparr>cd_translationKey = k2, cd_parameters = p2, cd_style = s2\<rparr>\<rparr>))))))"

section \<open>Light\<close>

record LightData =
  ld_skyLightMask :: BitSet
  ld_blockLightMask :: BitSet
  ld_emptySkyLightMask :: BitSet
  ld_emptyBlockLightMask :: BitSet
  ld_skyLightArrays :: "byte list list"
  ld_blockLightArrays :: "byte list list"

definition new_LightData :: LightData where
  "new_LightData = \<lparr>ld_skyLightMask = new_BitSet, ld_blockLightMask = new_BitSet, ld_emptySkyLightMask = new_BitSet,
     ld_emptyBlockLightMask = new_BitSet, ld_skyLightArrays = [], ld_blockLightArrays = []\<rparr>"

definition lightData_toBytes :: "LightData \<Rightarrow> zinc_error + byte list" where
  "lightData_toBytes d = run_writer
     (thn (writeBitSet (ld_skyLightMask d)) (thn (writeBitSet (ld_blockLightMask d))
     (thn (writeBitSet (ld_emptySkyLightMask d)) (thn (writeBitSet (ld_emptyBlockLightMask d))
     (thn (writePrefixedArray writePrefixedByteArray (ld_skyLightArrays d))
          (writePrefixedArray writePrefixedByteArray (ld_blockLightArrays d)))))))"

definition LightData_eq :: "LightData \<Rightarrow> LightData \<Rightarrow> zinc_error + bool" where
  "LightData_eq a b = bytes_eq lightData_toBytes b a"

text \<open>\<open>operator!=\<close> has the body of \<open>operator==\<close>.\<close>

definition LightData_ne :: "LightData \<Rightarrow> LightData \<Rightarrow> zinc_error + bool" where
  "LightData_ne a b = bytes_eq lightData_toBytes b a"

definition writeLightData :: "LightData \<Rightarrow> unit bb" where
  "writeLightData d = write_result (lightData_toBytes d)"

definition readLightData :: "LightData bb" where
  "readLightData =
     bnd readBitSet (\<lambda>sky. bnd readBitSet (\<lambda>block. bnd readBitSet (\<lambda>emptySky. bnd readBitSet (\<lambda>emptyBlock.
     bnd (readPrefixedArray readPrefixedByteArray) (\<lambda>skyArrays. bnd (readPrefixedArray readPrefixedByteArray) (\<lambda>blockArrays.
       ret \<lparr>ld_skyLightMask = sky, ld_blockLightMask = block, ld_emptySkyLightMask = emptySky,
         ld_emptyBlockLightMask = emptyBlock, ld_skyLightArrays = skyArrays, ld_blockLightArrays = blockArrays\<rparr>))))))"

section \<open>Chunks\<close>

record ChunkDataHeightMap =
  hm_type :: i32
  hm_data :: "i64 list"

record ChunkDataBlockEntity =
  be_x :: byte
  be_z :: byte
  be_y :: i16
  be_type :: i32
  be_data :: NBTElement

record ChunkData =
  ch_heightMaps :: "ChunkDataHeightMap list"
  ch_data :: "byte list"
  ch_blockEntities :: "ChunkDataBlockEntity list"

text \<open>The coordinates are promoted to \<open>int\<close>, masked and packed, and the result is cast to a byte.\<close>

definition pack_xz :: "byte \<Rightarrow> byte \<Rightarrow> byte" where
  "pack_xz x z = ucast (push_bit 4 ((ucast x :: i32) AND 15) OR ((ucast z :: i32) AND 15))"

definition writeChunkData :: "ChunkData \<Rightarrow> unit bb" where
  "writeChunkData d =
     thn (writeVarInt (int_of_size (length (ch_heightMaps d))))
    (thn (each (\<lambda>m. thn (writeVarInt (hm_type m)) (writePrefixedArray writeNumeric (hm_data m))) (ch_heightMaps d))
    (thn (writePrefixedByteArray (ch_data d))
    (thn (writeVarInt (int_of_size (length (ch_blockEntities d))))
         (each (\<lambda>e. thn (writeUnsignedByte (pack_xz (be_x e) (be_z e)))
            (thn (writeNumeric (be_y e)) (thn (writeVarInt (be_type e)) (writeNBTElement (be_data e)))))
          (ch_blockEntities d)))))"

definition read_height_map :: "ChunkDataHeightMap bb" where
  "read_height_map = bnd readVarInt (\<lambda>t. bnd (readPrefixedArray readNumeric) (\<lambda>longs. ret \<lparr>hm_type = t, hm_data = longs\<rparr>))"

definition read_block_entity :: "ChunkDataBlockEntity bb" where
  "read_block_entity = bnd readUnsignedByte (\<lambda>packedXZ. bnd readNumeric (\<lambda>y. bnd readVarInt (\<lambda>t. bnd readNBT (\<lambda>data.
     ret \<lparr>be_x = drop_bit 4 packedXZ, be_z = packedXZ AND 15, be_y = y, be_type = t, be_data = data\<rparr>))))"

definition readChunkData :: "ChunkData bb" where
  "readChunkData =
     bnd readVarInt (\<lambda>heightMapsLength. bnd (collect (int_times heightMapsLength) read_height_map) (\<lambda>maps.
     bnd readPrefixedByteArray (\<lambda>data.
     bnd readVarInt (\<lambda>blockEntitiesLength. bnd (collect (int_times blockEntitiesLength) read_block_entity) (\<lambda>entities.
       ret \<lparr>ch_heightMaps = maps, ch_data = data, ch_blockEntities = entities\<rparr>)))))"

section \<open>Round trips\<close>

text \<open>The elements a reader in network mode makes, and their bytes.\<close>

definition net_elem :: "nbt \<Rightarrow> NBTElement" where
  "net_elem t = nbt_elem True network_settings [] t"

definition net_bytes :: "nbt \<Rightarrow> byte list" where
  "net_bytes t = byte_of_nbt_type (type_of_nbt t) # nbt_payload True t"

definition net_ok :: "nbt \<Rightarrow> bool" where
  "net_ok t \<longleftrightarrow> nbt_valid t \<and> t \<noteq> NEnd"

lemma appends_net: "net_ok t \<Longrightarrow> appends True (writeNBTElement (net_elem t)) (net_bytes t)"
  using appends_writeNBTElement [of "net_elem t"] by (simp add: net_ok_def net_elem_def net_bytes_def nbt_abs_elem)

lemma reads_net: "net_ok t \<Longrightarrow> reads True readNBT (net_bytes t) (net_elem t)"
  unfolding net_ok_def net_elem_def net_bytes_def by (intro reads_readNBT) simp_all

lemma int_times_of_size [simp]: "n < 2 ^ 31 \<Longrightarrow> int_times (int_of_size n) = n"
  by (simp add: int_times_def int_of_size_def signed_of_nat signed_take_bit_int_eq_self)

lemma reads_count: "n < 2 ^ 31 \<Longrightarrow> reads be (k n) xs x
    \<Longrightarrow> reads be (bnd readVarInt (\<lambda>v. k (int_times v))) (size_bytes n @ xs) x"
  unfolding size_bytes_def by (rule reads_bnd [OF reads_readVarNumeric]) simp

lemma unpack_xz: "drop_bit 4 (pack_xz x z) = x AND 15" "pack_xz x z AND 15 = z AND 15"
proof -
  have m: "(15 :: i32) = mask 4" "(15 :: byte) = mask 4" by (simp_all add: mask_eq_exp_minus_1)
  show "drop_bit 4 (pack_xz x z) = x AND 15" unfolding pack_xz_def m
    by (rule bit_word_eqI) (auto simp: bit_simps)
  show "pack_xz x z AND 15 = z AND 15" unfolding pack_xz_def m
    by (rule bit_word_eqI) (auto simp: bit_simps not_le)
qed

definition height_map_ok :: "ChunkDataHeightMap \<Rightarrow> bool" where
  "height_map_ok m \<longleftrightarrow> length (hm_data m) < 2 ^ 31"

definition height_map_bytes :: "ChunkDataHeightMap \<Rightarrow> byte list" where
  "height_map_bytes m = var_bytes (hm_type m) @ size_bytes (length (hm_data m)) @ concat (map (numeric_bytes True) (hm_data m))"

definition block_entity_ok :: "ChunkDataBlockEntity \<Rightarrow> bool" where
  "block_entity_ok e \<longleftrightarrow> net_ok (nbt_abs (be_data e)) \<and> nbt_tag (be_data e) = []"

text \<open>What the reader makes of a block entity: of the coordinates four bits are sent, and the data is the element that a reader in
  network mode makes of the same tree.\<close>

definition received_block_entity :: "ChunkDataBlockEntity \<Rightarrow> ChunkDataBlockEntity" where
  "received_block_entity e = e\<lparr>be_x := be_x e AND 15, be_z := be_z e AND 15, be_data := net_elem (nbt_abs (be_data e))\<rparr>"

definition block_entity_bytes :: "ChunkDataBlockEntity \<Rightarrow> byte list" where
  "block_entity_bytes e = [pack_xz (be_x e) (be_z e)] @ numeric_bytes True (be_y e) @ var_bytes (be_type e) @ net_bytes (nbt_abs (be_data e))"

definition chunk_ok :: "ChunkData \<Rightarrow> bool" where
  "chunk_ok d \<longleftrightarrow> length (ch_heightMaps d) < 2 ^ 31 \<and> length (ch_data d) < 2 ^ 31 \<and> length (ch_blockEntities d) < 2 ^ 31
     \<and> (\<forall>m \<in> set (ch_heightMaps d). height_map_ok m) \<and> (\<forall>e \<in> set (ch_blockEntities d). block_entity_ok e)"

definition chunk_bytes :: "ChunkData \<Rightarrow> byte list" where
  "chunk_bytes d = size_bytes (length (ch_heightMaps d)) @ concat (map height_map_bytes (ch_heightMaps d))
     @ prefixed_bytes (ch_data d)
     @ size_bytes (length (ch_blockEntities d)) @ concat (map block_entity_bytes (ch_blockEntities d))"

lemma appends_height_map:
  "appends True (thn (writeVarInt (hm_type m)) (writePrefixedArray writeNumeric (hm_data m))) (height_map_bytes m)"
  unfolding height_map_bytes_def
  by (intro appends_intros long_codec.appends_writePrefixedArray) (simp add: list_all_iff)

lemma reads_height_map: "height_map_ok m \<Longrightarrow> reads True read_height_map (height_map_bytes m) m"
  unfolding read_height_map_def height_map_bytes_def height_map_ok_def
  by (rule reads_bnd [OF reads_readVarNumeric reads_bnd_ret [OF long_codec.reads_readPrefixedArray]])
    (simp_all add: list_all_iff)

lemma appends_block_entity:
  assumes "block_entity_ok e"
  shows "appends True (thn (writeUnsignedByte (pack_xz (be_x e) (be_z e)))
    (thn (writeNumeric (be_y e)) (thn (writeVarInt (be_type e)) (writeNBTElement (be_data e))))) (block_entity_bytes e)"
proof -
  have "appends True (writeNBTElement (be_data e)) (net_bytes (nbt_abs (be_data e)))"
    using appends_writeNBTElement [of "be_data e"] assms by (simp add: block_entity_ok_def net_ok_def net_bytes_def)
  then show ?thesis unfolding block_entity_bytes_def
    by (intro appends_intros codec.writes [OF readUnsignedByte_codec] TrueI)
qed

lemma reads_block_entity:
  assumes "block_entity_ok e"
  shows "reads True read_block_entity (block_entity_bytes e) (received_block_entity e)"
proof -
  let ?r = "received_block_entity e"
  have "net_ok (nbt_abs (be_data e))" using assms by (simp add: block_entity_ok_def)
  then have "reads True (bnd readNBT (\<lambda>data. ret \<lparr>be_x = be_x e AND 15, be_z = be_z e AND 15, be_y = be_y e, be_type = be_type e, be_data = data\<rparr>))
      (net_bytes (nbt_abs (be_data e))) ?r"
    by (rule reads_bnd_ret [OF reads_net]) (simp add: received_block_entity_def)
  then show ?thesis unfolding read_block_entity_def block_entity_bytes_def
    by (intro reads_bnd [OF codec.reads_back [OF readUnsignedByte_codec TrueI]]
      reads_bnd [OF reads_readNumeric_16] reads_bnd [OF reads_readVarNumeric]) (simp add: unpack_xz)
qed

section \<open>Properties\<close>

text \<open>C12: A chunk whose lists are shorter than two to the 31 and whose block entities hold well-formed NBT with an empty root tag
  survives \<open>writeChunkData\<close> and \<open>readChunkData\<close>, whatever settings its elements have: the height maps and the block data come back
  as they were, and so do height, type and NBT tree of every block entity, in order; of its coordinates come back the four bits that
  are sent, so those below 16 as they were.\<close>

theorem chunk_round_trip:
  assumes "chunk_ok d"
  shows "\<exists>b. bnd (writeChunkData d) (\<lambda>_. readChunkData) (new_bb True)
      = Inr (d\<lparr>ch_blockEntities := map received_block_entity (ch_blockEntities d)\<rparr>, b) \<and> bb_unread b = []
    \<and> map (\<lambda>e. (be_y e, be_type e, nbt_abs (be_data e))) (map received_block_entity (ch_blockEntities d))
      = map (\<lambda>e. (be_y e, be_type e, nbt_abs (be_data e))) (ch_blockEntities d)"
proof -
  have w: "appends True (writeChunkData d) (chunk_bytes d)"
    unfolding writeChunkData_def chunk_bytes_def append_assoc [symmetric]
    unfolding append_assoc using assms
    by (intro appends_intros appends_each appends_height_map appends_block_entity) (auto simp: chunk_ok_def)
  have maps: "reads True (collect (length (ch_heightMaps d)) read_height_map)
      (concat (map height_map_bytes (ch_heightMaps d))) (ch_heightMaps d)"
    using reads_collect [of "ch_heightMaps d" True read_height_map height_map_bytes "\<lambda>x. x"] assms reads_height_map
    by (simp add: chunk_ok_def)
  have entities: "reads True (collect (length (ch_blockEntities d)) read_block_entity)
      (concat (map block_entity_bytes (ch_blockEntities d))) (map received_block_entity (ch_blockEntities d))"
    using assms reads_block_entity by (intro reads_collect) (simp add: chunk_ok_def)
  have "reads True readChunkData (chunk_bytes d) (d\<lparr>ch_blockEntities := map received_block_entity (ch_blockEntities d)\<rparr>)"
    unfolding readChunkData_def chunk_bytes_def
    using assms by (intro reads_count reads_bnd [OF maps] reads_bnd [OF reads_readPrefixedByteArray]
      reads_bnd_ret [OF entities]) (auto simp: chunk_ok_def)
  from write_read [OF w this] show ?thesis by (auto simp: received_block_entity_def net_elem_def nbt_abs_elem)
qed

text \<open>A chunk with a block entity as the builders of NBT make it, and coordinates beyond the chunk.\<close>

theorem chunk_round_trip_witness:
  fixes d :: ChunkData
  defines "d \<equiv> \<lparr>ch_heightMaps = [\<lparr>hm_type = 1, hm_data = [5, 6]\<rparr>], ch_data = [1, 2, 3], ch_blockEntities = [\<lparr>be_x = 31, be_z = 3,
      be_y = - 60, be_type = 7, be_data = mk_Compound [with_tag ''a'' (mk_Short 7 default_NBTSettings)] default_NBTSettings\<rparr>]\<rparr>"
  shows "\<exists>b d'. bnd (writeChunkData d) (\<lambda>_. readChunkData) (new_bb True) = Inr (d', b) \<and> bb_unread b = []
    \<and> map (\<lambda>e. (be_x e, be_z e, nbt_abs (be_data e))) (ch_blockEntities d') = [(15, 3, NCompound [(''a'', NShort 7)])]"
proof -
  have e: "nbt_abs (mk_Compound [with_tag ''a'' (mk_Short 7 default_NBTSettings)] default_NBTSettings) = NCompound [(''a'', NShort 7)]"
    "nbt_tag (mk_Compound [with_tag ''a'' (mk_Short 7 default_NBTSettings)] default_NBTSettings) = []"
    "nbt_abs (mk_Short 7 default_NBTSettings) = NShort 7"
    by (simp_all add: mk_Compound_def mk_Short_def with_tag_def new_fields_def)
  have "chunk_ok d" by (simp add: d_def chunk_ok_def height_map_ok_def block_entity_ok_def net_ok_def e)
  from chunk_round_trip [OF this] obtain b where
    "bnd (writeChunkData d) (\<lambda>_. readChunkData) (new_bb True)
      = Inr (d\<lparr>ch_blockEntities := map received_block_entity (ch_blockEntities d)\<rparr>, b)" "bb_unread b = []" by blast
  moreover have "map (\<lambda>e. (be_x e, be_z e, nbt_abs (be_data e))) (map received_block_entity (ch_blockEntities d))
    = [(15, 3, NCompound [(''a'', NShort 7)])]"
    by (simp add: d_def received_block_entity_def net_elem_def nbt_abs_elem e)
  ultimately show ?thesis by (intro exI conjI) auto
qed

text \<open>A chat type comes back with the parameters of the chat decoration in both decorations: the parameters of
  the narration are never sent.\<close>

theorem narration_parameters_are_lost:
  assumes "net_ok s" and "net_ok t" and "list_all (\<lambda>xs. length xs < 2 ^ 31) [k, l]" and "length ps < 2 ^ 31"
  shows "\<exists>b. bnd (writeChatType \<lparr>ct_chat = \<lparr>cd_translationKey = k, cd_parameters = ps, cd_style = net_elem s\<rparr>,
        ct_narration = \<lparr>cd_translationKey = l, cd_parameters = qs, cd_style = net_elem t\<rparr>\<rparr>) (\<lambda>_. readChatType) (new_bb True)
    = Inr (\<lparr>ct_chat = \<lparr>cd_translationKey = k, cd_parameters = ps, cd_style = net_elem s\<rparr>,
        ct_narration = \<lparr>cd_translationKey = l, cd_parameters = ps, cd_style = net_elem t\<rparr>\<rparr>, b) \<and> bb_unread b = []"
proof -
  let ?ps = "array_bytes var_bytes ps"
  let ?bytes = "string_bytes k @ ?ps @ net_bytes s @ string_bytes l @ ?ps @ net_bytes t"
  have ps: "array_ok (\<lambda>_. True) ps" using assms(4) by (simp add: array_ok_def list_all_iff)
  have w: "appends True (writeChatType \<lparr>ct_chat = \<lparr>cd_translationKey = k, cd_parameters = ps, cd_style = net_elem s\<rparr>,
        ct_narration = \<lparr>cd_translationKey = l, cd_parameters = qs, cd_style = net_elem t\<rparr>\<rparr>) ?bytes"
    unfolding writeChatType_def
    by (simp, intro appends_intros varints_codec.writes ps appends_net assms)
  have "reads True readChatType ?bytes
     \<lparr>ct_chat = \<lparr>cd_translationKey = k, cd_parameters = ps, cd_style = net_elem s\<rparr>,
        ct_narration = \<lparr>cd_translationKey = l, cd_parameters = ps, cd_style = net_elem t\<rparr>\<rparr>"
    unfolding readChatType_def using assms
    by (intro reads_bnd [OF reads_readString] reads_bnd [OF varints_codec.reads_back [OF ps]] reads_bnd [OF reads_net]
      reads_bnd_ret [OF reads_net]) simp_all
  from write_read [OF w this] show ?thesis by blast
qed

theorem narration_parameters_are_lost_witness:
  "\<exists>b. bnd (writeChatType \<lparr>ct_chat = \<lparr>cd_translationKey = ''a'', cd_parameters = [0, 2], cd_style = net_elem (NCompound [])\<rparr>,
        ct_narration = \<lparr>cd_translationKey = ''b'', cd_parameters = [1], cd_style = net_elem (NCompound [])\<rparr>\<rparr>) (\<lambda>_. readChatType) (new_bb True)
    = Inr (\<lparr>ct_chat = \<lparr>cd_translationKey = ''a'', cd_parameters = [0, 2], cd_style = net_elem (NCompound [])\<rparr>,
        ct_narration = \<lparr>cd_translationKey = ''b'', cd_parameters = [0, 2], cd_style = net_elem (NCompound [])\<rparr>\<rparr>, b) \<and> bb_unread b = []"
  by (rule narration_parameters_are_lost) (simp_all add: net_ok_def)

end
