(* ===== verification/Floating.thy ===== *)
theory Floating
  imports Value_Types "HOL-Library.Log_Nat"
begin

text \<open>
  Floating-point arithmetic where the code computes with it: angles and the rotations of a \<open>PlayerLocation\<close>
  (\<open>src/type/ByteBuffer.cpp\<close>), and \<open>zinc_safe_cast\<close> from \<open>double\<close> (\<open>inc/util/Memory.h\<close>). Values are the bit patterns of IEEE
  754; an operation computes the exact result with integers and rounds it once, to the nearest, ties to even.
\<close>

section \<open>IEEE 754\<close>

text \<open>\<open>Fin s m e\<close> is \<open>\<plusminus> m * 2 ^ e\<close>, negative when \<open>s\<close>.\<close>

datatype fp = Fin bool int int | Inf bool | NaN

definition fp_of_float :: "i32 \<Rightarrow> fp" where
  "fp_of_float w = (let n = uint w; s = (2 ^ 31 \<le> n); e = take_bit 8 (drop_bit 23 n); m = take_bit 23 n
     in if e = 255 then (if m = 0 then Inf s else NaN)
        else if e = 0 then Fin s m (- 149) else Fin s (2 ^ 23 + m) (e - 150))"

definition fp_of_double :: "i64 \<Rightarrow> fp" where
  "fp_of_double w = (let n = uint w; s = (2 ^ 63 \<le> n); e = take_bit 11 (drop_bit 52 n); m = take_bit 52 n
     in if e = 2047 then (if m = 0 then Inf s else NaN)
        else if e = 0 then Fin s m (- 1074) else Fin s (2 ^ 52 + m) (e - 1075))"

text \<open>\<open>p / q * 2 ^ (- k)\<close> to the nearest integer.\<close>

definition round_scaled :: "int \<Rightarrow> int \<Rightarrow> int \<Rightarrow> int" where
  "round_scaled p q k =
     (let num = (if k < 0 then push_bit (nat (- k)) p else p); den = (if k < 0 then q else push_bit (nat k) q);
          n = num div den; r = num - n * den
      in if den < 2 * r \<or> (den = 2 * r \<and> odd n) then n + 1 else n)"

text \<open>The exponent and fraction of \<open>p / q * 2 ^ e\<close> in a format with \<open>prec\<close> bits of precision whose smallest number is \<open>2 ^ emin\<close>. The carry of a
  rounding that reaches \<open>2 ^ prec\<close> goes to the exponent, as it must.\<close>

definition encode_fp :: "nat \<Rightarrow> int \<Rightarrow> int \<Rightarrow> int \<Rightarrow> int \<Rightarrow> int" where
  "encode_fp prec emin p q e =
     (if p = 0 then 0
      else (let k0 = bitlen p - bitlen q - int prec;
                above = (if k0 < 0 then push_bit prec q \<le> push_bit (nat (- k0)) p else push_bit (prec + nat k0) q \<le> p);
                k = max (if above then k0 + 1 else k0) (emin - e)
            in round_scaled p q k + push_bit (prec - 1) (k + e - emin)))"

definition float_nan :: i32 where "float_nan = 0x7FC00000"
definition double_nan :: i64 where "double_nan = 0x7FF8000000000000"

definition to_float :: "bool \<Rightarrow> int \<Rightarrow> int \<Rightarrow> int \<Rightarrow> i32" where
  "to_float s p q e = word_of_int ((if s then 0x80000000 else 0) + min (encode_fp 24 (- 149) p q e) 0x7F800000)"

definition to_double :: "bool \<Rightarrow> int \<Rightarrow> int \<Rightarrow> int \<Rightarrow> i64" where
  "to_double s p q e = word_of_int ((if s then 0x8000000000000000 else 0) + min (encode_fp 53 (- 1074) p q e) 0x7FF0000000000000)"

definition fp_times :: "(bool \<Rightarrow> int \<Rightarrow> int \<Rightarrow> int \<Rightarrow> 'w) \<Rightarrow> 'w \<Rightarrow> (bool \<Rightarrow> 'w) \<Rightarrow> fp \<Rightarrow> fp \<Rightarrow> 'w" where
  "fp_times build nan infinity a b = (case (a, b) of
     (Fin s m e, Fin t n f) \<Rightarrow> build (s \<noteq> t) (m * n) 1 (e + f)
   | (Inf s, Fin t n f) \<Rightarrow> if n = 0 then nan else infinity (s \<noteq> t)
   | (Fin s m e, Inf t) \<Rightarrow> if m = 0 then nan else infinity (s \<noteq> t)
   | (Inf s, Inf t) \<Rightarrow> infinity (s \<noteq> t)
   | _ \<Rightarrow> nan)"

definition fp_divide :: "(bool \<Rightarrow> int \<Rightarrow> int \<Rightarrow> int \<Rightarrow> 'w) \<Rightarrow> 'w \<Rightarrow> (bool \<Rightarrow> 'w) \<Rightarrow> fp \<Rightarrow> fp \<Rightarrow> 'w" where
  "fp_divide build nan infinity a b = (case (a, b) of
     (Fin s m e, Fin t n f) \<Rightarrow> if n = 0 then (if m = 0 then nan else infinity (s \<noteq> t)) else build (s \<noteq> t) m n (e - f)
   | (Inf s, Fin t n f) \<Rightarrow> infinity (s \<noteq> t)
   | (Fin s m e, Inf t) \<Rightarrow> build (s \<noteq> t) 0 1 0
   | _ \<Rightarrow> nan)"

definition float_inf :: "bool \<Rightarrow> i32" where "float_inf s = (if s then 0xFF800000 else 0x7F800000)"
definition double_inf :: "bool \<Rightarrow> i64" where "double_inf s = (if s then 0xFFF0000000000000 else 0x7FF0000000000000)"

definition float_times :: "i32 \<Rightarrow> i32 \<Rightarrow> i32" where
  "float_times a b = fp_times to_float float_nan float_inf (fp_of_float a) (fp_of_float b)"

definition float_divide :: "i32 \<Rightarrow> i32 \<Rightarrow> i32" where
  "float_divide a b = fp_divide to_float float_nan float_inf (fp_of_float a) (fp_of_float b)"

definition double_times :: "i64 \<Rightarrow> i64 \<Rightarrow> i64" where
  "double_times a b = fp_times to_double double_nan double_inf (fp_of_double a) (fp_of_double b)"

definition double_divide :: "i64 \<Rightarrow> i64 \<Rightarrow> i64" where
  "double_divide a b = fp_divide to_double double_nan double_inf (fp_of_double a) (fp_of_double b)"

definition float_of_int :: "int \<Rightarrow> i32" where
  "float_of_int i = to_float (i < 0) \<bar>i\<bar> 1 0"

definition double_of_int :: "int \<Rightarrow> i64" where
  "double_of_int i = to_double (i < 0) \<bar>i\<bar> 1 0"

definition double_of_float :: "i32 \<Rightarrow> i64" where
  "double_of_float w = (case fp_of_float w of Fin s m e \<Rightarrow> to_double s m 1 e | Inf s \<Rightarrow> double_inf s | NaN \<Rightarrow> double_nan)"

text \<open>Towards zero.\<close>

definition fp_trunc :: "bool \<Rightarrow> int \<Rightarrow> int \<Rightarrow> int" where
  "fp_trunc s m e = (let n = (if e < 0 then drop_bit (nat (- e)) m else push_bit (nat e) m) in if s then - n else n)"

section \<open>Casts\<close>

text \<open>\<open>static_cast\<close> to an integer of a value that does not fit is undefined.\<close>

definition cast_in_range :: "int \<Rightarrow> int \<Rightarrow> fp \<Rightarrow> zinc_error + int" where
  "cast_in_range lo hi v = (case v of Fin s m e \<Rightarrow> (let n = fp_trunc s m e in if lo \<le> n \<and> n \<le> hi then Inr n else Inl Indeterminate)
     | _ \<Rightarrow> Inl Indeterminate)"

text \<open>\<open>zinc_safe_cast\<close> from \<open>double\<close> gives a NaN and the infinities a value and leaves the rest to \<open>static_cast\<close>.\<close>

definition safe_cast_double_char :: "i64 \<Rightarrow> zinc_error + byte" where
  "safe_cast_double_char w = (case fp_of_double w of NaN \<Rightarrow> Inr 0
     | Inf s \<Rightarrow> Inr (if s then 0x80 else 0x7F)
     | v \<Rightarrow> map_sum id word_of_int (cast_in_range (- 128) 127 v))"

definition safe_cast_double_float :: "i64 \<Rightarrow> i32" where
  "safe_cast_double_float w = (case fp_of_double w of NaN \<Rightarrow> float_nan | Inf s \<Rightarrow> float_inf s | Fin s m e \<Rightarrow> to_float s m 1 e)"

definition safe_cast_char_double :: "byte \<Rightarrow> i64" where
  "safe_cast_char_double b = double_of_int (sint b)"

section \<open>Angles\<close>

definition angle_byte :: "i32 \<Rightarrow> zinc_error + byte" where
  "angle_byte angle = map_sum id word_of_int (cast_in_range 0 255 (fp_of_float (float_times angle (float_of_int 256))))"

definition writeAngle :: "i32 \<Rightarrow> unit bb" where
  "writeAngle angle = bnd (lift_result (angle_byte angle)) writeUnsignedByte"

definition angle_of_byte :: "byte \<Rightarrow> i32" where
  "angle_of_byte b = float_divide (float_of_int (uint b)) (float_of_int 256)"

definition readAngle :: "i32 bb" where
  "readAngle = bnd readUnsignedByte (\<lambda>b. ret (angle_of_byte b))"

section \<open>Rotations\<close>

text \<open>The constant \<open>0.71\<close>.\<close>

definition seventy_one :: i64 where
  "seventy_one = 0x3FE6B851EB851EB8"

definition rotation_byte :: "i32 \<Rightarrow> zinc_error + byte" where
  "rotation_byte v = safe_cast_double_char (double_times (double_of_float v) seventy_one)"

definition rotation_of_byte :: "byte \<Rightarrow> i32" where
  "rotation_of_byte b = safe_cast_double_float (double_divide (safe_cast_char_double b) seventy_one)"

definition writePlayerLocation :: "PlayerLocation \<Rightarrow> unit bb" where
  "writePlayerLocation l = thn (writeVector3 (m_position l))
     (thn (bnd (lift_result (rotation_byte (m_pitch l))) writeByte)
     (thn (bnd (lift_result (rotation_byte (m_headYaw l))) writeByte)
       (bnd (lift_result (rotation_byte (m_yaw l))) writeByte)))"

definition mk_PlayerLocation :: "Vector3f \<Rightarrow> i32 \<Rightarrow> i32 \<Rightarrow> i32 \<Rightarrow> PlayerLocation" where
  "mk_PlayerLocation position pitch headYaw yaw = \<lparr>m_position = position, m_pitch = pitch, m_headYaw = headYaw, m_yaw = yaw\<rparr>"

definition readRotation :: "i32 bb" where
  "readRotation = bnd readByte (\<lambda>b. ret (rotation_of_byte b))"

definition readPlayerLocation :: "arg_order \<Rightarrow> PlayerLocation bb" where
  "readPlayerLocation ord = (case ord of
     LeftToRight \<Rightarrow> bnd (readVector3 ord) (\<lambda>v. bnd readRotation (\<lambda>p. bnd readRotation (\<lambda>h. bnd readRotation (\<lambda>y. ret (mk_PlayerLocation v p h y)))))
   | RightToLeft \<Rightarrow> bnd readRotation (\<lambda>y. bnd readRotation (\<lambda>h. bnd readRotation (\<lambda>p. bnd (readVector3 ord) (\<lambda>v. ret (mk_PlayerLocation v p h y))))))"

section \<open>Bytes that are read and written again\<close>

definition angle_comes_back :: "int \<Rightarrow> bool" where
  "angle_comes_back n = (angle_byte (angle_of_byte (word_of_int n)) = Inr (word_of_int n))"

definition rotation_comes_back :: "int \<Rightarrow> bool" where
  "rotation_comes_back n = (rotation_byte (rotation_of_byte (word_of_int n)) = Inr (word_of_int n))"

definition rotation_comes_back_less :: "int \<Rightarrow> bool" where
  "rotation_comes_back_less n = (rotation_byte (rotation_of_byte (word_of_int n)) = Inr (word_of_int (n - 1)))"

lemma angles_come_back_1: "list_all angle_comes_back [0..63]" by code_simp
lemma angles_come_back_2: "list_all angle_comes_back [64..127]" by code_simp
lemma angles_come_back_3: "list_all angle_comes_back [128..191]" by code_simp
lemma angles_come_back_4: "list_all angle_comes_back [192..255]" by code_simp

lemma angle_byte_of_byte: "angle_byte (angle_of_byte b) = Inr b"
proof -
  have "0 \<le> uint b" "uint b < 256" using uint_bounded [of b] by simp_all
  then consider "uint b \<in> {0..63}" | "uint b \<in> {64..127}" | "uint b \<in> {128..191}" | "uint b \<in> {192..255}" by force
  then have "angle_comes_back (uint b)"
    by cases (use angles_come_back_1 angles_come_back_2 angles_come_back_3 angles_come_back_4 in \<open>simp_all add: list_all_iff del: upto_rec_numeral\<close>)
  then show ?thesis by (simp add: angle_comes_back_def)
qed

lemma seventy_one_value: "seventy_one = to_double False 71 100 0" by code_simp

text \<open>\<open>0.71\<close> is a double a little below \<open>71 / 100\<close>, and the write takes the integer part: a rotation that is read from a byte and written again
  may lose one.\<close>

lemma rotations_1: "list_all rotation_comes_back [1, 2, 3, 4, 6, 8, 11, 12]" by code_simp
lemma rotations_2: "list_all rotation_comes_back_less [5, 7, 9, 10, 13, 14, 15]" by code_simp

lemma writeAngle_of_byte: "writeAngle (angle_of_byte b) = writeUnsignedByte b"
  by (simp add: writeAngle_def angle_byte_of_byte lift_result_def bnd_def)

text \<open>C40: An angle that is read from a byte is written as the same byte, for each of the 256 bytes: dividing by 256 and multiplying again
  loses nothing in the arithmetic of a float.\<close>

theorem angle_round_trip:
  "reads be readAngle [b] (angle_of_byte b) \<and> appends be (writeAngle (angle_of_byte b)) [b]"
proof -
  have "reads be readUnsignedByte [b] b" by (simp add: readUnsignedByte_def reads_readByte)
  then have "reads be readAngle [b] (angle_of_byte b)" unfolding readAngle_def by (rule reads_bnd_ret) simp
  moreover have "appends be (writeUnsignedByte b) [b]" by (simp add: writeUnsignedByte_def appends_writeByte)
  ultimately show ?thesis by (simp add: writeAngle_of_byte)
qed

text \<open>An angle is a share of a full turn: a full turn, and everything to the left of zero, does not fit.\<close>

lemma full_turn: "angle_byte (float_of_int 1) = Inl Indeterminate" by code_simp
lemma left_turn: "angle_byte (float_divide (float_of_int (- 1)) (float_of_int 4)) = Inl Indeterminate" by code_simp

end
