(* ===== verification/Connection.thy ===== *)
theory Connection
  imports Chunk_Data
begin

text \<open>
  A client connection (\<open>src/network/minecraft/ZincConnection.cpp\<close>, \<open>ZincPacket.cpp\<close>) with the wrappers
  it uses (\<open>src/util/crypto/AES.cpp\<close>, \<open>src/util/ZLibUtil.cpp\<close>, \<open>src/util/TCPUtil.cpp\<close>): packets, framing,
  compression and encryption. OpenSSL and zlib are parameters. The libevent buffers of the socket are two
  byte lists: what has been received and not drained, and what has been sent.
\<close>

section \<open>Packets\<close>

record ZincPacket =
  zp_id :: i32
  zp_data :: ByteBuffer

definition new_ZincPacket :: "i32 \<Rightarrow> ZincPacket" where
  "new_ZincPacket i = \<lparr>zp_id = i, zp_data = new_bb True\<rparr>"

text \<open>The \<open>const\<close> getter copies the bytes and both flags into a fresh buffer; \<open>setData\<close> appends to what is there.\<close>

definition packet_getData :: "ZincPacket \<Rightarrow> zinc_error + ByteBuffer" where
  "packet_getData p = (case ibuf_write (getBytes (zp_data p)) new_ibuf of Inl e \<Rightarrow> Inl e
     | Inr i \<Rightarrow> Inr \<lparr>m_internalBuffer = toggleBlockRecycle (areBlocksRecycled (m_internalBuffer (zp_data p))) i,
         m_isBigEndian = m_isBigEndian (zp_data p)\<rparr>)"

definition packet_setData :: "ByteBuffer \<Rightarrow> ZincPacket \<Rightarrow> zinc_error + ZincPacket" where
  "packet_setData d p = (case ibuf_write (getBytes d) (m_internalBuffer (zp_data p)) of Inl e \<Rightarrow> Inl e
     | Inr i \<Rightarrow> Inr (p\<lparr>zp_data := \<lparr>m_internalBuffer = toggleBlockRecycle (areBlocksRecycled (m_internalBuffer d)) i,
         m_isBigEndian = m_isBigEndian d\<rparr>\<rparr>))"

definition packet_setId :: "i32 \<Rightarrow> ZincPacket \<Rightarrow> ZincPacket" where
  "packet_setId i p = p\<lparr>zp_id := i\<rparr>"

definition mk_ZincPacket :: "i32 \<Rightarrow> ByteBuffer \<Rightarrow> zinc_error + ZincPacket" where
  "mk_ZincPacket i d = packet_setData d (new_ZincPacket i)"

definition packet_eq :: "ZincPacket \<Rightarrow> ZincPacket \<Rightarrow> zinc_error + bool" where
  "packet_eq p q = map_sum id (\<lambda>d. bb_eq (zp_data p) d \<and> zp_id p = zp_id q) (packet_getData q)"

section \<open>AES in CFB8 mode\<close>

text \<open>
  \<open>evp enc key iv data\<close> is a run of the OpenSSL cipher: \<open>None\<close> when one of its calls fails, otherwise the
  output and the updated initialisation vector, \<open>None\<close> when it cannot be had.
\<close>

type_synonym evp_cipher = "bool \<Rightarrow> byte list \<Rightarrow> byte list \<Rightarrow> byte list \<Rightarrow> (byte list \<times> byte list option) option"

record AESWrapper =
  aes_key :: "byte list"
  aes_iv :: "byte list"
  aes_isKeySet :: bool
  aes_isIVSet :: bool

definition new_AESWrapper :: AESWrapper where
  "new_AESWrapper = \<lparr>aes_key = [], aes_iv = replicate 16 0, aes_isKeySet = False, aes_isIVSet = False\<rparr>"

definition aes_setKey :: "byte list \<Rightarrow> AESWrapper \<Rightarrow> AESWrapper" where
  "aes_setKey key w = (if length key \<noteq> 16 \<and> length key \<noteq> 24 \<and> length key \<noteq> 32 then w
     else w\<lparr>aes_key := key, aes_isKeySet := True\<rparr>)"

definition aes_setIV :: "byte list \<Rightarrow> AESWrapper \<Rightarrow> AESWrapper" where
  "aes_setIV iv w = (if length iv \<noteq> 16 then w else w\<lparr>aes_iv := iv, aes_isIVSet := True\<rparr>)"

definition processCFB8 :: "evp_cipher \<Rightarrow> bool \<Rightarrow> byte list \<Rightarrow> AESWrapper \<Rightarrow> byte list \<times> AESWrapper" where
  "processCFB8 evp enc data w =
     (if \<not> aes_isKeySet w \<or> \<not> aes_isIVSet w then ([], w)
      else if length (aes_key w) \<notin> {16, 24, 32} then ([], w)
      else case evp enc (aes_key w) (aes_iv w) data of
        None \<Rightarrow> ([], w)
      | Some (out, Some iv) \<Rightarrow> (out, w\<lparr>aes_iv := iv\<rparr>)
      | Some (out, None) \<Rightarrow> (out, w\<lparr>aes_isIVSet := False\<rparr>))"

definition encryptCFB8 :: "evp_cipher \<Rightarrow> byte list \<Rightarrow> AESWrapper \<Rightarrow> byte list \<times> AESWrapper" where
  "encryptCFB8 evp = processCFB8 evp True"

definition decryptCFB8 :: "evp_cipher \<Rightarrow> byte list \<Rightarrow> AESWrapper \<Rightarrow> byte list \<times> AESWrapper" where
  "decryptCFB8 evp = processCFB8 evp False"

section \<open>zlib\<close>

text \<open>\<open>zng_compress2\<close> and \<open>zng_uncompress2\<close> fill the front of a vector of the given size, \<open>None\<close> on an error.\<close>

record ZLib =
  zng_compressBound :: "nat \<Rightarrow> nat"
  zng_compress2 :: "nat \<Rightarrow> byte list \<Rightarrow> byte list option"
  zng_uncompress2 :: "nat \<Rightarrow> byte list \<Rightarrow> byte list option"

definition fill_vector :: "nat \<Rightarrow> byte list \<Rightarrow> byte list" where
  "fill_vector n out = out @ replicate (n - length out) 0"

definition zlib_compress :: "ZLib \<Rightarrow> byte list \<Rightarrow> byte list" where
  "zlib_compress z buffer = (let n = zng_compressBound z (length buffer)
     in case zng_compress2 z n buffer of None \<Rightarrow> [] | Some out \<Rightarrow> fill_vector n out)"

text \<open>The vector of \<open>decompressedSize\<close> bytes throws when it is larger than a vector can be.\<close>

definition zlib_uncompress :: "ZLib \<Rightarrow> byte list \<Rightarrow> nat \<Rightarrow> zinc_error + byte list" where
  "zlib_uncompress z buffer decompressedSize =
     (if max_vector_size < decompressedSize then Inl LengthError
      else case zng_uncompress2 z decompressedSize buffer of None \<Rightarrow> Inr []
        | Some out \<Rightarrow> Inr (fill_vector decompressedSize out))"

section \<open>The connection\<close>

datatype State = Handshake | Status | Login | Transfer | Config | Play | Other_State byte

definition state_of_byte :: "byte \<Rightarrow> State" where
  "state_of_byte b = (if b = 0 then Handshake else if b = 1 then Status else if b = 2 then Login
     else if b = 3 then Transfer else if b = 4 then Config else if b = 5 then Play else Other_State b)"

record ConnectionProperty =
  cp_name :: string
  cp_value :: string
  cp_signature :: "string option"

text \<open>Members that are never initialised before they are set are \<open>None\<close>.\<close>

record ConnectionInfo =
  ci_serverAddr :: string
  ci_serverPort :: "i16 option"
  ci_protocolVersion :: "i32 option"
  ci_verifyToken :: "byte list"
  ci_lastKeepAlive :: "i64 option"
  ci_playerName :: string
  ci_playerUUID :: "byte list"
  ci_properties :: "ConnectionProperty list"
  ci_locale :: string
  ci_renderDistance :: "byte option"
  ci_chatMode :: "i32 option"
  ci_enableChatColors :: "bool option"
  ci_skinParts :: "byte option"
  ci_mainHand :: "i32 option"
  ci_enableTextFiltering :: "bool option"
  ci_serverListing :: "bool option"
  ci_particleStatus :: "i32 option"

definition new_ConnectionInfo :: ConnectionInfo where
  "new_ConnectionInfo = \<lparr>ci_serverAddr = [], ci_serverPort = None, ci_protocolVersion = None, ci_verifyToken = [],
     ci_lastKeepAlive = None, ci_playerName = [], ci_playerUUID = replicate 16 0, ci_properties = [], ci_locale = [],
     ci_renderDistance = None, ci_chatMode = None, ci_enableChatColors = None, ci_skinParts = None, ci_mainHand = None,
     ci_enableTextFiltering = None, ci_serverListing = None, ci_particleStatus = None\<rparr>"

record ZincConnection =
  cn_ip :: string
  cn_received :: "byte list"
  cn_sent :: "byte list"
  cn_state :: State
  cn_isCompressed :: bool
  cn_isEncrypted :: bool
  cn_encrypt :: AESWrapper
  cn_decrypt :: AESWrapper
  cn_openedLoginPluginChannels :: "byte list \<rightharpoonup> string"
  cn_info :: ConnectionInfo
  cn_kickAtLogin :: nat
  cn_loginFinished :: bool
  cn_shouldContinue :: bool

definition new_ZincConnection :: "string \<Rightarrow> ZincConnection" where
  "new_ZincConnection ip = \<lparr>cn_ip = ip, cn_received = [], cn_sent = [], cn_state = Handshake, cn_isCompressed = False,
     cn_isEncrypted = False, cn_encrypt = new_AESWrapper, cn_decrypt = new_AESWrapper,
     cn_openedLoginPluginChannels = Map.empty, cn_info = new_ConnectionInfo, cn_kickAtLogin = 0,
     cn_loginFinished = False, cn_shouldContinue = True\<rparr>"

definition writeZincConnectionProperty :: "ConnectionProperty \<Rightarrow> unit bb" where
  "writeZincConnectionProperty p =
     thn (writeString (cp_name p)) (thn (writeString (cp_value p)) (writePrefixedOptional writeString (cp_signature p)))"

definition setState :: "State \<Rightarrow> ZincConnection \<Rightarrow> ZincConnection" where
  "setState s c = c\<lparr>cn_state := s\<rparr>"

definition setIsCompressed :: "bool \<Rightarrow> ZincConnection \<Rightarrow> ZincConnection" where
  "setIsCompressed v c = c\<lparr>cn_isCompressed := v\<rparr>"

definition setupEncryption :: "byte list \<Rightarrow> ZincConnection \<Rightarrow> ZincConnection" where
  "setupEncryption secret c =
     c\<lparr>cn_encrypt := aes_setIV secret (aes_setKey secret (cn_encrypt c)),
       cn_decrypt := aes_setIV secret (aes_setKey secret (cn_decrypt c)), cn_isEncrypted := True\<rparr>"

text \<open>\<open>TCPUtil::read\<close> copies what has been received, \<open>TCPUtil::drain\<close> drops its front.\<close>

definition tcp_drain :: "nat \<Rightarrow> ZincConnection \<Rightarrow> ZincConnection" where
  "tcp_drain n c = c\<lparr>cn_received := drop n (cn_received c)\<rparr>"

definition tcp_send :: "byte list \<Rightarrow> ZincConnection \<Rightarrow> ZincConnection" where
  "tcp_send bytes c = c\<lparr>cn_sent := cn_sent c @ bytes\<rparr>"

section \<open>Sending\<close>

text \<open>\<open>frame\<close> is what \<open>tmpData\<close> holds before encryption; sizes are cast to \<open>int\<close> and back.\<close>

definition frame_writer :: "ZLib \<Rightarrow> i32 \<Rightarrow> bool \<Rightarrow> i32 \<Rightarrow> byte list \<Rightarrow> unit bb" where
  "frame_writer z threshold isCompressed i bytes =
     (let dataLength = int_of_size (getVarNumericLength i + length bytes)
      in if isCompressed then
           (if dataLength <s threshold then
              thn (writeVarInt (1 + dataLength)) (thn (writeVarInt 0) (thn (writeVarInt i) (writeBytes bytes)))
            else bnd (lift_result (run_writer (thn (writeVarInt i) (writeBytes bytes)))) (\<lambda>plain.
              let compressed = zlib_compress z plain
              in thn (writeVarInt (int_of_size (getVarNumericLength dataLength + length compressed)))
                (thn (writeVarInt dataLength) (writeByteArray compressed))))
         else thn (writeVarInt dataLength) (thn (writeVarInt i) (writeBytes bytes)))"

definition conn_send :: "evp_cipher \<Rightarrow> ZLib \<Rightarrow> i32 \<Rightarrow> ZincPacket \<Rightarrow> ZincConnection \<Rightarrow> zinc_error + ZincConnection" where
  "conn_send evp z threshold p c =
     ebind (packet_getData p) (\<lambda>d.
     ebind (run_writer (frame_writer z threshold (cn_isCompressed c) (zp_id p) (getBytes d))) (\<lambda>frame.
       if cn_isEncrypted c
       then (let (data, w) = encryptCFB8 evp frame (cn_encrypt c) in Inr (tcp_send data (c\<lparr>cn_encrypt := w\<rparr>)))
       else Inr (tcp_send frame c)))"

section \<open>Receiving\<close>

text \<open>Subtraction of two \<open>size_t\<close>.\<close>

definition size_minus :: "nat \<Rightarrow> nat \<Rightarrow> nat" where
  "size_minus a b = unat (of_nat a - of_nat b :: i64)"

text \<open>The packet in the buffer, behind its length.\<close>

definition packet_body :: "ZLib \<Rightarrow> bool \<Rightarrow> nat \<Rightarrow> (i32 \<times> byte list) bb" where
  "packet_body z isCompressed len =
     (if isCompressed then bnd readVarInt (\<lambda>v.
        let dataLength = size_of_int v
        in if dataLength \<noteq> 0 then
             bnd (readBytes (size_minus len (getVarNumericLength (int_of_size dataLength)))) (\<lambda>bytes.
             bnd (lift_result (zlib_uncompress z bytes dataLength)) (\<lambda>plain.
             lift_result (map_sum id fst (bnd (writeBytes plain) (\<lambda>_. bnd readVarInt (\<lambda>packetId.
               bnd (readBytes (size_minus dataLength (getVarNumericLength packetId))) (\<lambda>data.
                 ret (packetId, data)))) (new_bb True)))))
           else bnd readVarInt (\<lambda>packetId.
             bnd (readBytes (size_minus len (getVarNumericLength packetId + 1))) (\<lambda>data. ret (packetId, data))))
      else bnd readVarInt (\<lambda>packetId.
        bnd (readBytes (size_minus len (getVarNumericLength packetId))) (\<lambda>data. ret (packetId, data))))"

text \<open>
  \<open>None\<close>: there are fewer bytes than the length announces, and everything stays in the socket buffer;
  otherwise the packet and how much to drain.
\<close>

definition frame_reader :: "ZLib \<Rightarrow> bool \<Rightarrow> (nat \<times> i32 \<times> byte list) option bb" where
  "frame_reader z isCompressed = bnd readVarInt (\<lambda>v.
     let len = size_of_int v
     in bnd (gets bb_size) (\<lambda>size.
          if size < len then ret None
          else bnd (packet_body z isCompressed len) (\<lambda>body.
            ret (Some (getVarNumericLength (int_of_size len) + len, body)))))"

definition conn_read :: "evp_cipher \<Rightarrow> ZLib \<Rightarrow> ZincConnection \<Rightarrow> zinc_error + (ZincPacket \<times> ZincConnection)" where
  "conn_read evp z c =
     (let (plain, w) = (if cn_isEncrypted c then decryptCFB8 evp (cn_received c) (cn_decrypt c)
                        else (cn_received c, cn_decrypt c));
          c' = c\<lparr>cn_decrypt := w\<rparr>
      in ebind (bnd (writeBytes plain) (\<lambda>_. frame_reader z (cn_isCompressed c)) (new_bb True)) (\<lambda>(result, _).
         case result of
           None \<Rightarrow> Inr (new_ZincPacket (- 1), c')
         | Some (n, packetId, data) \<Rightarrow>
             ebind (map_sum id snd (writeBytes data (new_bb True))) (\<lambda>d. ebind (mk_ZincPacket packetId d) (\<lambda>p.
               Inr (p, (tcp_drain n c')\<lparr>cn_shouldContinue := False\<rparr>)))))"

section \<open>Reading keeps the size\<close>

definition keeps_size :: "'a bb \<Rightarrow> bool" where
  "keeps_size r \<longleftrightarrow> (\<forall>b x b'. input_ok b \<and> r b = Inr (x, b') \<longrightarrow> input_ok b' \<and> bb_size b' = bb_size b
     \<and> length (flat (m_internalBuffer b')) = length (flat (m_internalBuffer b)))"

lemma keeps_readBytes: "keeps_size (readBytes n)"
  unfolding keeps_size_def
proof (intro allI impI, elim conjE)
  fix b x b' assume b: "input_ok b" and r: "readBytes n b = Inr (x, b')"
  let ?i = "m_internalBuffer b"
  have inv: "ibuf_inv ?i" "\<not> areBlocksRecycled ?i" using b by (auto simp: input_ok_def)
  from r have "read_loop n [] ?i = Inr (x, m_internalBuffer b')"
    by (auto simp: readBytes_def ibuf_read_def split: if_splits sum.splits)
  with read_loop_flat [OF inv, of n "[]"] show "input_ok b' \<and> bb_size b' = bb_size b
      \<and> length (flat (m_internalBuffer b')) = length (flat (m_internalBuffer b))"
    by (auto simp: input_ok_def bb_size_def getWriter_def wpos_def Let_def)
qed

lemma keeps_ret: "keeps_size (ret x)"
  by (simp add: keeps_size_def ret_def)

lemma keeps_fail: "keeps_size (fail e)"
  by (simp add: keeps_size_def fail_def)

lemma keeps_sizeD: "keeps_size r \<Longrightarrow> input_ok b \<Longrightarrow> r b = Inr (x, b') \<Longrightarrow> input_ok b' \<and> bb_size b' = bb_size b
    \<and> length (flat (m_internalBuffer b')) = length (flat (m_internalBuffer b))"
  unfolding keeps_size_def by blast

lemma keeps_bnd:
  assumes r: "keeps_size r" and k: "\<And>x. keeps_size (k x)"
  shows "keeps_size (bnd r k)"
  unfolding keeps_size_def
proof (intro allI impI, elim conjE)
  fix b y b' assume b: "input_ok b" "bnd r k b = Inr (y, b')"
  then obtain x b1 where x: "r b = Inr (x, b1)" "k x b1 = Inr (y, b')" by (auto simp: bnd_eq_Inr)
  from keeps_sizeD [OF r b(1) x(1)] have b1: "input_ok b1" "bb_size b1 = bb_size b"
    "length (flat (m_internalBuffer b1)) = length (flat (m_internalBuffer b))" by simp_all
  from keeps_sizeD [OF k b1(1) x(2)] b1 show "input_ok b' \<and> bb_size b' = bb_size b
      \<and> length (flat (m_internalBuffer b')) = length (flat (m_internalBuffer b))" by simp
qed

lemma keeps_readVar_loop: "keeps_size (readVar_loop sg n result shift)"
  by (induction sg n result shift rule: readVar_loop.induct)
    (auto simp: Let_def intro!: keeps_bnd keeps_readBytes keeps_ret keeps_fail split: list.split)

lemma keeps_readVarNumeric: "keeps_size (readVarNumeric sg)"
  unfolding readVarNumeric_def by (rule keeps_readVar_loop)

section \<open>The body of a packet\<close>

lemma lift_result_Inr [simp]: "lift_result (Inr x) = ret x"
  by (simp add: lift_result_def ret_def)

lemma size_minus_le: "b \<le> a \<Longrightarrow> a < 2 ^ 64 \<Longrightarrow> size_minus a b = a - b"
  by (simp add: size_minus_def unat_sub_if' unat_of_nat take_bit_nat_eq_self)

lemma reads_data:
  assumes "n = length data" and "n < 2 ^ 31"
  shows "reads be (bnd (readBytes n) (\<lambda>data. ret (i, data))) data (i, data)"
  using assms by (intro reads_bnd_ret [OF reads_readBytes]) (simp_all add: max_vector_size_def)

lemma reads_body_plain:
  assumes "getVarNumericLength i + length data < 2 ^ 31"
  shows "reads True (packet_body z False (getVarNumericLength i + length data)) (var_bytes i @ data) (i, data)"
  unfolding packet_body_def if_False
  by (rule reads_bnd [OF reads_readVarNumeric reads_data]) (use assms in \<open>simp_all add: size_minus_le\<close>)

lemma size_of_int_zero: "size_of_int 0 = 0"
  by (simp add: size_of_int_def)

lemma reads_body_small:
  assumes "1 + (getVarNumericLength i + length data) < 2 ^ 31"
  shows "reads True (packet_body z True (1 + (getVarNumericLength i + length data)))
    (var_bytes (0 :: i32) @ var_bytes i @ data) (i, data)"
proof -
  have "reads True (bnd readVarInt (\<lambda>packetId. bnd (readBytes (size_minus (1 + (getVarNumericLength i + length data))
      (getVarNumericLength packetId + 1))) (\<lambda>data. ret (packetId, data)))) (var_bytes i @ data) (i, data)"
    by (rule reads_bnd [OF reads_readVarNumeric reads_data]) (use assms in \<open>simp_all add: size_minus_le\<close>)
  then show ?thesis unfolding packet_body_def if_True
    by (intro reads_bnd [OF reads_readVarNumeric]) (simp add: size_of_int_zero)
qed

definition zlib_inverts :: "ZLib \<Rightarrow> byte list \<Rightarrow> bool" where
  "zlib_inverts z x \<longleftrightarrow> zlib_uncompress z (zlib_compress z x) (length x) = Inr x
     \<and> length (zlib_compress z x) < 2 ^ 30"

lemma getVarNumericLength_32: "getVarNumericLength (v :: i32) \<le> 5"
  using getVarNumericLength_max [of v] by (simp add: varNumericMaxSize_def)

lemma getVarNumericLength_pos: "0 < getVarNumericLength v"
  by (simp add: getVarNumericLength.simps)

lemma reads_body_compressed:
  assumes n: "n = getVarNumericLength i + length data" "n < 2 ^ 31"
    and z: "zlib_inverts z (var_bytes i @ data)"
  shows "reads True (packet_body z True (getVarNumericLength (int_of_size n) + length (zlib_compress z (var_bytes i @ data))))
    (var_bytes (int_of_size n) @ zlib_compress z (var_bytes i @ data)) (i, data)"
proof -
  let ?x = "var_bytes i @ data" and ?l = "getVarNumericLength (int_of_size n)"
  let ?c = "zlib_compress z ?x"
  have pos: "n \<noteq> 0" using n getVarNumericLength_pos [of i] by simp
  have small: "length ?c < 2 ^ 30" "?l \<le> 5" using z getVarNumericLength_32 by (auto simp: zlib_inverts_def)
  have unc: "zlib_uncompress z ?c n = Inr ?x" using z n by (simp add: zlib_inverts_def)
  have inner: "reads True (bnd readVarInt (\<lambda>packetId. bnd (readBytes (size_minus n (getVarNumericLength packetId)))
      (\<lambda>data. ret (packetId, data)))) ?x (i, data)"
    by (rule reads_bnd [OF reads_readVarNumeric reads_data]) (use n in \<open>simp_all add: size_minus_le\<close>)
  obtain b where "bnd (writeBytes ?x) (\<lambda>_. bnd readVarInt (\<lambda>packetId. bnd (readBytes (size_minus n (getVarNumericLength packetId)))
      (\<lambda>data. ret (packetId, data)))) (new_bb True) = Inr ((i, data), b)"
    using write_read [OF appends_writeBytes inner] by blast
  then have r: "map_sum id fst (bnd (writeBytes ?x) (\<lambda>_. bnd readVarInt (\<lambda>packetId. bnd (readBytes (size_minus n (getVarNumericLength packetId)))
      (\<lambda>data. ret (packetId, data)))) (new_bb True)) = Inr (i, data)" by simp
  have "size_minus (?l + length ?c) ?l = length ?c" using small by (subst size_minus_le) simp_all
  then have "reads True (readBytes (size_minus (?l + length ?c) ?l)) ?c ?c"
    using small by (intro reads_readBytes) (simp_all add: max_vector_size_def)
  then have "reads True (bnd (readBytes (size_minus (?l + length ?c) ?l)) (\<lambda>bytes.
      bnd (lift_result (zlib_uncompress z bytes n)) (\<lambda>plain.
      lift_result (map_sum id fst (bnd (writeBytes plain) (\<lambda>_. bnd readVarInt (\<lambda>packetId.
        bnd (readBytes (size_minus n (getVarNumericLength packetId))) (\<lambda>data. ret (packetId, data)))) (new_bb True))))))
      (?c @ []) (i, data)"
    by (rule reads_bnd) (simp add: unc r reads_ret)
  then show ?thesis unfolding packet_body_def if_True
    using n(2) pos by (intro reads_bnd [OF reads_readVarNumeric]) simp
qed

section \<open>A frame\<close>

lemma frame_reader_run:
  assumes b: "bb_wf b" "m_isBigEndian b" "input_ok b" and un: "bb_unread b = var_bytes v @ body @ rest"
    and fits: "size_of_int v \<le> bb_size b" and body: "reads True (packet_body z cmp (size_of_int v)) body (i, data)"
  shows "\<exists>b'. frame_reader z cmp b = Inr (Some (getVarNumericLength (int_of_size (size_of_int v)) + size_of_int v, i, data), b')"
proof -
  obtain b1 where b1: "readVarInt b = Inr (v, b1)" "bb_wf b1" "m_isBigEndian b1" "bb_unread b1 = body @ rest"
    using readsE [OF reads_readVarNumeric b(1) refl un] b(2) by blast
  from keeps_readVarNumeric b(3) b1(1) have "bb_size b1 = bb_size b" unfolding keeps_size_def by blast
  moreover obtain b2 where "packet_body z cmp (size_of_int v) b1 = Inr ((i, data), b2)"
    using readsE [OF body b1(2) _ b1(4)] b1(3) by blast
  ultimately show ?thesis using fits b1(1)
    by (simp add: frame_reader_def bnd_def gets_def Let_def ret_def)
qed

section \<open>Buffers filled with known bytes\<close>

lemma fresh_buffer:
  obtains b where "writeBytes xs (new_bb True) = Inr ((), b)" "bb_wf b" "input_ok b" "m_isBigEndian b"
    "getBytes b = xs" "bb_unread b = xs" "bb_size b = length xs"
proof -
  obtain i where i: "ibuf_write xs new_ibuf = Inr i" "ibuf_wf i" "written i = xs" "unread i = xs"
    "\<not> areBlocksRecycled i"
    using ibuf_write_wf [of new_ibuf xs] by auto
  let ?b = "\<lparr>m_internalBuffer = i, m_isBigEndian = True\<rparr>"
  have wf: "bb_wf ?b" using i by (simp add: bb_wf_def)
  have "writeBytes xs (new_bb True) = Inr ((), ?b)" using i by (simp add: writeBytes_def new_bb_def)
  moreover have "input_ok ?b" using i by (simp add: input_ok_def ibuf_wf_def)
  moreover have "getBytes ?b = xs" "bb_unread ?b = xs" "bb_size ?b = length xs"
    using getBytes_written [OF wf] bb_size_eq [OF wf] i by (simp_all add: bb_unread_def)
  ultimately show thesis using that wf by simp
qed

lemma ibuf_getBytes_toggle [simp]: "ibuf_getBytes (toggleBlockRecycle s i) = ibuf_getBytes i"
  by (simp add: ibuf_getBytes_def toggleBlockRecycle_def)

lemma packet_getData_bytes:
  obtains d where "packet_getData p = Inr d" "getBytes d = getBytes (zp_data p)"
proof -
  obtain i where i: "ibuf_write (getBytes (zp_data p)) new_ibuf = Inr i" "ibuf_wf i" "written i = getBytes (zp_data p)"
    using ibuf_write_wf [of new_ibuf "getBytes (zp_data p)"] by auto
  then have "ibuf_getBytes i = getBytes (zp_data p)" by (simp add: ibuf_wf_def ibuf_getBytes_eq)
  with i that show thesis by (simp add: packet_getData_def getBytes_def [of "ByteBuffer.make _ _"] getBytes_def)
qed

lemma packet_of_bytes:
  obtains d p where "writeBytes xs (new_bb True) = Inr ((), d)" "mk_ZincPacket i d = Inr p"
    "zp_id p = i" "getBytes (zp_data p) = xs" "bb_wf (zp_data p)" "bb_unread (zp_data p) = xs" "m_isBigEndian (zp_data p)"
proof -
  obtain d where d: "writeBytes xs (new_bb True) = Inr ((), d)" "bb_wf d" "input_ok d" "m_isBigEndian d" "getBytes d = xs"
    by (rule fresh_buffer)
  obtain j where j: "ibuf_write xs new_ibuf = Inr j" "ibuf_wf j" "written j = xs" "unread j = xs" "\<not> areBlocksRecycled j"
    using ibuf_write_wf [of new_ibuf xs] by auto
  have t: "toggleBlockRecycle (areBlocksRecycled (m_internalBuffer d)) j = j"
    using d(3) j(5) by (cases j) (simp add: input_ok_def toggleBlockRecycle_def areBlocksRecycled_def)
  let ?p = "\<lparr>zp_id = i, zp_data = \<lparr>m_internalBuffer = j, m_isBigEndian = True\<rparr>\<rparr>"
  have "mk_ZincPacket i d = Inr ?p"
    using d j t by (simp add: mk_ZincPacket_def packet_setData_def new_ZincPacket_def new_bb_def)
  moreover have wf: "bb_wf (zp_data ?p)" using j by (simp add: bb_wf_def)
  moreover have "getBytes (zp_data ?p) = xs" "bb_unread (zp_data ?p) = xs"
    using getBytes_written [OF wf] j by (simp_all add: bb_unread_def)
  ultimately show thesis using that d(1) by simp
qed

section \<open>The frame that \<open>send\<close> makes\<close>

definition frame_bytes :: "ZLib \<Rightarrow> i32 \<Rightarrow> bool \<Rightarrow> i32 \<Rightarrow> byte list \<Rightarrow> byte list" where
  "frame_bytes z threshold cmp i data =
     (let n = getVarNumericLength i + length data; packed = zlib_compress z (var_bytes i @ data)
      in if \<not> cmp then size_bytes n @ var_bytes i @ data
         else if int_of_size n <s threshold then size_bytes (1 + n) @ var_bytes (0 :: i32) @ var_bytes i @ data
         else size_bytes (getVarNumericLength (int_of_size n) + length packed) @ var_bytes (int_of_size n) @ packed)"

lemma appends_frame: "appends True (frame_writer z threshold cmp i data) (frame_bytes z threshold cmp i data)"
proof -
  have plain: "run_writer (thn (writeVarInt i) (writeBytes data)) = Inr (var_bytes i @ data)"
    by (intro run_writer_appends appends_intros)
  have suc: "1 + int_of_size n = int_of_size (1 + n)" for n by (simp add: int_of_size_def)
  show ?thesis
    unfolding frame_writer_def frame_bytes_def Let_def suc plain lift_result_Inr bnd_ret writeByteArray_def if_not_P
    by (auto simp: Let_def intro!: appends_intros appends_writeBytes)
qed

text \<open>What follows the length of a frame, and its size.\<close>

definition sendable :: "ZLib \<Rightarrow> bool \<Rightarrow> i32 \<Rightarrow> byte list \<Rightarrow> bool" where
  "sendable z cmp i data \<longleftrightarrow> length data < 2 ^ 30 \<and> (cmp \<longrightarrow> zlib_inverts z (var_bytes i @ data))"

lemma frame_splits:
  assumes "sendable z cmp i data"
  obtains n body where "frame_bytes z threshold cmp i data = size_bytes n @ body" "length body = n" "n < 2 ^ 31"
    "reads True (packet_body z cmp n) body (i, data)"
proof -
  let ?n = "getVarNumericLength i + length data" and ?packed = "zlib_compress z (var_bytes i @ data)"
  have len: "length data < 2 ^ 30" "getVarNumericLength i \<le> 5" using assms getVarNumericLength_32 by (auto simp: sendable_def)
  have zero: "getVarNumericLength (0 :: i32) = 1" by (simp add: getVarNumericLength.simps)
  consider "\<not> cmp" | "cmp" "int_of_size ?n <s threshold" | "cmp" "\<not> int_of_size ?n <s threshold" by blast
  then show thesis
  proof cases
    case 1
    show thesis
      by (rule that [of ?n "var_bytes i @ data"]) (use 1 len reads_body_plain [of i data] in \<open>simp_all add: frame_bytes_def Let_def\<close>)
  next
    case 2
    show thesis
      by (rule that [of "1 + ?n" "var_bytes (0 :: i32) @ var_bytes i @ data"])
        (use 2 len zero reads_body_small [of i data] in \<open>simp_all add: frame_bytes_def Let_def\<close>)
  next
    case 3
    let ?l = "getVarNumericLength (int_of_size ?n)"
    have z: "zlib_inverts z (var_bytes i @ data)" "length ?packed < 2 ^ 30" using assms 3 by (auto simp: sendable_def zlib_inverts_def)
    have "?l \<le> 5" by (rule getVarNumericLength_32)
    then show thesis
      by (intro that [of "?l + length ?packed" "var_bytes (int_of_size ?n) @ ?packed"])
        (use 3 len z reads_body_compressed [OF refl _ z(1)] in \<open>simp_all add: frame_bytes_def Let_def\<close>)
  qed
qed

section \<open>Two ends of a connection\<close>

text \<open>
  What the framing relies on of the cipher: a run succeeds and keeps the length, decrypting from the same vector undoes
  encrypting, and both ends arrive at the same vector.
\<close>

definition cipher_ok :: "evp_cipher \<Rightarrow> bool" where
  "cipher_ok evp \<longleftrightarrow> (\<forall>key iv xs. \<exists>out iv'. evp True key iv xs = Some (out, Some iv') \<and> evp False key iv out = Some (xs, Some iv') \<and> length out = length xs)"

definition aes_ready :: "AESWrapper \<Rightarrow> bool" where
  "aes_ready w \<longleftrightarrow> aes_isKeySet w \<and> aes_isIVSet w \<and> length (aes_key w) \<in> {16, 24, 32}"

definition linked :: "ZincConnection \<Rightarrow> ZincConnection \<Rightarrow> bool" where
  "linked c d \<longleftrightarrow> cn_isCompressed d = cn_isCompressed c \<and> cn_isEncrypted d = cn_isEncrypted c
     \<and> (cn_isEncrypted c \<longrightarrow> aes_ready (cn_encrypt c) \<and> cn_decrypt d = cn_encrypt c)"

definition deliver :: "ZincConnection \<Rightarrow> ZincConnection \<Rightarrow> ZincConnection" where
  "deliver c d = d\<lparr>cn_received := cn_received d @ cn_sent c\<rparr>"

definition flush :: "ZincConnection \<Rightarrow> ZincConnection" where
  "flush c = c\<lparr>cn_sent := []\<rparr>"

definition packet_bytes :: "ZincPacket \<Rightarrow> byte list" where
  "packet_bytes p = getBytes (zp_data p)"

lemma aes_run:
  assumes "cipher_ok evp" and "aes_ready w"
  obtains out w' where "encryptCFB8 evp xs w = (out, w')" "decryptCFB8 evp out w = (xs, w')" "aes_ready w'" "length out = length xs"
proof -
  obtain out iv' where "evp True (aes_key w) (aes_iv w) xs = Some (out, Some iv')"
    "evp False (aes_key w) (aes_iv w) out = Some (xs, Some iv')" "length out = length xs" using assms(1) unfolding cipher_ok_def by blast
  with assms(2) that [of out "w\<lparr>aes_iv := iv'\<rparr>"] show thesis
    by (simp add: encryptCFB8_def decryptCFB8_def processCFB8_def aes_ready_def)
qed

lemma conn_send_frame:
  "conn_send evp z threshold p c = (let frame = frame_bytes z threshold (cn_isCompressed c) (zp_id p) (packet_bytes p)
     in if cn_isEncrypted c
        then (let (data, w) = encryptCFB8 evp frame (cn_encrypt c) in Inr (tcp_send data (c\<lparr>cn_encrypt := w\<rparr>)))
        else Inr (tcp_send frame c))"
proof -
  obtain d where d: "packet_getData p = Inr d" "getBytes d = packet_bytes p"
    using packet_getData_bytes [of p] by (auto simp: packet_bytes_def)
  show ?thesis by (simp add: conn_send_def d ebind_def run_writer_appends [OF appends_frame])
qed

text \<open>Reading a whole frame from the plain bytes, with more behind it.\<close>

lemma conn_read_frame:
  assumes "sendable z (cn_isCompressed d) i data"
    and "(if cn_isEncrypted d then decryptCFB8 evp (cn_received d) (cn_decrypt d) else (cn_received d, cn_decrypt d))
      = (frame_bytes z threshold (cn_isCompressed d) i data @ rest, w)"
  shows "\<exists>q d'. conn_read evp z d = Inr (q, d') \<and> zp_id q = i \<and> packet_bytes q = data \<and> bb_unread (zp_data q) = data
    \<and> bb_wf (zp_data q) \<and> m_isBigEndian (zp_data q)
    \<and> d' = d\<lparr>cn_decrypt := w, cn_received := drop (length (frame_bytes z threshold (cn_isCompressed d) i data)) (cn_received d),
         cn_shouldContinue := False\<rparr>"
proof -
  obtain n body where f: "frame_bytes z threshold (cn_isCompressed d) i data = size_bytes n @ body" "length body = n" "n < 2 ^ 31"
    "reads True (packet_body z (cn_isCompressed d) n) body (i, data)" using frame_splits [OF assms(1)] .
  let ?plain = "size_bytes n @ body @ rest"
  obtain b where b: "writeBytes ?plain (new_bb True) = Inr ((), b)" "bb_wf b" "input_ok b" "m_isBigEndian b"
    "getBytes b = ?plain" "bb_unread b = ?plain" "bb_size b = length ?plain" by (rule fresh_buffer)
  have len: "size_of_int (int_of_size n) = n" using f(3) by simp
  obtain b' where "frame_reader z (cn_isCompressed d) b = Inr (Some (getVarNumericLength (int_of_size n) + n, i, data), b')"
    using frame_reader_run [of b "int_of_size n" body rest z "cn_isCompressed d" i data] b f len by (auto simp: size_bytes_def)
  then have run: "bnd (writeBytes ?plain) (\<lambda>_. frame_reader z (cn_isCompressed d)) (new_bb True)
      = Inr (Some (getVarNumericLength (int_of_size n) + n, i, data), b')" using b(1) by (simp add: bnd_Inr)
  obtain e q where q: "writeBytes data (new_bb True) = Inr ((), e)" "mk_ZincPacket i e = Inr q" "zp_id q = i"
    "getBytes (zp_data q) = data" "bb_wf (zp_data q)" "bb_unread (zp_data q) = data" "m_isBigEndian (zp_data q)"
    by (rule packet_of_bytes)
  have "getVarNumericLength (int_of_size n) + n = length (frame_bytes z threshold (cn_isCompressed d) i data)"
    using f by (simp add: size_bytes_def)
  then show ?thesis
    using assms(2) f(1) run q by (simp add: conn_read_def ebind_def Let_def tcp_drain_def packet_bytes_def)
qed

lemma send_read:
  assumes "cipher_ok evp" and "linked c d" and "sendable z (cn_isCompressed c) (zp_id p) (packet_bytes p)"
    and "cn_sent c = []" and "cn_received d = []"
  obtains c' q d' where "conn_send evp z threshold p c = Inr c'" "conn_read evp z (deliver c' d) = Inr (q, d')"
    "zp_id q = zp_id p" "packet_bytes q = packet_bytes p" "linked (flush c') d'" "cn_received d' = []"
proof (cases "cn_isEncrypted c")
  case True
  let ?frame = "frame_bytes z threshold (cn_isCompressed c) (zp_id p) (packet_bytes p)"
  have l: "aes_ready (cn_encrypt c)" "cn_decrypt d = cn_encrypt c" "cn_isEncrypted d" "cn_isCompressed d = cn_isCompressed c"
    using True assms(2) by (auto simp: linked_def)
  obtain out w where o: "encryptCFB8 evp ?frame (cn_encrypt c) = (out, w)" "decryptCFB8 evp out (cn_encrypt c) = (?frame, w)" "aes_ready w" "length out = length ?frame"
    using aes_run [OF assms(1) l(1)] .
  let ?c = "tcp_send out (c\<lparr>cn_encrypt := w\<rparr>)"
  have send: "conn_send evp z threshold p c = Inr ?c" using True o by (simp add: conn_send_frame Let_def)
  show thesis
    using conn_read_frame [of z "deliver ?c d" "zp_id p" "packet_bytes p" evp threshold "[]" w] send o l assms that True
    by (auto simp: deliver_def tcp_send_def flush_def linked_def)
next
  case False
  let ?frame = "frame_bytes z threshold (cn_isCompressed c) (zp_id p) (packet_bytes p)"
  let ?c = "tcp_send ?frame c"
  have l: "\<not> cn_isEncrypted d" "cn_isCompressed d = cn_isCompressed c" using False assms(2) by (auto simp: linked_def)
  have send: "conn_send evp z threshold p c = Inr ?c" using False by (simp add: conn_send_frame Let_def)
  show thesis
    using conn_read_frame [of z "deliver ?c d" "zp_id p" "packet_bytes p" evp threshold "[]" "cn_decrypt d"] send l assms that False
    by (auto simp: deliver_def tcp_send_def flush_def linked_def)
qed

section \<open>Sessions\<close>

text \<open>Packets sent and read one at a time.\<close>

fun lockstep :: "evp_cipher \<Rightarrow> ZLib \<Rightarrow> i32 \<Rightarrow> ZincPacket list \<Rightarrow> ZincConnection \<Rightarrow> ZincConnection
    \<Rightarrow> zinc_error + ((i32 \<times> byte list) list \<times> ZincConnection)" where
  "lockstep evp z threshold [] c d = Inr ([], d)"
| "lockstep evp z threshold (p # ps) c d =
     ebind (conn_send evp z threshold p c) (\<lambda>c'. ebind (conn_read evp z (deliver c' d)) (\<lambda>(q, d').
     ebind (lockstep evp z threshold ps (flush c') d') (\<lambda>(rs, e). Inr ((zp_id q, packet_bytes q) # rs, e))))"

lemma linked_flush_simps [simp]: "cn_sent (flush c) = []" "cn_isCompressed (flush c) = cn_isCompressed c"
  by (simp_all add: flush_def)

lemma conn_send_compressed: "conn_send evp z threshold p c = Inr c' \<Longrightarrow> cn_isCompressed c' = cn_isCompressed c"
  by (auto simp: conn_send_frame Let_def tcp_send_def split: if_splits prod.splits)

lemma lockstep_delivers:
  assumes "cipher_ok evp"
  shows "linked c d \<Longrightarrow> \<forall>p \<in> set ps. sendable z (cn_isCompressed c) (zp_id p) (packet_bytes p) \<Longrightarrow> cn_sent c = []
    \<Longrightarrow> cn_received d = [] \<Longrightarrow> \<exists>e. lockstep evp z threshold ps c d = Inr (map (\<lambda>p. (zp_id p, packet_bytes p)) ps, e)
      \<and> cn_received e = []"
proof (induction ps arbitrary: c d)
  case (Cons p ps)
  obtain c' q d' where s: "conn_send evp z threshold p c = Inr c'" "conn_read evp z (deliver c' d) = Inr (q, d')"
    "zp_id q = zp_id p" "packet_bytes q = packet_bytes p" "linked (flush c') d'" "cn_received d' = []"
    by (rule send_read [OF assms Cons.prems(1) _ Cons.prems(3,4), of z p threshold]) (use Cons.prems(2) in simp)
  from conn_send_compressed [OF s(1)] Cons.prems(2)
  have "\<forall>p \<in> set ps. sendable z (cn_isCompressed (flush c')) (zp_id p) (packet_bytes p)" by simp
  from Cons.IH [OF s(5) this _ s(6)] s show ?case by (auto simp: ebind_def)
qed simp

text \<open>All packets sent at once, and then read one after the other.\<close>

fun send_all :: "evp_cipher \<Rightarrow> ZLib \<Rightarrow> i32 \<Rightarrow> ZincPacket list \<Rightarrow> ZincConnection \<Rightarrow> zinc_error + ZincConnection" where
  "send_all evp z threshold [] c = Inr c"
| "send_all evp z threshold (p # ps) c = ebind (conn_send evp z threshold p c) (send_all evp z threshold ps)"

fun read_all :: "evp_cipher \<Rightarrow> ZLib \<Rightarrow> nat \<Rightarrow> ZincConnection \<Rightarrow> zinc_error + ((i32 \<times> byte list) list \<times> ZincConnection)" where
  "read_all evp z 0 d = Inr ([], d)"
| "read_all evp z (Suc n) d = ebind (conn_read evp z d) (\<lambda>(q, d').
     ebind (read_all evp z n d') (\<lambda>(rs, e). Inr ((zp_id q, packet_bytes q) # rs, e)))"

definition frames :: "ZLib \<Rightarrow> i32 \<Rightarrow> bool \<Rightarrow> ZincPacket list \<Rightarrow> byte list" where
  "frames z threshold cmp ps = concat (map (\<lambda>p. frame_bytes z threshold cmp (zp_id p) (packet_bytes p)) ps)"

lemma send_all_plain:
  "\<not> cn_isEncrypted c \<Longrightarrow> send_all evp z threshold ps c = Inr (c\<lparr>cn_sent := cn_sent c @ frames z threshold (cn_isCompressed c) ps\<rparr>)"
  by (induction ps arbitrary: c) (simp_all add: frames_def conn_send_frame ebind_def tcp_send_def)

lemma read_all_plain:
  "\<not> cn_isEncrypted d \<Longrightarrow> \<forall>p \<in> set ps. sendable z (cn_isCompressed d) (zp_id p) (packet_bytes p)
    \<Longrightarrow> cn_received d = frames z threshold (cn_isCompressed d) ps @ rest
    \<Longrightarrow> \<exists>e. read_all evp z (length ps) d = Inr (map (\<lambda>p. (zp_id p, packet_bytes p)) ps, e) \<and> cn_received e = rest"
proof (induction ps arbitrary: d)
  case (Cons p ps)
  let ?f = "frame_bytes z threshold (cn_isCompressed d) (zp_id p) (packet_bytes p)"
  obtain q where q: "conn_read evp z d = Inr (q, d\<lparr>cn_received := frames z threshold (cn_isCompressed d) ps @ rest,
      cn_shouldContinue := False\<rparr>)" "zp_id q = zp_id p" "packet_bytes q = packet_bytes p"
    using conn_read_frame [of z d "zp_id p" "packet_bytes p" evp threshold "frames z threshold (cn_isCompressed d) ps @ rest" "cn_decrypt d"]
      Cons.prems by (auto simp: frames_def)
  from Cons.IH [of "d\<lparr>cn_received := frames z threshold (cn_isCompressed d) ps @ rest, cn_shouldContinue := False\<rparr>"] Cons.prems q
  show ?case by (auto simp: ebind_def)
qed (simp add: frames_def)

text \<open>What the pipelining case needs to know of the cipher: a run can be cut in two.\<close>

definition cipher_chains :: "evp_cipher \<Rightarrow> bool" where
  "cipher_chains evp \<longleftrightarrow> (\<forall>enc key iv xs ys out1 iv1 out2 iv2. evp enc key iv xs = Some (out1, Some iv1)
     \<and> evp enc key iv1 ys = Some (out2, Some iv2) \<longrightarrow> evp enc key iv (xs @ ys) = Some (out1 @ out2, Some iv2))"

lemma aes_run_twice:
  assumes "cipher_ok evp" and "cipher_chains evp" and "aes_ready w"
  obtains out1 w1 out2 w2 where "encryptCFB8 evp xs w = (out1, w1)" "encryptCFB8 evp ys w1 = (out2, w2)"
    "decryptCFB8 evp (out1 @ out2) w = (xs @ ys, w2)" "length out1 = length xs"
proof -
  obtain out1 iv1 where 1: "evp True (aes_key w) (aes_iv w) xs = Some (out1, Some iv1)"
    "evp False (aes_key w) (aes_iv w) out1 = Some (xs, Some iv1)" "length out1 = length xs"
    using assms(1) unfolding cipher_ok_def by blast
  obtain out2 iv2 where 2: "evp True (aes_key w) iv1 ys = Some (out2, Some iv2)"
    "evp False (aes_key w) iv1 out2 = Some (ys, Some iv2)" using assms(1) unfolding cipher_ok_def by blast
  have "evp False (aes_key w) (aes_iv w) (out1 @ out2) = Some (xs @ ys, Some iv2)"
    using assms(2) 1(2) 2(2) unfolding cipher_chains_def by blast
  with 1 2 assms(3) that [of out1 "w\<lparr>aes_iv := iv1\<rparr>" out2 "w\<lparr>aes_iv := iv2\<rparr>"] show thesis
    by (simp add: encryptCFB8_def decryptCFB8_def processCFB8_def aes_ready_def)
qed

text \<open>A concrete stream for the witnesses: every byte is combined with the first byte of the key.\<close>

definition xor_cipher :: evp_cipher where
  "xor_cipher enc key iv xs = Some (map (\<lambda>b. b XOR hd key) xs, Some iv)"

lemma xor_cipher_ok: "cipher_ok xor_cipher" "cipher_chains xor_cipher"
  by (auto simp: cipher_ok_def cipher_chains_def xor_cipher_def comp_def xor.assoc)

definition stored_zlib :: ZLib where
  "stored_zlib = \<lparr>zng_compressBound = \<lambda>n. n, zng_compress2 = \<lambda>n x. Some x, zng_uncompress2 = \<lambda>n x. Some x\<rparr>"

lemma stored_zlib_inverts: "length x < 2 ^ 30 \<Longrightarrow> zlib_inverts stored_zlib x"
  by (simp add: zlib_inverts_def stored_zlib_def zlib_compress_def zlib_uncompress_def fill_vector_def max_vector_size_def)

text \<open>
  The mode in which \<open>AESWrapper\<close> runs its cipher, CFB with 8 bits of feedback: a byte is combined with the first byte
  \<open>e\<close> that the block cipher gives for the shift register, and the encrypted byte is shifted into the register. The
  block cipher is a parameter.
\<close>

fun cfb8 :: "(byte list \<Rightarrow> byte) \<Rightarrow> bool \<Rightarrow> byte list \<Rightarrow> byte list \<Rightarrow> byte list \<times> byte list" where
  "cfb8 e enc iv [] = ([], iv)"
| "cfb8 e enc iv (x # xs) = (let y = x XOR e iv; (ys, iv') = cfb8 e enc (tl iv @ [if enc then y else x]) xs in (y # ys, iv'))"

definition cfb8_cipher :: "(byte list \<Rightarrow> byte list \<Rightarrow> byte) \<Rightarrow> evp_cipher" where
  "cfb8_cipher E enc key iv xs = (case cfb8 (E key) enc iv xs of (out, iv') \<Rightarrow> Some (out, Some iv'))"

lemma cfb8_decrypts: "cfb8 e True iv xs = (out, iv') \<Longrightarrow> cfb8 e False iv out = (xs, iv') \<and> length out = length xs"
  by (induction xs arbitrary: iv out iv') (auto simp: Let_def xor.assoc split: prod.splits)

lemma cfb8_append:
  "cfb8 e enc iv (xs @ ys) = (case cfb8 e enc iv xs of (out1, iv1) \<Rightarrow> case cfb8 e enc iv1 ys of (out2, iv2) \<Rightarrow> (out1 @ out2, iv2))"
  by (induction xs arbitrary: iv) (simp_all add: Let_def split: prod.splits)

lemma cfb8_cipher_ok: "cipher_ok (cfb8_cipher E)" "cipher_chains (cfb8_cipher E)"
proof -
  show "cipher_ok (cfb8_cipher E)"
    unfolding cipher_ok_def
  proof (intro allI)
    fix key iv xs
    obtain out iv' where "cfb8 (E key) True iv xs = (out, iv')" by fastforce
    with cfb8_decrypts [OF this]
    show "\<exists>out iv'. cfb8_cipher E True key iv xs = Some (out, Some iv') \<and> cfb8_cipher E False key iv out = Some (xs, Some iv') \<and> length out = length xs"
      by (simp add: cfb8_cipher_def)
  qed
  show "cipher_chains (cfb8_cipher E)"
    by (auto simp: cipher_chains_def cfb8_cipher_def cfb8_append split: prod.splits)
qed

lemma xor_left_cancel [simp]: "x XOR y = x XOR z \<longleftrightarrow> y = z" for x y z :: byte
  by (metis xor.assoc xor.left_neutral xor_self_eq)

lemma hd_decryptCFB8:
  assumes "aes_ready w" and "xs \<noteq> []"
  shows "hd (fst (decryptCFB8 (cfb8_cipher E) xs w)) = hd xs XOR E (aes_key w) (aes_iv w)"
  using assms by (cases xs)
    (auto simp: decryptCFB8_def processCFB8_def aes_ready_def cfb8_cipher_def Let_def split: prod.splits)

lemma encryptCFB8_key: "encryptCFB8 evp xs w = (out, w') \<Longrightarrow> aes_key w' = aes_key w"
  by (auto simp: encryptCFB8_def processCFB8_def split: if_splits option.splits)

lemma encryptCFB8_run:
  assumes "cipher_ok evp" and "aes_ready w" and "encryptCFB8 evp xs w = (out, w')"
  shows "decryptCFB8 evp out w = (xs, w')" and "aes_ready w'" and "length out = length xs"
  by (rule aes_run [OF assms(1,2), of xs], use assms(3) in simp)+

lemma frame_bytes_not_empty: "frame_bytes z threshold cmp i data \<noteq> []"
proof -
  have "size_bytes n \<noteq> []" for n
    using getVarNumericLength_pos [of "int_of_size n"] by (simp add: size_bytes_def flip: length_0_conv)
  then show ?thesis by (simp add: frame_bytes_def Let_def)
qed

text \<open>Packets sent in a row on an encrypted connection: a peer that decrypts the bytes as one stream, as \<open>read\<close> does not, gets their
  frames.\<close>

lemma send_all_run:
  assumes "cipher_ok evp" and "cipher_chains evp"
  shows "cn_isEncrypted c \<Longrightarrow> aes_ready (cn_encrypt c) \<Longrightarrow> \<exists>c' out iv. send_all evp z threshold ps c = Inr c' \<and> cn_sent c' = cn_sent c @ out
    \<and> evp False (aes_key (cn_encrypt c)) (aes_iv (cn_encrypt c)) out = Some (frames z threshold (cn_isCompressed c) ps, Some iv)"
proof (induction ps arbitrary: c)
  case Nil
  obtain iv where "evp False (aes_key (cn_encrypt c)) (aes_iv (cn_encrypt c)) [] = Some ([], Some iv)"
    using assms(1) unfolding cipher_ok_def by (metis length_0_conv)
  then show ?case by (simp add: frames_def)
next
  case (Cons p ps)
  let ?w = "cn_encrypt c" and ?f = "frame_bytes z threshold (cn_isCompressed c) (zp_id p) (packet_bytes p)"
  obtain out1 iv1 where o1: "evp True (aes_key ?w) (aes_iv ?w) ?f = Some (out1, Some iv1)" "evp False (aes_key ?w) (aes_iv ?w) out1 = Some (?f, Some iv1)"
    using assms(1) unfolding cipher_ok_def by blast
  let ?c = "tcp_send out1 (c\<lparr>cn_encrypt := ?w\<lparr>aes_iv := iv1\<rparr>\<rparr>)"
  have c: "cn_isEncrypted ?c" "aes_ready (cn_encrypt ?c)" "cn_isCompressed ?c = cn_isCompressed c" "aes_key (cn_encrypt ?c) = aes_key ?w"
    "aes_iv (cn_encrypt ?c) = iv1" using Cons.prems by (simp_all add: tcp_send_def aes_ready_def)
  obtain c' out iv where r: "send_all evp z threshold ps ?c = Inr c'" "cn_sent c' = cn_sent ?c @ out"
    "evp False (aes_key ?w) iv1 out = Some (frames z threshold (cn_isCompressed c) ps, Some iv)"
    using Cons.IH [OF c(1,2)] unfolding c(3-5) by blast
  have "evp False (aes_key ?w) (aes_iv ?w) (out1 @ out) = Some (?f @ frames z threshold (cn_isCompressed c) ps, Some iv)"
    using assms(2) o1(2) r(3) unfolding cipher_chains_def by blast
  moreover have "conn_send evp z threshold p c = Inr ?c"
    using Cons.prems o1(1) by (simp add: conn_send_frame Let_def encryptCFB8_def processCFB8_def aes_ready_def)
  ultimately show ?case using r(1,2) by (auto simp: frames_def tcp_send_def)
qed

definition peer_receives :: "evp_cipher \<Rightarrow> byte list \<Rightarrow> ZincConnection \<Rightarrow> ZincConnection" where
  "peer_receives evp bytes d = (if cn_isEncrypted d
     then d\<lparr>cn_isEncrypted := False, cn_received := fst (decryptCFB8 evp bytes (cn_decrypt d))\<rparr> else d\<lparr>cn_received := bytes\<rparr>)"

lemma send_all_peer:
  assumes "linked c d" and "cn_isEncrypted c \<longrightarrow> cipher_ok evp \<and> cipher_chains evp" and "cn_sent c = []"
    and "\<forall>p \<in> set ps. sendable z (cn_isCompressed c) (zp_id p) (packet_bytes p)"
  obtains c' e where "send_all evp z threshold ps c = Inr c'"
    "read_all evp z (length ps) (peer_receives evp (cn_sent c') d) = Inr (map (\<lambda>p. (zp_id p, packet_bytes p)) ps, e)" "cn_received e = []"
proof (cases "cn_isEncrypted c")
  case True
  then have l: "aes_ready (cn_encrypt c)" "cn_decrypt d = cn_encrypt c" "cn_isEncrypted d" "cn_isCompressed d = cn_isCompressed c"
    using assms(1) by (auto simp: linked_def)
  obtain c' out iv where s: "send_all evp z threshold ps c = Inr c'" "cn_sent c' = out"
    "evp False (aes_key (cn_encrypt c)) (aes_iv (cn_encrypt c)) out = Some (frames z threshold (cn_isCompressed c) ps, Some iv)"
    using send_all_run [of evp c z threshold ps] True l(1) assms(2,3) by auto
  let ?d = "peer_receives evp (cn_sent c') d"
  have d: "\<not> cn_isEncrypted ?d" "cn_isCompressed ?d = cn_isCompressed c" "cn_received ?d = frames z threshold (cn_isCompressed c) ps @ []"
    using s(2,3) l by (simp_all add: peer_receives_def decryptCFB8_def processCFB8_def aes_ready_def)
  show thesis using read_all_plain [OF d(1), of ps z threshold "[]" evp] d(2,3) assms(4) s(1) that by auto
next
  case False
  then have "\<not> cn_isEncrypted d" "cn_isCompressed d = cn_isCompressed c" using assms(1) by (auto simp: linked_def)
  moreover have s: "send_all evp z threshold ps c = Inr (c\<lparr>cn_sent := frames z threshold (cn_isCompressed c) ps\<rparr>)"
    using send_all_plain [OF False] assms(3) by simp
  ultimately show thesis
    using read_all_plain [of "peer_receives evp (frames z threshold (cn_isCompressed c) ps) d" ps z threshold "[]" evp] assms(4) that [OF s]
    by (auto simp: peer_receives_def)
qed

section \<open>Frames cut short\<close>

lemma plain_read:
  assumes "\<not> cn_isEncrypted d" and "cn_received d = size_bytes n @ ys" and "n < 2 ^ 31" and "n \<le> length (cn_received d)"
  obtains b b1 where "writeBytes (cn_received d) (new_bb True) = Inr ((), b)" "readVarInt b = Inr (int_of_size n, b1)"
    "bb_wf b1" "input_ok b1" "m_isBigEndian b1" "bb_unread b1 = ys" "bb_size b1 = length (cn_received d)"
    "length (cn_received d) < length (flat (m_internalBuffer b1))" "BLOCK_SIZE \<le> length (flat (m_internalBuffer b1))"
proof -
  obtain b where b: "writeBytes (cn_received d) (new_bb True) = Inr ((), b)" "bb_wf b" "input_ok b" "m_isBigEndian b"
    "getBytes b = cn_received d" "bb_unread b = cn_received d" "bb_size b = length (cn_received d)" by (rule fresh_buffer)
  obtain b1 where b1: "readVarInt b = Inr (int_of_size n, b1)" "bb_wf b1" "m_isBigEndian b1" "bb_unread b1 = ys"
    using readsE [OF reads_readVarNumeric b(2) refl, of "int_of_size n" ys] b assms(2) by (auto simp: size_bytes_def)
  from keeps_sizeD [OF keeps_readVarNumeric b(3) b1(1)] have k: "input_ok b1" "bb_size b1 = bb_size b"
    "length (flat (m_internalBuffer b1)) = length (flat (m_internalBuffer b))" by simp_all
  have inv: "ibuf_inv (m_internalBuffer b)" using b(3) by (simp add: input_ok_def)
  have "Suc (m_writeBlock (m_internalBuffer b)) * BLOCK_SIZE \<le> length (flat (m_internalBuffer b))"
    "m_writeOffset (m_internalBuffer b) < BLOCK_SIZE"
    using inv by (auto simp: ibuf_inv_def flat_def length_concat_blocks simp del: mult_Suc intro!: mult_le_mono1)
  then have "bb_size b < length (flat (m_internalBuffer b))" "BLOCK_SIZE \<le> length (flat (m_internalBuffer b))"
    by (auto simp: bb_size_def getWriter_def Let_def)
  with that b b1 k show thesis by simp
qed

lemma size_minus_wraps: "a < b \<Longrightarrow> b \<le> 5 \<Longrightarrow> max_vector_size < size_minus a b"
proof -
  assume "a < b" "b \<le> 5"
  then have "unat (of_nat a - of_nat b :: i64) = 2 ^ 64 - (b - a)"
    by (simp add: unat_sub_if' unat_of_nat take_bit_nat_eq_self)
  with \<open>a < b\<close> \<open>b \<le> 5\<close> show ?thesis by (simp add: size_minus_def max_vector_size_def)
qed

lemma conn_read_fails:
  assumes "\<not> cn_isEncrypted d" and "bnd (writeBytes (cn_received d)) (\<lambda>_. frame_reader z (cn_isCompressed d)) (new_bb True) = Inl e"
  shows "conn_read evp z d = Inl e"
  using assms by (simp add: conn_read_def ebind_def)

section \<open>Properties\<close>

text \<open>C4: Packets sent one at a time are read as they were sent, in order, with and without compression and
  encryption: \<open>send\<close> and \<open>read\<close> of two linked connections agree on the frame, on the compression threshold
  and on the state of the cipher. zlib and the cipher are assumed to invert themselves.\<close>

theorem packets_arrive_in_order:
  assumes "cipher_ok evp" and "linked c d" and "cn_sent c = []" and "cn_received d = []"
    and "\<forall>p \<in> set ps. sendable z (cn_isCompressed c) (zp_id p) (packet_bytes p)"
  shows "\<exists>e. lockstep evp z threshold ps c d = Inr (map (\<lambda>p. (zp_id p, packet_bytes p)) ps, e) \<and> cn_received e = []"
  using assms by (intro lockstep_delivers)

theorem packets_arrive_in_order_witness:
  "\<exists>e. lockstep xor_cipher stored_zlib 256 [new_ZincPacket 3, new_ZincPacket 700]
      (setupEncryption (replicate 16 7) (new_ZincConnection [])\<lparr>cn_isCompressed := True\<rparr>)
      (setupEncryption (replicate 16 7) (new_ZincConnection [])\<lparr>cn_isCompressed := True\<rparr>)
    = Inr ([(3, []), (700, [])], e) \<and> cn_received e = []"
proof -
  let ?c = "(setupEncryption (replicate 16 7) (new_ZincConnection []))\<lparr>cn_isCompressed := True\<rparr>"
  have "linked ?c ?c"
    by (simp add: linked_def setupEncryption_def new_ZincConnection_def aes_setKey_def aes_setIV_def new_AESWrapper_def aes_ready_def)
  moreover have "\<forall>p \<in> set [new_ZincPacket 3, new_ZincPacket 700]. sendable stored_zlib True (zp_id p) (packet_bytes p)"
    using getVarNumericLength_32 [of 3] getVarNumericLength_32 [of 700]
    by (simp add: sendable_def new_ZincPacket_def packet_bytes_def stored_zlib_inverts)
  ultimately show ?thesis
    using packets_arrive_in_order [OF xor_cipher_ok(1), of ?c ?c "[new_ZincPacket 3, new_ZincPacket 700]" stored_zlib 256]
    by (simp add: setupEncryption_def new_ZincConnection_def new_ZincPacket_def packet_bytes_def)
qed

text \<open>On an unencrypted connection the packets may also be sent all at once: each \<open>read\<close> drains exactly one
  frame and leaves what follows it in the socket buffer.\<close>

theorem pipelined_packets_arrive_in_order:
  assumes "\<not> cn_isEncrypted c" and "linked c d" and "cn_sent c = []" and "cn_received d = []"
    and "\<forall>p \<in> set ps. sendable z (cn_isCompressed c) (zp_id p) (packet_bytes p)"
  shows "\<exists>c' e. send_all evp z threshold ps c = Inr c'
    \<and> read_all evp z (length ps) (d\<lparr>cn_received := cn_sent c' @ rest\<rparr>) = Inr (map (\<lambda>p. (zp_id p, packet_bytes p)) ps, e)
    \<and> cn_received e = rest"
proof -
  let ?d = "d\<lparr>cn_received := frames z threshold (cn_isCompressed c) ps @ rest\<rparr>"
  have "\<not> cn_isEncrypted d" "cn_isCompressed d = cn_isCompressed c" using assms(1,2) by (simp_all add: linked_def)
  then obtain e where "read_all evp z (length ps) ?d = Inr (map (\<lambda>p. (zp_id p, packet_bytes p)) ps, e)" "cn_received e = rest"
    using read_all_plain [of ?d ps z threshold rest evp] assms(5) by auto
  then show ?thesis using send_all_plain [OF assms(1), of evp z threshold ps] assms(3) by simp
qed

theorem pipelined_packets_arrive_in_order_witness:
  "\<exists>c' e. send_all xor_cipher stored_zlib 256 [new_ZincPacket 3, new_ZincPacket 700] (new_ZincConnection []) = Inr c'
    \<and> read_all xor_cipher stored_zlib 2 ((new_ZincConnection [])\<lparr>cn_received := cn_sent c' @ [9]\<rparr>) = Inr ([(3, []), (700, [])], e)
    \<and> cn_received e = [9]"
proof -
  have "\<forall>p \<in> set [new_ZincPacket 3, new_ZincPacket 700]. sendable stored_zlib False (zp_id p) (packet_bytes p)"
    by (simp add: sendable_def new_ZincPacket_def packet_bytes_def)
  then show ?thesis
    using pipelined_packets_arrive_in_order [of "new_ZincConnection []" "new_ZincConnection []" "[new_ZincPacket 3, new_ZincPacket 700]" stored_zlib xor_cipher 256 "[9]"]
    by (simp add: linked_def new_ZincConnection_def new_ZincPacket_def packet_bytes_def numeral_2_eq_2)
qed

text \<open>C25: On an encrypted connection they may not: \<open>read\<close> decrypts all that is in the socket buffer and drains one
  frame. When two packets encrypted in CFB8 mode have arrived, the first
  shorter than two to the 30 bytes and, on a compressed connection, such that zlib restores it, then the first is read, the bytes of the second stay in the socket buffer,
  still encrypted, and the decryption state is already the one behind both. The bytes that stay decrypt to the second packet from the
  state the sender was in between the packets, but the next \<open>read\<close> decrypts them from the state behind both: the first byte of the
  length it sees is right only if the block cipher happens to give the same byte for both states.\<close>

theorem encrypted_pipelining_loses_sync:
  assumes "linked c d" and "cn_isEncrypted c" and "cn_sent c = []" and "cn_received d = []"
    and "sendable z (cn_isCompressed c) (zp_id p1) (packet_bytes p1)"
  shows "\<exists>c1 c2 q d'. conn_send (cfb8_cipher E) z threshold p1 c = Inr c1 \<and> conn_send (cfb8_cipher E) z threshold p2 c1 = Inr c2
    \<and> conn_read (cfb8_cipher E) z (deliver c2 d) = Inr (q, d') \<and> zp_id q = zp_id p1 \<and> packet_bytes q = packet_bytes p1
    \<and> cn_sent c2 = cn_sent c1 @ cn_received d' \<and> cn_decrypt d' = cn_encrypt c2
    \<and> fst (decryptCFB8 (cfb8_cipher E) (cn_received d') (cn_encrypt c1))
      = frame_bytes z threshold (cn_isCompressed c) (zp_id p2) (packet_bytes p2)
    \<and> (hd (fst (decryptCFB8 (cfb8_cipher E) (cn_received d') (cn_decrypt d')))
        = hd (frame_bytes z threshold (cn_isCompressed c) (zp_id p2) (packet_bytes p2))
      \<longleftrightarrow> E (aes_key (cn_encrypt c)) (aes_iv (cn_encrypt c2)) = E (aes_key (cn_encrypt c)) (aes_iv (cn_encrypt c1)))"
proof -
  let ?evp = "cfb8_cipher E" and ?frame = "\<lambda>p. frame_bytes z threshold (cn_isCompressed c) (zp_id p) (packet_bytes p)"
  have l: "aes_ready (cn_encrypt c)" "cn_decrypt d = cn_encrypt c" "cn_isEncrypted d" "cn_isCompressed d = cn_isCompressed c"
    using assms(1,2) by (auto simp: linked_def)
  obtain out1 w1 out2 w2 where o: "encryptCFB8 ?evp (?frame p1) (cn_encrypt c) = (out1, w1)" "encryptCFB8 ?evp (?frame p2) w1 = (out2, w2)"
    "decryptCFB8 ?evp (out1 @ out2) (cn_encrypt c) = (?frame p1 @ ?frame p2, w2)" "length out1 = length (?frame p1)"
    by (rule aes_run_twice [OF cfb8_cipher_ok l(1)])
  note o1 = encryptCFB8_run [OF cfb8_cipher_ok(1) l(1) o(1)] and o2 = encryptCFB8_run [OF cfb8_cipher_ok(1) _ o(2)]
  let ?c1 = "tcp_send out1 (c\<lparr>cn_encrypt := w1\<rparr>)"
  let ?c2 = "tcp_send out2 (?c1\<lparr>cn_encrypt := w2\<rparr>)"
  have sends: "conn_send ?evp z threshold p1 c = Inr ?c1" "conn_send ?evp z threshold p2 ?c1 = Inr ?c2"
    using assms(2) o(1,2) by (simp_all add: conn_send_frame Let_def tcp_send_def)
  obtain q where q: "conn_read ?evp z (deliver ?c2 d) = Inr (q, (deliver ?c2 d)\<lparr>cn_decrypt := w2,
      cn_received := out2, cn_shouldContinue := False\<rparr>)" "zp_id q = zp_id p1" "packet_bytes q = packet_bytes p1"
    using conn_read_frame [of z "deliver ?c2 d" "zp_id p1" "packet_bytes p1" ?evp threshold "?frame p2" w2] assms l o(3,4)
    by (auto simp: deliver_def tcp_send_def)
  have first: "hd (fst (decryptCFB8 ?evp out2 w2)) = hd (?frame p2)
    \<longleftrightarrow> E (aes_key (cn_encrypt c)) (aes_iv w2) = E (aes_key (cn_encrypt c)) (aes_iv w1)"
  proof -
    have keys: "aes_key w1 = aes_key (cn_encrypt c)" "aes_key w2 = aes_key (cn_encrypt c)"
      using encryptCFB8_key [OF o(1)] encryptCFB8_key [OF o(2)] by simp_all
    have "out2 \<noteq> []" using o2(3) [OF o1(2)] frame_bytes_not_empty by (metis length_0_conv)
    then have "hd (fst (decryptCFB8 ?evp out2 w2)) = hd out2 XOR E (aes_key w2) (aes_iv w2)"
      "hd (?frame p2) = hd out2 XOR E (aes_key w1) (aes_iv w1)"
      using hd_decryptCFB8 [OF o2(2) [OF o1(2)], of out2 E] hd_decryptCFB8 [OF o1(2), of out2 E] o2(1) [OF o1(2)] by simp_all
    then show ?thesis by (auto simp: keys)
  qed
  show ?thesis
    by (rule exI [of _ ?c1], rule exI [of _ ?c2], rule exI [of _ q],
        rule exI [of _ "(deliver ?c2 d)\<lparr>cn_decrypt := w2, cn_received := out2, cn_shouldContinue := False\<rparr>"])
      (use sends q first assms(3) o2(1) [OF o1(2)] in \<open>simp add: tcp_send_def\<close>)
qed

theorem encrypted_pipelining_loses_sync_witness:
  "\<exists>c1 c2 q d'. conn_send (cfb8_cipher (\<lambda>_. last)) stored_zlib 256 (new_ZincPacket 3) (setupEncryption (replicate 16 7) (new_ZincConnection [])) = Inr c1
    \<and> conn_send (cfb8_cipher (\<lambda>_. last)) stored_zlib 256 (new_ZincPacket 4) c1 = Inr c2
    \<and> conn_read (cfb8_cipher (\<lambda>_. last)) stored_zlib (deliver c2 (setupEncryption (replicate 16 7) (new_ZincConnection []))) = Inr (q, d')
    \<and> zp_id q = 3 \<and> cn_sent c2 = cn_sent c1 @ cn_received d'
    \<and> hd (fst (decryptCFB8 (cfb8_cipher (\<lambda>_. last)) (cn_received d') (cn_decrypt d'))) \<noteq> hd (frame_bytes stored_zlib 256 False 4 [])"
proof -
  let ?evp = "cfb8_cipher (\<lambda>_. last)" and ?c = "setupEncryption (replicate 16 7) (new_ZincConnection [])"
  have p: "packet_bytes (new_ZincPacket i) = []" "zp_id (new_ZincPacket i) = i" for i
    by (simp_all add: new_ZincPacket_def packet_bytes_def)
  have c: "linked ?c ?c" "cn_isEncrypted ?c" "cn_sent ?c = []" "cn_received ?c = []" "\<not> cn_isCompressed ?c"
    by (simp_all add: linked_def setupEncryption_def new_ZincConnection_def aes_setKey_def aes_setIV_def new_AESWrapper_def aes_ready_def)
  have "sendable stored_zlib (cn_isCompressed ?c) (zp_id (new_ZincPacket 3)) (packet_bytes (new_ZincPacket 3))"
    using c(5) by (simp add: sendable_def p)
  from encrypted_pipelining_loses_sync [OF c(1-4) this, of "\<lambda>_. last" 256 "new_ZincPacket 4"] obtain c1 c2 q d' where
    r: "conn_send ?evp stored_zlib 256 (new_ZincPacket 3) ?c = Inr c1" "conn_send ?evp stored_zlib 256 (new_ZincPacket 4) c1 = Inr c2"
      "conn_read ?evp stored_zlib (deliver c2 ?c) = Inr (q, d')" "zp_id q = 3" "cn_sent c2 = cn_sent c1 @ cn_received d'"
    and sync: "hd (fst (decryptCFB8 ?evp (cn_received d') (cn_decrypt d'))) = hd (frame_bytes stored_zlib 256 False 4 [])
      \<longleftrightarrow> last (aes_iv (cn_encrypt c2)) = last (aes_iv (cn_encrypt c1))"
    using c(5) unfolding p by auto
  have f: "frame_bytes stored_zlib 256 False 3 [] = [1, 3]" "frame_bytes stored_zlib 256 False 4 [] = [1, 4]"
    by (simp_all add: frame_bytes_def size_bytes_def int_of_size_def var_bytes_simps getVarNumericLength.simps)
  have iv: "aes_iv (cn_encrypt ?c) = replicate 16 7" "aes_isKeySet (cn_encrypt ?c)" "aes_isIVSet (cn_encrypt ?c)" "length (aes_key (cn_encrypt ?c)) = 16"
    by (simp_all add: setupEncryption_def new_ZincConnection_def aes_setKey_def aes_setIV_def new_AESWrapper_def)
  have "last (aes_iv (cn_encrypt c1)) = 5 \<and> last (aes_iv (cn_encrypt c2)) = 0"
    using r(1,2) c(2,5) iv
    by (auto simp: conn_send_frame p f encryptCFB8_def processCFB8_def cfb8_cipher_def Let_def tcp_send_def eval_nat_numeral)
  then show ?thesis using r sync by (intro exI conjI) auto
qed

text \<open>C23: A frame whose length is smaller than the length of its packet id, a single zero byte for instance, makes
  the size of the data wrap around: \<open>readBytes\<close> throws \<open>std::length_error\<close>, which nothing on the way to the
  event loop catches. Any client can stop the server before it logs in.\<close>

theorem short_length_stops_server:
  assumes "\<not> cn_isEncrypted d" and "\<not> cn_isCompressed d" and "n < getVarNumericLength (i :: i32)"
    and "cn_received d = size_bytes n @ var_bytes i @ rest"
  shows "conn_read evp z d = Inl LengthError"
proof (rule conn_read_fails [OF assms(1)])
  have i: "getVarNumericLength i \<le> 5" by (rule getVarNumericLength_32)
  then have n: "n < 2 ^ 31" "n \<le> length (cn_received d)" using assms(3,4) by auto
  obtain b b1 where b: "writeBytes (cn_received d) (new_bb True) = Inr ((), b)" "readVarInt b = Inr (int_of_size n, b1)"
    "bb_wf b1" "input_ok b1" "m_isBigEndian b1" "bb_unread b1 = var_bytes i @ rest" "bb_size b1 = length (cn_received d)"
    by (rule plain_read [OF assms(1,4) n])
  obtain b2 where b2: "readVarInt b1 = Inr (i, b2)"
    by (rule readsE [OF reads_readVarNumeric b(3), of True i rest]) (use b(5,6) in auto)
  have "readBytes (size_minus n (getVarNumericLength i)) b2 = Inl LengthError"
    using size_minus_wraps [OF assms(3) i] by (simp add: readBytes_def ibuf_read_def)
  then show "bnd (writeBytes (cn_received d)) (\<lambda>_. frame_reader z (cn_isCompressed d)) (new_bb True) = Inl LengthError"
    using b b2 n assms(2) by (simp add: bnd_def frame_reader_def gets_def packet_body_def)
qed

theorem short_length_stops_server_witness:
  "conn_read xor_cipher stored_zlib ((new_ZincConnection [])\<lparr>cn_received := [0, 0]\<rparr>) = Inl LengthError"
  by (rule short_length_stops_server [where n = 0 and i = 0 and rest = "[]"])
    (simp_all add: new_ZincConnection_def getVarNumericLength_pos size_bytes_def int_of_size_def var_bytes_simps)

text \<open>C24: The test for a complete packet compares the announced length with the size of the whole buffer, length
  prefix included. On a connection that is neither encrypted nor compressed, as every connection is before login, a packet whose length
  and id have arrived and of which no more bytes are missing than its prefix takes is therefore taken as complete, provided that what has arrived stays five bytes
  clear of the end of the first block of 4096 bytes. \<open>read\<close> delivers the id and the bytes that have arrived, with zeros
  in place of those that are missing, and leaves the socket buffer empty, so that the missing bytes, when they arrive, stand where
  the next packet begins.\<close>

theorem truncated_packet_is_accepted:
  assumes "\<not> cn_isEncrypted d" and "\<not> cn_isCompressed d" and "cn_received d = size_bytes n @ var_bytes i @ begun"
    and "n = getVarNumericLength i + length begun + k" and "k \<le> length (size_bytes n)" and "length (cn_received d) + 5 \<le> BLOCK_SIZE"
  shows "\<exists>q d'. conn_read evp z d = Inr (q, d') \<and> zp_id q = i \<and> packet_bytes q = begun @ replicate k 0 \<and> cn_received d' = []"
proof -
  have k: "k \<le> 5" using assms(5) getVarNumericLength_32 [of "int_of_size n"] by (simp add: size_bytes_def)
  have n: "n < 2 ^ 31" "n \<le> length (cn_received d)" using assms(3-6) k by (auto simp: BLOCK_SIZE_def)
  obtain b b1 where b: "writeBytes (cn_received d) (new_bb True) = Inr ((), b)" "readVarInt b = Inr (int_of_size n, b1)"
    "bb_wf b1" "input_ok b1" "m_isBigEndian b1" "bb_unread b1 = var_bytes i @ begun" "bb_size b1 = length (cn_received d)"
    "BLOCK_SIZE \<le> length (flat (m_internalBuffer b1))"
    by (rule plain_read [OF assms(1,3) n])
  obtain b2 where b2: "readVarInt b1 = Inr (i, b2)" "bb_wf b2" "bb_unread b2 = begun"
    by (rule readsE [OF reads_readVarNumeric b(3), of True i begun]) (use b(5,6) in auto)
  from keeps_sizeD [OF keeps_readVarNumeric b(4) b2(1)] b have k2: "input_ok b2" "bb_size b2 = length (cn_received d)"
    "BLOCK_SIZE \<le> length (flat (m_internalBuffer b2))" by simp_all
  let ?i = "m_internalBuffer b2" and ?m = "length begun + k"
  have wf: "ibuf_wf ?i" "\<not> areBlocksRecycled ?i" using b2(2) k2(1) by (simp_all add: bb_wf_def input_ok_def)
  have "length (m_blocks ?i) * BLOCK_SIZE = length (flat ?i)"
    using k2(1) by (simp add: input_ok_def ibuf_inv_def flat_def length_concat_blocks)
  moreover have "wpos ?i = length (cn_received d)" using k2(2) by (simp add: bb_size_def getWriter_def wpos_def Let_def)
  ultimately have room: "k \<le> length (m_blocks ?i) * BLOCK_SIZE - wpos ?i" using k2(3) assms(6) k by simp
  have m: "?m \<le> max_vector_size" using n assms(4) by (simp add: max_vector_size_def)
  from ibuf_read_zeros [OF wf m] obtain i' where "ibuf_read ?m ?i =
      Inr (take ?m (unread ?i @ replicate (length (m_blocks ?i) * BLOCK_SIZE - wpos ?i) 0), i')" by blast
  then have "readBytes ?m b2 = Inr (begun @ replicate k 0, b2\<lparr>m_internalBuffer := i'\<rparr>)"
    using room b2(3) by (simp add: readBytes_def bb_unread_def min_absorb1)
  moreover have "size_minus n (getVarNumericLength i) = ?m" using n assms(4) by (subst size_minus_le) simp_all
  ultimately have run: "bnd (writeBytes (cn_received d)) (\<lambda>_. frame_reader z (cn_isCompressed d)) (new_bb True)
      = Inr (Some (getVarNumericLength (int_of_size n) + n, i, begun @ replicate k 0), b2\<lparr>m_internalBuffer := i'\<rparr>)"
    using b b2 n assms(2) by (simp add: bnd_def frame_reader_def gets_def packet_body_def ret_def)
  obtain e q where q: "writeBytes (begun @ replicate k 0) (new_bb True) = Inr ((), e)" "mk_ZincPacket i e = Inr q" "zp_id q = i"
    "getBytes (zp_data q) = begun @ replicate k 0" by (rule packet_of_bytes)
  then show ?thesis using run assms by (simp add: conn_read_def ebind_def tcp_drain_def packet_bytes_def size_bytes_def)
qed

theorem truncated_packet_is_accepted_witness:
  "\<exists>q d'. conn_read xor_cipher stored_zlib ((new_ZincConnection [])\<lparr>cn_received := [5, 0, 7, 7, 7]\<rparr>) = Inr (q, d')
    \<and> zp_id q = 0 \<and> packet_bytes q = [7, 7, 7] @ replicate 1 0 \<and> cn_received d' = []"
  by (rule truncated_packet_is_accepted [where n = 5])
    (simp_all add: new_ZincConnection_def BLOCK_SIZE_def size_bytes_def int_of_size_def var_bytes_simps getVarNumericLength.simps)

end
