(* ===== verification/Messages.thy ===== *)
theory Messages
  imports Connection
begin

text \<open>
  What a connection sends besides frames (\<open>src/network/minecraft/ZincConnection.cpp\<close>, \<open>BrandChannel.cpp\<close>):
  compression, disconnects, login errors, plugin messages, cookies, ban messages; and the ban list
  (\<open>src/ZincConfig.cpp\<close>). RSA, Base64 and the JSON library are parameters; the random bytes drawn and the
  clock are arguments.
\<close>

section \<open>Packets with a body\<close>

text \<open>\<open>g_zincConfig\<close>'s threshold and the libraries, as every \<open>send\<close> uses them.\<close>

record Env =
  env_evp :: evp_cipher
  env_zlib :: ZLib
  env_threshold :: i32

definition env_send :: "Env \<Rightarrow> ZincPacket \<Rightarrow> ZincConnection \<Rightarrow> zinc_error + ZincConnection" where
  "env_send E = conn_send (env_evp E) (env_zlib E) (env_threshold E)"

definition send_body :: "Env \<Rightarrow> i32 \<Rightarrow> unit bb \<Rightarrow> ZincConnection \<Rightarrow> zinc_error + ZincConnection" where
  "send_body E i w c = ebind (w (new_bb True)) (\<lambda>(_, b). env_send E \<lparr>zp_id = i, zp_data = b\<rparr> c)"

definition setupCompression :: "Env \<Rightarrow> ZincConnection \<Rightarrow> zinc_error + ZincConnection" where
  "setupCompression E c = (if cn_state c \<noteq> Login then Inr c
     else ebind (send_body E 3 (writeVarInt (env_threshold E)) c) (\<lambda>c'. Inr (setIsCompressed True c')))"

definition sendDisconnect :: "Env \<Rightarrow> NBTElement \<Rightarrow> ZincConnection \<Rightarrow> zinc_error + ZincConnection" where
  "sendDisconnect E text_nbt c =
     (case cn_state c of
        Login \<Rightarrow> send_body E 0 (writeString (nbt_toJSON text_nbt)) c
      | Config \<Rightarrow> send_body E 2 (writeNBTElement text_nbt) c
      | Play \<Rightarrow> send_body E 0x1C (writeNBTElement text_nbt) c
      | _ \<Rightarrow> Inr c)"

definition sendDisconnect_text :: "Env \<Rightarrow> TextComponent \<Rightarrow> ZincConnection \<Rightarrow> zinc_error + ZincConnection" where
  "sendDisconnect_text E t c = sendDisconnect E (text_encode t) c"

definition plain_text :: "string \<Rightarrow> TextComponent" where
  "plain_text s = build_text s new_TextComponent"

definition login_error_text :: "string \<Rightarrow> TextComponent" where
  "login_error_text errorMessage =
     build_append (build_color ''red'' (build_bold False (plain_text errorMessage)))
      (build_append (plain_text [CHR 0x0A])
        (build_bold True (build_color ''dark_red'' (plain_text ''Zinc Login Error''))))"

definition sendLoginError :: "Env \<Rightarrow> string \<Rightarrow> ZincConnection \<Rightarrow> zinc_error + ZincConnection" where
  "sendLoginError E errorMessage c = sendDisconnect_text E (login_error_text errorMessage) c"

section \<open>Login plugin channels\<close>

definition isLoginPluginChannelOpened :: "byte list \<Rightarrow> ZincConnection \<Rightarrow> bool" where
  "isLoginPluginChannelOpened i c \<longleftrightarrow> cn_openedLoginPluginChannels c i \<noteq> None"

text \<open>
  The loop draws three random bytes until it finds an identifier that is not open; \<open>draws\<close> are the draws it
  gets, \<open>None\<close> stands for a loop that has not ended after them.
\<close>

fun openLoginPluginChannel :: "byte list list \<Rightarrow> string \<Rightarrow> ZincConnection \<Rightarrow> (i32 \<times> ZincConnection) option" where
  "openLoginPluginChannel [] channel c = None"
| "openLoginPluginChannel (i # draws) channel c =
     (if isLoginPluginChannelOpened i c then openLoginPluginChannel draws channel c
      else Some (of_le_bytes (i @ [0]),
        c\<lparr>cn_openedLoginPluginChannels := (cn_openedLoginPluginChannels c)(i \<mapsto> channel)\<rparr>))"

definition getLoginPluginChannel :: "byte list \<Rightarrow> ZincConnection \<Rightarrow> string" where
  "getLoginPluginChannel i c = (case cn_openedLoginPluginChannels c i of None \<Rightarrow> mc ''brand'' | Some channel \<Rightarrow> channel)"

definition closeLoginPluginChannel :: "byte list \<Rightarrow> ZincConnection \<Rightarrow> ZincConnection" where
  "closeLoginPluginChannel i c = (if isLoginPluginChannelOpened i c
     then c\<lparr>cn_openedLoginPluginChannels := (cn_openedLoginPluginChannels c)(i := None)\<rparr> else c)"

definition sendPluginMessage ::
  "Env \<Rightarrow> byte list list \<Rightarrow> Identifier \<Rightarrow> byte list \<Rightarrow> ZincConnection \<Rightarrow> (zinc_error + ZincConnection) option" where
  "sendPluginMessage E draws pluginChannel data c =
     (let body = thn (writeIdentifier pluginChannel) (writeByteArray data)
      in case cn_state c of
           Login \<Rightarrow> (case openLoginPluginChannel draws (Identifier_toString pluginChannel) c of
               None \<Rightarrow> None
             | Some (i, c') \<Rightarrow> Some (send_body E 4 (thn (writeVarInt i) body) c'))
         | Config \<Rightarrow> Some (send_body E 1 body c)
         | Play \<Rightarrow> Some (send_body E 0x18 body c)
         | _ \<Rightarrow> Some (Inr c))"

definition BrandChannel :: "Env \<Rightarrow> byte list list \<Rightarrow> ZincConnection \<Rightarrow> (zinc_error + ZincConnection) option" where
  "BrandChannel E draws c =
     (if cn_state c = Login
      then Some (sendDisconnect_text E (login_error_text ''You can't request server brand during Login'') c)
      else case run_writer (writeString ''zinc'') of
             Inl e \<Rightarrow> Some (Inl e)
           | Inr data \<Rightarrow> sendPluginMessage E draws (mk_Identifier ''minecraft'' ''brand'') data c)"

section \<open>Cookies\<close>

definition sendCookieRequest :: "Env \<Rightarrow> Identifier \<Rightarrow> ZincConnection \<Rightarrow> zinc_error + ZincConnection" where
  "sendCookieRequest E cookieId c =
     (case cn_state c of
        Login \<Rightarrow> send_body E 5 (writeIdentifier cookieId) c
      | Config \<Rightarrow> send_body E 0 (writeIdentifier cookieId) c
      | Play \<Rightarrow> send_body E 0x15 (writeIdentifier cookieId) c
      | _ \<Rightarrow> Inr c)"

text \<open>
  The members of a stored cookie, and the libraries: \<open>cookie_parse\<close> is \<open>None\<close> for a text that is not JSON, lacks a
  member or has one of another type, all of which end in the same error buffer.
\<close>

record Cookie =
  ck_lifetime :: i64
  ck_data :: string
  ck_signature :: string
  ck_nonce :: string

record CookieLib =
  cookie_dump :: "Cookie \<Rightarrow> string"
  cookie_parse :: "string \<Rightarrow> Cookie option"
  rsa_encrypt :: "byte list \<Rightarrow> byte list"
  rsa_decrypt :: "byte list \<Rightarrow> byte list"
  rsa_sign :: "byte list \<Rightarrow> byte list"
  rsa_verify :: "byte list \<Rightarrow> byte list \<Rightarrow> bool"
  encode_block :: "byte list \<Rightarrow> string option"
  decode_block :: "string \<Rightarrow> byte list option"

definition signed_part :: "string \<Rightarrow> string \<Rightarrow> i64 \<Rightarrow> zinc_error + byte list" where
  "signed_part data nonce lifetime = run_writer (thn (writeString data) (thn (writeString nonce) (writeNumeric lifetime)))"

definition make_cookie :: "CookieLib \<Rightarrow> i64 \<Rightarrow> byte list \<Rightarrow> byte list \<Rightarrow> i64 \<Rightarrow> zinc_error + Cookie" where
  "make_cookie L now random payload lifetime =
     (let nonce = base64_encode (encode_block L) random;
          payloadString = base64_encode (encode_block L) (rsa_encrypt L payload);
          lifetimeResult = now + lifetime
      in ebind (signed_part payloadString nonce lifetimeResult) (\<lambda>dataToSign.
           Inr \<lparr>ck_lifetime = lifetimeResult, ck_data = payloadString,
             ck_signature = base64_encode (encode_block L) (rsa_sign L dataToSign), ck_nonce = nonce\<rparr>))"

definition storeCookie :: "Env \<Rightarrow> CookieLib \<Rightarrow> i64 \<Rightarrow> byte list \<Rightarrow> Identifier \<Rightarrow> byte list \<Rightarrow> i64 \<Rightarrow> ZincConnection
    \<Rightarrow> zinc_error + ZincConnection" where
  "storeCookie E L now random cookieId payload lifetime c =
     (let send = (\<lambda>i. ebind (make_cookie L now random payload lifetime) (\<lambda>cookie.
            send_body E i (thn (writeIdentifier cookieId) (writeString (cookie_dump L cookie))) c))
      in case cn_state c of Config \<Rightarrow> send 0x0A | Play \<Rightarrow> send 0x71 | _ \<Rightarrow> Inr c)"

text \<open>The default of the argument \<open>lifetime\<close>.\<close>

definition default_lifetime :: i64 where
  "default_lifetime = - 1"

text \<open>What the returned buffer holds: a zero byte, or a one and the decrypted payload with its length.\<close>

definition check_cookie :: "CookieLib \<Rightarrow> i64 \<Rightarrow> Cookie \<Rightarrow> zinc_error + byte list option" where
  "check_cookie L now cookie =
     (if ck_lifetime cookie <s now then Inr None
      else ebind (signed_part (ck_data cookie) (ck_nonce cookie) (ck_lifetime cookie)) (\<lambda>totalDataToVerify.
        ebind (base64_decode (decode_block L) (ck_signature cookie)) (\<lambda>signature.
          if \<not> rsa_verify L totalDataToVerify signature then Inr None
          else ebind (base64_decode (decode_block L) (ck_data cookie)) (\<lambda>data. Inr (Some (rsa_decrypt L data))))))"

definition extractCookieData :: "CookieLib \<Rightarrow> i64 \<Rightarrow> ByteBuffer \<Rightarrow> zinc_error + byte list" where
  "extractCookieData L now cookieRawData =
     ebind (readString cookieRawData) (\<lambda>(stringPayload, _).
       case cookie_parse L stringPayload of
         None \<Rightarrow> run_writer (writeBool False)
       | Some cookie \<Rightarrow> ebind (check_cookie L now cookie) (\<lambda>result. case result of
             None \<Rightarrow> run_writer (writeBool False)
           | Some data \<Rightarrow> run_writer (thn (writeBool True) (writePrefixedArray writeUnsignedByte data))))"

section \<open>The ban list\<close>

record BanData =
  bd_isIpBan :: bool
  bd_playerIp :: string
  bd_playerName :: string
  bd_playerUUID :: "byte list"
  bd_banTime :: i64
  bd_isTemporaryban :: bool
  bd_time :: "i64 option"
  bd_reason :: NBTElement
  bd_banId :: string
  bd_bannedBy :: string

text \<open>The target of a ban: what the overloads of \<open>ban\<close> and \<open>tempBan\<close> set; the rest of the identity is empty.\<close>

datatype BanTarget = Ban_Name string | Ban_UUID "byte list" | Ban_Ip string

definition mk_ban :: "(byte list \<Rightarrow> string option) \<Rightarrow> i64 \<Rightarrow> byte list \<Rightarrow> BanTarget \<Rightarrow> TextComponent \<Rightarrow> i64 option \<Rightarrow> string \<Rightarrow> BanData" where
  "mk_ban enc now random target reason banTime moderatorId =
     \<lparr>bd_isIpBan = (case target of Ban_Ip _ \<Rightarrow> True | _ \<Rightarrow> False),
      bd_playerIp = (case target of Ban_Ip ip \<Rightarrow> ip | _ \<Rightarrow> []),
      bd_playerName = (case target of Ban_Name name \<Rightarrow> name | _ \<Rightarrow> []),
      bd_playerUUID = (case target of Ban_UUID uuid \<Rightarrow> uuid | _ \<Rightarrow> replicate 16 0),
      bd_banTime = now, bd_isTemporaryban = (banTime \<noteq> None), bd_time = banTime, bd_reason = text_encode reason,
      bd_banId = base64_encode enc random, bd_bannedBy = base64_encode enc (bytes_of_string moderatorId)\<rparr>"

definition config_ban :: "(byte list \<Rightarrow> string option) \<Rightarrow> i64 \<Rightarrow> byte list \<Rightarrow> BanTarget \<Rightarrow> TextComponent \<Rightarrow> string \<Rightarrow> BanData list \<Rightarrow> BanData list" where
  "config_ban enc now random target reason moderatorId bans = bans @ [mk_ban enc now random target reason None moderatorId]"

definition config_tempBan ::
  "(byte list \<Rightarrow> string option) \<Rightarrow> i64 \<Rightarrow> byte list \<Rightarrow> BanTarget \<Rightarrow> TextComponent \<Rightarrow> i64 \<Rightarrow> string \<Rightarrow> BanData list \<Rightarrow> BanData list" where
  "config_tempBan enc now random target reason banTime moderatorId bans =
     bans @ [mk_ban enc now random target reason (Some banTime) moderatorId]"

text \<open>
  \<open>std::remove_if\<close>: the elements that stay are moved to the front, in order; behind them the vector keeps its
  size, an element that was moved away is in the state \<open>moved\<close> leaves it in, and an element to be removed
  stands there as it was. The code never erases them.
\<close>

definition remove_if :: "('a \<Rightarrow> 'a) \<Rightarrow> ('a \<Rightarrow> bool) \<Rightarrow> 'a list \<Rightarrow> 'a list" where
  "remove_if moved P xs = (let kept = filter (\<lambda>x. \<not> P x) xs
     in kept @ map (\<lambda>x. if P x then x else moved x) (drop (length kept) xs))"

fun ban_of :: "BanTarget \<Rightarrow> BanData \<Rightarrow> bool" where
  "ban_of (Ban_Name name) b \<longleftrightarrow> bd_playerName b = name"
| "ban_of (Ban_UUID uuid) b \<longleftrightarrow> bd_playerUUID b = uuid"
| "ban_of (Ban_Ip ip) b \<longleftrightarrow> bd_playerIp b = ip \<and> bd_isIpBan b"

text \<open>\<open>unban\<close> and \<open>unbanIp\<close> start a thread that does this under the ban mutex.\<close>

definition config_unban :: "(BanData \<Rightarrow> BanData) \<Rightarrow> BanTarget \<Rightarrow> BanData list \<Rightarrow> BanData list" where
  "config_unban moved target bans = remove_if moved (ban_of target) bans"

text \<open>The search at the start of the handler of the client information (\<open>ZincServer::onRead\<close>).\<close>

definition matching_ban :: "bool \<Rightarrow> string \<Rightarrow> byte list \<Rightarrow> string \<Rightarrow> BanData \<Rightarrow> bool" where
  "matching_ban onlineMode name uuid ip b \<longleftrightarrow> name = bd_playerName b \<and> \<not> onlineMode
     \<or> uuid = bd_playerUUID b \<and> onlineMode \<or> ip = bd_playerIp b \<and> bd_isIpBan b"

definition find_ban :: "bool \<Rightarrow> ConnectionInfo \<Rightarrow> string \<Rightarrow> BanData list \<Rightarrow> BanData option" where
  "find_ban onlineMode info ip bans = find (matching_ban onlineMode (ci_playerName info) (ci_playerUUID info) ip) bans"

section \<open>Ban messages\<close>

definition tagged_string :: "string \<Rightarrow> string \<Rightarrow> NBTElement" where
  "tagged_string tag v = with_tag tag (mk_String v default_NBTSettings)"

definition coloured :: "string \<Rightarrow> string \<Rightarrow> TextComponent" where
  "coloured v colour = build_color colour (plain_text v)"

definition nl :: string where
  "nl = [CHR 0x0A]"

definition duration_text :: "int \<Rightarrow> string" where
  "duration_text t =
     (let days = t div 86400; t1 = t - days * 86400; hours = t1 div 3600; t2 = t1 - hours * 3600;
          minutes = t2 div 60; seconds = t2 - minutes * 60;
          piece = (\<lambda>n unit. if n \<noteq> 0 then int_to_string n @ unit else [])
      in piece days ''d '' @ piece hours ''h '' @ piece minutes ''m '' @ piece seconds ''s '')"

definition ban_footer :: "string \<Rightarrow> BanData \<Rightarrow> NBTElement list" where
  "ban_footer unbanSupport b =
     [text_encode (coloured ''Reason: '' ''gray''), bd_reason b, mk_String nl default_NBTSettings,
      (if unbanSupport \<noteq> [] then
         text_encode (build_append (build_text (unbanSupport @ nl @ nl) (build_color ''aqua'' new_TextComponent))
           (build_text ''Find out more: '' (build_color ''gray'' new_TextComponent)))
       else text_encode (coloured (''Contact server admin to request unban'' @ nl @ nl) ''gray'')),
      text_encode (build_append (coloured ''Do not share your Ban ID'' ''gray'')
        (build_append (coloured (bd_banId b @ nl) ''white'') (coloured ''Ban ID: '' ''gray'')))]"

definition ban_text :: "string \<Rightarrow> NBTElement list \<Rightarrow> NBTElement" where
  "ban_text head extra = NBTElement (m_fields (mk_Compound [] default_NBTSettings))
     [tagged_string ''type'' ''text'', tagged_string ''text'' head, tagged_string ''color'' ''red'',
      with_tag ''extra'' (mk_List extra default_NBTSettings)]"

text \<open>
  The result: whether the player is to be kept out, the connection, and the unban that was started, if any.
  A temporary ban has its time set wherever the code makes one; the comparison reads it.
\<close>

definition sendBanMessage :: "Env \<Rightarrow> i64 \<Rightarrow> bool \<Rightarrow> string \<Rightarrow> BanData \<Rightarrow> ZincConnection
    \<Rightarrow> zinc_error + (bool \<times> BanTarget option \<times> ZincConnection)" where
  "sendBanMessage E now onlineMode unbanSupport b c =
     (let timePassed = (if bd_isTemporaryban b then now - bd_banTime b else - 1);
          refuse = (\<lambda>t. ebind (sendDisconnect E t c) (\<lambda>c'. Inr (True, None, c')))
      in if 0 \<le>s timePassed then
           (case bd_time b of
              None \<Rightarrow> Inl Indeterminate
            | Some banTime \<Rightarrow>
                if banTime \<le>s timePassed then
                  Inr (False, Some (if bd_isIpBan b then Ban_Ip (bd_playerIp b)
                    else if onlineMode then Ban_UUID (bd_playerUUID b) else Ban_Name (bd_playerName b)), c)
                else refuse (ban_text ''You are temporarly banned for ''
                  (text_encode (coloured (duration_text (sint timePassed)) ''white'')
                   # text_encode (coloured (''from this server'' @ nl @ nl) ''red'') # ban_footer unbanSupport b)))
         else refuse (ban_text (''You are permanently banned from this server'' @ nl @ nl) (ban_footer unbanSupport b)))"

section \<open>Cookies that come back\<close>

text \<open>The documented results of \<open>EVP_EncodeBlock\<close> and \<open>EVP_DecodeBlock\<close> on what the encoder makes.\<close>

definition blocks_match :: "CookieLib \<Rightarrow> byte list \<Rightarrow> bool" where
  "blocks_match L data \<longleftrightarrow> (\<exists>out. encode_block L data = Some out \<and> length out = 4 * ((length data + 2) div 3)
     \<and> calculatePadding out = (3 - length data mod 3) mod 3
     \<and> decode_block L out = Some (data @ replicate ((3 - length data mod 3) mod 3) 0))"

lemma base64_matching:
  "data \<noteq> [] \<Longrightarrow> blocks_match L data \<Longrightarrow> base64_decode (decode_block L) (base64_encode (encode_block L) data)
     = (if 3 dvd length data then Inr data else Inl OutOfBounds)"
  unfolding blocks_match_def by (elim exE conjE) (rule base64_decode_encode)

lemma signed_part_total: "\<exists>bytes. signed_part data nonce lifetime = Inr bytes"
proof -
  have "appends True (thn (writeString data) (thn (writeString nonce) (writeNumeric lifetime)))
      (string_bytes data @ string_bytes nonce @ numeric_bytes True lifetime)" by (intro appends_intros)
  from run_writer_appends [OF this] show ?thesis by (simp add: signed_part_def)
qed

section \<open>Properties\<close>

text \<open>A stored cookie read back later. With the default lifetime it has already expired. Otherwise the result
  depends on the sizes of the signature and of the encrypted payload: if both are multiples of three the payload
  comes back, if not the padding of their Base64 text makes \<open>decode\<close> write past its vector. The 256 bytes of a
  2048-bit key are not a multiple of three.\<close>

theorem cookie_round_trip:
  assumes "make_cookie L now random payload lifetime = Inr cookie"
    and "\<forall>x. rsa_verify L x (rsa_sign L x)" and "rsa_decrypt L (rsa_encrypt L payload) = payload"
    and "signed_part (ck_data cookie) (ck_nonce cookie) (ck_lifetime cookie) = Inr sigInput"
    and "rsa_sign L sigInput \<noteq> []" and "blocks_match L (rsa_sign L sigInput)"
    and "rsa_encrypt L payload \<noteq> []" and "blocks_match L (rsa_encrypt L payload)"
  shows "check_cookie L later cookie =
    (if now + lifetime <s later then Inr None
     else if 3 dvd length (rsa_sign L sigInput) \<and> 3 dvd length (rsa_encrypt L payload) then Inr (Some payload)
     else Inl OutOfBounds)"
proof -
  have cookie: "ck_lifetime cookie = now + lifetime" "ck_data cookie = base64_encode (encode_block L) (rsa_encrypt L payload)"
    "ck_signature cookie = base64_encode (encode_block L) (rsa_sign L sigInput)"
    using assms(1,4) by (auto simp: make_cookie_def Let_def ebind_def split: sum.splits)
  then show ?thesis
    using assms(2-4) base64_matching [OF assms(5,6)] base64_matching [OF assms(7,8)]
    by (simp add: check_cookie_def ebind_def)
qed

definition plain_lib :: CookieLib where
  "plain_lib = \<lparr>cookie_dump = \<lambda>_. [], cookie_parse = \<lambda>_. None, rsa_encrypt = \<lambda>x. x, rsa_decrypt = \<lambda>x. x,
     rsa_sign = \<lambda>_. [1, 2, 3], rsa_verify = \<lambda>_ s. s = [1, 2, 3], encode_block = \<lambda>x. Some (if x = [1, 2, 3] then ''AQID'' else ''CQk=''),
     decode_block = \<lambda>s. Some (if s = ''AQID'' then [1, 2, 3] else [9, 9, 0])\<rparr>"

theorem cookie_round_trip_witness:
  "\<exists>cookie. make_cookie plain_lib 100 [9, 9] [9, 9] 50 = Inr cookie \<and> check_cookie plain_lib 120 cookie = Inl OutOfBounds"
proof -
  obtain cookie where c: "make_cookie plain_lib 100 [9, 9] [9, 9] 50 = Inr cookie"
  proof -
    obtain bytes where "signed_part (base64_encode (encode_block plain_lib) (rsa_encrypt plain_lib [9, 9]))
        (base64_encode (encode_block plain_lib) [9, 9]) (100 + 50) = Inr bytes" using signed_part_total by blast
    with that show thesis unfolding make_cookie_def Let_def by (simp only: ebind_def sum.case)
  qed
  obtain sigInput where s: "signed_part (ck_data cookie) (ck_nonce cookie) (ck_lifetime cookie) = Inr sigInput"
    using signed_part_total by blast
  have "check_cookie plain_lib 120 cookie = (if (100 :: i64) + 50 <s 120 then Inr None
     else if 3 dvd length (rsa_sign plain_lib sigInput) \<and> 3 dvd length (rsa_encrypt plain_lib [9, 9]) then Inr (Some [9, 9])
     else Inl OutOfBounds)"
    by (rule cookie_round_trip [OF c _ _ s]) (simp_all add: plain_lib_def blocks_match_def calculatePadding_def)
  moreover have "\<not> 3 dvd length (rsa_encrypt plain_lib [9, 9])" unfolding plain_lib_def by simp presburger
  ultimately show ?thesis using c by auto
qed

text \<open>C32: \<open>unban\<close> uses \<open>std::remove_if\<close> without \<open>erase\<close>: the list keeps its length, and when the last entry is one of
  the bans to be lifted it stays. A player whose ban is the last one, or the only one, stays banned.\<close>

theorem unban_keeps_last_ban:
  assumes "bans = bs @ [b]" and "ban_of target b"
    and "target = (if onlineMode then Ban_UUID (ci_playerUUID info) else Ban_Name (ci_playerName info)) \<or> target = Ban_Ip ip"
  shows "length (config_unban moved target bans) = length bans \<and> last (config_unban moved target bans) = b
    \<and> find_ban onlineMode info ip (config_unban moved target bans) \<noteq> None"
proof -
  let ?kept = "filter (\<lambda>x. \<not> ban_of target x) bans"
  have short: "length ?kept \<le> length bs" using assms(1,2) by simp
  then have tail: "drop (length ?kept) bans = drop (length ?kept) bs @ [b]" using assms(1) by simp
  then have unban: "config_unban moved target bans = ?kept @ map (\<lambda>x. if ban_of target x then x else moved x) (drop (length ?kept) bs) @ [b]"
    using assms(2) by (simp add: config_unban_def remove_if_def Let_def)
  have "matching_ban onlineMode (ci_playerName info) (ci_playerUUID info) ip b"
    using assms(2,3) by (auto simp: matching_ban_def split: if_splits)
  moreover have "b \<in> set (config_unban moved target bans)" unfolding unban by simp
  ultimately have "find_ban onlineMode info ip (config_unban moved target bans) \<noteq> None"
    unfolding find_ban_def find_None_iff by blast
  then show ?thesis using unban short assms(1) by simp
qed

theorem unban_keeps_last_ban_witness:
  "\<forall>moved. find_ban False (new_ConnectionInfo\<lparr>ci_playerName := ''eve''\<rparr>) ''::1'' (config_unban moved (Ban_Name ''eve'')
     (config_ban (\<lambda>_. None) 5 [] (Ban_Name ''eve'') new_TextComponent ''admin'' [])) \<noteq> None"
proof (intro allI)
  fix moved
  show "find_ban False (new_ConnectionInfo\<lparr>ci_playerName := ''eve''\<rparr>) ''::1'' (config_unban moved (Ban_Name ''eve'')
     (config_ban (\<lambda>_. None) 5 [] (Ban_Name ''eve'') new_TextComponent ''admin'' [])) \<noteq> None"
    using unban_keeps_last_ban [of "config_ban (\<lambda>_. None) 5 [] (Ban_Name ''eve'') new_TextComponent ''admin'' []" "[]"
      "mk_ban (\<lambda>_. None) 5 [] (Ban_Name ''eve'') new_TextComponent None ''admin''" "Ban_Name ''eve''" False
      "new_ConnectionInfo\<lparr>ci_playerName := ''eve''\<rparr>" "''::1''" moved]
    by (simp add: config_ban_def mk_ban_def)
qed

end
