(* ===== verification/Config.thy ===== *)
theory Config
  imports Messages
begin

text \<open>
  The configuration and the ban list on disk (\<open>src/ZincConfig.cpp\<close>, \<open>inc/ZincConfig.h\<close>) and the command line
  (\<open>src/ZincArguments.cpp\<close>). JSON values are the tree that the vendored \<open>nlohmann::json\<close> keeps, with the conversions the code
  uses; its text format, \<open>parse\<close> and \<open>dump\<close>, is a parameter. Files are a map from paths to contents.
\<close>

section \<open>JSON values\<close>

text \<open>An object is its list of members; the library keeps them in the order of their keys, which matters where a loop
  visits them. A floating-point number is its bit pattern.\<close>

datatype json = JNull | JBool bool | JInt int | JFloat i64 | JString string | JArray "json list" | JObject "(string \<times> json) list"

text \<open>\<open>static_cast\<close> of a \<open>double\<close> to an integer: towards zero; a NaN, an infinity or a value that does not fit is undefined.\<close>

definition double_trunc :: "i64 \<Rightarrow> int" where
  "double_trunc d =
     (let e = unat (take_bit 11 (drop_bit 52 d)); m = (if e = 0 then 0 else 2 ^ 52) + int (unat (take_bit 52 d));
          n = (if 1075 \<le> e then m * 2 ^ (e - 1075) else m div 2 ^ (1075 - e))
      in if bit d 63 then - n else n)"

definition double_to_word :: "i64 \<Rightarrow> zinc_error + 'a::len word" where
  "double_to_word d = (if take_bit 11 (drop_bit 52 d) = 0x7FF \<or> double_trunc d < - (2 ^ (LENGTH('a) - 1)) \<or> 2 ^ (LENGTH('a) - 1) \<le> double_trunc d
     then Inl Indeterminate else Inr (word_of_int (double_trunc d)))"

text \<open>\<open>int x = j\<close> takes numbers and booleans, \<open>long x = j\<close> numbers only; other values throw a \<open>type_error\<close>.\<close>

definition get_int :: "json \<Rightarrow> zinc_error + i32" where
  "get_int j = (case j of JInt i \<Rightarrow> Inr (word_of_int i) | JFloat d \<Rightarrow> double_to_word d | JBool b \<Rightarrow> Inr (of_bool b) | _ \<Rightarrow> Inl JsonTypeError)"

definition get_long :: "json \<Rightarrow> zinc_error + i64" where
  "get_long j = (case j of JInt i \<Rightarrow> Inr (word_of_int i) | JFloat d \<Rightarrow> double_to_word d | _ \<Rightarrow> Inl JsonTypeError)"

definition get_bool :: "json \<Rightarrow> zinc_error + bool" where
  "get_bool j = (case j of JBool b \<Rightarrow> Inr b | _ \<Rightarrow> Inl JsonTypeError)"

definition get_string :: "json \<Rightarrow> zinc_error + string" where
  "get_string j = (case j of JString s \<Rightarrow> Inr s | _ \<Rightarrow> Inl JsonTypeError)"

definition jcontains :: "string \<Rightarrow> json \<Rightarrow> bool" where
  "jcontains k j \<longleftrightarrow> (case j of JObject m \<Rightarrow> map_of m k \<noteq> None | _ \<Rightarrow> False)"

text \<open>\<open>j[k]\<close> of a constant: a missing member is undefined behaviour.\<close>

definition jget :: "string \<Rightarrow> json \<Rightarrow> zinc_error + json" where
  "jget k j = (case j of JObject m \<Rightarrow> (case map_of m k of None \<Rightarrow> Inl OutOfBounds | Some v \<Rightarrow> Inr v) | _ \<Rightarrow> Inl JsonTypeError)"

text \<open>What \<open>for (x : j)\<close> visits: nothing for null, the value itself if it is a single one.\<close>

definition jitems :: "json \<Rightarrow> json list" where
  "jitems j = (case j of JArray xs \<Rightarrow> xs | JObject m \<Rightarrow> map snd m | JNull \<Rightarrow> [] | _ \<Rightarrow> [j])"

text \<open>\<open>if (j.contains(k)) ... j[k] ...\<close>, the assignment of a member of the configuration, and statements in a row.\<close>

definition if_member :: "string \<Rightarrow> json \<Rightarrow> (json \<Rightarrow> 'c \<Rightarrow> zinc_error + 'c) \<Rightarrow> 'c \<Rightarrow> zinc_error + 'c" where
  "if_member k j f c = (if jcontains k j then ebind (jget k j) (\<lambda>v. f v c) else Inr c)"

definition assign :: "(json \<Rightarrow> zinc_error + 'a) \<Rightarrow> ('a \<Rightarrow> 'c \<Rightarrow> 'c) \<Rightarrow> json \<Rightarrow> 'c \<Rightarrow> zinc_error + 'c" where
  "assign get upd j c = ebind (get j) (\<lambda>v. Inr (upd v c))"

definition in_turn :: "('c \<Rightarrow> zinc_error + 'c) list \<Rightarrow> 'c \<Rightarrow> zinc_error + 'c" where
  "in_turn fs = efold (\<lambda>f. f) fs"

section \<open>The configuration\<close>

datatype WorldType = Limbo | Template | Normal
datatype StorageFormat = MCAnvil | HypixelSlime
datatype RedstoneMode = Redstone_Disabled | Redstone_Vanilla | Redstone_Optimized

record WorldConfig =
  wc_worldType :: WorldType
  wc_storageFormat :: StorageFormat
  wc_redstoneMode :: RedstoneMode
  wc_requiredPermission :: string
  wc_options :: string

definition new_WorldConfig :: WorldConfig where
  "new_WorldConfig = \<lparr>wc_worldType = Normal, wc_storageFormat = MCAnvil, wc_redstoneMode = Redstone_Vanilla,
     wc_requiredPermission = ''group.default'', wc_options = []\<rparr>"

text \<open>The registered worlds are an \<open>std::unordered_map\<close>: a map. Where a loop visits it, the order, which the language leaves open
  and which may change from one run to the next, is a parameter: the list of its keys.\<close>

record ZincConfig =
  nw_threshold :: i32
  nw_serverPort :: i32
  nw_srvctlPort :: i32
  nw_motd :: string
  nw_maxPlayerCount :: i32
  nw_iconBase64 :: string
  nw_iconPath :: string
  se_onlineMode :: bool
  se_whitelist :: bool
  se_allowSurvivalFlight :: bool
  se_allowPVP :: bool
  se_backupInterval :: i32
  se_rateLimit :: i32
  se_maxConcurrentAccount :: i32
  se_rbacPath :: string
  se_unbanSupport :: string
  op_viewDistance :: i32
  op_simulationDistance :: i32
  wo_registeredWorlds :: "string \<rightharpoonup> WorldConfig"
  wo_defaultWorld :: string
  zc_features :: "string list"
  zc_bans :: "BanData list"

definition new_ZincConfig :: ZincConfig where
  "new_ZincConfig = \<lparr>nw_threshold = 256, nw_serverPort = 25565, nw_srvctlPort = 25575,
     nw_motd = ''A '' @ legacy_code CHR ''b'' @ ''Zinc'' @ legacy_code CHR ''r'' @ '' Minecraft Server'',
     nw_maxPlayerCount = 20, nw_iconBase64 = [], nw_iconPath = ''icon.png'',
     se_onlineMode = True, se_whitelist = False, se_allowSurvivalFlight = False, se_allowPVP = True, se_backupInterval = 1440,
     se_rateLimit = 2, se_maxConcurrentAccount = 10, se_rbacPath = ''config/rbac'', se_unbanSupport = [],
     op_viewDistance = 10, op_simulationDistance = 10,
     wo_registeredWorlds = Map.empty, wo_defaultWorld = ''world'', zc_features = [''voice_chat'', ''player_models'', ''redpiler''],
     zc_bans = []\<rparr>"

section \<open>Saving\<close>

definition jint :: "'a::len word \<Rightarrow> json" where
  "jint v = JInt (sint v)"

definition world_type_name :: "WorldType \<Rightarrow> string" where
  "world_type_name t = (if t = Limbo then ''limbo'' else if t = Template then ''template'' else ''normal'')"

definition storage_format_name :: "StorageFormat \<Rightarrow> string" where
  "storage_format_name f = (if f = MCAnvil then ''anvil'' else ''slime'')"

definition redstone_mode_name :: "RedstoneMode \<Rightarrow> string" where
  "redstone_mode_name m = (if m = Redstone_Vanilla then ''vanilla'' else if m = Redstone_Disabled then ''disabled'' else ''optimized'')"

definition world_json :: "string \<times> WorldConfig \<Rightarrow> json" where
  "world_json worldPair = JObject
     [(''world_config'', JObject
         [(''options'', JString (wc_options (snd worldPair))),
          (''redstone_mode'', JString (redstone_mode_name (wc_redstoneMode (snd worldPair)))),
          (''required_permission'', JString (wc_requiredPermission (snd worldPair))),
          (''storage_format'', JString (storage_format_name (wc_storageFormat (snd worldPair)))),
          (''world_type'', JString (world_type_name (wc_worldType (snd worldPair))))]),
      (''world_id'', JString (fst worldPair))]"

definition serialize :: "string list \<Rightarrow> (string \<rightharpoonup> WorldConfig) \<Rightarrow> json list" where
  "serialize order worlds = List.map_filter (\<lambda>name. map_option (\<lambda>w. world_json (name, w)) (worlds name)) order"

definition coreSettings :: "string list \<Rightarrow> ZincConfig \<Rightarrow> json" where
  "coreSettings order c = JObject
     [(''features'', JArray (map JString (zc_features c))),
      (''network'', JObject
         [(''icon_path'', JString (nw_iconPath c)), (''max_player_count'', jint (nw_maxPlayerCount c)), (''motd'', JString (nw_motd c)),
          (''server_port'', jint (nw_serverPort c)), (''srvctl_port'', jint (nw_srvctlPort c)), (''threshold'', jint (nw_threshold c))]),
      (''optimizations'', JObject
         [(''simulation_distance'', jint (op_simulationDistance c)), (''view_distance'', jint (op_viewDistance c))]),
      (''security'', JObject
         [(''allow_pvp'', JBool (se_allowPVP c)), (''allow_survival_flight'', JBool (se_allowSurvivalFlight c)),
          (''backup_interval_minutes'', jint (se_backupInterval c)), (''max_concurrent_account'', jint (se_maxConcurrentAccount c)),
          (''online_mode'', JBool (se_onlineMode c)), (''rate_limit_seconds'', jint (se_rateLimit c)), (''rbac_path'', JString (se_rbacPath c)),
          (''unban_support'', JString (se_unbanSupport c)), (''whitelist'', JBool (se_whitelist c))]),
      (''worlds'', JObject
         [(''default_world'', JString (wo_defaultWorld c)), (''registered_worlds'', JArray (serialize order (wo_registeredWorlds c)))])]"

section \<open>Loading\<close>

definition world_type_of :: "string \<Rightarrow> WorldConfig \<Rightarrow> WorldConfig" where
  "world_type_of s w = (if s = ''limbo'' then w\<lparr>wc_worldType := Limbo\<rparr> else if s = ''template'' then w\<lparr>wc_worldType := Template\<rparr>
     else if s = ''normal'' then w\<lparr>wc_worldType := Normal\<rparr> else w)"

definition storage_format_of :: "string \<Rightarrow> WorldConfig \<Rightarrow> WorldConfig" where
  "storage_format_of s w = (if s = ''anvil'' then w\<lparr>wc_storageFormat := MCAnvil\<rparr> else if s = ''slime'' then w\<lparr>wc_storageFormat := HypixelSlime\<rparr> else w)"

definition redstone_mode_of :: "string \<Rightarrow> WorldConfig \<Rightarrow> WorldConfig" where
  "redstone_mode_of s w = (if s = ''disabled'' then w\<lparr>wc_redstoneMode := Redstone_Disabled\<rparr>
     else if s = ''vanilla'' then w\<lparr>wc_redstoneMode := Redstone_Vanilla\<rparr>
     else if s = ''optimized'' then w\<lparr>wc_redstoneMode := Redstone_Optimized\<rparr> else w)"

definition load_world_config :: "json \<Rightarrow> WorldConfig \<Rightarrow> zinc_error + WorldConfig" where
  "load_world_config j = in_turn
     [if_member ''world_type'' j (assign get_string world_type_of),
      if_member ''storage_format'' j (assign get_string storage_format_of),
      if_member ''redstone_mode'' j (assign get_string redstone_mode_of),
      if_member ''required_permission'' j (assign get_string (\<lambda>v. wc_requiredPermission_update (\<lambda>_. v))),
      if_member ''options'' j (assign get_string (\<lambda>v. wc_options_update (\<lambda>_. v)))]"

text \<open>\<open>insert\<close> keeps what is there. \<open>random\<close> is what \<open>randomBytes(4)\<close> returns for this world, \<open>enc\<close> the Base64 encoder.\<close>

definition load_world :: "(byte list \<Rightarrow> string option) \<Rightarrow> json \<times> byte list \<Rightarrow> ZincConfig \<Rightarrow> zinc_error + ZincConfig" where
  "load_world enc = (\<lambda>(registeredWorld, random) c.
     ebind (if_member ''world_config'' registeredWorld load_world_config new_WorldConfig) (\<lambda>worldConfig.
     ebind (if_member ''world_id'' registeredWorld (assign get_string (\<lambda>v _. v)) (''world_'' @ base64_encode enc random)) (\<lambda>worldId.
     Inr (if wo_registeredWorlds c worldId = None
          then c\<lparr>wo_registeredWorlds := (wo_registeredWorlds c)(worldId \<mapsto> worldConfig)\<rparr> else c))))"

definition load_feature :: "json \<Rightarrow> ZincConfig \<Rightarrow> zinc_error + ZincConfig" where
  "load_feature = assign get_string (\<lambda>v c. c\<lparr>zc_features := zc_features c @ [v]\<rparr>)"

definition load_network :: "json \<Rightarrow> ZincConfig \<Rightarrow> zinc_error + ZincConfig" where
  "load_network j = in_turn
     [if_member ''threshold'' j (assign get_int (\<lambda>v. nw_threshold_update (\<lambda>_. v))),
      if_member ''server_port'' j (assign get_int (\<lambda>v. nw_serverPort_update (\<lambda>_. v))),
      if_member ''srvctl_port'' j (assign get_int (\<lambda>v. nw_srvctlPort_update (\<lambda>_. v))),
      if_member ''motd'' j (assign get_string (\<lambda>v. nw_motd_update (\<lambda>_. v))),
      if_member ''max_player_count'' j (assign get_int (\<lambda>v. nw_maxPlayerCount_update (\<lambda>_. v))),
      if_member ''icon_path'' j (assign get_string (\<lambda>v. nw_iconPath_update (\<lambda>_. v)))]"

definition load_security :: "json \<Rightarrow> ZincConfig \<Rightarrow> zinc_error + ZincConfig" where
  "load_security j = in_turn
     [if_member ''online_mode'' j (assign get_bool (\<lambda>v. se_onlineMode_update (\<lambda>_. v))),
      if_member ''whitelist'' j (assign get_bool (\<lambda>v. se_whitelist_update (\<lambda>_. v))),
      if_member ''allow_survival_flight'' j (assign get_bool (\<lambda>v. se_allowSurvivalFlight_update (\<lambda>_. v))),
      if_member ''allow_pvp'' j (assign get_bool (\<lambda>v. se_allowPVP_update (\<lambda>_. v))),
      if_member ''backup_interval_minutes'' j (assign get_int (\<lambda>v. se_backupInterval_update (\<lambda>_. v))),
      if_member ''rate_limit_seconds'' j (assign get_int (\<lambda>v. se_rateLimit_update (\<lambda>_. v))),
      if_member ''max_concurrent_account'' j (assign get_int (\<lambda>v. se_maxConcurrentAccount_update (\<lambda>_. v))),
      if_member ''rbac_path'' j (assign get_string (\<lambda>v. se_rbacPath_update (\<lambda>_. v))),
      if_member ''unban_support'' j (assign get_string (\<lambda>v. se_unbanSupport_update (\<lambda>_. v)))]"

definition load_optimizations :: "json \<Rightarrow> ZincConfig \<Rightarrow> zinc_error + ZincConfig" where
  "load_optimizations j = in_turn
     [if_member ''view_distance'' j (assign get_int (\<lambda>v. op_viewDistance_update (\<lambda>_. v))),
      if_member ''simulation_distance'' j (assign get_int (\<lambda>v. op_simulationDistance_update (\<lambda>_. v)))]"

definition load_worlds :: "(byte list \<Rightarrow> string option) \<Rightarrow> (nat \<Rightarrow> byte list) \<Rightarrow> json \<Rightarrow> ZincConfig \<Rightarrow> zinc_error + ZincConfig" where
  "load_worlds enc random j = in_turn
     [if_member ''default_world'' j (assign get_string (\<lambda>v. wo_defaultWorld_update (\<lambda>_. v))),
      if_member ''registered_worlds'' j (\<lambda>worlds. efold (load_world enc) (zip (jitems worlds) (map random [0..<length (jitems worlds)])))]"

definition load_settings :: "(byte list \<Rightarrow> string option) \<Rightarrow> (nat \<Rightarrow> byte list) \<Rightarrow> json \<Rightarrow> ZincConfig \<Rightarrow> zinc_error + ZincConfig" where
  "load_settings enc random j = in_turn
     [if_member ''network'' j load_network, if_member ''security'' j load_security, if_member ''optimizations'' j load_optimizations,
      if_member ''worlds'' j (load_worlds enc random),
      if_member ''features'' j (\<lambda>features c. efold load_feature (jitems features) (c\<lparr>zc_features := []\<rparr>))]"

definition default_rbac :: "ZincConfig \<Rightarrow> ZincConfig" where
  "default_rbac c = (if se_rbacPath c = [] then c\<lparr>se_rbacPath := ''config/rbac''\<rparr> else c)"


section \<open>The ban list on disk\<close>

definition jget_string :: "string \<Rightarrow> json \<Rightarrow> zinc_error + string" where
  "jget_string k j = ebind (jget k j) get_string"

text \<open>\<open>m_isTemporaryban\<close> and \<open>m_time\<close> have no initial value: without \<open>time\<close> the flag keeps what the memory of this ban held
  (\<open>stale\<close>). In a list each ban has its own such memory: \<open>stale i\<close> for the one that becomes \<open>m_bans[i]\<close>.\<close>

definition load_ban :: "(string \<Rightarrow> byte list option) \<Rightarrow> bool \<Rightarrow> bool \<Rightarrow> json \<Rightarrow> zinc_error + BanData" where
  "load_ban dec stale isIpBan j =
     ebind (if isIpBan then jget_string ''ip'' j else Inr []) (\<lambda>ip.
     ebind (jget_string ''name'' j) (\<lambda>name.
     ebind (jget_string ''uuid'' j) (\<lambda>uuid.
     ebind (jget_string ''reason'' j) (\<lambda>reason.
     ebind (base64_decode dec reason) (\<lambda>bytes.
     ebind (bnd (writeArray writeUnsignedByte bytes) (\<lambda>_. readNBT) (new_bb True)) (\<lambda>(element, _).
     ebind (ebind (jget ''from'' j) get_long) (\<lambda>banTime.
     ebind (jget_string ''id'' j) (\<lambda>banId.
     ebind (jget_string ''by'' j) (\<lambda>bannedBy.
     ebind (if jcontains ''time'' j then ebind (ebind (jget ''time'' j) get_long) (\<lambda>t. Inr (Some t)) else Inr None) (\<lambda>tempTime.
       Inr \<lparr>bd_isIpBan = isIpBan, bd_playerIp = ip, bd_playerName = name,
         bd_playerUUID = (case uuid_from_string uuid of Some u \<Rightarrow> u | None \<Rightarrow> replicate 16 0),
         bd_banTime = banTime, bd_isTemporaryban = (if tempTime = None then stale else True), bd_time = tempTime,
         bd_reason = element, bd_banId = banId, bd_bannedBy = bannedBy\<rparr>))))))))))"

definition load_bans :: "(string \<Rightarrow> byte list option) \<Rightarrow> (nat \<Rightarrow> bool) \<Rightarrow> bool \<Rightarrow> json \<Rightarrow> BanData list \<Rightarrow> zinc_error + BanData list" where
  "load_bans dec stale isIpBan j = efold (\<lambda>b bans. ebind (load_ban dec (stale (length bans)) isIpBan b) (\<lambda>data. Inr (bans @ [data]))) (jitems j)"

definition loadBanList :: "(string \<Rightarrow> byte list option) \<Rightarrow> (nat \<Rightarrow> bool) \<Rightarrow> json \<Rightarrow> BanData list \<Rightarrow> zinc_error + BanData list" where
  "loadBanList dec stale banlist = in_turn
     [if_member ''ipbans'' banlist (load_bans dec stale True), if_member ''bans'' banlist (load_bans dec stale False)]"

definition ban_json :: "(byte list \<Rightarrow> string option) \<Rightarrow> BanData \<Rightarrow> zinc_error + json" where
  "ban_json enc b = ebind (run_writer (writeNBTElement (bd_reason b))) (\<lambda>bytes.
     ebind (if bd_isTemporaryban b then (case bd_time b of None \<Rightarrow> Inl Indeterminate | Some t \<Rightarrow> Inr [(''time'', jint t)]) else Inr []) (\<lambda>time.
       Inr (JObject ([(''by'', JString (bd_bannedBy b)), (''from'', jint (bd_banTime b)), (''id'', JString (bd_banId b))]
         @ (if bd_isIpBan b then [(''ip'', JString (bd_playerIp b))] else [])
         @ [(''name'', JString (bd_playerName b)), (''reason'', JString (base64_encode enc bytes))]
         @ time @ [(''uuid'', JString (uuid_to_string (bd_playerUUID b)))]))))"

definition save_ban :: "(byte list \<Rightarrow> string option) \<Rightarrow> BanData \<Rightarrow> json list \<times> json list \<Rightarrow> zinc_error + (json list \<times> json list)" where
  "save_ban enc b = (\<lambda>(ipbans, bans). ebind (ban_json enc b) (\<lambda>j.
     Inr (if bd_isIpBan b then (ipbans @ [j], bans) else (ipbans, bans @ [j]))))"

definition saveBanList :: "(byte list \<Rightarrow> string option) \<Rightarrow> BanData list \<Rightarrow> zinc_error + json" where
  "saveBanList enc bans = ebind (efold (save_ban enc) bans ([], [])) (\<lambda>(ipbans, bans).
     Inr (JObject [(''bans'', JArray bans), (''ipbans'', JArray ipbans)]))"

section \<open>Files\<close>

datatype OpenMode = Mode_in | Mode_out | Mode_app | Mode_trunc | Mode_binary

text \<open>The combinations of modes with which \<open>std::basic_filebuf::open\<close> succeeds (\<open>binary\<close> and \<open>ate\<close> do not count).\<close>

definition modes_open :: "OpenMode list \<Rightarrow> bool" where
  "modes_open modes \<longleftrightarrow> (Mode_in \<in> set modes \<or> Mode_out \<in> set modes \<or> Mode_app \<in> set modes)
     \<and> (Mode_trunc \<in> set modes \<longrightarrow> Mode_out \<in> set modes \<and> Mode_app \<notin> set modes)"

record Files =
  fs_files :: "string \<rightharpoonup> string"
  fs_writable :: "string \<Rightarrow> bool"

record JsonLib =
  js_parse :: "string \<Rightarrow> zinc_error + json"
  js_dump :: "json \<Rightarrow> zinc_error + string"
  js_encode_block :: "byte list \<Rightarrow> string option"
  js_decode_block :: "string \<Rightarrow> byte list option"

text \<open>\<open>std::fstream\<close> opens for reading and writing: a file that may not be written is not read either.\<close>

definition readJSONFile :: "JsonLib \<Rightarrow> string \<Rightarrow> Files \<Rightarrow> zinc_error + json" where
  "readJSONFile L path fs =
     (let content = (case fs_files fs path of None \<Rightarrow> [] | Some s \<Rightarrow> if fs_writable fs path then s else []);
          buff = (if content = [] \<or> last content = CHR 0x0A then content else content @ [CHR 0x0A])
      in js_parse L (if buff = [] then ''{}'' else buff))"

definition writeJSONFile :: "JsonLib \<Rightarrow> string \<Rightarrow> json \<Rightarrow> Files \<Rightarrow> zinc_error + Files" where
  "writeJSONFile L path j fs = ebind (js_dump L j) (\<lambda>s.
     Inr (if fs_writable fs path then fs\<lparr>fs_files := (fs_files fs)(path \<mapsto> s)\<rparr> else fs))"

definition load_icon :: "JsonLib \<Rightarrow> string \<Rightarrow> Files \<Rightarrow> ZincConfig \<Rightarrow> ZincConfig" where
  "load_icon L workdir fs c = (let path = workdir @ ''/config/'' @ nw_iconPath c in
     if modes_open [Mode_binary] then
       (case fs_files fs path of None \<Rightarrow> c
        | Some iconBytes \<Rightarrow> c\<lparr>nw_iconBase64 := base64_encode (js_encode_block L) (bytes_of_string iconBytes)\<rparr>)
     else c)"

definition config_save :: "JsonLib \<Rightarrow> string list \<Rightarrow> string \<Rightarrow> ZincConfig \<times> Files \<Rightarrow> zinc_error + (ZincConfig \<times> Files)" where
  "config_save L order workdir = (\<lambda>(c, fs). let c1 = default_rbac c in
     ebind (writeJSONFile L (workdir @ ''/config/zinc.json'') (coreSettings order c1) fs) (\<lambda>fs1.
     ebind (saveBanList (js_encode_block L) (zc_bans c1)) (\<lambda>banlist.
     ebind (writeJSONFile L (workdir @ ''/banlist.json'') banlist fs1) (\<lambda>fs2. Inr (c1, fs2)))))"

text \<open>What a call of \<open>load\<close> finds: the bytes drawn for nameless worlds, the memory of the bans it reads, and the order in which
  the map of worlds that it has filled is visited.\<close>

record Draws =
  dr_worldIds :: "nat \<Rightarrow> byte list"
  dr_stale :: "nat \<Rightarrow> bool"
  dr_order :: "string list"

text \<open>\<open>load\<close> up to its last call, which saves what was loaded.\<close>

definition config_read :: "JsonLib \<Rightarrow> Draws \<Rightarrow> string \<Rightarrow> Files \<Rightarrow> ZincConfig \<Rightarrow> zinc_error + ZincConfig" where
  "config_read L D workdir fs c =
     ebind (readJSONFile L (workdir @ ''/config/zinc.json'') fs) (\<lambda>settings.
     ebind (load_settings (js_encode_block L) (dr_worldIds D) settings c) (\<lambda>c1.
     let c2 = load_icon L workdir fs (default_rbac c1) in
     ebind (readJSONFile L (workdir @ ''/banlist.json'') fs) (\<lambda>banlist.
     ebind (loadBanList (js_decode_block L) (dr_stale D) banlist (zc_bans c2)) (\<lambda>bans. Inr (c2\<lparr>zc_bans := bans\<rparr>)))))"

definition config_load :: "JsonLib \<Rightarrow> Draws \<Rightarrow> string \<Rightarrow> ZincConfig \<times> Files \<Rightarrow> zinc_error + (ZincConfig \<times> Files)" where
  "config_load L D workdir = (\<lambda>(c, fs).
     ebind (config_read L D workdir fs c) (\<lambda>c'. config_save L (dr_order D) workdir (c', fs)))"

section \<open>The command line\<close>

record ZincArguments =
  ar_debug :: bool
  ar_workDir :: string

definition new_ZincArguments :: ZincArguments where
  "new_ZincArguments = \<lparr>ar_debug = False, ar_workDir = ''.''\<rparr>"

datatype parse_outcome = Parsed ZincArguments | Exited nat

text \<open>The loop from \<open>argv[1]\<close> on. \<open>--help\<close>, \<open>--version\<close> and an undefined argument leave the program.\<close>

fun arguments_parse :: "string list \<Rightarrow> ZincArguments \<Rightarrow> parse_outcome" where
  "arguments_parse [] a = Parsed a"
| "arguments_parse [x] a =
     (if x = ''--debug'' \<or> x = ''--workdir'' then Parsed a else if x = ''--help'' \<or> x = ''--version'' then Exited 0 else Exited 1)"
| "arguments_parse (x # y # args) a =
     (if x = ''--debug'' then arguments_parse args (a\<lparr>ar_debug := (y = ''on'')\<rparr>)
      else if x = ''--workdir'' then arguments_parse args (a\<lparr>ar_workDir := y\<rparr>)
      else if x = ''--help'' \<or> x = ''--version'' then Exited 0 else Exited 1)"

section \<open>What was saved is loaded\<close>

lemma in_turn_simps [simp]: "in_turn [] c = Inr c" "in_turn (f # fs) c = ebind (f c) (in_turn fs)"
  by (simp_all add: in_turn_def ebind_def cong: sum.case_cong)

lemma if_member_object:
  "if_member k (JObject m) f c = (case map_of m k of None \<Rightarrow> Inr c | Some v \<Rightarrow> f v c)"
  by (simp add: if_member_def jcontains_def jget_def ebind_def split: option.split)

lemma get_simps [simp]:
  "get_int (jint i) = Inr i" "get_long (jint l) = Inr l" "get_bool (JBool b) = Inr b" "get_string (JString s) = Inr s"
  by (simp_all add: get_int_def get_long_def get_bool_def get_string_def jint_def)

lemma assign_Inr: "get j = Inr v \<Longrightarrow> assign get upd j c = Inr (upd v c)"
  by (simp add: assign_def ebind_def)

lemma assign_simps [simp]:
  "assign get_int upd (jint i) c = Inr (upd i c)" "assign get_bool upd' (JBool b) c = Inr (upd' b c)"
  "assign get_string upd'' (JString s) c = Inr (upd'' s c)"
  by (simp_all add: assign_Inr)

lemma load_features: "efold load_feature (map JString fs) c = Inr (c\<lparr>zc_features := zc_features c @ fs\<rparr>)"
  by (induction fs arbitrary: c) (simp_all add: load_feature_def)

lemma load_world_json:
  "load_world enc (world_json (name, w), random) c = Inr (if wo_registeredWorlds c name = None
     then c\<lparr>wo_registeredWorlds := (wo_registeredWorlds c)(name \<mapsto> w)\<rparr> else c)"
proof -
  have "load_world_config (JObject
         [(''options'', JString (wc_options w)),
          (''redstone_mode'', JString (redstone_mode_name (wc_redstoneMode w))),
          (''required_permission'', JString (wc_requiredPermission w)),
          (''storage_format'', JString (storage_format_name (wc_storageFormat w))),
          (''world_type'', JString (world_type_name (wc_worldType w)))]) new_WorldConfig = Inr w"
    by (cases w; cases "wc_worldType w"; cases "wc_storageFormat w"; cases "wc_redstoneMode w")
      (simp_all add: load_world_config_def if_member_object world_type_of_def storage_format_of_def redstone_mode_of_def
        world_type_name_def storage_format_name_def redstone_mode_name_def new_WorldConfig_def)
  then show ?thesis by (simp add: load_world_def world_json_def if_member_object)
qed


text \<open>The order in which a loop visits a map: each of its keys once.\<close>

definition visit_order :: "string list \<Rightarrow> (string \<rightharpoonup> 'a) \<Rightarrow> bool" where
  "visit_order order m \<longleftrightarrow> distinct order \<and> set order = dom m"

lemma serialize_visits:
  "set order \<subseteq> dom worlds \<Longrightarrow> serialize order worlds = map world_json (map (\<lambda>name. (name, the (worlds name))) order)"
  by (induction order) (auto simp: serialize_def)

lemma map_of_visits: "visit_order order m \<Longrightarrow> map_of (map (\<lambda>k. (k, the (m k))) order) = m"
  by (rule ext) (auto simp: visit_order_def map_of_map_keys domIff restrict_map_def)

lemma visit_order_single:
  assumes "visit_order order m" "visit_order order' m" "card (dom m) \<le> 1"
  shows "order = order'"
proof -
  have "length order = card (dom m)" "length order' = card (dom m)"
    using assms(1,2) distinct_card by (fastforce simp: visit_order_def)+
  then have "length order \<le> 1" "length order' \<le> 1" using assms(3) by simp_all
  moreover have "set order = set order'" using assms(1,2) by (simp add: visit_order_def)
  ultimately show ?thesis by (cases order; cases order') auto
qed

lemma load_world_jsons:
  assumes "distinct (map fst worlds)" and "fst ` set worlds \<inter> dom (wo_registeredWorlds c) = {}" and "length randoms = length worlds"
  shows "efold (load_world enc) (zip (map world_json worlds) randoms) c
    = Inr (c\<lparr>wo_registeredWorlds := wo_registeredWorlds c ++ map_of worlds\<rparr>)"
  using assms
proof (induction worlds arbitrary: c randoms)
  case (Cons w worlds)
  obtain name config where w: "w = (name, config)" by (cases w)
  obtain r rs where r: "randoms = r # rs" using Cons.prems(3) by (cases randoms) auto
  have n: "wo_registeredWorlds c name = None" "name \<notin> fst ` set worlds" using Cons.prems(1,2) w by auto
  let ?c = "c\<lparr>wo_registeredWorlds := (wo_registeredWorlds c)(name \<mapsto> config)\<rparr>"
  have disjoint: "fst ` set worlds \<inter> dom (wo_registeredWorlds ?c) = {}"
    using Cons.prems(2) n(2) by (simp del: fun_upd_apply)
  have "load_world enc (world_json w, r) c = Inr ?c"
    unfolding w load_world_json using n(1) by simp
  moreover have "(wo_registeredWorlds c)(name \<mapsto> config) ++ map_of worlds = wo_registeredWorlds c ++ map_of (w # worlds)"
    using n(2) by (simp add: w map_add_upd_left dom_map_of_conv_image_fst)
  moreover have "efold (load_world enc) (zip (map world_json worlds) rs) ?c
    = Inr (?c\<lparr>wo_registeredWorlds := wo_registeredWorlds ?c ++ map_of worlds\<rparr>)"
    by (rule Cons.IH [OF _ disjoint]) (use Cons.prems r in simp_all)
  ultimately show ?case by (simp del: fun_upd_apply add: r)
qed simp

definition restored :: "ZincConfig \<Rightarrow> ZincConfig \<Rightarrow> ZincConfig" where
  "restored c c0 = c\<lparr>nw_iconBase64 := nw_iconBase64 c0, zc_bans := zc_bans c0\<rparr>"

lemma load_network_saved:
  "load_network (JObject
         [(''icon_path'', JString (nw_iconPath c)), (''max_player_count'', jint (nw_maxPlayerCount c)), (''motd'', JString (nw_motd c)),
          (''server_port'', jint (nw_serverPort c)), (''srvctl_port'', jint (nw_srvctlPort c)), (''threshold'', jint (nw_threshold c))]) c0
   = Inr (c0\<lparr>nw_threshold := nw_threshold c, nw_serverPort := nw_serverPort c, nw_srvctlPort := nw_srvctlPort c, nw_motd := nw_motd c,
       nw_maxPlayerCount := nw_maxPlayerCount c, nw_iconPath := nw_iconPath c\<rparr>)"
  by (simp add: load_network_def if_member_object)

lemma load_security_saved:
  "load_security (JObject
         [(''allow_pvp'', JBool (se_allowPVP c)), (''allow_survival_flight'', JBool (se_allowSurvivalFlight c)),
          (''backup_interval_minutes'', jint (se_backupInterval c)), (''max_concurrent_account'', jint (se_maxConcurrentAccount c)),
          (''online_mode'', JBool (se_onlineMode c)), (''rate_limit_seconds'', jint (se_rateLimit c)), (''rbac_path'', JString (se_rbacPath c)),
          (''unban_support'', JString (se_unbanSupport c)), (''whitelist'', JBool (se_whitelist c))]) c0
   = Inr (c0\<lparr>se_onlineMode := se_onlineMode c, se_whitelist := se_whitelist c, se_allowSurvivalFlight := se_allowSurvivalFlight c,
       se_allowPVP := se_allowPVP c, se_backupInterval := se_backupInterval c, se_rateLimit := se_rateLimit c,
       se_maxConcurrentAccount := se_maxConcurrentAccount c, se_rbacPath := se_rbacPath c, se_unbanSupport := se_unbanSupport c\<rparr>)"
  by (simp add: load_security_def if_member_object)

lemma load_worlds_saved:
  assumes "visit_order order (wo_registeredWorlds c)" and "wo_registeredWorlds c0 = Map.empty"
  shows "load_worlds enc random (JObject
      [(''default_world'', JString (wo_defaultWorld c)), (''registered_worlds'', JArray (serialize order (wo_registeredWorlds c)))]) c0
    = Inr (c0\<lparr>wo_defaultWorld := wo_defaultWorld c, wo_registeredWorlds := wo_registeredWorlds c\<rparr>)"
proof -
  let ?worlds = "map (\<lambda>name. (name, the (wo_registeredWorlds c name))) order"
  have "serialize order (wo_registeredWorlds c) = map world_json ?worlds"
    using assms(1) by (intro serialize_visits) (simp add: visit_order_def)
  moreover have "distinct (map fst ?worlds)" using assms(1) by (simp add: visit_order_def comp_def)
  ultimately show ?thesis
    using load_world_jsons [of ?worlds "c0\<lparr>wo_defaultWorld := wo_defaultWorld c\<rparr>" "map random [0..<length order]" enc] assms(2)
    by (simp add: load_worlds_def if_member_object jitems_def map_of_visits [OF assms(1)])
qed

lemma load_coreSettings:
  assumes "visit_order order (wo_registeredWorlds c)" and "wo_registeredWorlds c0 = Map.empty"
  shows "load_settings enc random (coreSettings order c) c0 = Inr (restored c c0)"
proof -
  have opt: "load_optimizations (JObject
         [(''simulation_distance'', jint (op_simulationDistance c)), (''view_distance'', jint (op_viewDistance c))]) d
    = Inr (d\<lparr>op_viewDistance := op_viewDistance c, op_simulationDistance := op_simulationDistance c\<rparr>)" for d
    by (simp add: load_optimizations_def if_member_object)
  show ?thesis
    using assms by (simp add: load_settings_def coreSettings_def if_member_object load_network_saved load_security_saved opt
        load_worlds_saved jitems_def load_features restored_def)
qed


definition base64_codes :: "(byte list \<Rightarrow> string option) \<Rightarrow> (string \<Rightarrow> byte list option) \<Rightarrow> byte list \<Rightarrow> bool" where
  "base64_codes enc dec data \<longleftrightarrow> (\<exists>out. enc data = Some out \<and> length out = 4 * ((length data + 2) div 3)
     \<and> calculatePadding out = (3 - length data mod 3) mod 3 \<and> dec out = Some (data @ replicate ((3 - length data mod 3) mod 3) 0))"

definition reason_bytes :: "BanData \<Rightarrow> byte list" where
  "reason_bytes b = byte_of_nbt_type (type_of_nbt (nbt_abs (bd_reason b))) # nbt_payload True (nbt_abs (bd_reason b))"

text \<open>A ban that can be stored: its reason is an element the wire format can carry.\<close>

definition ban_storable :: "(byte list \<Rightarrow> string option) \<Rightarrow> (string \<Rightarrow> byte list option) \<Rightarrow> BanData \<Rightarrow> bool" where
  "ban_storable enc dec b \<longleftrightarrow> nbt_valid (nbt_abs (bd_reason b)) \<and> nbt_abs (bd_reason b) \<noteq> NEnd \<and> nbt_tag (bd_reason b) = []
     \<and> length (bd_playerUUID b) = 16 \<and> (bd_isTemporaryban b \<longrightarrow> bd_time b \<noteq> None) \<and> base64_codes enc dec (reason_bytes b)"

definition reloaded :: "bool \<Rightarrow> BanData \<Rightarrow> BanData" where
  "reloaded stale b = b\<lparr>bd_playerIp := (if bd_isIpBan b then bd_playerIp b else []), bd_isTemporaryban := (bd_isTemporaryban b \<or> stale),
     bd_time := (if bd_isTemporaryban b then bd_time b else None), bd_reason := nbt_elem True network_settings [] (nbt_abs (bd_reason b))\<rparr>"

lemma read_reason:
  assumes "nbt_valid (nbt_abs (bd_reason b))" and "nbt_abs (bd_reason b) \<noteq> NEnd"
  shows "\<exists>rest. bnd (writeArray writeUnsignedByte (reason_bytes b)) (\<lambda>_. readNBT) (new_bb True)
    = Inr (nbt_elem True network_settings [] (nbt_abs (bd_reason b)), rest)"
proof -
  have "appends True (writeArray writeUnsignedByte (reason_bytes b)) (reason_bytes b)"
    using codec.appends_writeArray [OF readUnsignedByte_codec, of "reason_bytes b" True] by (simp add: list_all_iff)
  moreover have "reads True readNBT (reason_bytes b) (nbt_elem True network_settings [] (nbt_abs (bd_reason b)))"
    unfolding reason_bytes_def using assms by (rule reads_readNBT)
  ultimately have "\<exists>b'. bnd (writeArray writeUnsignedByte (reason_bytes b)) (\<lambda>_. readNBT) (new_bb True)
    = Inr (nbt_elem True network_settings [] (nbt_abs (bd_reason b)), b') \<and> bb_unread b' = [] \<and> bb_wf b'" by (rule write_read)
  then show ?thesis by blast
qed

lemma ban_json_load:
  assumes "ban_storable enc dec b"
  obtains j where "ban_json enc b = Inr j"
    "load_ban dec stale (bd_isIpBan b) j = (if 3 dvd length (reason_bytes b) then Inr (reloaded stale b) else Inl OutOfBounds)"
proof -
  have ok: "nbt_valid (nbt_abs (bd_reason b))" "nbt_abs (bd_reason b) \<noteq> NEnd" "nbt_tag (bd_reason b) = []" "length (bd_playerUUID b) = 16"
    "bd_isTemporaryban b \<longrightarrow> bd_time b \<noteq> None" using assms by (simp_all add: ban_storable_def)
  have w: "run_writer (writeNBTElement (bd_reason b)) = Inr (reason_bytes b)"
    unfolding reason_bytes_def by (rule run_writer_appends [OF appends_writeNBTElement [OF ok(1-3)]])
  obtain out where out: "enc (reason_bytes b) = Some out" "length out = 4 * ((length (reason_bytes b) + 2) div 3)"
    "calculatePadding out = (3 - length (reason_bytes b) mod 3) mod 3"
    "dec out = Some (reason_bytes b @ replicate ((3 - length (reason_bytes b) mod 3) mod 3) 0)"
    using assms by (auto simp: ban_storable_def base64_codes_def)
  have d: "base64_decode dec (base64_encode enc (reason_bytes b)) = (if 3 dvd length (reason_bytes b) then Inr (reason_bytes b) else Inl OutOfBounds)"
    by (rule base64_decode_encode [where out = out]) (use out in \<open>simp_all add: reason_bytes_def\<close>)
  obtain rest where r: "bnd (writeArray writeUnsignedByte (reason_bytes b)) (\<lambda>_. readNBT) (new_bb True)
    = Inr (nbt_elem True network_settings [] (nbt_abs (bd_reason b)), rest)" using read_reason [OF ok(1,2)] by blast
  define time where "time = (if bd_isTemporaryban b then [(''time'', jint (the (bd_time b)))] else [])"
  define j where "j = JObject ([(''by'', JString (bd_bannedBy b)), (''from'', jint (bd_banTime b)), (''id'', JString (bd_banId b))]
         @ (if bd_isIpBan b then [(''ip'', JString (bd_playerIp b))] else [])
         @ [(''name'', JString (bd_playerName b)), (''reason'', JString (base64_encode enc (reason_bytes b)))]
         @ time @ [(''uuid'', JString (uuid_to_string (bd_playerUUID b)))])"
  have "ban_json enc b = Inr j"
    using w ok(5) by (auto simp: ban_json_def j_def time_def)
  moreover have "load_ban dec stale (bd_isIpBan b) j = (if 3 dvd length (reason_bytes b) then Inr (reloaded stale b) else Inl OutOfBounds)"
    using d r ok(4,5) unfolding load_ban_def j_def time_def jget_string_def jget_def jcontains_def reloaded_def
    by (cases "bd_isIpBan b"; cases "bd_isTemporaryban b") (auto simp: uuid_from_to_string ebind_def)
  ultimately show thesis by (rule that)
qed


definition ban_value :: "(byte list \<Rightarrow> string option) \<Rightarrow> BanData \<Rightarrow> json" where
  "ban_value enc b = (case ban_json enc b of Inl _ \<Rightarrow> JNull | Inr j \<Rightarrow> j)"

lemma ban_value:
  assumes "ban_storable enc dec b"
  shows "ban_json enc b = Inr (ban_value enc b)"
    and "load_ban dec stale (bd_isIpBan b) (ban_value enc b)
      = (if 3 dvd length (reason_bytes b) then Inr (reloaded stale b) else Inl OutOfBounds)"
  using ban_json_load [OF assms, of stale] by (force simp: ban_value_def)+

lemma save_bans:
  "\<forall>b \<in> set bans. ban_storable enc dec b \<Longrightarrow> efold (save_ban enc) bans (ips, others)
    = Inr (ips @ map (ban_value enc) (filter bd_isIpBan bans), others @ map (ban_value enc) (filter (\<lambda>b. \<not> bd_isIpBan b) bans))"
  by (induction bans arbitrary: ips others) (auto simp: save_ban_def ban_value(1))

lemma load_ban_values:
  "\<forall>b \<in> set bans. ban_storable enc dec b \<and> bd_isIpBan b = isIp \<Longrightarrow> load_bans dec stale isIp (JArray (map (ban_value enc) bans)) acc
    = (if \<forall>b \<in> set bans. 3 dvd length (reason_bytes b)
       then Inr (acc @ map (\<lambda>(i, b). reloaded (stale i) b) (enumerate (length acc) bans)) else Inl OutOfBounds)"
proof (induction bans arbitrary: acc)
  case (Cons b bans)
  then have "load_ban dec (stale (length acc)) isIp (ban_value enc b)
    = (if 3 dvd length (reason_bytes b) then Inr (reloaded (stale (length acc)) b) else Inl OutOfBounds)"
    using ban_value(2) [of enc dec b "stale (length acc)"] by auto
  with Cons show ?case by (auto simp: load_bans_def jitems_def ebind_def)
qed (simp add: load_bans_def jitems_def)

text \<open>The bans of addresses come first in the file, then the others.\<close>

definition saved_order :: "BanData list \<Rightarrow> BanData list" where
  "saved_order bans = filter bd_isIpBan bans @ filter (\<lambda>b. \<not> bd_isIpBan b) bans"

definition reloaded_bans :: "(nat \<Rightarrow> bool) \<Rightarrow> BanData list \<Rightarrow> BanData list" where
  "reloaded_bans stale bans = map (\<lambda>(i, b). reloaded (stale i) b) (enumerate 0 (saved_order bans))"

lemma set_saved_order [simp]: "set (saved_order bans) = set bans"
  by (auto simp: saved_order_def)

lemma enumerate_append: "enumerate n (xs @ ys) = enumerate n xs @ enumerate (n + length xs) ys"
  by (induction xs arbitrary: n) simp_all

lemma saved_bans_load:
  assumes "\<forall>b \<in> set bans. ban_storable enc dec b"
  shows "\<exists>j. saveBanList enc bans = Inr j \<and> loadBanList dec stale j []
    = (if \<forall>b \<in> set bans. 3 dvd length (reason_bytes b) then Inr (reloaded_bans stale bans) else Inl OutOfBounds)"
proof -
  let ?ips = "filter bd_isIpBan bans" and ?others = "filter (\<lambda>b. \<not> bd_isIpBan b) bans"
  let ?at = "\<lambda>n bs. map (\<lambda>(i, b). reloaded (stale i) b) (enumerate n bs)"
  have "load_bans dec stale True (JArray (map (ban_value enc) ?ips)) []
    = (if \<forall>b \<in> set ?ips. 3 dvd length (reason_bytes b) then Inr (?at 0 ?ips) else Inl OutOfBounds)"
    using load_ban_values [of ?ips enc dec True stale "[]"] assms by simp
  moreover have "load_bans dec stale False (JArray (map (ban_value enc) ?others)) acc
    = (if \<forall>b \<in> set ?others. 3 dvd length (reason_bytes b) then Inr (acc @ ?at (length acc) ?others) else Inl OutOfBounds)" for acc
    using load_ban_values [of ?others enc dec False stale acc] assms by simp
  ultimately show ?thesis
    using save_bans [OF assms, of "[]" "[]"]
    by (auto simp: saveBanList_def loadBanList_def if_member_object ebind_def reloaded_bans_def saved_order_def enumerate_append split: if_splits)
qed

text \<open>C29: The ban list on disk. Take bans (\<open>ban_storable\<close>) whose reason is a well-formed NBT element with an empty root tag, whose
  player has a full UUID, whose time is set if they are temporary, and for which the Base64 library decodes its own text of the
  reason's bytes, the padding as zeros. Then \<open>saveBanList\<close> writes them, and \<open>loadBanList\<close> reads each back with its kind, name, UUID, id, dates, author
  and the tree of its reason, but with these changes: the bans of addresses come first; a ban that is not one of an address loses
  the address; a permanent ban becomes temporary if the memory of that ban said so; the element of the reason has the settings of
  one read from the network. All this if the encoded reason of every ban has a length that is a multiple of three: otherwise
  decoding it writes past the end of a vector.\<close>

theorem ban_list_round_trip:
  assumes "\<forall>b \<in> set bans. ban_storable enc dec b"
  shows "\<exists>j. saveBanList enc bans = Inr j \<and> loadBanList dec stale j []
    = (if \<forall>b \<in> set bans. 3 dvd length (reason_bytes b)
       then Inr (map (\<lambda>(i, b). reloaded (stale i) b) (enumerate 0 (filter bd_isIpBan bans @ filter (\<lambda>b. \<not> bd_isIpBan b) bans)))
       else Inl OutOfBounds)"
  using saved_bans_load [OF assms, of stale] unfolding reloaded_bans_def saved_order_def .

text \<open>The text of a JSON value: what \<open>dump\<close> writes does not end in a newline, and \<open>parse\<close> reads it back with one behind it.\<close>

definition text_ok :: "JsonLib \<Rightarrow> json \<Rightarrow> bool" where
  "text_ok L j \<longleftrightarrow> (\<exists>s. js_dump L j = Inr s \<and> s \<noteq> [] \<and> last s \<noteq> CHR 0x0A \<and> js_parse L (s @ [CHR 0x0A]) = Inr j)"

lemma load_icon_id: "load_icon L workdir fs c = c"
  by (simp add: load_icon_def modes_open_def)

text \<open>A ban that was read back without the stray flag is saved as it was.\<close>

lemma reloaded_storable: "ban_storable enc dec b \<Longrightarrow> ban_storable enc dec (reloaded False b)"
  by (auto simp: ban_storable_def reloaded_def reason_bytes_def nbt_abs_elem)

lemma ban_json_reloaded:
  assumes "ban_storable enc dec b"
  shows "ban_json enc (reloaded False b) = ban_json enc b"
proof -
  have w: "run_writer (writeNBTElement (bd_reason b)) = Inr (reason_bytes b)" if "ban_storable enc dec b" for b
    unfolding reason_bytes_def using that by (intro run_writer_appends [OF appends_writeNBTElement]) (auto simp: ban_storable_def)
  have "reason_bytes (reloaded False b) = reason_bytes b" by (simp add: reason_bytes_def reloaded_def nbt_abs_elem)
  then have "run_writer (writeNBTElement (bd_reason (reloaded False b))) = run_writer (writeNBTElement (bd_reason b))"
    using w [OF assms] w [OF reloaded_storable [OF assms]] by simp
  then show ?thesis unfolding ban_json_def by (simp add: reloaded_def)
qed

text \<open>The bans that the memory makes temporary although they are not; \<open>save\<close> then reads a time that was never set.\<close>

definition stray_flag :: "(nat \<Rightarrow> bool) \<Rightarrow> BanData list \<Rightarrow> bool" where
  "stray_flag stale bans \<longleftrightarrow> (\<exists>i < length bans. stale i \<and> \<not> bd_isTemporaryban (saved_order bans ! i))"

lemma length_saved_order [simp]: "length (saved_order bans) = length bans"
  by (simp add: saved_order_def sum_length_filter_compl)

lemma reloaded_temporary: "bd_isTemporaryban b \<Longrightarrow> reloaded stale b = reloaded False b"
  by (simp add: reloaded_def)

lemma reloaded_bans_clear:
  assumes "\<not> stray_flag stale bans"
  shows "reloaded_bans stale bans = map (reloaded False) (saved_order bans)"
proof (rule nth_equalityI)
  fix i assume "i < length (reloaded_bans stale bans)"
  then have i: "i < length bans" by (simp add: reloaded_bans_def)
  then have "stale i \<Longrightarrow> bd_isTemporaryban (saved_order bans ! i)" using assms by (auto simp: stray_flag_def)
  then have "reloaded (stale i) (saved_order bans ! i) = reloaded False (saved_order bans ! i)"
    by (cases "stale i") (auto intro: reloaded_temporary)
  with i show "reloaded_bans stale bans ! i = map (reloaded False) (saved_order bans) ! i"
    by (simp add: reloaded_bans_def nth_enumerate_eq)
qed (simp add: reloaded_bans_def)

lemma saveBanList_reloaded:
  assumes "\<forall>b \<in> set bans. ban_storable enc dec b"
  shows "saveBanList enc (map (reloaded False) (saved_order bans)) = saveBanList enc bans"
proof -
  let ?bans = "map (reloaded False) (saved_order bans)"
  have kind: "bd_isIpBan (reloaded False b) = bd_isIpBan b" for b by (simp add: reloaded_def)
  have "filter bd_isIpBan ?bans = map (reloaded False) (filter bd_isIpBan bans)"
    "filter (\<lambda>b. \<not> bd_isIpBan b) ?bans = map (reloaded False) (filter (\<lambda>b. \<not> bd_isIpBan b) bans)"
    by (simp_all add: saved_order_def filter_map comp_def kind)
  moreover have "map (ban_value enc) (map (reloaded False) (filter P bans)) = map (ban_value enc) (filter P bans)" for P
    using ban_json_reloaded assms by (auto simp: ban_value_def)
  moreover have "\<forall>b \<in> set ?bans. ban_storable enc dec b" using assms by (auto intro: reloaded_storable)
  ultimately show ?thesis
    using save_bans [OF assms, of "[]" "[]"] save_bans [of ?bans enc dec "[]" "[]"] by (simp add: saveBanList_def)
qed

lemma ban_json_stray:
  assumes "ban_storable enc dec b"
  shows "ban_json enc (reloaded stale b) = (if stale \<and> \<not> bd_isTemporaryban b then Inl Indeterminate else Inr (ban_value enc b))"
proof (cases "stale \<and> \<not> bd_isTemporaryban b")
  case True
  let ?r = "reloaded stale b"
  have "run_writer (writeNBTElement (bd_reason ?r)) = Inr (reason_bytes b)"
    using run_writer_appends [OF appends_writeNBTElement [of "bd_reason ?r"]] assms
    by (simp add: ban_storable_def reloaded_def nbt_abs_elem reason_bytes_def)
  moreover have "bd_isTemporaryban ?r" "bd_time ?r = None" using True by (simp_all add: reloaded_def)
  ultimately show ?thesis using True by (simp add: ban_json_def)
next
  case False
  then have "reloaded stale b = reloaded False b" by (auto simp: reloaded_def)
  then show ?thesis using False ban_json_reloaded [OF assms] ban_value(1) [OF assms] by simp
qed

lemma save_stray:
  assumes "\<forall>b \<in> set bans. ban_storable enc dec b" and "\<exists>i < length bans. stale (n + i) \<and> \<not> bd_isTemporaryban (bans ! i)"
  shows "efold (save_ban enc) (map (\<lambda>(i, b). reloaded (stale i) b) (enumerate n bans)) acc = Inl Indeterminate"
  using assms
proof (induction bans arbitrary: n acc)
  case (Cons b bans)
  show ?case
  proof (cases "stale n \<and> \<not> bd_isTemporaryban b")
    case True
    then show ?thesis using Cons.prems(1) by (simp add: save_ban_def ban_json_stray [of enc dec] split: prod.split)
  next
    case False
    from Cons.prems(2) obtain i where i: "i < Suc (length bans)" "stale (n + i)" "\<not> bd_isTemporaryban ((b # bans) ! i)" by auto
    then obtain k where k: "i = Suc k" using False by (cases i) auto
    then have "\<exists>i < length bans. stale (Suc n + i) \<and> \<not> bd_isTemporaryban (bans ! i)" using i by (intro exI [of _ k]) simp
    with Cons.IH Cons.prems(1) False show ?thesis by (auto simp: save_ban_def ban_json_stray [of enc dec] split: prod.split)
  qed
qed simp

lemma saveBanList_stray:
  assumes "\<forall>b \<in> set bans. ban_storable enc dec b" and "stray_flag stale bans"
  shows "saveBanList enc (reloaded_bans stale bans) = Inl Indeterminate"
  using save_stray [of "saved_order bans" enc dec stale 0 "([], [])"] assms
  by (simp add: saveBanList_def reloaded_bans_def stray_flag_def)

text \<open>The configuration that is loaded from the files of \<open>c\<close>.\<close>

definition reloaded_config :: "(nat \<Rightarrow> bool) \<Rightarrow> ZincConfig \<Rightarrow> ZincConfig" where
  "reloaded_config stale c = (default_rbac c)\<lparr>nw_iconBase64 := [], zc_bans := reloaded_bans stale (zc_bans c)\<rparr>"

definition config_storable :: "JsonLib \<Rightarrow> string \<Rightarrow> Files \<Rightarrow> ZincConfig \<Rightarrow> bool" where
  "config_storable L workdir fs c \<longleftrightarrow>
     (\<forall>order. visit_order order (wo_registeredWorlds c) \<longrightarrow> text_ok L (coreSettings order (default_rbac c)))
     \<and> (\<forall>j. saveBanList (js_encode_block L) (zc_bans c) = Inr j \<longrightarrow> text_ok L j)
     \<and> fs_writable fs (workdir @ ''/config/zinc.json'') \<and> fs_writable fs (workdir @ ''/banlist.json'')
     \<and> (\<forall>b \<in> set (zc_bans c). ban_storable (js_encode_block L) (js_decode_block L) b \<and> 3 dvd length (reason_bytes b))"

lemma config_save_texts:
  assumes "js_dump L (coreSettings order (default_rbac c)) = Inr s" and "saveBanList (js_encode_block L) (zc_bans c) = Inr j"
    and "js_dump L j = Inr t" and "fs_writable fs (workdir @ ''/config/zinc.json'')" and "fs_writable fs (workdir @ ''/banlist.json'')"
  shows "config_save L order workdir (c, fs) = Inr (default_rbac c,
    fs\<lparr>fs_files := (fs_files fs)(workdir @ ''/config/zinc.json'' \<mapsto> s, workdir @ ''/banlist.json'' \<mapsto> t)\<rparr>)"
proof -
  have "zc_bans (default_rbac c) = zc_bans c" by (simp add: default_rbac_def)
  then show ?thesis using assms by (simp add: config_save_def Let_def writeJSONFile_def)
qed

text \<open>The files that a save leaves, whatever was there before.\<close>

lemma config_saved:
  assumes "config_storable L workdir fs c" and "visit_order order (wo_registeredWorlds c)"
  obtains s j t where "js_dump L (coreSettings order (default_rbac c)) = Inr s" "js_parse L (s @ [CHR 0x0A]) = Inr (coreSettings order (default_rbac c))"
    "s \<noteq> []" "last s \<noteq> CHR 0x0A"
    "saveBanList (js_encode_block L) (zc_bans c) = Inr j" "js_dump L j = Inr t" "js_parse L (t @ [CHR 0x0A]) = Inr j" "t \<noteq> []" "last t \<noteq> CHR 0x0A"
    "config_save L order workdir (c, fs) = Inr (default_rbac c,
       fs\<lparr>fs_files := (fs_files fs)(workdir @ ''/config/zinc.json'' \<mapsto> s, workdir @ ''/banlist.json'' \<mapsto> t)\<rparr>)"
proof -
  have "text_ok L (coreSettings order (default_rbac c))" using assms by (simp add: config_storable_def)
  then obtain s where s: "js_dump L (coreSettings order (default_rbac c)) = Inr s" "s \<noteq> []" "last s \<noteq> CHR 0x0A"
    "js_parse L (s @ [CHR 0x0A]) = Inr (coreSettings order (default_rbac c))" by (auto simp: text_ok_def)
  obtain j where j: "saveBanList (js_encode_block L) (zc_bans c) = Inr j"
    using saved_bans_load [of "zc_bans c" "js_encode_block L" "js_decode_block L"] assms(1) unfolding config_storable_def by blast
  then have "text_ok L j" using assms(1) by (simp add: config_storable_def)
  then obtain t where t: "js_dump L j = Inr t" "t \<noteq> []" "last t \<noteq> CHR 0x0A" "js_parse L (t @ [CHR 0x0A]) = Inr j" by (auto simp: text_ok_def)
  show thesis
    by (rule that [OF s(1,4,2,3) j t(1,4,2,3) config_save_texts [OF s(1) j t(1)]]) (use assms(1) in \<open>simp_all add: config_storable_def\<close>)
qed

lemma config_read_saved:
  assumes "config_storable L workdir fs c" and "visit_order order (wo_registeredWorlds c)"
    and "config_save L order workdir (c, fs) = Inr (c1, fs')"
  shows "config_read L D workdir fs' new_ZincConfig = Inr (reloaded_config (dr_stale D) c)"
proof -
  let ?c = "default_rbac c" and ?p1 = "workdir @ ''/config/zinc.json''" and ?p2 = "workdir @ ''/banlist.json''"
  obtain s j t where f: "js_parse L (s @ [CHR 0x0A]) = Inr (coreSettings order ?c)" "s \<noteq> []" "last s \<noteq> CHR 0x0A"
    "saveBanList (js_encode_block L) (zc_bans c) = Inr j" "js_parse L (t @ [CHR 0x0A]) = Inr j" "t \<noteq> []" "last t \<noteq> CHR 0x0A"
    "fs' = fs\<lparr>fs_files := (fs_files fs)(?p1 \<mapsto> s, ?p2 \<mapsto> t)\<rparr>"
    by (rule config_saved [OF assms(1,2)]) (use assms(3) in simp)
  have "fs_writable fs ?p1" "fs_writable fs ?p2" using assms(1) by (simp_all add: config_storable_def)
  then have r: "readJSONFile L ?p1 fs' = Inr (coreSettings order ?c)" "readJSONFile L ?p2 fs' = Inr j"
    using f by (simp_all add: readJSONFile_def)
  have c: "wo_registeredWorlds ?c = wo_registeredWorlds c" "default_rbac ?c = ?c" "se_rbacPath ?c \<noteq> []" by (simp_all add: default_rbac_def)
  have new: "wo_registeredWorlds new_ZincConfig = Map.empty" "nw_iconBase64 new_ZincConfig = []" "zc_bans new_ZincConfig = []"
    by (simp_all add: new_ZincConfig_def)
  have "load_settings (js_encode_block L) (dr_worldIds D) (coreSettings order ?c) new_ZincConfig = Inr (restored ?c new_ZincConfig)"
    using load_coreSettings [of order ?c new_ZincConfig] assms(2) c(1) new(1) by simp
  moreover have "default_rbac (restored ?c new_ZincConfig) = ?c\<lparr>nw_iconBase64 := [], zc_bans := []\<rparr>"
    using c(3) new by (simp add: restored_def default_rbac_def)
  moreover have "loadBanList (js_decode_block L) (dr_stale D) j [] = Inr (reloaded_bans (dr_stale D) (zc_bans c))"
    using saved_bans_load [of "zc_bans c" "js_encode_block L" "js_decode_block L" "dr_stale D"] assms(1) f(4) by (auto simp: config_storable_def)
  ultimately show ?thesis using r by (simp add: config_read_def Let_def load_icon_id reloaded_config_def)
qed

lemma reloaded_config_simps:
  "default_rbac (reloaded_config stale c) = reloaded_config stale c"
  "coreSettings order (reloaded_config stale c) = coreSettings order (default_rbac c)"
  "zc_bans (reloaded_config stale c) = reloaded_bans stale (zc_bans c)"
  by (simp_all add: reloaded_config_def default_rbac_def coreSettings_def)

text \<open>\<open>load\<close> saves in the end: without a stray flag, what saving \<open>c\<close> in the order of the new map would have written.\<close>

lemma config_load_stable:
  assumes "config_storable L workdir fs c" and "visit_order order (wo_registeredWorlds c)"
    and "config_save L order workdir (c, fs) = Inr (c1, fs')"
    and "visit_order (dr_order D) (wo_registeredWorlds c)" and "\<not> stray_flag (dr_stale D) (zc_bans c)"
  obtains fs'' where "config_load L D workdir (new_ZincConfig, fs') = Inr (reloaded_config (\<lambda>_. False) c, fs'')"
    "config_save L (dr_order D) workdir (c, fs) = Inr (default_rbac c, fs'')"
proof -
  let ?p1 = "workdir @ ''/config/zinc.json''" and ?p2 = "workdir @ ''/banlist.json''"
  obtain s j t where f: "saveBanList (js_encode_block L) (zc_bans c) = Inr j" "js_dump L j = Inr t"
    "fs' = fs\<lparr>fs_files := (fs_files fs)(?p1 \<mapsto> s, ?p2 \<mapsto> t)\<rparr>"
    by (rule config_saved [OF assms(1,2)]) (use assms(3) in simp)
  obtain s' where s': "js_dump L (coreSettings (dr_order D) (default_rbac c)) = Inr s'"
    by (rule config_saved [OF assms(1,4)])
  have w: "fs_writable fs ?p1" "fs_writable fs ?p2" using assms(1) by (simp_all add: config_storable_def)
  let ?r = "reloaded_config (\<lambda>_. False) c"
  have bans: "reloaded_bans (dr_stale D) (zc_bans c) = map (reloaded False) (saved_order (zc_bans c))"
    "reloaded_bans (\<lambda>_. False) (zc_bans c) = map (reloaded False) (saved_order (zc_bans c))"
    using assms(5) by (simp_all add: reloaded_bans_clear stray_flag_def)
  then have r: "reloaded_config (dr_stale D) c = ?r" by (simp add: reloaded_config_def)
  have "saveBanList (js_encode_block L) (zc_bans ?r) = Inr j"
    using saveBanList_reloaded [of "zc_bans c" "js_encode_block L" "js_decode_block L"] assms(1) f(1) bans
    by (simp add: reloaded_config_simps config_storable_def)
  then have "config_save L (dr_order D) workdir (?r, fs')
    = Inr (?r, fs'\<lparr>fs_files := (fs_files fs')(?p1 \<mapsto> s', ?p2 \<mapsto> t)\<rparr>)"
    using config_save_texts [of L "dr_order D" ?r s' j t fs' workdir] s' f(2,3) w by (simp add: reloaded_config_simps)
  moreover have "fs'\<lparr>fs_files := (fs_files fs')(?p1 \<mapsto> s', ?p2 \<mapsto> t)\<rparr> = fs\<lparr>fs_files := (fs_files fs)(?p1 \<mapsto> s', ?p2 \<mapsto> t)\<rparr>"
    using f(3) by (simp add: fun_upd_twist)
  ultimately have "config_load L D workdir (new_ZincConfig, fs') = Inr (?r, fs\<lparr>fs_files := (fs_files fs)(?p1 \<mapsto> s', ?p2 \<mapsto> t)\<rparr>)"
    using config_read_saved [OF assms(1-3), of D] r by (simp add: config_load_def)
  then show thesis using config_save_texts [OF s' f(1,2) w] that by blast
qed

lemma config_load_stray:
  assumes "config_storable L workdir fs c" and "visit_order order (wo_registeredWorlds c)"
    and "config_save L order workdir (c, fs) = Inr (c1, fs')"
    and "visit_order (dr_order D) (wo_registeredWorlds c)" and "stray_flag (dr_stale D) (zc_bans c)"
  shows "config_load L D workdir (new_ZincConfig, fs') = Inl Indeterminate"
proof -
  obtain s' where s': "js_dump L (coreSettings (dr_order D) (default_rbac c)) = Inr s'"
    by (rule config_saved [OF assms(1,4)])
  have "saveBanList (js_encode_block L) (reloaded_bans (dr_stale D) (zc_bans c)) = Inl Indeterminate"
    using saveBanList_stray [of "zc_bans c" "js_encode_block L" "js_decode_block L"] assms(1,5) by (simp add: config_storable_def)
  then show ?thesis
    using config_read_saved [OF assms(1-3), of D] s'
    by (simp add: config_load_def config_save_def Let_def reloaded_config_simps writeJSONFile_def)
qed

text \<open>Saving writes the same ban list, whatever the order of the worlds.\<close>

lemma config_save_same_bans:
  assumes "config_save L order workdir (c, fs) = Inr (c1, fs1)" and "config_save L order' workdir (c, fs) = Inr (c2, fs2)"
  shows "fs_files fs1 (workdir @ ''/banlist.json'') = fs_files fs2 (workdir @ ''/banlist.json'')"
  using assms by (auto simp: config_save_def Let_def writeJSONFile_def ebind_eq_Inr split: if_splits)

text \<open>C15: A restart keeps the configuration. Take a configuration that can be stored (\<open>config_storable\<close>): both files may be
  written, the JSON library parses its own text of both values, and the bans are as in the round trip of the ban list, with reasons
  whose encoded length is a multiple of three. From the files that \<open>save\<close> has written, whatever the order in which it visited the
  map of worlds, \<open>load\<close> restores every setting and every world, with the default path for an empty \<open>rbac_path\<close>, and the bans as that
  round trip gives them. The icon is not restored, nor is it ever loaded: its file is opened with \<open>std::ios::binary\<close> alone, a mode in
  which no file opens. \<open>load\<close> ends by saving. If the memory of some permanent ban says that it is temporary, that save reads a time
  that was never set; otherwise it leaves the files that saving \<open>c\<close> itself in the order of the new map would have left, which are the
  old ones if there is at most one world, as the order cannot change then.\<close>

theorem config_survives_restart:
  assumes "config_storable L workdir fs c"
    and "visit_order order (wo_registeredWorlds c)" and "visit_order (dr_order D) (wo_registeredWorlds c)"
  shows "\<exists>fs'. config_save L order workdir (c, fs) = Inr (default_rbac c, fs')
    \<and> config_read L D workdir fs' new_ZincConfig
      = Inr ((default_rbac c)\<lparr>nw_iconBase64 := [], zc_bans := reloaded_bans (dr_stale D) (zc_bans c)\<rparr>)
    \<and> (if stray_flag (dr_stale D) (zc_bans c) then config_load L D workdir (new_ZincConfig, fs') = Inl Indeterminate
       else \<exists>fs''. config_load L D workdir (new_ZincConfig, fs') = Inr (reloaded_config (\<lambda>_. False) c, fs'')
         \<and> config_save L (dr_order D) workdir (c, fs) = Inr (default_rbac c, fs'')
         \<and> (card (dom (wo_registeredWorlds c)) \<le> 1 \<longrightarrow> fs'' = fs'))"
proof -
  obtain fs' where s: "config_save L order workdir (c, fs) = Inr (default_rbac c, fs')"
    by (rule config_saved [OF assms(1,2)])
  moreover have "config_load L D workdir (new_ZincConfig, fs') = Inl Indeterminate" if "stray_flag (dr_stale D) (zc_bans c)"
    by (rule config_load_stray [OF assms(1,2) s assms(3) that])
  moreover have "\<exists>fs''. config_load L D workdir (new_ZincConfig, fs') = Inr (reloaded_config (\<lambda>_. False) c, fs'')
         \<and> config_save L (dr_order D) workdir (c, fs) = Inr (default_rbac c, fs'')
         \<and> (card (dom (wo_registeredWorlds c)) \<le> 1 \<longrightarrow> fs'' = fs')" if "\<not> stray_flag (dr_stale D) (zc_bans c)"
    by (rule config_load_stable [OF assms(1,2) s assms(3) that]) (use s visit_order_single [OF assms(2,3)] in auto)
  ultimately show ?thesis
    using config_read_saved [OF assms(1,2) s, of D] by (simp add: reloaded_config_def)
qed

text \<open>A concrete ban for the witnesses: its reason, a short 7, is the three bytes 2, 0, 7.\<close>

definition short_ban :: BanData where
  "short_ban = (mk_ban (\<lambda>_. Some ''AgAH'') 5 [] (Ban_Ip ''::1'') new_TextComponent (Some 9) ''admin'')\<lparr>bd_reason := mk_Short 7 default_NBTSettings\<rparr>"

lemma short_ban_ok:
  "ban_storable (\<lambda>_. Some ''AgAH'') (\<lambda>_. Some [2, 0, 7]) short_ban" "length (reason_bytes short_ban) = 3"
proof -
  have a: "nbt_abs (bd_reason short_ban) = NShort 7" "nbt_tag (bd_reason short_ban) = []"
    by (simp_all add: short_ban_def mk_Short_def new_fields_def)
  have "numeric_bytes True (7 :: i16) = [0, 7]" by code_simp
  with a show "length (reason_bytes short_ban) = 3" "ban_storable (\<lambda>_. Some ''AgAH'') (\<lambda>_. Some [2, 0, 7]) short_ban"
    by (simp_all add: reason_bytes_def byte_of_nbt_type_def ban_storable_def base64_codes_def calculatePadding_def)
      (simp_all add: short_ban_def mk_ban_def)
qed

text \<open>And one that is not of an address and permanent.\<close>

definition named_ban :: BanData where
  "named_ban = short_ban\<lparr>bd_isIpBan := False, bd_playerName := ''Alex'', bd_isTemporaryban := False, bd_time := None\<rparr>"

lemma named_ban_ok:
  "ban_storable (\<lambda>_. Some ''AgAH'') (\<lambda>_. Some [2, 0, 7]) named_ban" "length (reason_bytes named_ban) = 3"
  using short_ban_ok by (simp_all add: named_ban_def ban_storable_def reason_bytes_def)

lemma ban_kinds: "bd_isIpBan short_ban" "bd_isTemporaryban short_ban" "\<not> bd_isIpBan named_ban" "\<not> bd_isTemporaryban named_ban"
  by (simp_all add: short_ban_def mk_ban_def named_ban_def)

theorem ban_list_round_trip_witness:
  "\<exists>j. saveBanList (\<lambda>_. Some ''AgAH'') [named_ban, short_ban] = Inr j
    \<and> loadBanList (\<lambda>_. Some [2, 0, 7]) (\<lambda>i. i = 1) j [] = Inr [reloaded False short_ban, reloaded True named_ban]"
  using ban_list_round_trip [of "[named_ban, short_ban]" "\<lambda>_. Some ''AgAH''" "\<lambda>_. Some [2, 0, 7]" "\<lambda>i. i = 1"] short_ban_ok named_ban_ok
  by (simp add: ban_kinds)

definition two_worlds :: "string \<rightharpoonup> WorldConfig" where
  "two_worlds = [''a'' \<mapsto> new_WorldConfig, ''b'' \<mapsto> new_WorldConfig]"

lemma two_worlds_orders:
  "visit_order order two_worlds \<longleftrightarrow> order = [''a'', ''b''] \<or> order = [''b'', ''a'']"
proof
  assume "visit_order order two_worlds"
  then have o: "distinct order" "set order = {''a'', ''b''}" by (auto simp: visit_order_def two_worlds_def)
  then have "length order = 2" using distinct_card [of order] by simp
  then obtain x y where "order = [x, y]" by (auto simp: numeral_2_eq_2 length_Suc_conv)
  then show "order = [''a'', ''b''] \<or> order = [''b'', ''a'']" using o by (auto simp: doubleton_eq_iff)
qed (auto simp: visit_order_def two_worlds_def)

definition stored_config :: ZincConfig where
  "stored_config = new_ZincConfig\<lparr>nw_motd := ''hi'', zc_bans := [named_ban, short_ban], wo_registeredWorlds := two_worlds\<rparr>"

lemma stored_config_simps [simp]:
  "zc_bans stored_config = [named_ban, short_ban]" "nw_motd stored_config = ''hi''" "default_rbac stored_config = stored_config"
  "wo_registeredWorlds stored_config = two_worlds"
  by (simp_all add: stored_config_def default_rbac_def new_ZincConfig_def)

text \<open>A JSON library for these three values.\<close>

definition three_values :: "json \<Rightarrow> json \<Rightarrow> json \<Rightarrow> JsonLib" where
  "three_values x y z = \<lparr>js_parse = (\<lambda>s. Inr (if hd s = CHR ''a'' then x else if hd s = CHR ''b'' then y else z)),
    js_dump = (\<lambda>v. Inr (if v = x then ''a'' else if v = y then ''b'' else ''c'')),
    js_encode_block = (\<lambda>_. Some ''AgAH''), js_decode_block = (\<lambda>_. Some [2, 0, 7])\<rparr>"

lemma three_values_ok:
  "text_ok (three_values x y z) x" "text_ok (three_values x y z) y" "z \<noteq> x \<Longrightarrow> z \<noteq> y \<Longrightarrow> text_ok (three_values x y z) z"
  by (auto simp: text_ok_def three_values_def)

lemma storable_example:
  obtains L fs where "config_storable L ''.'' fs stored_config"
proof -
  let ?ab = "coreSettings [''a'', ''b''] stored_config" and ?ba = "coreSettings [''b'', ''a''] stored_config"
  obtain j where j: "saveBanList (\<lambda>_. Some ''AgAH'') [named_ban, short_ban] = Inr j"
    using saved_bans_load [of "[named_ban, short_ban]" "\<lambda>_. Some ''AgAH''" "\<lambda>_. Some [2, 0, 7]" "\<lambda>_. True"] short_ban_ok named_ban_ok by auto
  define L where "L = three_values ?ab ?ba j"
  define fs where "fs = \<lparr>fs_files = Map.empty, fs_writable = (\<lambda>_. True)\<rparr>"
  have "j \<noteq> coreSettings order c" for order c using j by (auto simp: saveBanList_def coreSettings_def ebind_eq_Inr)
  then have "text_ok L j" "text_ok L ?ab" "text_ok L ?ba" by (simp_all add: three_values_ok L_def)
  moreover have "js_encode_block L = (\<lambda>_. Some ''AgAH'')" "js_decode_block L = (\<lambda>_. Some [2, 0, 7])" by (simp_all add: L_def three_values_def)
  ultimately have "config_storable L ''.'' fs stored_config"
    using j short_ban_ok named_ban_ok by (auto simp: config_storable_def fs_def two_worlds_orders)
  then show thesis by (rule that)
qed

text \<open>Two worlds that are visited in one order and then in the other; the second ban of the file is permanent.\<close>

lemma first_flag_clear: "\<not> stray_flag (\<lambda>i. i = 0) [named_ban, short_ban]"
  by (simp add: stray_flag_def saved_order_def ban_kinds)

theorem config_survives_restart_witness:
  "\<exists>L D fs fs' c' fs''. config_save L [''a'', ''b''] ''.'' (stored_config, fs) = Inr (stored_config, fs')
    \<and> config_load L D ''.'' (new_ZincConfig, fs') = Inr (c', fs'')
    \<and> nw_motd c' = ''hi'' \<and> zc_bans c' = [reloaded False short_ban, reloaded False named_ban] \<and> wo_registeredWorlds c' = two_worlds"
proof -
  obtain L fs where c: "config_storable L ''.'' fs stored_config" by (rule storable_example)
  define D where "D = \<lparr>dr_worldIds = (\<lambda>_. []), dr_stale = (\<lambda>i. i = 0), dr_order = [''b'', ''a'']\<rparr>"
  have "visit_order [''a'', ''b''] (wo_registeredWorlds stored_config)" "visit_order (dr_order D) (wo_registeredWorlds stored_config)"
    by (simp_all add: D_def two_worlds_orders)
  from config_survives_restart [OF c this] obtain fs' fs'' where
    "config_save L [''a'', ''b''] ''.'' (stored_config, fs) = Inr (stored_config, fs')"
    "config_load L D ''.'' (new_ZincConfig, fs') = Inr (reloaded_config (\<lambda>_. False) stored_config, fs'')"
    using first_flag_clear by (auto simp: D_def)
  moreover have "nw_motd (reloaded_config (\<lambda>_. False) stored_config) = ''hi''"
    "zc_bans (reloaded_config (\<lambda>_. False) stored_config) = [reloaded False short_ban, reloaded False named_ban]"
    "wo_registeredWorlds (reloaded_config (\<lambda>_. False) stored_config) = two_worlds"
    by (simp_all add: reloaded_config_def reloaded_bans_def saved_order_def ban_kinds)
  ultimately show ?thesis by blast
qed

text \<open>The last value of an option counts, and an option at the end, without a value, is ignored.\<close>

lemma arguments_workdir:
  "arguments_parse (concat (map (\<lambda>w. [''--workdir'', w]) ws) @ rest) a = arguments_parse rest (a\<lparr>ar_workDir := last (ar_workDir a # ws)\<rparr>)"
  by (induction ws arbitrary: a) simp_all

lemma wrong_type_stops_startup:
  "jcontains ''network'' settings \<Longrightarrow> jget ''network'' settings = Inr network \<Longrightarrow> jcontains ''threshold'' network \<Longrightarrow>
     jget ''threshold'' network = Inr (JString s) \<Longrightarrow> load_settings enc random settings c = Inl JsonTypeError"
  by (simp add: load_settings_def if_member_def load_network_def assign_def get_int_def ebind_def)

end
