(* ===== verification/Server.thy ===== *)
theory Server
  imports Messages
begin

text \<open>
  The Minecraft server (\<open>src/network/minecraft/ZincServer.cpp\<close>): the table of clients with its counters, and the
  handlers of the packets. Threads, sockets and the libraries are outside: a step of the server is one callback of
  libevent, an expired ban's unban runs later, and what OpenSSL, curl and the JSON library answer is in \<open>Context\<close>.
\<close>

section \<open>Results\<close>

text \<open>
  A callback ends in an exception that nothing catches, which ends the process, or with a result. The draws that
  \<open>openLoginPluginChannel\<close> gets can be too few: then there is no outcome yet, \<open>None\<close>.
\<close>

type_synonym 'a outcome = "(zinc_error + 'a) option"

definition obind :: "'a outcome \<Rightarrow> ('a \<Rightarrow> 'b outcome) \<Rightarrow> 'b outcome" where
  "obind r k = (case r of None \<Rightarrow> None | Some (Inl e) \<Rightarrow> Some (Inl e) | Some (Inr x) \<Rightarrow> k x)"

primrec ofold :: "('x \<Rightarrow> 's \<Rightarrow> 's outcome) \<Rightarrow> 'x list \<Rightarrow> 's \<Rightarrow> 's outcome" where
  "ofold f [] s = Some (Inr s)"
| "ofold f (x # xs) s = obind (f x s) (ofold f xs)"

lemma obind_simps [simp]: "obind None k = None" "obind (Some (Inl e)) k = Some (Inl e)" "obind (Some (Inr x)) k = k x"
  by (simp_all add: obind_def)

lemma obind_eq_Inr: "obind r k = Some (Inr y) \<longleftrightarrow> (\<exists>x. r = Some (Inr x) \<and> k x = Some (Inr y))"
  by (auto simp: obind_def split: option.splits sum.splits)

section \<open>Data\<close>

text \<open>
  An answer of the session service: \<open>None\<close> for a member that is missing or of another type, or an element from
  which one of its members cannot be taken.
\<close>

record SessionReply =
  sr_id :: "string option"
  sr_name :: "string option"
  sr_properties :: "ConnectionProperty option list"

record StatusReply =
  st_name :: string
  st_protocol :: i32
  st_max :: i32
  st_online :: i32
  st_motd :: string
  st_favicon :: string

text \<open>
  \<open>g_zincConfig\<close>, the keys of \<open>g_zincServer\<close>, \<open>g_registries\<close> in the order a loop visits it, and the libraries:
  \<open>cx_session url i\<close> is the \<open>i\<close>-th answer to a request, \<open>None\<close> when it throws or is not JSON.
\<close>

record Context =
  cx_env :: Env
  cx_maxPlayerCount :: i32
  cx_motd :: string
  cx_iconBase64 :: string
  cx_onlineMode :: bool
  cx_rateLimit :: i32
  cx_maxConcurrentAccount :: i32
  cx_unbanSupport :: string
  cx_viewDistance :: i32
  cx_registries :: "(string \<times> (string \<times> NBTElement) list) list"
  cx_publicKeyDER :: "byte list"
  cx_decrypt :: "byte list \<Rightarrow> byte list"
  cx_cookieLib :: CookieLib
  cx_sha1 :: "byte list \<Rightarrow> byte list"
  cx_session :: "string \<Rightarrow> nat \<Rightarrow> SessionReply option"
  cx_dump :: "StatusReply \<Rightarrow> string"

text \<open>What a callback gets from outside: its calls of \<open>time(nullptr)\<close> in order, \<open>randomBytes(n)\<close>, and the draws of each plugin message.\<close>

record Moment =
  mo_time :: "nat \<Rightarrow> i64"
  mo_random :: "nat \<Rightarrow> byte list"
  mo_draws :: "nat \<Rightarrow> byte list list"

record ZincServer =
  sv_clients :: "i32 \<rightharpoonup> ZincConnection"
  sv_rateLimiterData :: "string \<rightharpoonup> i64"
  sv_concurrentAccounts :: "string \<rightharpoonup> i32"
  sv_onlinePlayers :: i32
  sv_bans :: "BanData list"
  sv_unbans :: "BanTarget list"

definition new_ZincServer :: "BanData list \<Rightarrow> ZincServer" where
  "new_ZincServer bans = \<lparr>sv_clients = Map.empty, sv_rateLimiterData = Map.empty, sv_concurrentAccounts = Map.empty,
     sv_onlinePlayers = 0, sv_bans = bans, sv_unbans = []\<rparr>"

definition LATEST_MINECRAFT_VERSION :: string where
  "LATEST_MINECRAFT_VERSION = ''1.21.5''"

definition LATEST_MINECRAFT_VERSION_PROTOCOL :: i32 where
  "LATEST_MINECRAFT_VERSION_PROTOCOL = 770"

section \<open>The table of clients\<close>

text \<open>\<open>TCPConnection::setAddr\<close>: the string is resized to 46 characters and \<open>inet_ntop\<close> writes into it; nothing cuts it back.\<close>

definition ip_member :: "string \<Rightarrow> string" where
  "ip_member address = address @ replicate (46 - length address) (CHR 0x00)"

definition isConnected :: "i32 \<Rightarrow> ZincServer \<Rightarrow> bool" where
  "isConnected fd s \<longleftrightarrow> sv_clients s fd \<noteq> None"

text \<open>\<open>now\<close> is what the calls of \<open>time(nullptr)\<close> return, in order.\<close>

definition addClient :: "Context \<Rightarrow> (nat \<Rightarrow> i64) \<Rightarrow> i32 \<Rightarrow> ZincConnection \<Rightarrow> ZincServer \<Rightarrow> ZincServer" where
  "addClient X now fd client s =
     (if isConnected fd s then s else
      (let ip = cn_ip client;
           (limiter, c1) = (case sv_rateLimiterData s ip of
               Some t \<Rightarrow> if t + scast (cx_rateLimit X) <s now 0 then ((sv_rateLimiterData s)(ip \<mapsto> now 1), client)
                         else (sv_rateLimiterData s, client\<lparr>cn_kickAtLogin := 1\<rparr>)
             | None \<Rightarrow> ((sv_rateLimiterData s)(ip \<mapsto> now 0), client));
           n = (case sv_concurrentAccounts s ip of Some k \<Rightarrow> k + 1 | None \<Rightarrow> 1);
           c2 = (if cx_maxConcurrentAccount X <s n then c1\<lparr>cn_kickAtLogin := 2\<rparr> else c1)
       in s\<lparr>sv_rateLimiterData := limiter, sv_concurrentAccounts := (sv_concurrentAccounts s)(ip \<mapsto> n),
            sv_clients := (sv_clients s)(fd \<mapsto> c2)\<rparr>))"

text \<open>\<open>operator[]\<close> inserts a zero for an address that is not in the table; the entry is erased at once.\<close>

definition removeClient :: "i32 \<Rightarrow> ZincServer \<Rightarrow> ZincServer" where
  "removeClient fd s =
     (case sv_clients s fd of
        None \<Rightarrow> s
      | Some c \<Rightarrow>
          (let ip = cn_ip c;
               k = (case sv_concurrentAccounts s ip of Some k \<Rightarrow> k | None \<Rightarrow> 0);
               n = (if k \<noteq> 0 then k - 1 else k);
               online = (if cn_loginFinished c then sv_onlinePlayers s - 1 else sv_onlinePlayers s)
           in s\<lparr>sv_concurrentAccounts := (sv_concurrentAccounts s)(ip := (if n = 0 then None else Some n)),
                sv_onlinePlayers := online, sv_clients := (sv_clients s)(fd := None)\<rparr>))"

definition onAccept :: "Context \<Rightarrow> (nat \<Rightarrow> i64) \<Rightarrow> i32 \<Rightarrow> string \<Rightarrow> ZincServer \<Rightarrow> ZincServer" where
  "onAccept X now fd address s = addClient X now fd (new_ZincConnection (ip_member address)) s"

datatype Event = Event_EOF | Event_Error | Event_Timeout | Event_Other

definition onEvent :: "i32 \<Rightarrow> Event \<Rightarrow> ZincServer \<Rightarrow> ZincServer" where
  "onEvent fd event s = (case event of Event_Other \<Rightarrow> s | _ \<Rightarrow> removeClient fd s)"

definition put_client :: "i32 \<Rightarrow> ZincConnection \<Rightarrow> ZincServer \<Rightarrow> ZincServer" where
  "put_client fd c s = s\<lparr>sv_clients := (sv_clients s)(fd \<mapsto> c)\<rparr>"

section \<open>Global tables\<close>

type_synonym channel = "Env \<Rightarrow> byte list list \<Rightarrow> ZincConnection \<Rightarrow> ZincConnection outcome"

text \<open>
  The registered channel does not look at the data. Nothing under \<open>src/\<close> changes these tables, except \<open>operator[]\<close>,
  which inserts an empty function for a missing name; calling it throws.
\<close>

definition g_zincServerPluginChannels :: "string \<rightharpoonup> channel" where
  "g_zincServerPluginChannels = [Identifier_toString (mk_Identifier ''minecraft'' ''brand'') \<mapsto> BrandChannel]"

definition g_zincCookieResponseParsers :: "string \<rightharpoonup> (byte list option \<Rightarrow> ZincConnection \<Rightarrow> ZincConnection outcome)" where
  "g_zincCookieResponseParsers = Map.empty"

definition g_zincCookieRequests :: "State \<rightharpoonup> string list" where
  "g_zincCookieRequests = [Login \<mapsto> [], Config \<mapsto> [], Play \<mapsto> []]"

definition g_zincServerInitPluginChannels :: "State \<rightharpoonup> (string \<times> (ZincConnection \<Rightarrow> zinc_error + byte list)) list" where
  "g_zincServerInitPluginChannels = [Login \<mapsto> [], Config \<mapsto> [], Play \<mapsto> []]"

definition call_channel :: "string \<Rightarrow> channel" where
  "call_channel name E draws c = (case g_zincServerPluginChannels name of
     None \<Rightarrow> Some (Inl BadFunctionCall) | Some f \<Rightarrow> f E draws c)"

definition call_parser :: "string \<Rightarrow> byte list option \<Rightarrow> ZincConnection \<Rightarrow> ZincConnection outcome" where
  "call_parser name data c = (case g_zincCookieResponseParsers name of
     None \<Rightarrow> Some (Inl BadFunctionCall) | Some f \<Rightarrow> f data c)"

definition send_cookie_requests :: "Env \<Rightarrow> State \<Rightarrow> ZincConnection \<Rightarrow> zinc_error + ZincConnection" where
  "send_cookie_requests E st c = (case g_zincCookieRequests st of
     None \<Rightarrow> Inr c
   | Some requests \<Rightarrow> efold (\<lambda>r c'. ebind (Identifier_of_string r) (\<lambda>i. sendCookieRequest E i c')) requests c)"

definition send_plugin_requests :: "Env \<Rightarrow> Moment \<Rightarrow> State \<Rightarrow> ZincConnection \<Rightarrow> ZincConnection outcome" where
  "send_plugin_requests E mo st c = (case g_zincServerInitPluginChannels st of
     None \<Rightarrow> Some (Inr c)
   | Some requests \<Rightarrow> ofold (\<lambda>(i, name, make) c'. obind (Some (Identifier_of_string name)) (\<lambda>channelId.
        obind (Some (make c')) (\<lambda>data. sendPluginMessage E (mo_draws mo i) channelId data c')))
        (zip [0..<length requests] requests) c)"

section \<open>Handlers\<close>

text \<open>
  A handler returns whether it left \<open>onRead\<close> by \<open>return\<close>, the connection, and the server. The packet's buffer is read
  from its front; an exception ends the process, so no partial effect of a handler is ever seen.
\<close>

type_synonym handled = "(bool \<times> ZincConnection \<times> ZincServer) outcome"

definition breaks :: "ZincServer \<Rightarrow> zinc_error + ZincConnection \<Rightarrow> handled" where
  "breaks s r = Some (map_sum id (\<lambda>c. (False, c, s)) r)"

definition returns :: "ZincServer \<Rightarrow> zinc_error + ZincConnection \<Rightarrow> handled" where
  "returns s r = Some (map_sum id (\<lambda>c. (True, c, s)) r)"

definition set_info :: "(ConnectionInfo \<Rightarrow> ConnectionInfo) \<Rightarrow> ZincConnection \<Rightarrow> ZincConnection" where
  "set_info f c = c\<lparr>cn_info := f (cn_info c)\<rparr>"

definition read_handshake :: "(i32 \<times> string \<times> i16 \<times> i32) bb" where
  "read_handshake = bnd readVarInt (\<lambda>version. bnd readString (\<lambda>addr. bnd readNumeric (\<lambda>port. bnd readVarInt (\<lambda>next.
     ret (version, addr, port, next)))))"

text \<open>The cast of an \<open>int\<close> to the enumeration keeps its low byte.\<close>

definition next_state :: "i32 \<Rightarrow> State" where
  "next_state v = (let st = state_of_byte (ucast v)
     in if st \<noteq> Status \<and> st \<noteq> Login \<and> st \<noteq> Transfer then Status else st)"

definition handle_handshake :: "ZincPacket \<Rightarrow> ZincConnection \<Rightarrow> zinc_error + ZincConnection" where
  "handle_handshake p c =
     (if zp_id p \<noteq> 0 then Inr c
      else ebind (read_handshake (zp_data p)) (\<lambda>((version, addr, port, next), _).
        Inr ((setState (next_state next) (set_info (\<lambda>i. i\<lparr>ci_protocolVersion := Some version, ci_serverAddr := addr,
          ci_serverPort := Some port\<rparr>) c))\<lparr>cn_shouldContinue := True\<rparr>)))"

definition handle_status :: "Context \<Rightarrow> ZincServer \<Rightarrow> ZincPacket \<Rightarrow> ZincConnection \<Rightarrow> zinc_error + ZincConnection" where
  "handle_status X s p c =
     (if zp_id p \<noteq> 0 then env_send (cx_env X) p c
      else send_body (cx_env X) 0 (writeString (cx_dump X \<lparr>st_name = LATEST_MINECRAFT_VERSION,
        st_protocol = LATEST_MINECRAFT_VERSION_PROTOCOL, st_max = cx_maxPlayerCount X, st_online = sv_onlinePlayers s,
        st_motd = cx_motd X, st_favicon = ''data:image/png;base64,'' @ cx_iconBase64 X\<rparr>)) c)"

definition kick_message :: "nat \<Rightarrow> string" where
  "kick_message kick = (if kick = 1 then ''You have been rate limited. Try again later''
     else if kick = 2 then ''You have reached a maximum amount of concurrent account'' else ''Unknown error'')"

definition send_encryption_request :: "Context \<Rightarrow> byte list \<Rightarrow> ZincConnection \<Rightarrow> zinc_error + ZincConnection" where
  "send_encryption_request X token c = send_body (cx_env X) 1
     (thn (writeString []) (thn (writePrefixedArray writeUnsignedByte (cx_publicKeyDER X))
       (thn (writePrefixedArray writeUnsignedByte token) (writeBool (cx_onlineMode X))))) c"

definition handle_login_start :: "Context \<Rightarrow> Moment \<Rightarrow> ZincServer \<Rightarrow> ByteBuffer \<Rightarrow> ZincConnection \<Rightarrow> handled" where
  "handle_login_start X mo s d c =
     (let refuse = (\<lambda>m. sendLoginError (cx_env X) m c)
      in if cn_kickAtLogin c \<noteq> 0 then returns s (refuse (kick_message (cn_kickAtLogin c)))
         else if cx_maxPlayerCount X \<le>s sv_onlinePlayers s then returns s (refuse ''Server is full'')
         else case ci_protocolVersion (cn_info c) of
             None \<Rightarrow> Some (Inl Indeterminate)
           | Some version \<Rightarrow>
               if version <s LATEST_MINECRAFT_VERSION_PROTOCOL then breaks s (refuse ''You are using outdated version'')
               else if LATEST_MINECRAFT_VERSION_PROTOCOL <s version then breaks s (refuse ''Server is using outdated version'')
               else breaks s (ebind (bnd readString (\<lambda>name. bnd readUUID (\<lambda>uuid. ret (name, uuid))) d) (\<lambda>((name, uuid), _).
                 let c1 = set_info (\<lambda>i. i\<lparr>ci_playerName := name, ci_playerUUID := uuid\<rparr>) c
                 in if 16 < length name then sendLoginError (cx_env X) ''Player name can't be longer than 16 characters'' c1
                    else ebind (if 0 <s env_threshold (cx_env X) then setupCompression (cx_env X) c1 else Inr c1) (\<lambda>c2.
                      let token = mo_random mo 64
                      in send_encryption_request X token (set_info (\<lambda>i. i\<lparr>ci_verifyToken := token\<rparr>) c2)))))"

text \<open>
  One request to the session service; what it sets before it throws stays. The ten requests are all made: a
  successful one does not leave the loop.
\<close>

fun push_properties :: "ConnectionProperty option list \<Rightarrow> ConnectionInfo \<Rightarrow> bool \<times> ConnectionInfo" where
  "push_properties [] i = (True, i)"
| "push_properties (None # ps) i = (False, i)"
| "push_properties (Some p # ps) i = push_properties ps (i\<lparr>ci_properties := ci_properties i @ [p]\<rparr>)"

definition session_attempt :: "SessionReply option \<Rightarrow> ConnectionInfo \<Rightarrow> bool \<times> ConnectionInfo" where
  "session_attempt reply i =
     (case reply of None \<Rightarrow> (False, i) | Some r \<Rightarrow>
        (case Option.bind (sr_id r) uuid_from_string of None \<Rightarrow> (False, i) | Some uuid \<Rightarrow>
           (let i1 = i\<lparr>ci_playerUUID := uuid\<rparr>
            in case sr_name r of None \<Rightarrow> (False, i1)
               | Some name \<Rightarrow> push_properties (sr_properties r) (i1\<lparr>ci_playerName := name\<rparr>))))"

definition session_loop :: "(nat \<Rightarrow> SessionReply option) \<Rightarrow> nat \<Rightarrow> ConnectionInfo \<Rightarrow> bool \<times> ConnectionInfo" where
  "session_loop replies n i = fold (\<lambda>k (gotData, i). let (ok, i') = session_attempt (replies k) i in (gotData \<or> ok, i')) [0..<n] (False, i)"

definition session_url :: "Context \<Rightarrow> ConnectionInfo \<Rightarrow> byte list \<Rightarrow> string" where
  "session_url X i sharedSecret = ''https://sessionserver.mojang.com/session/minecraft/hasJoined?username='' @ ci_playerName i
     @ ''&serverId='' @ digestJava (cx_sha1 X (sharedSecret @ cx_publicKeyDER X))"

definition send_login_success :: "Context \<Rightarrow> ZincConnection \<Rightarrow> zinc_error + ZincConnection" where
  "send_login_success X c = send_body (cx_env X) 2 (thn (writeUUID (ci_playerUUID (cn_info c)))
     (thn (writeString (ci_playerName (cn_info c))) (writePrefixedArray writeZincConnectionProperty (ci_properties (cn_info c))))) c"

definition handle_encryption_response :: "Context \<Rightarrow> Moment \<Rightarrow> ZincServer \<Rightarrow> ByteBuffer \<Rightarrow> ZincConnection \<Rightarrow> handled" where
  "handle_encryption_response X mo s d c =
     (case bnd (readPrefixedArray readUnsignedByte) (\<lambda>secret. bnd (readPrefixedArray readUnsignedByte) (\<lambda>token. ret (secret, token))) d of
        Inl e \<Rightarrow> Some (Inl e)
      | Inr ((secret, token), _) \<Rightarrow>
          (let sharedSecret = cx_decrypt X secret
           in if cx_decrypt X token = ci_verifyToken (cn_info c) then
                (let c1 = setupEncryption sharedSecret (set_info (\<lambda>i. i\<lparr>ci_verifyToken := []\<rparr>) c);
                     (gotData, info) = (if cx_onlineMode X
                        then session_loop (cx_session X (session_url X (cn_info c1) sharedSecret)) 10 (cn_info c1)
                        else (True, cn_info c1));
                     c2 = c1\<lparr>cn_info := info\<rparr>
                 in if \<not> gotData then returns s (sendLoginError (cx_env X) ''Server is unable to access mojang session servers'' c2)
                    else obind (Some (send_cookie_requests (cx_env X) Login c2)) (\<lambda>c3.
                      obind (send_plugin_requests (cx_env X) mo Login c3) (\<lambda>c4. breaks s (send_login_success X c4))))
              else breaks s (sendLoginError (cx_env X) ''Server received invalid encryption response'' c)))"

definition handle_plugin_response :: "Context \<Rightarrow> Moment \<Rightarrow> ZincServer \<Rightarrow> ByteBuffer \<Rightarrow> ZincConnection \<Rightarrow> handled" where
  "handle_plugin_response X mo s d c =
     (case readArray readUnsignedByte 4 d of
        Inl e \<Rightarrow> Some (Inl e)
      | Inr (i, _) \<Rightarrow>
          if isLoginPluginChannelOpened i c
          then obind (call_channel (getLoginPluginChannel i c) (cx_env X) (mo_draws mo 0) c)
            (\<lambda>c'. breaks s (Inr (closeLoginPluginChannel i c')))
          else breaks s (sendLoginError (cx_env X) ''Server received invalid login plugin channel id'' c))"

definition handle_login_ack :: "ZincServer \<Rightarrow> ZincConnection \<Rightarrow> handled" where
  "handle_login_ack s c = Some (Inr (False, (setState Config c)\<lparr>cn_loginFinished := True\<rparr>,
     s\<lparr>sv_onlinePlayers := sv_onlinePlayers s + 1\<rparr>))"

definition handle_cookie_response :: "Context \<Rightarrow> Moment \<Rightarrow> ZincServer \<Rightarrow> ByteBuffer \<Rightarrow> ZincConnection \<Rightarrow> handled" where
  "handle_cookie_response X mo s d c =
     (case bnd readIdentifier (\<lambda>cookieId. bnd (readPrefixedOptional readPrefixedByteArray) (\<lambda>bytes. ret (cookieId, bytes))) d of
        Inl e \<Rightarrow> Some (Inl e)
      | Inr ((cookieId, bytes), _) \<Rightarrow>
          obind (case bytes of
              None \<Rightarrow> call_parser (Identifier_toString cookieId) None c
            | Some raw \<Rightarrow>
                obind (Some (ebind (bb_of_bytes raw 0 True) (\<lambda>cookieRawData.
                  ebind (extractCookieData (cx_cookieLib X) (mo_time mo 0) cookieRawData) (\<lambda>extracted.
                  ebind (bb_of_bytes extracted 0 True) (\<lambda>b. map_sum id fst (readPrefixedOptional readPrefixedByteArray b))))))
                (\<lambda>cookieData. call_parser (Identifier_toString cookieId) cookieData c))
            (\<lambda>c'. breaks s (Inr c')))"

definition handle_login :: "Context \<Rightarrow> Moment \<Rightarrow> ZincServer \<Rightarrow> ZincPacket \<Rightarrow> ZincConnection \<Rightarrow> handled" where
  "handle_login X mo s p c =
     (if zp_id p = 0 then handle_login_start X mo s (zp_data p) c
      else if zp_id p = 1 then handle_encryption_response X mo s (zp_data p) c
      else if zp_id p = 2 then handle_plugin_response X mo s (zp_data p) c
      else if zp_id p = 3 then handle_login_ack s c
      else if zp_id p = 4 then handle_cookie_response X mo s (zp_data p) c
      else breaks s (Inr c))"

section \<open>Configuration\<close>

record ClientInfo =
  cf_locale :: string
  cf_renderDistance :: byte
  cf_chatMode :: i32
  cf_enableChatColors :: bool
  cf_skinParts :: byte
  cf_mainHand :: i32
  cf_enableTextFiltering :: bool
  cf_serverListing :: bool
  cf_particleStatus :: i32

definition read_client_info :: "ClientInfo bb" where
  "read_client_info = bnd readString (\<lambda>locale. bnd readUnsignedByte (\<lambda>distance. bnd readVarInt (\<lambda>chatMode.
     bnd readBool (\<lambda>colors. bnd readUnsignedByte (\<lambda>skin. bnd readVarInt (\<lambda>hand. bnd readBool (\<lambda>filtering.
     bnd readBool (\<lambda>listing. bnd readVarInt (\<lambda>particles.
       ret \<lparr>cf_locale = locale, cf_renderDistance = distance, cf_chatMode = chatMode, cf_enableChatColors = colors,
         cf_skinParts = skin, cf_mainHand = hand, cf_enableTextFiltering = filtering, cf_serverListing = listing,
         cf_particleStatus = particles\<rparr>)))))))))"

text \<open>The render distance is promoted to \<open>int\<close> for the comparison; the configured one is cut to a byte.\<close>

definition limit_distance :: "i32 \<Rightarrow> byte \<Rightarrow> byte" where
  "limit_distance viewDistance distance = (if viewDistance <s ucast distance then ucast viewDistance else distance)"

definition set_client_info :: "i32 \<Rightarrow> ClientInfo \<Rightarrow> ConnectionInfo \<Rightarrow> ConnectionInfo" where
  "set_client_info viewDistance v i = i\<lparr>ci_locale := cf_locale v,
     ci_renderDistance := Some (limit_distance viewDistance (cf_renderDistance v)), ci_chatMode := Some (cf_chatMode v),
     ci_enableChatColors := Some (cf_enableChatColors v), ci_skinParts := Some (cf_skinParts v),
     ci_mainHand := Some (cf_mainHand v), ci_enableTextFiltering := Some (cf_enableTextFiltering v),
     ci_serverListing := Some (cf_serverListing v), ci_particleStatus := Some (cf_particleStatus v)\<rparr>"

text \<open>The packet that follows the client information; the data is cleared between two packets.\<close>

definition send_config_packets :: "Context \<Rightarrow> Moment \<Rightarrow> ZincConnection \<Rightarrow> zinc_error + ZincConnection" where
  "send_config_packets X mo c =
     (let E = cx_env X; keepAlive = mo_time mo 1; token = mo_random mo 4
      in ebind (send_body E 6 (ret ()) c) (\<lambda>c1.
         ebind (send_body E 4 (writeNumeric keepAlive)
           (set_info (\<lambda>i. i\<lparr>ci_lastKeepAlive := Some keepAlive, ci_verifyToken := token\<rparr>) c1)) (\<lambda>c2.
         ebind (send_body E 5 (writeArray writeUnsignedByte token) c2) (\<lambda>c3.
         send_body E 12 (writePrefixedArray writeIdentifier [mk_Identifier ''minecraft'' ''vanilla'']) c3))))"

definition send_registries :: "Context \<Rightarrow> ZincConnection \<Rightarrow> zinc_error + ZincConnection" where
  "send_registries X c = efold (\<lambda>(name, entries) c'. ebind (Identifier_of_string (mc name)) (\<lambda>i.
     send_body (cx_env X) 7 (getNetworkRegistry entries i) c')) (cx_registries X) c"

definition accept_client_info :: "Context \<Rightarrow> Moment \<Rightarrow> ZincServer \<Rightarrow> ByteBuffer \<Rightarrow> ZincConnection \<Rightarrow> handled" where
  "accept_client_info X mo s d c =
     (case read_client_info d of
        Inl e \<Rightarrow> Some (Inl e)
      | Inr (v, _) \<Rightarrow>
          obind (Some (ebind (send_config_packets X mo (set_info (set_client_info (cx_viewDistance X) v) c))
            (send_cookie_requests (cx_env X) Config))) (\<lambda>c1.
          obind (send_plugin_requests (cx_env X) mo Config c1) (\<lambda>c2.
            breaks s (ebind (send_registries X c2) (sendDisconnect_text (cx_env X) (plain_text ''Currently WIP''))))))"

definition handle_client_info :: "Context \<Rightarrow> Moment \<Rightarrow> ZincServer \<Rightarrow> ByteBuffer \<Rightarrow> ZincConnection \<Rightarrow> handled" where
  "handle_client_info X mo s d c =
     (case find_ban (cx_onlineMode X) (cn_info c) (cn_ip c) (sv_bans s) of
        None \<Rightarrow> accept_client_info X mo s d c
      | Some ban \<Rightarrow>
          (case sendBanMessage (cx_env X) (mo_time mo 0) (cx_onlineMode X) (cx_unbanSupport X) ban c of
             Inl e \<Rightarrow> Some (Inl e)
           | Inr (banned, lifted, c') \<Rightarrow>
               (let s' = (case lifted of None \<Rightarrow> s | Some target \<Rightarrow> s\<lparr>sv_unbans := sv_unbans s @ [target]\<rparr>)
                in if banned then returns s' (Inr c') else accept_client_info X mo s' d c')))"

definition handle_plugin_message :: "Context \<Rightarrow> Moment \<Rightarrow> ZincServer \<Rightarrow> ByteBuffer \<Rightarrow> ZincConnection \<Rightarrow> handled" where
  "handle_plugin_message X mo s d c =
     (case readIdentifier d of
        Inl e \<Rightarrow> Some (Inl e)
      | Inr (i, _) \<Rightarrow> obind (call_channel (Identifier_toString i) (cx_env X) (mo_draws mo 0) c) (\<lambda>c'. breaks s (Inr c')))"

definition handle_keep_alive :: "Context \<Rightarrow> ZincServer \<Rightarrow> ByteBuffer \<Rightarrow> ZincConnection \<Rightarrow> handled" where
  "handle_keep_alive X s d c =
     (case readNumeric d of
        Inl e \<Rightarrow> Some (Inl e)
      | Inr (keepAlive :: i64, _) \<Rightarrow>
          (case ci_lastKeepAlive (cn_info c) of
             None \<Rightarrow> Some (Inl Indeterminate)
           | Some expected \<Rightarrow>
               if expected \<noteq> keepAlive then breaks s (sendLoginError (cx_env X) ''Server received invalid keep alive packet'' c)
               else breaks s (Inr (set_info (\<lambda>i. i\<lparr>ci_lastKeepAlive := Some (- 1)\<rparr>) c))))"

definition handle_ping :: "Context \<Rightarrow> ZincServer \<Rightarrow> ByteBuffer \<Rightarrow> ZincConnection \<Rightarrow> handled" where
  "handle_ping X s d c =
     (case readArray readUnsignedByte 4 d of
        Inl e \<Rightarrow> Some (Inl e)
      | Inr (ping, _) \<Rightarrow>
          breaks s (if ci_verifyToken (cn_info c) \<noteq> ping
            then sendLoginError (cx_env X) ''Server received invalid ping packet'' c else Inr c))"

definition handle_config :: "Context \<Rightarrow> Moment \<Rightarrow> ZincServer \<Rightarrow> ZincPacket \<Rightarrow> ZincConnection \<Rightarrow> handled" where
  "handle_config X mo s p c =
     (if zp_id p = 0 then handle_client_info X mo s (zp_data p) c
      else if zp_id p = 1 then handle_cookie_response X mo s (zp_data p) c
      else if zp_id p = 2 then handle_plugin_message X mo s (zp_data p) c
      else if zp_id p = 3 then breaks s (Inr (setState Play c))
      else if zp_id p = 4 then handle_keep_alive X s (zp_data p) c
      else if zp_id p = 5 then handle_ping X s (zp_data p) c
      else breaks s (Inr c))"

section \<open>Reading from a client\<close>

definition handle_packet :: "Context \<Rightarrow> Moment \<Rightarrow> ZincServer \<Rightarrow> ZincPacket \<Rightarrow> ZincConnection \<Rightarrow> handled" where
  "handle_packet X mo s p c =
     (case cn_state c of
        Handshake \<Rightarrow> breaks s (handle_handshake p c)
      | Status \<Rightarrow> breaks s (handle_status X s p c)
      | Login \<Rightarrow> handle_login X mo s p c
      | Config \<Rightarrow> handle_config X mo s p c
      | _ \<Rightarrow> breaks s (Inr c))"

text \<open>
  One packet: \<open>None\<close> in place of a continuation when \<open>onRead\<close> returns. The test for another packet reads the socket
  again and the flag that only a handshake has set.
\<close>

definition read_once :: "Context \<Rightarrow> Moment \<Rightarrow> i32 \<Rightarrow> ZincConnection \<Rightarrow> ZincServer \<Rightarrow> (bool \<times> ZincServer) outcome" where
  "read_once X mo fd c s =
     (case conn_read (env_evp (cx_env X)) (env_zlib (cx_env X)) c of
        Inl e \<Rightarrow> Some (Inl e)
      | Inr (p, c1) \<Rightarrow>
          if zp_id p <s 0 then Some (Inr (False, put_client fd c1 s))
          else obind (handle_packet X mo s p c1) (\<lambda>(early, c2, s2).
            if early then Some (Inr (False, put_client fd c2 s2))
            else if cn_received c2 \<noteq> [] \<and> cn_shouldContinue c2 then Some (Inr (True, put_client fd c2 s2))
            else Some (Inr (False, put_client fd (c2\<lparr>cn_shouldContinue := True\<rparr>) s2))))"

definition continue_after :: "i32 \<Rightarrow> ZincServer \<Rightarrow> ZincServer" where
  "continue_after fd s = (case sv_clients s fd of None \<Rightarrow> s | Some c \<Rightarrow> put_client fd (c\<lparr>cn_shouldContinue := True\<rparr>) s)"

section \<open>What sending leaves alone\<close>

definition quiet :: "ZincConnection \<Rightarrow> ZincConnection \<Rightarrow> bool" where
  "quiet c c' \<longleftrightarrow> cn_ip c' = cn_ip c \<and> cn_received c' = cn_received c \<and> cn_state c' = cn_state c
     \<and> cn_openedLoginPluginChannels c' = cn_openedLoginPluginChannels c \<and> cn_kickAtLogin c' = cn_kickAtLogin c
     \<and> cn_loginFinished c' = cn_loginFinished c \<and> cn_shouldContinue c' = cn_shouldContinue c"

lemma quiet_refl [simp]: "quiet c c"
  by (simp add: quiet_def)

lemma quiet_trans: "quiet a b \<Longrightarrow> quiet b c \<Longrightarrow> quiet a c"
  by (simp add: quiet_def)

lemma quiet_set_info [simp]: "quiet c (set_info f c)" "quiet (set_info f c) c' = quiet c c'"
  by (simp_all add: quiet_def set_info_def)

lemma quiet_info [simp]: "quiet (c\<lparr>cn_info := i\<rparr>) c' = quiet c c'" "quiet (setupEncryption x c) c' = quiet c c'"
  by (simp_all add: quiet_def setupEncryption_def)

lemma quiet_setIsCompressed: "quiet c (setIsCompressed v c)"
  by (simp add: quiet_def setIsCompressed_def)

lemma quiet_env_send: "env_send E p c = Inr c' \<Longrightarrow> quiet c c'"
  by (auto simp: env_send_def conn_send_def ebind_eq_Inr tcp_send_def quiet_def split: if_splits prod.splits)

lemma quiet_send_body: "send_body E i w c = Inr c' \<Longrightarrow> quiet c c'"
  by (auto simp: send_body_def ebind_eq_Inr intro: quiet_env_send)

lemma quiet_setupCompression: "setupCompression E c = Inr c' \<Longrightarrow> quiet c c'"
  by (auto simp: setupCompression_def ebind_eq_Inr split: if_splits
      intro: quiet_trans [OF quiet_send_body quiet_setIsCompressed])

lemma quiet_sendDisconnect: "sendDisconnect E t c = Inr c' \<Longrightarrow> quiet c c'"
  by (auto simp: sendDisconnect_def split: State.splits intro: quiet_send_body)

lemma quiet_sendDisconnect_text: "sendDisconnect_text E t c = Inr c' \<Longrightarrow> quiet c c'"
  by (auto simp: sendDisconnect_text_def intro: quiet_sendDisconnect)

lemma quiet_sendLoginError: "sendLoginError E m c = Inr c' \<Longrightarrow> quiet c c'"
  by (auto simp: sendLoginError_def intro: quiet_sendDisconnect_text)

lemma quiet_sendCookieRequest: "sendCookieRequest E i c = Inr c' \<Longrightarrow> quiet c c'"
  by (auto simp: sendCookieRequest_def split: State.splits intro: quiet_send_body)

lemma quiet_efold: "(\<And>x c c'. f x c = Inr c' \<Longrightarrow> quiet c c') \<Longrightarrow> efold f xs c = Inr c' \<Longrightarrow> quiet c c'"
proof (induction xs arbitrary: c)
  case (Cons x xs)
  then show ?case by (auto simp: ebind_eq_Inr) (blast intro: quiet_trans)
qed simp

lemma quiet_send_cookie_requests: "send_cookie_requests E st c = Inr c' \<Longrightarrow> quiet c c'"
  by (auto simp: send_cookie_requests_def ebind_eq_Inr split: option.splits dest!: quiet_efold [rotated] intro: quiet_sendCookieRequest)

text \<open>No channel is opened by the server: the tables of the requests are empty.\<close>

lemma send_plugin_requests_none: "send_plugin_requests E mo st c = Some (Inr c') \<Longrightarrow> c' = c"
  by (auto simp: send_plugin_requests_def g_zincServerInitPluginChannels_def split: option.splits if_splits)

lemma quiet_sendPluginMessage: "cn_state c \<noteq> Login \<Longrightarrow> sendPluginMessage E draws i data c = Some (Inr c') \<Longrightarrow> quiet c c'"
  by (auto simp: sendPluginMessage_def Let_def split: State.splits intro: quiet_send_body)

lemma quiet_BrandChannel: "BrandChannel E draws c = Some (Inr c') \<Longrightarrow> quiet c c'"
  by (auto simp: BrandChannel_def split: if_splits sum.splits intro: quiet_sendDisconnect_text quiet_sendPluginMessage)

lemma quiet_call_channel: "call_channel name E draws c = Some (Inr c') \<Longrightarrow> quiet c c'"
  by (auto simp: call_channel_def g_zincServerPluginChannels_def split: option.splits if_splits intro: quiet_BrandChannel)

lemma call_parser_throws [simp]: "call_parser name data c = Some (Inl BadFunctionCall)"
  by (simp add: call_parser_def g_zincCookieResponseParsers_def)

lemma quiet_send_config_packets: "send_config_packets X mo c = Inr c' \<Longrightarrow> quiet c c'"
  by (auto simp: send_config_packets_def Let_def ebind_eq_Inr dest!: quiet_send_body) (meson quiet_trans)

lemma quiet_send_registries: "send_registries X c = Inr c' \<Longrightarrow> quiet c c'"
  by (auto simp: send_registries_def ebind_eq_Inr dest!: quiet_efold [rotated] intro: quiet_send_body)

lemma quiet_sendBanMessage: "sendBanMessage E now om us b c = Inr (x, y, c') \<Longrightarrow> quiet c c'"
  by (auto simp: sendBanMessage_def Let_def ebind_eq_Inr split: if_splits option.splits intro: quiet_sendDisconnect)

section \<open>What a handler does to its connection\<close>

lemma breaks_eq: "breaks s r = Some (Inr (early, c, s')) \<longleftrightarrow> r = Inr c \<and> \<not> early \<and> s' = s"
  by (cases r) (auto simp: breaks_def)

lemma returns_eq: "returns s r = Some (Inr (early, c, s')) \<longleftrightarrow> r = Inr c \<and> early \<and> s' = s"
  by (cases r) (auto simp: returns_def)

lemmas handled_simps = breaks_eq returns_eq obind_eq_Inr ebind_eq_Inr Let_def

text \<open>What no handler but those of the client information and of the acknowledgement touches of the server.\<close>

lemma login_start_quiet: "handle_login_start X mo s d c = Some (Inr (early, c', s')) \<Longrightarrow> quiet c c' \<and> s' = s"
  by (auto simp: handle_login_start_def handled_simps send_encryption_request_def split: if_splits option.splits prod.splits
      dest!: quiet_sendLoginError quiet_setupCompression quiet_send_body intro: quiet_trans)

lemma encryption_response_quiet: "handle_encryption_response X mo s d c = Some (Inr (early, c', s')) \<Longrightarrow> quiet c c' \<and> s' = s"
  by (auto simp: handle_encryption_response_def handled_simps send_login_success_def split: if_splits sum.splits prod.splits
      dest!: quiet_sendLoginError quiet_send_cookie_requests send_plugin_requests_none quiet_send_body intro: quiet_trans)

section \<open>The effect of a packet\<close>

text \<open>The order in which a connection goes through the protocol.\<close>

definition protocol :: "(State \<times> State) set" where
  "protocol = {(Handshake, Status), (Handshake, Login), (Handshake, Transfer), (Login, Config), (Config, Play)}"

definition effect :: "ZincConnection \<Rightarrow> ZincServer \<Rightarrow> ZincConnection \<Rightarrow> ZincServer \<Rightarrow> bool" where
  "effect c s c' s' \<longleftrightarrow> cn_ip c' = cn_ip c \<and> cn_received c' = cn_received c
     \<and> cn_openedLoginPluginChannels c' \<subseteq>\<^sub>m cn_openedLoginPluginChannels c
     \<and> sv_clients s' = sv_clients s \<and> sv_concurrentAccounts s' = sv_concurrentAccounts s \<and> sv_rateLimiterData s' = sv_rateLimiterData s
     \<and> (if cn_state c' = cn_state c
        then cn_loginFinished c' = cn_loginFinished c \<and> cn_shouldContinue c' = cn_shouldContinue c
          \<and> sv_onlinePlayers s' = sv_onlinePlayers s
        else (cn_state c, cn_state c') \<in> protocol \<and> (cn_shouldContinue c' = (cn_shouldContinue c \<or> cn_state c = Handshake))
          \<and> cn_loginFinished c' = (cn_loginFinished c \<or> cn_state c = Login)
          \<and> sv_onlinePlayers s' = sv_onlinePlayers s + (if cn_state c = Login then 1 else 0))"

lemma quiet_effect: "quiet c c' \<Longrightarrow> s' = s \<Longrightarrow> effect c s c' s'"
  by (simp add: quiet_def effect_def)

lemma next_state_neq [simp]: "next_state v \<noteq> Handshake" "next_state v \<noteq> Config" "next_state v \<noteq> Play"
  by (auto simp: next_state_def Let_def)

lemma next_state_cases: "next_state v = Status \<or> next_state v = Login \<or> next_state v = Transfer"
  by (auto simp: next_state_def Let_def)

lemma handshake_effect: "cn_state c = Handshake \<Longrightarrow> handle_handshake p c = Inr c' \<Longrightarrow> effect c s c' s"
  by (auto simp: handle_handshake_def ebind_eq_Inr effect_def setState_def set_info_def protocol_def split: if_splits prod.splits)
    (use next_state_cases in blast)+

lemma status_effect: "handle_status X s p c = Inr c' \<Longrightarrow> effect c s c' s"
  by (auto simp: handle_status_def split: if_splits intro!: quiet_effect dest: quiet_env_send quiet_send_body)

lemma plugin_response_effect: "handle_plugin_response X mo s d c = Some (Inr (early, c', s')) \<Longrightarrow> effect c s c' s'"
  by (auto simp: handle_plugin_response_def handled_simps split: sum.splits if_splits dest!: quiet_call_channel quiet_sendLoginError
      intro: quiet_effect)
    (auto simp: quiet_def effect_def closeLoginPluginChannel_def map_le_def split: if_splits)

lemma login_ack_effect: "cn_state c = Login \<Longrightarrow> handle_login_ack s c = Some (Inr (early, c', s')) \<Longrightarrow> effect c s c' s'"
  by (auto simp: handle_login_ack_def effect_def setState_def protocol_def)

lemma cookie_response_throws: "\<exists>e. handle_cookie_response X mo s d c = Some (Inl e)"
  unfolding handle_cookie_response_def
  by (simp split: sum.split option.split) (auto simp: obind_def split: sum.split)

lemma login_effect: "cn_state c = Login \<Longrightarrow> handle_login X mo s p c = Some (Inr (early, c', s')) \<Longrightarrow> effect c s c' s'"
  using cookie_response_throws [of X mo s "zp_data p" c]
  by (auto simp: handle_login_def breaks_eq split: if_splits dest: login_start_quiet encryption_response_quiet
      intro: quiet_effect plugin_response_effect login_ack_effect)

lemma accept_client_info_quiet: "accept_client_info X mo s d c = Some (Inr (early, c', s')) \<Longrightarrow> quiet c c' \<and> s' = s"
  by (auto simp: accept_client_info_def handled_simps split: sum.splits prod.splits
      dest!: quiet_send_config_packets quiet_send_cookie_requests send_plugin_requests_none quiet_send_registries
        quiet_sendDisconnect_text) (meson quiet_trans)

lemma client_info_effect: "handle_client_info X mo s d c = Some (Inr (early, c', s')) \<Longrightarrow> effect c s c' s'"
  by (auto simp: handle_client_info_def handled_simps split: option.splits sum.splits if_splits
      dest!: quiet_sendBanMessage accept_client_info_quiet intro: quiet_effect)
   (auto simp: quiet_def effect_def)

lemma plugin_message_effect: "handle_plugin_message X mo s d c = Some (Inr (early, c', s')) \<Longrightarrow> effect c s c' s'"
  by (auto simp: handle_plugin_message_def handled_simps split: sum.splits dest: quiet_call_channel intro!: quiet_effect)

lemma keep_alive_effect: "handle_keep_alive X s d c = Some (Inr (early, c', s')) \<Longrightarrow> effect c s c' s'"
  by (auto simp: handle_keep_alive_def handled_simps split: sum.splits option.splits if_splits dest: quiet_sendLoginError
      intro!: quiet_effect)

lemma ping_effect: "handle_ping X s d c = Some (Inr (early, c', s')) \<Longrightarrow> effect c s c' s'"
  by (auto simp: handle_ping_def handled_simps split: sum.splits if_splits dest: quiet_sendLoginError intro!: quiet_effect)

lemma config_ack_effect: "cn_state c = Config \<Longrightarrow> effect c s (setState Play c) s"
  by (simp add: effect_def setState_def protocol_def)

lemma config_effect: "cn_state c = Config \<Longrightarrow> handle_config X mo s p c = Some (Inr (early, c', s')) \<Longrightarrow> effect c s c' s'"
  using cookie_response_throws [of X mo s "zp_data p" c]
  by (auto simp: handle_config_def breaks_eq split: if_splits intro: client_info_effect plugin_message_effect keep_alive_effect
      ping_effect config_ack_effect quiet_effect)

lemma handle_packet_effect: "handle_packet X mo s p c = Some (Inr (early, c', s')) \<Longrightarrow> effect c s c' s'"
  by (auto simp: handle_packet_def breaks_eq split: State.splits intro: handshake_effect status_effect login_effect config_effect
      quiet_effect)

section \<open>One packet, and the callback\<close>

lemma zp_id_mk: "mk_ZincPacket i d = Inr p \<Longrightarrow> zp_id p = i"
  by (auto simp: mk_ZincPacket_def packet_setData_def new_ZincPacket_def split: sum.splits)

lemma conn_read_fields:
  assumes "conn_read evp z c = Inr (p, c')"
  shows "cn_ip c' = cn_ip c \<and> cn_state c' = cn_state c \<and> cn_loginFinished c' = cn_loginFinished c
    \<and> cn_openedLoginPluginChannels c' = cn_openedLoginPluginChannels c \<and> cn_kickAtLogin c' = cn_kickAtLogin c
    \<and> cn_info c' = cn_info c \<and> (zp_id p <s 0 \<or> \<not> cn_shouldContinue c')"
  using assms by (auto simp: conn_read_def Let_def ebind_eq_Inr tcp_drain_def new_ZincPacket_def split: prod.splits option.splits)

text \<open>What one packet, or part of one, does to the client and to the counter of players.\<close>

definition client_effect :: "ZincConnection \<Rightarrow> ZincConnection \<Rightarrow> i32 \<Rightarrow> bool" where
  "client_effect c c' joined \<longleftrightarrow> cn_ip c' = cn_ip c \<and> cn_openedLoginPluginChannels c' \<subseteq>\<^sub>m cn_openedLoginPluginChannels c
     \<and> (if cn_state c' = cn_state c then cn_loginFinished c' = cn_loginFinished c \<and> joined = 0
        else (cn_state c, cn_state c') \<in> protocol \<and> cn_loginFinished c' = (cn_loginFinished c \<or> cn_state c = Login)
          \<and> joined = (if cn_state c = Login then 1 else 0))"

definition packet_effect :: "i32 \<Rightarrow> ZincConnection \<Rightarrow> ZincServer \<Rightarrow> ZincServer \<Rightarrow> bool" where
  "packet_effect fd c s s' \<longleftrightarrow> sv_concurrentAccounts s' = sv_concurrentAccounts s
     \<and> (\<exists>c'. sv_clients s' = (sv_clients s)(fd \<mapsto> c') \<and> client_effect c c' (sv_onlinePlayers s' - sv_onlinePlayers s))"

lemma effect_client_effect: "effect c s c' s' \<Longrightarrow> client_effect c c' (sv_onlinePlayers s' - sv_onlinePlayers s)"
  unfolding effect_def client_effect_def by (simp split: if_splits)

lemma client_effect_reads:
  "client_effect c1 c2 n \<Longrightarrow> cn_ip c1 = cn_ip c \<and> cn_state c1 = cn_state c \<and> cn_loginFinished c1 = cn_loginFinished c
    \<and> cn_openedLoginPluginChannels c1 = cn_openedLoginPluginChannels c \<Longrightarrow> client_effect c c2 n"
  by (elim conjE) (simp add: client_effect_def split: if_splits)

lemma client_effect_continue: "client_effect c (c2\<lparr>cn_shouldContinue := b\<rparr>) n = client_effect c c2 n"
  by (simp add: client_effect_def)

lemma read_once_effect:
  assumes "read_once X mo fd c s = Some (Inr (continue, s'))"
  shows "packet_effect fd c s s'"
proof -
  obtain p c1 where r: "conn_read (env_evp (cx_env X)) (env_zlib (cx_env X)) c = Inr (p, c1)"
    using assms unfolding read_once_def by (auto split: sum.splits)
  note f = conn_read_fields [OF r]
  show ?thesis
  proof (cases "zp_id p <s 0")
    case True
    then have "s' = put_client fd c1 s" using assms r by (simp add: read_once_def)
    then show ?thesis unfolding packet_effect_def by (intro conjI exI [of _ c1]) (use f in \<open>auto simp: put_client_def client_effect_def\<close>)
  next
    case False
    obtain early c2 s2 where h: "handle_packet X mo s p c1 = Some (Inr (early, c2, s2))"
      and s': "s' = put_client fd c2 s2 \<or> s' = put_client fd (c2\<lparr>cn_shouldContinue := True\<rparr>) s2"
      using assms r False unfolding read_once_def by (auto simp: obind_eq_Inr split: if_splits)
    have eff: "client_effect c c2 (sv_onlinePlayers s2 - sv_onlinePlayers s)"
      by (rule client_effect_reads [OF effect_client_effect [OF handle_packet_effect [OF h]]]) (use f in simp)
    have same: "sv_clients s2 = sv_clients s" "sv_concurrentAccounts s2 = sv_concurrentAccounts s"
      using handle_packet_effect [OF h] by (simp_all add: effect_def)
    from s' eff show ?thesis
      by (elim disjE) (auto simp: packet_effect_def put_client_def same client_effect_continue)
  qed
qed

lemma read_once_continues:
  assumes "read_once X mo fd c s = Some (Inr (True, s'))"
  shows "cn_state c = Handshake \<and> (\<exists>c'. sv_clients s' fd = Some c' \<and> cn_state c' \<noteq> Handshake)"
proof -
  obtain p c1 c2 s2 where r: "conn_read (env_evp (cx_env X)) (env_zlib (cx_env X)) c = Inr (p, c1)" "\<not> zp_id p <s 0"
    "handle_packet X mo s p c1 = Some (Inr (False, c2, s2))" "cn_shouldContinue c2" "s' = put_client fd c2 s2"
    using assms unfolding read_once_def by (auto simp: obind_eq_Inr split: sum.splits if_splits)
  from conn_read_fields [OF r(1)] r(2) have c1: "cn_state c1 = cn_state c" "\<not> cn_shouldContinue c1" by auto
  from handle_packet_effect [OF r(3)] r(4) c1 show ?thesis
    by (auto simp: effect_def protocol_def r(5) put_client_def split: if_splits)
qed

text \<open>
  \<open>onRead\<close> calls itself when bytes are left and a handshake has been handled. That a connection has left
  \<open>Handshake\<close> bounds the recursion.
\<close>

definition before_handshake :: "i32 \<Rightarrow> ZincServer \<Rightarrow> nat" where
  "before_handshake fd s = (case sv_clients s fd of None \<Rightarrow> 0 | Some c \<Rightarrow> if cn_state c = Handshake then 1 else 0)"

function onRead :: "Context \<Rightarrow> (nat \<Rightarrow> Moment) \<Rightarrow> i32 \<Rightarrow> ZincServer \<Rightarrow> ZincServer outcome" where
  "onRead X mo fd s =
     (case sv_clients s fd of
        None \<Rightarrow> Some (Inr s)
      | Some c \<Rightarrow>
          (case read_once X (mo 0) fd c s of
             None \<Rightarrow> None
           | Some (Inl e) \<Rightarrow> Some (Inl e)
           | Some (Inr (again, s')) \<Rightarrow>
               if again then obind (onRead X (\<lambda>n. mo (Suc n)) fd s') (\<lambda>s''. Some (Inr (continue_after fd s'')))
               else Some (Inr s')))"
  by pat_completeness auto

termination
  by (relation "measure (\<lambda>(X, mo, fd, s). before_handshake fd s)")
    (auto simp: before_handshake_def dest: read_once_continues)

declare onRead.simps [simp del]

lemma onRead_preserves:
  assumes "onRead X mo fd s = Some (Inr s')" and "P s"
    and packet: "\<And>fd c s s'. sv_clients s fd = Some c \<Longrightarrow> packet_effect fd c s s' \<Longrightarrow> P s \<Longrightarrow> P s'"
    and continue: "\<And>fd s. P s \<Longrightarrow> P (continue_after fd s)"
  shows "P s'"
  using assms(1,2)
proof (induction X mo fd s arbitrary: s' rule: onRead.induct)
  case (1 X mo fd s)
  note unfold = onRead.simps [of X mo fd s]
  show ?case
  proof (cases "sv_clients s fd")
    case None
    then show ?thesis using 1 by (simp add: onRead.simps)
  next
    case (Some c)
    then obtain again s1 where s1: "read_once X (mo 0) fd c s = Some (Inr (again, s1))"
      using 1 by (auto simp: unfold split: option.splits sum.splits)
    have P: "P s1" using packet [OF Some read_once_effect [OF s1]] 1 by blast
    show ?thesis
    proof (cases again)
      case True
      then obtain s2 where "onRead X (\<lambda>n. mo (Suc n)) fd s1 = Some (Inr s2)" "s' = continue_after fd s2"
        using 1 Some s1 by (auto simp: unfold obind_eq_Inr)
      then show ?thesis using "1.IH" [OF Some s1 refl refl True] P continue by auto
    next
      case False
      then show ?thesis using 1 Some s1 P by (simp add: onRead.simps)
    qed
  qed
qed

section \<open>The server as a transition system\<close>

text \<open>
  A callback of libevent, bytes that arrive or leave, or the thread of an unban. Another thread never interferes
  with a callback: libevent runs them one at a time, and the unban takes the mutex of the ban list. An accepted
  descriptor is not negative.
\<close>

inductive server_step :: "Context \<Rightarrow> ZincServer \<Rightarrow> ZincServer \<Rightarrow> bool" for X where
  Accept: "0 \<le>s fd \<Longrightarrow> server_step X s (onAccept X now fd address s)"
| Receive: "sv_clients s fd = Some c \<Longrightarrow>
    server_step X s (put_client fd (c\<lparr>cn_received := cn_received c @ bytes\<rparr>) s)"
| Transmit: "sv_clients s fd = Some c \<Longrightarrow> server_step X s (put_client fd (c\<lparr>cn_sent := drop n (cn_sent c)\<rparr>) s)"
| Read: "onRead X mo fd s = Some (Inr s') \<Longrightarrow> server_step X s s'"
| Event: "server_step X s (onEvent fd event s)"
| Unban: "sv_unbans s = us @ target # vs \<Longrightarrow>
    server_step X s (s\<lparr>sv_bans := config_unban moved target (sv_bans s), sv_unbans := us @ vs\<rparr>)"

inductive reachable :: "Context \<Rightarrow> ZincServer \<Rightarrow> bool" for X where
  start: "reachable X (new_ZincServer bans)"
| step: "reachable X s \<Longrightarrow> server_step X s s' \<Longrightarrow> reachable X s'"

inductive_cases server_stepE: "server_step X s s'"

section \<open>The counters\<close>

definition clients_at :: "string \<Rightarrow> ZincServer \<Rightarrow> i32 set" where
  "clients_at ip s = {fd. \<exists>c. sv_clients s fd = Some c \<and> cn_ip c = ip}"

definition online_clients :: "ZincServer \<Rightarrow> i32 set" where
  "online_clients s = {fd. \<exists>c. sv_clients s fd = Some c \<and> cn_loginFinished c}"

definition count_entry :: "nat \<Rightarrow> i32 option" where
  "count_entry n = (if n = 0 then None else Some (of_nat n))"

definition client_ok :: "ZincConnection \<Rightarrow> bool" where
  "client_ok c \<longleftrightarrow> cn_openedLoginPluginChannels c = Map.empty \<and> (cn_loginFinished c \<longleftrightarrow> cn_state c \<in> {Config, Play})"

definition server_ok :: "ZincServer \<Rightarrow> bool" where
  "server_ok s \<longleftrightarrow> (\<forall>fd c. sv_clients s fd = Some c \<longrightarrow> 0 \<le>s fd \<and> client_ok c)
     \<and> (\<forall>ip. sv_concurrentAccounts s ip = count_entry (card (clients_at ip s)))
     \<and> sv_onlinePlayers s = of_nat (card (online_clients s))"

lemma finite_fds [simp]: "finite (A :: i32 set)"
  by (rule finite)

lemma clients_at_put: "clients_at ip (put_client fd c s) = (if cn_ip c = ip then insert fd (clients_at ip s) else clients_at ip s - {fd})"
  by (auto simp: clients_at_def put_client_def)

text \<open>A socket has no negative descriptor, so a count of clients is never a multiple of \<open>2 ^ 32\<close> but zero.\<close>

lemma fd_count:
  assumes "server_ok s"
  shows "card (clients_at ip s) < 2 ^ 32"
proof -
  have "- 1 \<notin> clients_at ip s" using assms by (force simp: server_ok_def clients_at_def word_sle_eq)
  then have "clients_at ip s \<subset> UNIV" by blast
  then have "card (clients_at ip s) < card (UNIV :: i32 set)" by (intro psubset_card_mono) simp_all
  then show ?thesis by (simp add: card_word)
qed

lemma of_nat_count: "n < 2 ^ 32 \<Longrightarrow> (of_nat n :: i32) = 0 \<longleftrightarrow> n = 0"
  using word_of_nat_eq_0_iff [of n, where 'a = 32] by (auto dest: dvd_imp_le)

section \<open>The counters are kept\<close>

lemma map_le_empty: "m \<subseteq>\<^sub>m (\<lambda>x. None) \<longleftrightarrow> m = (\<lambda>x. None)"
  by (auto simp: map_le_def)

lemma client_ok_effect:
  assumes "client_ok c" and "client_effect c c' n"
  shows "client_ok c' \<and> n = (if cn_loginFinished c' \<and> \<not> cn_loginFinished c then 1 else 0)
    \<and> (cn_loginFinished c \<longrightarrow> cn_loginFinished c')"
  using assms by (auto simp: client_ok_def client_effect_def protocol_def map_le_empty split: if_splits)

lemma same_clients_at:
  assumes "sv_clients s fd = Some c" and "sv_clients s' = (sv_clients s)(fd \<mapsto> c')" and "cn_ip c' = cn_ip c"
  shows "clients_at ip s' = clients_at ip s"
  using assms by (auto simp: clients_at_def)

lemma online_clients_put:
  assumes "sv_clients s fd = Some c" and "sv_clients s' = (sv_clients s)(fd \<mapsto> c')" and "cn_loginFinished c \<longrightarrow> cn_loginFinished c'"
  shows "online_clients s' = (if cn_loginFinished c' \<and> \<not> cn_loginFinished c then insert fd (online_clients s) else online_clients s)
    \<and> (fd \<in> online_clients s \<longleftrightarrow> cn_loginFinished c)"
  using assms by (auto simp: online_clients_def)

lemma server_ok_effect:
  assumes ok: "server_ok s" and c: "sv_clients s fd = Some c" and eff: "packet_effect fd c s s'"
  shows "server_ok s'"
proof -
  obtain c' where c': "sv_clients s' = (sv_clients s)(fd \<mapsto> c')" "client_effect c c' (sv_onlinePlayers s' - sv_onlinePlayers s)"
    "sv_concurrentAccounts s' = sv_concurrentAccounts s" using eff unfolding packet_effect_def by blast
  have okc: "client_ok c" "0 \<le>s fd" using ok c by (auto simp: server_ok_def)
  note n = client_ok_effect [OF okc(1) c'(2)]
  have ip: "cn_ip c' = cn_ip c" using c'(2) by (simp add: client_effect_def)
  note on = online_clients_put [OF c c'(1)]
  have "sv_onlinePlayers s' = of_nat (card (online_clients s')) "
  proof -
    have "sv_onlinePlayers s' = sv_onlinePlayers s + (if cn_loginFinished c' \<and> \<not> cn_loginFinished c then 1 else 0)"
      using n by (simp add: diff_eq_eq add.commute)
    then show ?thesis using ok on n by (auto simp: server_ok_def)
  qed
  moreover have "\<forall>fd' d. sv_clients s' fd' = Some d \<longrightarrow> 0 \<le>s fd' \<and> client_ok d"
    using ok okc(2) n unfolding c'(1) by (auto simp: server_ok_def)
  ultimately show ?thesis using ok unfolding server_ok_def same_clients_at [OF c c'(1) ip] c'(3) by blast
qed

lemma server_ok_put:
  assumes ok: "server_ok s" and c: "sv_clients s fd = Some c"
    and "cn_ip c' = cn_ip c" "cn_state c' = cn_state c" "cn_loginFinished c' = cn_loginFinished c"
      "cn_openedLoginPluginChannels c' = cn_openedLoginPluginChannels c"
  shows "server_ok (put_client fd c' s)"
proof (rule server_ok_effect [OF ok c])
  show "packet_effect fd c s (put_client fd c' s)" unfolding packet_effect_def
    by (intro conjI exI [of _ c']) (use assms in \<open>auto simp: put_client_def client_effect_def\<close>)
qed

lemma server_ok_continue: "server_ok s \<Longrightarrow> server_ok (continue_after fd s)"
  by (auto simp: continue_after_def intro: server_ok_put split: option.split)

lemma server_ok_add:
  assumes ok: "server_ok s" and fd: "0 \<le>s fd" "sv_clients s fd = None" and c: "client_ok c" "\<not> cn_loginFinished c"
    and s': "sv_clients s' = (sv_clients s)(fd \<mapsto> c)"
      "sv_concurrentAccounts s' = (sv_concurrentAccounts s)(cn_ip c := count_entry (Suc (card (clients_at (cn_ip c) s))))"
      "sv_onlinePlayers s' = sv_onlinePlayers s"
  shows "server_ok s'"
proof -
  have at: "clients_at ip s' = (if ip = cn_ip c then insert fd (clients_at ip s) else clients_at ip s)" for ip
    using fd s'(1) by (auto simp: clients_at_def)
  have new: "fd \<notin> clients_at ip s" for ip using fd by (simp add: clients_at_def)
  have "online_clients s' = online_clients s" using s'(1) c(2) fd(2) by (auto simp: online_clients_def)
  then show ?thesis using ok fd c s' new by (auto simp: server_ok_def at)
qed

lemma addClient_run:
  assumes "\<not> isConnected fd s"
  shows "\<exists>kick limiter. addClient X now fd c s = s\<lparr>sv_rateLimiterData := limiter,
    sv_concurrentAccounts := (sv_concurrentAccounts s)(cn_ip c \<mapsto> (case sv_concurrentAccounts s (cn_ip c) of Some k \<Rightarrow> k + 1 | None \<Rightarrow> 1)),
    sv_clients := (sv_clients s)(fd \<mapsto> c\<lparr>cn_kickAtLogin := kick\<rparr>)\<rparr>"
proof -
  define n where "n = (case sv_concurrentAccounts s (cn_ip c) of Some k \<Rightarrow> k + 1 | None \<Rightarrow> 1)"
  define over where "over = (cx_maxConcurrentAccount X <s n)"
  have same: "c = c\<lparr>cn_kickAtLogin := cn_kickAtLogin c\<rparr>" by simp
  show ?thesis
  proof (cases "sv_rateLimiterData s (cn_ip c)")
    case None
    then have "addClient X now fd c s = s\<lparr>sv_rateLimiterData := (sv_rateLimiterData s)(cn_ip c \<mapsto> now 0),
      sv_concurrentAccounts := (sv_concurrentAccounts s)(cn_ip c \<mapsto> n),
      sv_clients := (sv_clients s)(fd \<mapsto> c\<lparr>cn_kickAtLogin := if over then 2 else cn_kickAtLogin c\<rparr>)\<rparr>"
      using assms by (simp add: addClient_def Let_def n_def [symmetric] over_def [symmetric])
    then show ?thesis unfolding n_def by blast
  next
    case (Some t)
    define late where "late = (t + scast (cx_rateLimit X) <s now 0)"
    from Some have "addClient X now fd c s = s\<lparr>sv_rateLimiterData := (if late then (sv_rateLimiterData s)(cn_ip c \<mapsto> now 1) else sv_rateLimiterData s),
      sv_concurrentAccounts := (sv_concurrentAccounts s)(cn_ip c \<mapsto> n),
      sv_clients := (sv_clients s)(fd \<mapsto> c\<lparr>cn_kickAtLogin := if over then 2 else if late then cn_kickAtLogin c else 1\<rparr>)\<rparr>"
      using assms by (simp add: addClient_def Let_def n_def [symmetric] over_def [symmetric] late_def [symmetric])
    then show ?thesis unfolding n_def by blast
  qed
qed

lemma server_ok_onAccept:
  assumes "server_ok s" "0 \<le>s fd"
  shows "server_ok (onAccept X now fd address s)"
proof (cases "isConnected fd s")
  case True
  then show ?thesis using assms by (simp add: onAccept_def addClient_def)
next
  case False
  let ?c = "new_ZincConnection (ip_member address)" and ?n = "card (clients_at (ip_member address) s)"
  have ip: "cn_ip ?c = ip_member address" by (simp add: new_ZincConnection_def)
  have count: "sv_concurrentAccounts s (ip_member address) = count_entry ?n" using assms by (auto simp: server_ok_def)
  have incremented: "(case count_entry ?n of Some k \<Rightarrow> k + 1 | None \<Rightarrow> 1) = (of_nat (Suc ?n) :: i32)"
    by (simp add: count_entry_def add.commute)
  obtain kick limiter where s: "onAccept X now fd address s = s\<lparr>sv_rateLimiterData := limiter,
    sv_concurrentAccounts := (sv_concurrentAccounts s)(ip_member address \<mapsto> of_nat (Suc ?n)),
    sv_clients := (sv_clients s)(fd \<mapsto> ?c\<lparr>cn_kickAtLogin := kick\<rparr>)\<rparr>"
    using addClient_run [OF False, of X now ?c] unfolding onAccept_def ip count incremented by blast
  show ?thesis
    by (rule server_ok_add [OF assms, where c = "?c\<lparr>cn_kickAtLogin := kick\<rparr>"])
      (use False in \<open>simp_all add: s isConnected_def client_ok_def new_ZincConnection_def count_entry_def\<close>)
qed

lemma of_nat_minus_one: "0 < n \<Longrightarrow> (of_nat n - 1 :: i32) = of_nat (n - 1)"
  by simp

lemma removeClient_run:
  assumes ok: "server_ok s" and c: "sv_clients s fd = Some c"
  shows "removeClient fd s = s\<lparr>sv_concurrentAccounts := (sv_concurrentAccounts s)(cn_ip c := count_entry (card (clients_at (cn_ip c) s) - 1)),
    sv_onlinePlayers := sv_onlinePlayers s - (if cn_loginFinished c then 1 else 0), sv_clients := (sv_clients s)(fd := None)\<rparr>"
proof -
  let ?n = "card (clients_at (cn_ip c) s)"
  have "fd \<in> clients_at (cn_ip c) s" using c by (simp add: clients_at_def)
  then have n: "0 < ?n" "?n < 2 ^ 32" using fd_count [OF ok] by (auto simp: card_gt_0_iff)
  have "sv_concurrentAccounts s (cn_ip c) = count_entry ?n" using ok by (simp add: server_ok_def)
  also have "\<dots> = Some (of_nat ?n)" unfolding count_entry_def by (rule if_not_P) (rule gr_implies_not0 [OF n(1)])
  finally have k: "sv_concurrentAccounts s (cn_ip c) = Some (of_nat ?n)" .
  have nz: "(of_nat ?n :: i32) \<noteq> 0" using of_nat_count [OF n(2)] gr_implies_not0 [OF n(1)] by blast
  have z: "(of_nat (?n - 1) :: i32) = 0 \<longleftrightarrow> ?n - 1 = 0" using n by (intro of_nat_count) simp
  show ?thesis unfolding removeClient_def c option.case Let_def k if_P [OF nz] of_nat_minus_one [OF n(1)] z count_entry_def
    by simp
qed

lemma server_ok_removeClient:
  assumes ok: "server_ok s"
  shows "server_ok (removeClient fd s)"
proof (cases "sv_clients s fd")
  case (Some c)
  note run = removeClient_run [OF ok Some]
  let ?s = "removeClient fd s"
  have at: "clients_at ip ?s = clients_at ip s - {fd}" "online_clients ?s = online_clients s - {fd}" for ip
    by (auto simp: clients_at_def online_clients_def run)
  have mem: "fd \<in> clients_at ip s \<longleftrightarrow> ip = cn_ip c" "fd \<in> online_clients s \<longleftrightarrow> cn_loginFinished c" for ip
    using Some by (auto simp: clients_at_def online_clients_def)
  have "sv_onlinePlayers s = of_nat (card (online_clients s))" using ok by (simp add: server_ok_def)
  moreover have "cn_loginFinished c \<Longrightarrow> 0 < card (online_clients s)" using mem(2) by (auto simp: card_gt_0_iff)
  ultimately have on: "sv_onlinePlayers ?s = of_nat (card (online_clients ?s))"
    unfolding at using mem(2) by (simp add: run card_Diff_singleton_if of_nat_minus_one)
  have conc: "sv_concurrentAccounts ?s ip = count_entry (card (clients_at ip ?s))" for ip
    using ok unfolding at by (simp add: run server_ok_def mem(1) card_Diff_singleton_if)
  have "\<forall>fd' d. sv_clients ?s fd' = Some d \<longrightarrow> sv_clients s fd' = Some d" by (simp add: run)
  then show ?thesis using ok on conc unfolding server_ok_def by blast
qed (use ok in \<open>simp add: removeClient_def\<close>)

lemma server_ok_step: "server_step X s s' \<Longrightarrow> server_ok s \<Longrightarrow> server_ok s'"
proof (induction rule: server_step.induct)
  case (Read mo fd s s')
  then show ?case by (rule onRead_preserves) (auto intro: server_ok_effect server_ok_continue)
next
  case (Event s fd event)
  then show ?case by (cases event) (auto simp: onEvent_def intro: server_ok_removeClient)
next
  case (Unban s us target vs moved)
  then show ?case by (simp add: server_ok_def clients_at_def online_clients_def)
qed (auto intro: server_ok_onAccept server_ok_put)

lemma server_ok_reachable: "reachable X s \<Longrightarrow> server_ok s"
proof (induction rule: reachable.induct)
  case (start bans)
  show ?case by (simp add: server_ok_def new_ZincServer_def clients_at_def online_clients_def count_entry_def)
qed (blast intro: server_ok_step)

end
