(* ===== verification/Server_Properties.thy ===== *)
theory Server_Properties
  imports Server
begin

text \<open>
  Properties of the server of \<open>ZincServer.cpp\<close>: its counters, the order of the protocol, and what a client that
  does not follow it can do.
\<close>

section \<open>Every callback ends\<close>

named_theorems settled

definition settles :: "'a outcome \<Rightarrow> bool" where
  "settles r \<longleftrightarrow> r \<noteq> None"

lemma settles_simps [settled]: "settles (Some x)" "settles (breaks s r)" "settles (returns s r)"
  by (simp_all add: settles_def breaks_def returns_def)

lemma settles_obind [settled]: "settles r \<Longrightarrow> (\<And>x. settles (k x)) \<Longrightarrow> settles (obind r k)"
  by (auto simp: settles_def obind_def split: option.split sum.split)

lemma no_init_requests [settled]: "settles (send_plugin_requests E mo st c)"
  by (simp add: settles_def send_plugin_requests_def g_zincServerInitPluginChannels_def split: option.split)

lemma settles_call_channel [settled]: "settles (call_channel name E draws c)"
  by (auto simp: settles_def call_channel_def g_zincServerPluginChannels_def BrandChannel_def sendPluginMessage_def Let_def
      split: State.split sum.split)

lemma settles_case_sum [settled]: "(\<And>x. settles (f x)) \<Longrightarrow> (\<And>x. settles (g x)) \<Longrightarrow> settles (case_sum f g r)"
  by (cases r) simp_all

lemma settles_case_option [settled]: "settles x \<Longrightarrow> (\<And>y. settles (f y)) \<Longrightarrow> settles (case_option x f r)"
  by (cases r) simp_all

lemma settles_case_prod [settled]: "(\<And>x y. settles (f x y)) \<Longrightarrow> settles (case_prod f r)"
  by (cases r) simp

lemma settles_if [settled]: "settles x \<Longrightarrow> settles y \<Longrightarrow> settles (if b then x else y)"
  by simp

lemma settles_cookie_response [settled]: "settles (handle_cookie_response X mo s d c)"
  using cookie_response_throws [of X mo s d c] by (auto simp: settles_def)

lemma settles_config [settled]: "settles (handle_config X mo s p c)"
  unfolding handle_config_def handle_client_info_def accept_client_info_def handle_plugin_message_def handle_keep_alive_def
    handle_ping_def Let_def by (intro settled)

lemma settles_login [settled]: "settles (handle_login X mo s p c)"
  unfolding handle_login_def handle_login_start_def handle_encryption_response_def handle_plugin_response_def
    handle_login_ack_def Let_def by (intro settled)

lemma settles_packet [settled]: "settles (handle_packet X mo s p c)"
  unfolding handle_packet_def by (cases "cn_state c") (simp_all add: settled)

lemma settles_read_once [settled]: "settles (read_once X mo fd c s)"
  unfolding read_once_def by (intro settled)

lemma onRead_settles: "settles (onRead X mo fd s)"
proof (induction X mo fd s rule: onRead.induct)
  case (1 X mo fd s)
  show ?case
  proof (cases "sv_clients s fd")
    case (Some c)
    obtain r where r: "read_once X (mo 0) fd c s = Some r"
      using settles_read_once [of X "mo 0" fd c s] by (auto simp: settles_def)
    show ?thesis
    proof (cases r)
      case (Inr x)
      obtain again s' where x: "x = (again, s')" by (cases x)
      show ?thesis
        unfolding onRead.simps [of X mo fd s] Some r Inr x option.case sum.case prod.case
        using "1.IH" [OF Some r Inr x [symmetric]] by (auto intro!: settled)
    qed (simp add: onRead.simps [of X mo fd s] Some r settled)
  qed (simp add: onRead.simps [of X mo fd s] settled)
qed

lemma accept_keeps_clients:
  assumes "sv_clients s fd = Some c"
  shows "sv_clients (onAccept X now fd' address s) fd = Some c"
proof (cases "isConnected fd' s")
  case False
  obtain limiter kick n where "onAccept X now fd' address s = s\<lparr>sv_rateLimiterData := limiter, sv_concurrentAccounts := n,
      sv_clients := (sv_clients s)(fd' \<mapsto> (new_ZincConnection (ip_member address))\<lparr>cn_kickAtLogin := kick\<rparr>)\<rparr>"
    using addClient_run [OF False] unfolding onAccept_def by blast
  then show ?thesis using assms False by (auto simp: isConnected_def)
qed (simp add: onAccept_def addClient_def assms)

section \<open>Properties of the counters and of the protocol\<close>

text \<open>C1: In every state the server can reach, \<open>m_concurrentAccounts\<close> has for each address the number of its clients
  in the table, and no entry where there is none, and \<open>m_onlinePlayers\<close> is the number of clients that have
  finished the login; these are the clients in Config and Play.\<close>

theorem server_counts:
  assumes "reachable X s"
  shows "sv_concurrentAccounts s = (\<lambda>ip. count_entry (card {fd. \<exists>c. sv_clients s fd = Some c \<and> cn_ip c = ip}))
    \<and> sv_onlinePlayers s = of_nat (card {fd. \<exists>c. sv_clients s fd = Some c \<and> cn_state c \<in> {Config, Play}})"
proof -
  have ok: "server_ok s" using assms by (rule server_ok_reachable)
  then have "online_clients s = {fd. \<exists>c. sv_clients s fd = Some c \<and> cn_state c \<in> {Config, Play}}"
    by (auto simp: online_clients_def server_ok_def client_ok_def)
  with ok show ?thesis by (auto simp: server_ok_def clients_at_def)
qed

theorem server_counts_witness:
  "\<forall>X. sv_concurrentAccounts (onAccept X (\<lambda>_. 0) 3 ''::1'' (new_ZincServer [])) (ip_member ''::1'') = Some 1"
proof (intro allI)
  fix X
  show "sv_concurrentAccounts (onAccept X (\<lambda>_. 0) 3 ''::1'' (new_ZincServer [])) (ip_member ''::1'') = Some 1"
  proof -
    let ?s = "onAccept X (\<lambda>_. 0) 3 ''::1'' (new_ZincServer [])"
    have "reachable X ?s" by (rule reachable.step [OF reachable.start [of X "[]"] server_step.Accept]) (simp add: word_sle_eq)
    note counts = server_counts [OF this]
    have "sv_clients ?s = [3 \<mapsto> (new_ZincConnection (ip_member ''::1''))\<lparr>cn_kickAtLogin := (if cx_maxConcurrentAccount X <s 1 then 2 else 0)\<rparr>]"
      by (simp add: onAccept_def addClient_def isConnected_def new_ZincServer_def new_ZincConnection_def Let_def)
    then have one: "{fd. \<exists>c. sv_clients ?s fd = Some c \<and> cn_ip c = ip_member ''::1''} = {3}"
      by (auto simp: new_ZincConnection_def)
    have "sv_concurrentAccounts ?s (ip_member ''::1'') = count_entry (card {3 :: i32})"
      by (subst conjunct1 [OF counts]) (simp only: one)
    then show ?thesis by (simp add: count_entry_def)
  qed
qed

text \<open>The callback cut off after \<open>n\<close> packets: \<open>None\<close> when it asks for more.\<close>

fun onRead_upto :: "nat \<Rightarrow> Context \<Rightarrow> (nat \<Rightarrow> Moment) \<Rightarrow> i32 \<Rightarrow> ZincServer \<Rightarrow> ZincServer outcome" where
  "onRead_upto 0 X mo fd s = None"
| "onRead_upto (Suc n) X mo fd s =
     (case sv_clients s fd of
        None \<Rightarrow> Some (Inr s)
      | Some c \<Rightarrow>
          (case read_once X (mo 0) fd c s of
             None \<Rightarrow> None
           | Some (Inl e) \<Rightarrow> Some (Inl e)
           | Some (Inr (again, s')) \<Rightarrow>
               if again then obind (onRead_upto n X (\<lambda>n. mo (Suc n)) fd s') (\<lambda>s''. Some (Inr (continue_after fd s'')))
               else Some (Inr s')))"

lemma onRead_upto_enough: "before_handshake fd s < n \<Longrightarrow> onRead_upto n X mo fd s = onRead X mo fd s"
proof (induction n arbitrary: mo s)
  case (Suc n)
  have "onRead_upto n X mo' fd s' = onRead X mo' fd s'" if "sv_clients s fd = Some c" "read_once X m fd c s = Some (Inr (True, s'))" for mo' m c s'
    using read_once_continues [OF that(2)] that(1) Suc.prems by (intro Suc.IH) (auto simp: before_handshake_def)
  then show ?case by (auto simp: onRead.simps [of X mo fd s] split: option.split sum.split)
qed simp

text \<open>C8: A callback always ends, with a new state or an uncaught exception: it is the callback cut off after one packet, or after two
  when the client is in Handshake, and that is never cut off, so it handles one packet, and a second one only for a
  client that was in Handshake. Nor does it come to the loop that draws channel identifiers, which might not end.\<close>

theorem onRead_ends:
  "onRead X mo fd s = onRead_upto (case sv_clients s fd of None \<Rightarrow> 1 | Some c \<Rightarrow> if cn_state c = Handshake then 2 else 1) X mo fd s
    \<and> onRead_upto (case sv_clients s fd of None \<Rightarrow> 1 | Some c \<Rightarrow> if cn_state c = Handshake then 2 else 1) X mo fd s \<noteq> None"
proof -
  have "before_handshake fd s < (case sv_clients s fd of None \<Rightarrow> 1 | Some c \<Rightarrow> if cn_state c = Handshake then 2 else 1)"
    by (simp add: before_handshake_def split: option.split)
  from onRead_upto_enough [OF this, of X mo] show ?thesis using onRead_settles [of X mo fd s] by (simp add: settles_def)
qed

lemma step_protocol:
  assumes "server_step X s s'" and "sv_clients s fd = Some c" and "sv_clients s' fd = Some c'"
  shows "(cn_state c, cn_state c') \<in> protocol\<^sup>*"
  using assms(1)
proof cases
  case (Read mo fd')
  let ?P = "\<lambda>t. \<exists>d. sv_clients t fd = Some d \<and> (cn_state c, cn_state d) \<in> protocol\<^sup>*"
  have "?P s'"
    by (rule onRead_preserves [OF Read]) (use assms(2) in \<open>auto simp: packet_effect_def client_effect_def continue_after_def
        put_client_def intro: rtrancl_into_rtrancl split: if_splits option.splits\<close>)
  then show ?thesis using assms(3) by auto
next
  case (Accept fd' now address)
  then show ?thesis using accept_keeps_clients [OF assms(2), of X now fd' address] assms(3) by simp
next
  case (Event fd' event)
  then show ?thesis using assms(2,3)
    by (cases event) (auto simp: onEvent_def removeClient_def Let_def split: option.splits if_splits)
qed (use assms(2,3) in \<open>auto simp: put_client_def split: if_splits\<close>)

text \<open>C2: No step takes a connection back in the protocol, or around it: from Handshake a connection goes to Status,
  Login or Transfer, from Login to Config, from Config to Play. Status, Transfer and Play are final.\<close>

theorem protocol_order:
  assumes "server_step X s s'" and "sv_clients s fd = Some c" and "sv_clients s' fd = Some c'"
  shows "(cn_state c, cn_state c') \<in> protocol\<^sup>*"
  using assms by (rule step_protocol)

section \<open>Rounds of the callback\<close>

lemma read_plain_frame:
  assumes "\<not> cn_isEncrypted c" "\<not> cn_isCompressed c" "length data < 2 ^ 30"
    and "cn_received c = frame_bytes z threshold False i data @ rest"
  obtains p where "conn_read evp z c = Inr (p, c\<lparr>cn_received := rest, cn_shouldContinue := False\<rparr>)" "zp_id p = i"
    "bb_wf (zp_data p)" "m_isBigEndian (zp_data p)" "bb_unread (zp_data p) = data" "packet_bytes p = data"
proof -
  obtain p c' where p: "conn_read evp z c = Inr (p, c')" "zp_id p = i" "packet_bytes p = data" "bb_unread (zp_data p) = data"
    "bb_wf (zp_data p)" "m_isBigEndian (zp_data p)"
    "c' = c\<lparr>cn_decrypt := cn_decrypt c, cn_received := drop (length (frame_bytes z threshold False i data)) (cn_received c), cn_shouldContinue := False\<rparr>"
    using conn_read_frame [of z c i data evp threshold rest "cn_decrypt c"] assms by (auto simp: sendable_def)
  with that assms(4) show thesis by simp
qed

lemma onRead_last:
  assumes "sv_clients s fd = Some c" and "read_once X (mo 0) fd c s = Some (Inr (False, s'))"
  shows "onRead X mo fd s = Some (Inr s')"
  by (simp add: onRead.simps [of X mo fd s] assms)

lemma onRead_again:
  assumes "sv_clients s fd = Some c" and "read_once X (mo 0) fd c s = Some (Inr (True, s'))"
    and "onRead X (\<lambda>n. mo (Suc n)) fd s' = Some (Inr s'')"
  shows "onRead X mo fd s = Some (Inr (continue_after fd s''))"
  by (simp add: onRead.simps [of X mo fd s] assms)

lemma onRead_throws:
  assumes "sv_clients s fd = Some c" and "read_once X (mo 0) fd c s = Some (Inl e)"
  shows "onRead X mo fd s = Some (Inl e)"
  by (simp add: onRead.simps [of X mo fd s] assms)

definition handshake_bytes :: "i32 \<Rightarrow> string \<Rightarrow> i16 \<Rightarrow> i32 \<Rightarrow> byte list" where
  "handshake_bytes version addr port goal = var_bytes version @ string_bytes addr @ numeric_bytes True port @ var_bytes goal"

lemma reads_handshake:
  assumes "length addr < 2 ^ 31"
  shows "reads True read_handshake (handshake_bytes version addr port goal) (version, addr, port, goal)"
  unfolding read_handshake_def handshake_bytes_def
  by (rule reads_bnd [OF reads_readVarNumeric] reads_bnd [OF reads_readString [OF assms]] reads_bnd [OF reads_readNumeric_16]
      reads_bnd_ret [OF reads_readVarNumeric] refl)+

lemma handshake_run:
  assumes "bb_wf (zp_data p)" "m_isBigEndian (zp_data p)" "bb_unread (zp_data p) = handshake_bytes version addr port goal"
    and "zp_id p = 0" "length addr < 2 ^ 31"
  obtains i where "handle_handshake p c = Inr (c\<lparr>cn_info := i, cn_state := next_state goal, cn_shouldContinue := True\<rparr>)"
    "ci_protocolVersion i = Some version" "ci_playerName i = ci_playerName (cn_info c)" "ci_verifyToken i = ci_verifyToken (cn_info c)"
    "ci_playerUUID i = ci_playerUUID (cn_info c)"
proof -
  obtain b where "read_handshake (zp_data p) = Inr ((version, addr, port, goal), b)"
    by (rule readsE [OF reads_handshake [OF assms(5)] assms(1), of version port goal "[]"]) (use assms(2,3) in auto)
  then show thesis using that assms(4) by (simp add: handle_handshake_def setState_def set_info_def)
qed

text \<open>A handshake with more behind it: the callback goes on with the next packet.\<close>

lemma handshake_round:
  assumes c: "sv_clients s fd = Some c" "cn_state c = Handshake" "\<not> cn_isEncrypted c" "\<not> cn_isCompressed c"
    and len: "length addr < 2 ^ 28"
    and got: "cn_received c = frame_bytes (env_zlib (cx_env X)) threshold False 0 (handshake_bytes version addr port goal) @ rest"
    and "rest \<noteq> []"
  obtains i where "read_once X mo fd c s = Some (Inr (True, put_client fd (c\<lparr>cn_received := rest, cn_info := i,
      cn_state := next_state goal, cn_shouldContinue := True\<rparr>) s))" "ci_protocolVersion i = Some version"
    "ci_playerName i = ci_playerName (cn_info c)" "ci_verifyToken i = ci_verifyToken (cn_info c)" "ci_playerUUID i = ci_playerUUID (cn_info c)"
proof -
  have "getVarNumericLength version \<le> 5" "getVarNumericLength goal \<le> 5" "getVarNumericLength (int_of_size (length addr)) \<le> 5"
    by (rule getVarNumericLength_32)+
  then have short: "length (handshake_bytes version addr port goal) < 2 ^ 30"
    using len by (simp add: handshake_bytes_def string_bytes_def numeric_bytes_def size_bytes_def)
  obtain p where p: "conn_read (env_evp (cx_env X)) (env_zlib (cx_env X)) c = Inr (p, c\<lparr>cn_received := rest, cn_shouldContinue := False\<rparr>)"
    "zp_id p = 0" "bb_wf (zp_data p)" "m_isBigEndian (zp_data p)" "bb_unread (zp_data p) = handshake_bytes version addr port goal"
    by (rule read_plain_frame [OF c(3,4) short got])
  obtain i where i: "handle_handshake p (c\<lparr>cn_received := rest, cn_shouldContinue := False\<rparr>)
      = Inr (c\<lparr>cn_received := rest, cn_shouldContinue := False, cn_info := i, cn_state := next_state goal, cn_shouldContinue := True\<rparr>)"
    "ci_protocolVersion i = Some version" "ci_playerName i = ci_playerName (cn_info c)"
    "ci_verifyToken i = ci_verifyToken (cn_info c)" "ci_playerUUID i = ci_playerUUID (cn_info c)"
    by (rule handshake_run [OF p(3,4,5,2), of "c\<lparr>cn_received := rest, cn_shouldContinue := False\<rparr>"]) (use len in auto)
  show thesis
    by (rule that [OF _ i(2-5)]) (use p(1,2) i(1) c(2) \<open>rest \<noteq> []\<close> in
      \<open>simp add: read_once_def handle_packet_def breaks_def put_client_def\<close>)
qed

text \<open>A handshake with nothing behind it.\<close>

lemma handshake_alone:
  assumes c: "sv_clients s fd = Some c" "cn_state c = Handshake" "\<not> cn_isEncrypted c" "\<not> cn_isCompressed c"
    and len: "length addr < 2 ^ 28"
    and got: "cn_received c = frame_bytes (env_zlib (cx_env X)) threshold False 0 (handshake_bytes version addr port goal)"
  obtains i where "onRead X mo fd s = Some (Inr (put_client fd (c\<lparr>cn_received := [], cn_info := i,
      cn_state := next_state goal, cn_shouldContinue := True\<rparr>) s))" "ci_playerName i = ci_playerName (cn_info c)"
proof -
  have "getVarNumericLength version \<le> 5" "getVarNumericLength goal \<le> 5" "getVarNumericLength (int_of_size (length addr)) \<le> 5"
    by (rule getVarNumericLength_32)+
  then have short: "length (handshake_bytes version addr port goal) < 2 ^ 30"
    using len by (simp add: handshake_bytes_def string_bytes_def numeric_bytes_def size_bytes_def)
  have got': "cn_received c = frame_bytes (env_zlib (cx_env X)) threshold False 0 (handshake_bytes version addr port goal) @ []"
    using got by simp
  obtain p where p: "conn_read (env_evp (cx_env X)) (env_zlib (cx_env X)) c = Inr (p, c\<lparr>cn_received := [], cn_shouldContinue := False\<rparr>)"
    "zp_id p = 0" "bb_wf (zp_data p)" "m_isBigEndian (zp_data p)" "bb_unread (zp_data p) = handshake_bytes version addr port goal"
    by (rule read_plain_frame [OF c(3,4) short got'])
  obtain i where i: "handle_handshake p (c\<lparr>cn_received := [], cn_shouldContinue := False\<rparr>)
      = Inr (c\<lparr>cn_received := [], cn_shouldContinue := False, cn_info := i, cn_state := next_state goal, cn_shouldContinue := True\<rparr>)"
    "ci_playerName i = ci_playerName (cn_info c)"
    by (rule handshake_run [OF p(3,4,5,2), of "c\<lparr>cn_received := [], cn_shouldContinue := False\<rparr>"]) (use len in auto)
  have "read_once X (mo 0) fd c s = Some (Inr (False, put_client fd (c\<lparr>cn_received := [], cn_info := i,
      cn_state := next_state goal, cn_shouldContinue := True\<rparr>) s))"
    using p(1,2) i(1) c(2) by (simp add: read_once_def handle_packet_def breaks_def put_client_def)
  from that [OF onRead_last [where mo = mo, OF c(1) this] i(2)] show thesis .
qed

text \<open>A login acknowledgement for a connection in Login.\<close>

lemma ack_round:
  assumes "sv_clients s fd = Some c" "cn_state c = Login" "\<not> cn_isEncrypted c" "\<not> cn_isCompressed c"
    and "cn_received c = frame_bytes (env_zlib (cx_env X)) threshold False 3 []"
  shows "onRead X mo fd s = Some (Inr (put_client fd (c\<lparr>cn_received := [], cn_state := Config, cn_loginFinished := True, cn_shouldContinue := True\<rparr>)
      (s\<lparr>sv_onlinePlayers := sv_onlinePlayers s + 1\<rparr>)))"
proof -
  obtain p where "conn_read (env_evp (cx_env X)) (env_zlib (cx_env X)) c = Inr (p, c\<lparr>cn_received := [], cn_shouldContinue := False\<rparr>)"
    "zp_id p = 3" by (rule read_plain_frame [of c "[]" _ threshold 3 "[]"]) (use assms in simp_all)
  then have "read_once X (mo 0) fd c s = Some (Inr (False, put_client fd (c\<lparr>cn_received := [],
      cn_state := Config, cn_loginFinished := True, cn_shouldContinue := True\<rparr>) (s\<lparr>sv_onlinePlayers := sv_onlinePlayers s + 1\<rparr>)))"
    using assms(2) by (simp add: read_once_def handle_packet_def handle_login_def word_sless_alt handle_login_ack_def setState_def put_client_def)
  then show ?thesis by (rule onRead_last [where mo = mo, OF assms(1)])
qed

text \<open>C10: A handshake and a login acknowledgement take a fresh connection (in Handshake, neither encrypted nor compressed, nothing
  received, and the address in the handshake shorter than two to the 28) to Config and count it as a player, whether they arrive
  together, for one callback, or one after the other, for two: without LOGIN START, so without a name, without the checks of the
  version, of the number of players, of the rate limit and of the accounts per address, and without encryption or a session, in online
  mode too. Nothing is sent to the client.\<close>

theorem login_ack_needs_no_login:
  assumes "sv_clients s fd = Some c" "cn_state c = Handshake" "\<not> cn_isEncrypted c" "\<not> cn_isCompressed c" "cn_received c = []"
    and "length addr < 2 ^ 28" "hello = frame_bytes (env_zlib (cx_env X)) threshold False 0 (handshake_bytes version addr port 2)"
    and "ack = frame_bytes (env_zlib (cx_env X)) threshold False 3 []"
  shows "(\<exists>s' c'. onRead X mo fd (put_client fd (c\<lparr>cn_received := hello @ ack\<rparr>) s) = Some (Inr s')
      \<and> sv_clients s' fd = Some c' \<and> cn_state c' = Config \<and> cn_loginFinished c' \<and> \<not> cn_isEncrypted c'
      \<and> ci_playerName (cn_info c') = ci_playerName (cn_info c) \<and> cn_sent c' = cn_sent c \<and> sv_onlinePlayers s' = sv_onlinePlayers s + 1)
    \<and> (\<exists>s1 c1 s' c'. onRead X mo fd (put_client fd (c\<lparr>cn_received := hello\<rparr>) s) = Some (Inr s1) \<and> sv_clients s1 fd = Some c1
      \<and> onRead X mo' fd (put_client fd (c1\<lparr>cn_received := cn_received c1 @ ack\<rparr>) s1) = Some (Inr s')
      \<and> sv_clients s' fd = Some c' \<and> cn_state c' = Config \<and> cn_loginFinished c' \<and> \<not> cn_isEncrypted c'
      \<and> ci_playerName (cn_info c') = ci_playerName (cn_info c) \<and> cn_sent c' = cn_sent c \<and> sv_onlinePlayers s' = sv_onlinePlayers s + 1)"
proof
  let ?P = "\<lambda>s' c'. sv_clients s' fd = Some c' \<and> cn_state c' = Config \<and> cn_loginFinished c' \<and> \<not> cn_isEncrypted c'
      \<and> ci_playerName (cn_info c') = ci_playerName (cn_info c) \<and> cn_sent c' = cn_sent c \<and> sv_onlinePlayers s' = sv_onlinePlayers s + 1"
  have st: "next_state 2 = Login" by (simp add: next_state_def state_of_byte_def)
  have "ack \<noteq> []" by (simp add: assms(8) frame_bytes_not_empty)
  let ?c0 = "c\<lparr>cn_received := hello @ ack\<rparr>" and ?s0 = "put_client fd (c\<lparr>cn_received := hello @ ack\<rparr>) s"
  obtain i where first: "read_once X (mo 0) fd ?c0 ?s0 = Some (Inr (True, put_client fd (?c0\<lparr>cn_received := ack, cn_info := i,
      cn_state := next_state 2, cn_shouldContinue := True\<rparr>) ?s0))" "ci_playerName i = ci_playerName (cn_info ?c0)"
    by (rule handshake_round [of ?s0 fd ?c0 addr X threshold version port 2 ack "mo 0"])
      (use assms \<open>ack \<noteq> []\<close> in \<open>simp_all add: put_client_def\<close>)
  let ?c = "?c0\<lparr>cn_received := ack, cn_info := i, cn_state := next_state 2, cn_shouldContinue := True\<rparr>"
  have "onRead X (\<lambda>n. mo (Suc n)) fd (put_client fd ?c ?s0) = Some (Inr (put_client fd (?c\<lparr>cn_received := [],
      cn_state := Config, cn_loginFinished := True, cn_shouldContinue := True\<rparr>)
      ((put_client fd ?c ?s0)\<lparr>sv_onlinePlayers := sv_onlinePlayers (put_client fd ?c ?s0) + 1\<rparr>)))"
    by (rule ack_round [where threshold = threshold]) (use assms(3,4,8) st in \<open>simp_all add: put_client_def\<close>)
  from onRead_again [OF _ first(1) this] show "\<exists>s' c'. onRead X mo fd ?s0 = Some (Inr s') \<and> ?P s' c'"
    using first(2) assms(3) by (simp add: continue_after_def put_client_def)
  let ?d0 = "c\<lparr>cn_received := hello\<rparr>" and ?t0 = "put_client fd (c\<lparr>cn_received := hello\<rparr>) s"
  obtain j where one: "onRead X mo fd ?t0 = Some (Inr (put_client fd (?d0\<lparr>cn_received := [], cn_info := j,
      cn_state := next_state 2, cn_shouldContinue := True\<rparr>) ?t0))" "ci_playerName j = ci_playerName (cn_info ?d0)"
    by (rule handshake_alone [of ?t0 fd ?d0 addr X threshold version port 2 mo]) (use assms in \<open>simp_all add: put_client_def\<close>)
  let ?d = "?d0\<lparr>cn_received := [], cn_info := j, cn_state := next_state 2, cn_shouldContinue := True\<rparr>"
  let ?s1 = "put_client fd ?d ?t0" and ?e = "?d\<lparr>cn_received := cn_received ?d @ ack\<rparr>"
  have two: "onRead X mo' fd (put_client fd ?e ?s1) = Some (Inr (put_client fd (?e\<lparr>cn_received := [],
      cn_state := Config, cn_loginFinished := True, cn_shouldContinue := True\<rparr>)
      ((put_client fd ?e ?s1)\<lparr>sv_onlinePlayers := sv_onlinePlayers (put_client fd ?e ?s1) + 1\<rparr>)))"
    by (rule ack_round [where threshold = threshold]) (use assms(3,4,8) st in \<open>simp_all add: put_client_def\<close>)
  show "\<exists>s1 c1 s' c'. onRead X mo fd ?t0 = Some (Inr s1) \<and> sv_clients s1 fd = Some c1
      \<and> onRead X mo' fd (put_client fd (c1\<lparr>cn_received := cn_received c1 @ ack\<rparr>) s1) = Some (Inr s') \<and> ?P s' c'"
    by (rule exI [of _ ?s1], rule exI [of _ ?d]) (use one two assms(3) in \<open>simp add: put_client_def\<close>)
qed

theorem login_ack_needs_no_login_witness:
  "\<forall>X mo mo'. \<exists>s1 c1 s' c'. onRead X mo 3 (put_client 3 ((new_ZincConnection ''::1'')\<lparr>cn_kickAtLogin := 2,
      cn_received := frame_bytes (env_zlib (cx_env X)) 256 False 0 (handshake_bytes 770 [] 25565 2)\<rparr>) (new_ZincServer [])) = Some (Inr s1)
    \<and> sv_clients s1 3 = Some c1 \<and> onRead X mo' 3 (put_client 3 (c1\<lparr>cn_received := cn_received c1
      @ frame_bytes (env_zlib (cx_env X)) 256 False 3 []\<rparr>) s1) = Some (Inr s')
    \<and> sv_clients s' 3 = Some c' \<and> cn_state c' = Config \<and> ci_playerName (cn_info c') = []"
proof (intro allI)
  fix X mo mo'
  let ?c = "(new_ZincConnection ''::1'')\<lparr>cn_kickAtLogin := 2\<rparr>"
  have c: "sv_clients (put_client 3 ?c (new_ZincServer [])) 3 = Some ?c" "cn_state ?c = Handshake" "\<not> cn_isEncrypted ?c" "\<not> cn_isCompressed ?c"
    "cn_received ?c = []" "length [] < (2 :: nat) ^ 28"
    by (simp_all add: put_client_def new_ZincConnection_def)
  have twice: "put_client 3 d (put_client 3 ?c (new_ZincServer [])) = put_client 3 d (new_ZincServer [])" for d
    by (simp add: put_client_def)
  have name: "ci_playerName (cn_info ?c) = []" by (simp add: new_ZincConnection_def new_ConnectionInfo_def)
  show "\<exists>s1 c1 s' c'. onRead X mo 3 (put_client 3 ((new_ZincConnection ''::1'')\<lparr>cn_kickAtLogin := 2,
      cn_received := frame_bytes (env_zlib (cx_env X)) 256 False 0 (handshake_bytes 770 [] 25565 2)\<rparr>) (new_ZincServer [])) = Some (Inr s1)
    \<and> sv_clients s1 3 = Some c1 \<and> onRead X mo' 3 (put_client 3 (c1\<lparr>cn_received := cn_received c1
      @ frame_bytes (env_zlib (cx_env X)) 256 False 3 []\<rparr>) s1) = Some (Inr s')
    \<and> sv_clients s' 3 = Some c' \<and> cn_state c' = Config \<and> ci_playerName (cn_info c') = []"
    using conjunct2 [OF login_ack_needs_no_login [where X = X and mo = mo and mo' = mo' and threshold = 256 and version = 770 and port = 25565,
        OF c refl refl, unfolded twice name]] by auto
qed

section \<open>Writers that never fail\<close>

named_theorems writable_intros

definition writable :: "unit bb \<Rightarrow> bool" where
  "writable w \<longleftrightarrow> (\<forall>be. \<exists>xs. appends be w xs)"

lemma writableI: "(\<And>be. appends be w (f be)) \<Longrightarrow> writable w"
  unfolding writable_def by blast

lemma writable_basic [writable_intros]:
  "writable (writeByte c)" "writable (writeNumeric v)" "writable (writeBytes xs)" "writable (writeString s)"
  "writable (writeZigZagVarNumeric v)" "writable (writeVarNumeric v)" "writable (ret ())" "writable (write_string16 s)"
  "writable (writeBool b)" "writable (writeIdentifier i)"
  by (rule writableI, rule appends_intros)+

lemma writable_thn [writable_intros]: "writable v \<Longrightarrow> writable w \<Longrightarrow> writable (thn v w)"
  unfolding writable_def by (meson appends_thn)

lemma writable_if [writable_intros]: "writable v \<Longrightarrow> writable w \<Longrightarrow> writable (if b then v else w)"
  by simp

lemma writable_each [writable_intros]: "(\<And>x. x \<in> set xs \<Longrightarrow> writable (w x)) \<Longrightarrow> writable (each w xs)"
  by (induction xs) (auto intro!: writable_intros)

lemma writable_big_endian [writable_intros]: "(\<And>be. writable (k be)) \<Longrightarrow> writable (bnd (gets m_isBigEndian) k)"
  unfolding writable_def by (meson appends_gets)

lemma writable_writeArray [writable_intros]: "(\<And>x. writable (w x)) \<Longrightarrow> writable (writeArray w xs)"
  unfolding writeArray_def by (intro writable_intros)



lemma writable_send: "writable w \<Longrightarrow> \<exists>c'. send_body E i w c = Inr c'"
proof -
  assume "writable w"
  then obtain xs where "appends True w xs" unfolding writable_def by blast
  then obtain b where "w (new_bb True) = Inr ((), b)" by (rule appendsE [where b = "new_bb True"]) simp_all
  then show ?thesis
    by (simp add: send_body_def env_send_def conn_send_frame Let_def split: prod.split)
qed


section \<open>Packets that are not expected\<close>

text \<open>C22: A cookie response, in Login or in Config, ends the process, whatever its data: no parser is registered, so either
  reading the packet throws or the call of the empty function that \<open>operator[]\<close> inserts does.\<close>

theorem cookie_response_stops_server:
  assumes "sv_clients s fd = Some c"
    and "conn_read (env_evp (cx_env X)) (env_zlib (cx_env X)) c = Inr (p, c')"
    and "cn_state c = Login \<and> zp_id p = 4 \<or> cn_state c = Config \<and> zp_id p = 1"
  shows "\<exists>e. onRead X mo fd s = Some (Inl e)"
proof -
  obtain e where "handle_cookie_response X (mo 0) s (zp_data p) c' = Some (Inl e)" using cookie_response_throws by blast
  moreover have "cn_state c' = cn_state c" using conn_read_fields [OF assms(2)] by simp
  moreover have "\<not> zp_id p <s 0" using assms(3) by (auto simp: word_sless_alt)
  ultimately have "handle_packet X (mo 0) s p c' = Some (Inl e)"
    using assms(3) by (auto simp: handle_packet_def handle_login_def handle_config_def)
  then have "read_once X (mo 0) fd c s = Some (Inl e)"
    using assms(2) \<open>\<not> zp_id p <s 0\<close> by (simp add: read_once_def)
  then show ?thesis using onRead_throws [OF assms(1)] by blast
qed

theorem cookie_response_stops_server_witness:
  "\<forall>X mo. \<exists>e. onRead X mo 3 (put_client 3 ((new_ZincConnection ''::1'')\<lparr>cn_state := Login,
     cn_received := frame_bytes (env_zlib (cx_env X)) 256 False 4 []\<rparr>) (new_ZincServer [])) = Some (Inl e)"
proof (intro allI)
  fix X mo
  show "\<exists>e. onRead X mo 3 (put_client 3 ((new_ZincConnection ''::1'')\<lparr>cn_state := Login,
     cn_received := frame_bytes (env_zlib (cx_env X)) 256 False 4 []\<rparr>) (new_ZincServer [])) = Some (Inl e)"
  proof -
    let ?c = "(new_ZincConnection ''::1'')\<lparr>cn_state := Login, cn_received := frame_bytes (env_zlib (cx_env X)) 256 False 4 []\<rparr>"
    obtain p where "conn_read (env_evp (cx_env X)) (env_zlib (cx_env X)) ?c = Inr (p, ?c\<lparr>cn_received := [], cn_shouldContinue := False\<rparr>)"
      "zp_id p = 4" by (rule read_plain_frame [of ?c "[]" _ 256 4 "[]"]) (simp_all add: new_ZincConnection_def)
    then show ?thesis
      by (intro cookie_response_stops_server [where c = ?c and p = p]) (auto simp: put_client_def new_ZincConnection_def)
  qed
qed

text \<open>Every login plugin response is refused: the server opens no channel by itself, and the handler looks the
  channel up under the four bytes it reads.\<close>

theorem plugin_response_is_refused:
  assumes "reachable X s" and "sv_clients s fd = Some c" and "cn_state c = Login"
    and "conn_read (env_evp (cx_env X)) (env_zlib (cx_env X)) c = Inr (p, c')" and "zp_id p = 2"
  shows "handle_packet X mo s p c' = (case readArray readUnsignedByte 4 (zp_data p) of
      Inl e \<Rightarrow> Some (Inl e)
    | Inr (i, _) \<Rightarrow> breaks s (sendLoginError (cx_env X) ''Server received invalid login plugin channel id'' c'))"
proof -
  have "client_ok c" using server_ok_reachable [OF assms(1)] assms(2) by (auto simp: server_ok_def)
  moreover note conn_read_fields [OF assms(4)]
  ultimately show ?thesis using assms(3,5)
    by (auto simp: handle_packet_def handle_login_def handle_plugin_response_def isLoginPluginChannelOpened_def client_ok_def
        split: sum.split)
qed

section \<open>States without a handler\<close>

text \<open>A client that transfers, or has reached Play, is never answered: what it sends is read and dropped.\<close>

theorem transfer_is_never_answered:
  assumes "sv_clients s fd = Some c" and "cn_state c \<in> {Transfer, Play}" and "onRead X mo fd s = Some (Inr s')"
  shows "\<exists>c'. s' = put_client fd c' s \<and> cn_state c' = cn_state c \<and> cn_sent c' = cn_sent c \<and> cn_info c' = cn_info c"
proof -
  obtain p c1 where r: "conn_read (env_evp (cx_env X)) (env_zlib (cx_env X)) c = Inr (p, c1)"
    using assms by (auto simp: onRead.simps [of X mo fd s] read_once_def split: sum.splits)
  note f = conn_read_fields [OF r]
  have sent: "cn_sent c1 = cn_sent c"
    using r by (auto simp: conn_read_def Let_def ebind_eq_Inr tcp_drain_def split: prod.splits option.splits)
  have "read_once X (mo 0) fd c s = Some (Inr (False, put_client fd (if zp_id p <s 0 then c1 else c1\<lparr>cn_shouldContinue := True\<rparr>) s))"
    using r f assms(2) by (auto simp: read_once_def handle_packet_def breaks_def)
  from onRead_last [where mo = mo, OF assms(1) this] assms(3)
  have "s' = put_client fd (if zp_id p <s 0 then c1 else c1\<lparr>cn_shouldContinue := True\<rparr>) s" by simp
  moreover have "cn_state d = cn_state c \<and> cn_sent d = cn_sent c \<and> cn_info d = cn_info c"
    if "d = (if zp_id p <s 0 then c1 else c1\<lparr>cn_shouldContinue := True\<rparr>)" for d using f sent that by simp
  ultimately show ?thesis by blast
qed

theorem transfer_is_never_answered_witness:
  "\<forall>X mo. \<exists>s' c'. onRead X mo 3 (put_client 3 ((new_ZincConnection ''::1'')\<lparr>cn_state := Transfer,
     cn_received := frame_bytes (env_zlib (cx_env X)) 256 False 0 []\<rparr>) (new_ZincServer [])) = Some (Inr s')
   \<and> sv_clients s' 3 = Some c' \<and> cn_sent c' = []"
proof (intro allI)
  fix X mo
  show "\<exists>s' c'. onRead X mo 3 (put_client 3 ((new_ZincConnection ''::1'')\<lparr>cn_state := Transfer,
     cn_received := frame_bytes (env_zlib (cx_env X)) 256 False 0 []\<rparr>) (new_ZincServer [])) = Some (Inr s')
   \<and> sv_clients s' 3 = Some c' \<and> cn_sent c' = []"
  proof -
    let ?c = "(new_ZincConnection ''::1'')\<lparr>cn_state := Transfer, cn_received := frame_bytes (env_zlib (cx_env X)) 256 False 0 []\<rparr>"
    let ?s = "put_client 3 ?c (new_ZincServer [])"
    obtain p where "conn_read (env_evp (cx_env X)) (env_zlib (cx_env X)) ?c = Inr (p, ?c\<lparr>cn_received := [], cn_shouldContinue := False\<rparr>)"
      "zp_id p = 0" by (rule read_plain_frame [of ?c "[]" _ 256 0 "[]"]) (simp_all add: new_ZincConnection_def)
    then have "read_once X (mo 0) 3 ?c ?s = Some (Inr (False, put_client 3 (?c\<lparr>cn_received := [], cn_shouldContinue := True\<rparr>) ?s))"
      by (simp add: read_once_def handle_packet_def breaks_def)
    from onRead_last [where mo = mo, OF _ this] obtain s' where s': "onRead X mo 3 ?s = Some (Inr s')" by (auto simp: put_client_def)
    from transfer_is_never_answered [OF _ _ s', of ?c] have "\<exists>c'. sv_clients s' 3 = Some c' \<and> cn_sent c' = []"
      by (auto simp: put_client_def new_ZincConnection_def)
    with s' show ?thesis by blast
  qed
qed

section \<open>Bans at the server\<close>

text \<open>A ban of an address never matches a client by its address: the member holds 46 characters, the address and
  zeros, and the ban the address alone. As the ban's name and UUID are empty it matches exactly the clients without a
  name, or in online mode without a UUID.\<close>

theorem ip_ban_matches_the_nameless:
  assumes "length address < 46" and "CHR 0x00 \<notin> set ip"
  shows "find_ban onlineMode info (ip_member address) (config_ban enc now random (Ban_Ip ip) reason moderatorId []) \<noteq> None
    \<longleftrightarrow> (if onlineMode then ci_playerUUID info = replicate 16 0 else ci_playerName info = [])"
proof -
  have "ip_member address \<noteq> ip" using assms by (auto simp: ip_member_def)
  then show ?thesis by (simp add: find_ban_def config_ban_def mk_ban_def matching_ban_def)
qed

theorem ip_ban_matches_the_nameless_witness:
  "\<forall>enc now random reason moderatorId. find_ban False (new_ConnectionInfo\<lparr>ci_playerName := ''eve''\<rparr>) (ip_member ''10.0.0.1'')
     (config_ban enc now random (Ban_Ip ''10.0.0.1'') reason moderatorId []) = None"
proof (intro allI)
  fix enc now random reason moderatorId
  show "find_ban False (new_ConnectionInfo\<lparr>ci_playerName := ''eve''\<rparr>) (ip_member ''10.0.0.1'')
     (config_ban enc now random (Ban_Ip ''10.0.0.1'') reason moderatorId []) = None"
    using ip_ban_matches_the_nameless [of "''10.0.0.1''" "''10.0.0.1''" False "new_ConnectionInfo\<lparr>ci_playerName := ''eve''\<rparr>"]
    by simp
qed







section \<open>Logging in\<close>

text \<open>C27: The limits at the door, in every reachable state and for a descriptor that is not in the table. A new connection gets the mark 2, with which LOGIN START refuses it, when its address then has more
  clients than the limit, this one included. Otherwise it gets the mark 1, for the rate limit, unless no time is recorded for its
  address or that time plus the limit is in the past; at exactly the limit it is still marked. The time is recorded when there
  is none and renewed when that time plus the limit is in the past, for a connection with the mark 2 as well; otherwise it stays.\<close>

theorem accept_limits:
  assumes "reachable X s" and "sv_clients s fd = None"
  shows "\<exists>c. sv_clients (onAccept X now fd address s) fd = Some c \<and> cn_state c = Handshake
    \<and> cn_kickAtLogin c = (if cx_maxConcurrentAccount X <s of_nat (Suc (card (clients_at (ip_member address) s))) then 2
        else case sv_rateLimiterData s (ip_member address) of None \<Rightarrow> 0
          | Some t \<Rightarrow> if t + scast (cx_rateLimit X) <s now 0 then 0 else 1)
    \<and> sv_rateLimiterData (onAccept X now fd address s) (ip_member address)
      = (case sv_rateLimiterData s (ip_member address) of None \<Rightarrow> Some (now 0)
          | Some t \<Rightarrow> if t + scast (cx_rateLimit X) <s now 0 then Some (now 1) else Some t)"
proof -
  let ?ip = "ip_member address"
  define n where "n = card (clients_at ?ip s)"
  have "sv_concurrentAccounts s ?ip = count_entry n"
    using server_ok_reachable [OF assms(1)] by (simp add: server_ok_def n_def)
  moreover have "(case count_entry n of Some k \<Rightarrow> k + 1 | None \<Rightarrow> 1) = (of_nat (Suc n) :: i32)"
    by (simp add: count_entry_def add.commute)
  ultimately have k: "(case sv_concurrentAccounts s ?ip of Some k \<Rightarrow> k + 1 | None \<Rightarrow> 1) = (of_nat (Suc n) :: i32)" by simp
  have ip: "cn_ip (new_ZincConnection ?ip) = ?ip" by (simp add: new_ZincConnection_def)
  have new: "\<not> isConnected fd s" using assms(2) by (simp add: isConnected_def)
  define over where "over = (cx_maxConcurrentAccount X <s (of_nat (Suc n) :: i32))"
  show ?thesis
  proof (cases "sv_rateLimiterData s ?ip")
    case None
    then show ?thesis unfolding onAccept_def addClient_def Let_def ip k n_def [symmetric] over_def [symmetric] if_not_P [OF new]
      by (simp add: new_ZincConnection_def)
  next
    case (Some t)
    define late where "late = (t + scast (cx_rateLimit X) <s now 0)"
    show ?thesis unfolding onAccept_def addClient_def Let_def ip k n_def [symmetric] over_def [symmetric] if_not_P [OF new]
        Some option.case late_def [symmetric]
      by (simp add: new_ZincConnection_def Some)
  qed
qed

theorem accept_limits_witness:
  "\<forall>X. \<exists>c. sv_clients (onAccept X (\<lambda>_. 0) 3 ''::1'' (new_ZincServer [])) 3 = Some c \<and> cn_state c = Handshake"
proof
  fix X
  show "\<exists>c. sv_clients (onAccept X (\<lambda>_. 0) 3 ''::1'' (new_ZincServer [])) 3 = Some c \<and> cn_state c = Handshake"
    using accept_limits [OF reachable.start [of X "[]"], of 3 "\<lambda>_. 0" "''::1''"] by (auto simp: new_ZincServer_def)
qed

lemma concat_replicate_shift: "concat (replicate n xs) @ xs = xs @ concat (replicate n xs)"
  by (induction n) simp_all

text \<open>In online mode the session service is asked ten times over, whether it has answered or not: a player it knows
  gets every property ten times.\<close>

theorem session_properties_tenfold:
  assumes "sr_id r = Some i" and "uuid_from_string i = Some uuid" and "sr_name r = Some name" and "sr_properties r = map Some ps"
  shows "session_loop (\<lambda>_. Some r) 10 info
    = (True, info\<lparr>ci_playerUUID := uuid, ci_playerName := name, ci_properties := ci_properties info @ concat (replicate 10 ps)\<rparr>)"
proof -
  have push: "push_properties (map Some qs) j = (True, j\<lparr>ci_properties := ci_properties j @ qs\<rparr>)" for qs j
    by (induction qs arbitrary: j) simp_all
  let ?new = "\<lambda>qs. info\<lparr>ci_playerUUID := uuid, ci_playerName := name, ci_properties := ci_properties info @ qs\<rparr>"
  have attempt: "session_attempt (Some r) j = (True, j\<lparr>ci_playerUUID := uuid, ci_playerName := name, ci_properties := ci_properties j @ ps\<rparr>)" for j
    using assms by (simp add: session_attempt_def push Let_def)
  have "session_loop (\<lambda>_. Some r) (Suc n) info = (True, ?new (concat (replicate (Suc n) ps)))" for n
  proof (induction n)
    case (Suc n)
    have "session_loop (\<lambda>_. Some r) (Suc (Suc n)) info
        = (let (gotData, j) = session_loop (\<lambda>_. Some r) (Suc n) info; (ok, j') = session_attempt (Some r) j in (gotData \<or> ok, j'))"
      by (simp add: session_loop_def split: prod.split)
    also have "\<dots> = (True, ?new (concat (replicate (Suc n) ps) @ ps))" unfolding Suc.IH by (simp add: attempt)
    finally show ?case using concat_replicate_shift [of "Suc n" ps] by simp
  qed (simp add: session_loop_def attempt)
  from this [of 9] show ?thesis by simp
qed

theorem session_properties_tenfold_witness:
  "ci_properties (snd (session_loop (\<lambda>_. Some \<lparr>sr_id = Some (uuid_to_string (replicate 16 0)), sr_name = Some ''eve'',
     sr_properties = [Some \<lparr>cp_name = ''a'', cp_value = ''b'', cp_signature = None\<rparr>]\<rparr>) 10 new_ConnectionInfo))
   = replicate 10 \<lparr>cp_name = ''a'', cp_value = ''b'', cp_signature = None\<rparr>"
  using session_properties_tenfold [of "\<lparr>sr_id = Some (uuid_to_string (replicate 16 0)), sr_name = Some ''eve'',
     sr_properties = [Some \<lparr>cp_name = ''a'', cp_value = ''b'', cp_signature = None\<rparr>]\<rparr>" _ "replicate 16 0" _
     "[\<lparr>cp_name = ''a'', cp_value = ''b'', cp_signature = None\<rparr>]" new_ConnectionInfo]
  by (simp add: uuid_from_to_string new_ConnectionInfo_def numeral_eq_Suc)

section \<open>An honest login\<close>

lemma reads_secret:
  assumes "length xs < 2 ^ 31"
  shows "reads be (readPrefixedArray readUnsignedByte) (prefixed_bytes xs) xs"
  using codec.reads_readPrefixedArray [OF readUnsignedByte_codec, of xs be] assms
  by (simp add: prefixed_bytes_def list_all_iff)

definition carries :: "ZincPacket \<Rightarrow> i32 \<Rightarrow> byte list \<Rightarrow> bool" where
  "carries p i data \<longleftrightarrow> zp_id p = i \<and> bb_wf (zp_data p) \<and> m_isBigEndian (zp_data p) \<and> bb_unread (zp_data p) = data"

lemma carries_read:
  assumes "carries p i data" and "reads True r data x"
  obtains b where "r (zp_data p) = Inr (x, b)"
  using readsE [OF assms(2), of "zp_data p" "[]"] assms(1) by (auto simp: carries_def)

lemma carries_exists: "\<exists>p. carries p i data"
proof -
  obtain d p where "mk_ZincPacket i d = Inr p" "zp_id p = i" "bb_wf (zp_data p)" "m_isBigEndian (zp_data p)" "bb_unread (zp_data p) = data"
    by (rule packet_of_bytes [of data i]) blast
  then show ?thesis by (auto simp: carries_def)
qed

lemma send_body_info: "send_body E i w c = Inr c' \<Longrightarrow> cn_info c' = cn_info c \<and> cn_isEncrypted c' = cn_isEncrypted c"
  by (auto simp: send_body_def env_send_def conn_send_def ebind_eq_Inr tcp_send_def split: if_splits prod.splits)

lemma writable_prefixed [writable_intros]:
  "(\<And>x. writable (w x)) \<Longrightarrow> writable (writePrefixedArray w xs)"
  "(\<And>x. writable (w x)) \<Longrightarrow> writable (writePrefixedOptional w v)"
  "writable (writeUnsignedByte c)" "writable (writeUUID u)" "writable (writeZincConnectionProperty p)"
  by (auto simp: writePrefixedArray_def writePrefixedOptional_def writeOptional_def writeUnsignedByte_def writeUUID_def
      writeZincConnectionProperty_def intro!: writable_intros split: option.split)

text \<open>A send that succeeds, and what it leaves alone.\<close>

definition sends :: "zinc_error + ZincConnection \<Rightarrow> ZincConnection \<Rightarrow> bool" where
  "sends r c \<longleftrightarrow> (\<exists>c'. r = Inr c' \<and> quiet c c' \<and> cn_info c' = cn_info c \<and> cn_isEncrypted c' = cn_isEncrypted c)"

lemma sendsE:
  assumes "sends r c"
  obtains c' where "r = Inr c'" "quiet c c'" "cn_info c' = cn_info c" "cn_isEncrypted c' = cn_isEncrypted c"
  using assms unfolding sends_def by blast

lemma sends_body: "writable w \<Longrightarrow> sends (send_body E i w c) c"
  unfolding sends_def using writable_send [of w E i c] send_body_info quiet_send_body by blast

lemma sends_encryption_request: "sends (send_encryption_request X token c) c"
  unfolding send_encryption_request_def by (rule sends_body) (intro writable_intros)

lemma sends_login_success: "sends (send_login_success X c) c"
  unfolding send_login_success_def by (rule sends_body) (intro writable_intros)

lemma sends_compression: "sends (if b then setupCompression E c else Inr c) c"
proof (cases "b \<and> cn_state c = Login")
  case True
  have "sends (send_body E 3 (writeVarInt (env_threshold E)) c) c" by (rule sends_body) (intro writable_intros)
  then obtain c' where "send_body E 3 (writeVarInt (env_threshold E)) c = Inr c'" "quiet c c'" "cn_info c' = cn_info c"
    "cn_isEncrypted c' = cn_isEncrypted c" by (rule sendsE)
  then have "sends (setupCompression E c) c"
    using True by (simp add: sends_def setupCompression_def setIsCompressed_def quiet_def)
  then show ?thesis using True by simp
qed (auto simp: sends_def setupCompression_def)

lemma login_start_run:
  assumes p: "carries p 0 (string_bytes name @ uuid)" and uuid: "length uuid = 16" and name: "length name \<le> 16"
    and c: "cn_state c = Login" "cn_kickAtLogin c = 0" "\<not> cx_maxPlayerCount X \<le>s sv_onlinePlayers s"
      "ci_protocolVersion (cn_info c) = Some LATEST_MINECRAFT_VERSION_PROTOCOL"
  obtains c' where "handle_packet X mo s p c = Some (Inr (False, c', s))" "quiet c c'" "cn_isEncrypted c' = cn_isEncrypted c"
    "cn_info c' = (cn_info c)\<lparr>ci_playerName := name, ci_playerUUID := uuid, ci_verifyToken := mo_random mo 64\<rparr>"
proof -
  have "reads True readUUID uuid uuid"
    unfolding readUUID_def using reads_bnd [OF reads_readBytes [of 16 uuid] , of True "\<lambda>bytes. if length bytes = 16 then ret bytes else fail Indeterminate" "[]" uuid]
    uuid by (simp add: reads_ret max_vector_size_def)
  then have "reads True (bnd readString (\<lambda>name. bnd readUUID (\<lambda>uuid. ret (name, uuid)))) (string_bytes name @ uuid) (name, uuid)"
    using name by (intro reads_bnd [OF reads_readString] reads_bnd_ret) auto
  then obtain b where b: "bnd readString (\<lambda>name. bnd readUUID (\<lambda>uuid. ret (name, uuid))) (zp_data p) = Inr ((name, uuid), b)"
    by (rule carries_read [OF p])
  let ?c1 = "set_info (\<lambda>i. i\<lparr>ci_playerName := name, ci_playerUUID := uuid\<rparr>) c"
  obtain c2 where c2: "(if 0 <s env_threshold (cx_env X) then setupCompression (cx_env X) ?c1 else Inr ?c1) = Inr c2" "quiet ?c1 c2"
    "cn_info c2 = cn_info ?c1" "cn_isEncrypted c2 = cn_isEncrypted ?c1"
    by (rule sendsE [OF sends_compression])
  let ?c3 = "set_info (\<lambda>i. i\<lparr>ci_verifyToken := mo_random mo 64\<rparr>) c2"
  obtain c4 where c4: "send_encryption_request X (mo_random mo 64) ?c3 = Inr c4" "quiet ?c3 c4" "cn_info c4 = cn_info ?c3"
    "cn_isEncrypted c4 = cn_isEncrypted ?c3"
    by (rule sendsE [OF sends_encryption_request])
  have "quiet c c4" using c2(2) c4(2) by (auto intro: quiet_trans)
  moreover have "cn_info c4 = (cn_info c)\<lparr>ci_playerName := name, ci_playerUUID := uuid, ci_verifyToken := mo_random mo 64\<rparr>"
    "cn_isEncrypted c4 = cn_isEncrypted c"
    using c2(3,4) c4(3,4) by (simp_all add: set_info_def)
  moreover have "handle_packet X mo s p c = Some (Inr (False, c4, s))"
    using p c name b c2(1) c4(1)
    by (simp add: handle_packet_def handle_login_def handle_login_start_def carries_def breaks_def Let_def
        LATEST_MINECRAFT_VERSION_PROTOCOL_def word_sless_alt)
  ultimately show thesis using that by blast
qed

lemma encryption_response_run:
  assumes p: "carries p 1 (prefixed_bytes secret @ prefixed_bytes token)" and len: "length secret < 2 ^ 31" "length token < 2 ^ 31"
    and c: "cn_state c = Login" "cx_decrypt X token = ci_verifyToken (cn_info c)"
    and session: "cx_onlineMode X \<longrightarrow> fst (session_loop (cx_session X (session_url X (cn_info c) (cx_decrypt X secret))) 10
        ((cn_info c)\<lparr>ci_verifyToken := []\<rparr>))"
  obtains c' where "handle_packet X mo s p c = Some (Inr (False, c', s))" "quiet c c'" "cn_isEncrypted c'"
    "cn_info c' = (if cx_onlineMode X then snd (session_loop (cx_session X (session_url X (cn_info c) (cx_decrypt X secret))) 10
        ((cn_info c)\<lparr>ci_verifyToken := []\<rparr>)) else (cn_info c)\<lparr>ci_verifyToken := []\<rparr>)"
proof -
  obtain b where b: "bnd (readPrefixedArray readUnsignedByte) (\<lambda>secret. bnd (readPrefixedArray readUnsignedByte) (\<lambda>token. ret (secret, token)))
      (zp_data p) = Inr ((secret, token), b)"
    by (rule carries_read [OF p reads_bnd [OF reads_secret [OF len(1)] reads_bnd_ret [OF reads_secret [OF len(2)] refl]]])
  let ?i = "(cn_info c)\<lparr>ci_verifyToken := []\<rparr>"
  let ?c1 = "setupEncryption (cx_decrypt X secret) (c\<lparr>cn_info := ?i\<rparr>)"
  let ?run = "session_loop (cx_session X (session_url X (cn_info c) (cx_decrypt X secret))) 10 ?i"
  let ?c2 = "?c1\<lparr>cn_info := (if cx_onlineMode X then snd ?run else ?i)\<rparr>"
  have url: "session_url X ?i x = session_url X (cn_info c) x" for x by (simp add: session_url_def)
  obtain c3 where c3: "send_login_success X ?c2 = Inr c3" "quiet ?c2 c3" "cn_info c3 = cn_info ?c2" "cn_isEncrypted c3 = cn_isEncrypted ?c2"
    by (rule sendsE [OF sends_login_success])
  have none: "send_cookie_requests (cx_env X) Login x = Inr x" "send_plugin_requests (cx_env X) mo Login x = Some (Inr x)" for x
    by (simp_all add: send_cookie_requests_def g_zincCookieRequests_def send_plugin_requests_def g_zincServerInitPluginChannels_def)
  have run: "(if cx_onlineMode X then ?run else (True, ?i)) = (True, if cx_onlineMode X then snd ?run else ?i)"
    using session by (cases ?run) auto
  have c1: "set_info (\<lambda>i. i\<lparr>ci_verifyToken := []\<rparr>) c = c\<lparr>cn_info := ?i\<rparr>" "cn_info ?c1 = ?i"
    by (simp_all add: set_info_def setupEncryption_def)
  have "handle_encryption_response X mo s (zp_data p) c = breaks s (send_login_success X ?c2)"
    unfolding handle_encryption_response_def b sum.case prod.case Let_def c(2) if_P [OF refl] c1 url run
    by (simp add: none)
  then have "handle_packet X mo s p c = Some (Inr (False, c3, s))"
    using p c c3(1) by (simp add: handle_packet_def handle_login_def carries_def breaks_def)
  moreover have "quiet c c3" "cn_isEncrypted c3" using c3(2,4) by (auto simp: setupEncryption_def quiet_def)
  moreover have "cn_info c3 = (if cx_onlineMode X then snd ?run else ?i)" using c3(3) by simp
  ultimately show thesis by (rule that)
qed


lemma login_ack_run:
  assumes "carries p 3 []" and "cn_state c = Login"
  shows "handle_packet X mo s p c = Some (Inr (False, (setState Config c)\<lparr>cn_loginFinished := True\<rparr>,
    s\<lparr>sv_onlinePlayers := sv_onlinePlayers s + 1\<rparr>))"
  using assms by (simp add: handle_packet_def handle_login_def handle_login_ack_def carries_def)

text \<open>C3: A client that follows the protocol gets in: in Login, not marked for refusal, with the right version, a name of at most sixteen characters, a free place
  and a correct answer to the challenge, and in online mode a session under the hash of its key, the packets LOGIN START,
  ENCRYPTION RESPONSE and LOGIN ACK are all handled, and no step can fail. After the first the connection has the name and the UUID of
  the packet and the token that was drawn; after the second it is encrypted and the token is gone, and in online mode the answers of the
  session service have been put in; after the third it is in Config, still encrypted and with the same data, so offline with the name
  and the UUID of the first packet, and counted as a player.\<close>

theorem honest_login_succeeds:
  assumes "cn_state c = Login" "cn_kickAtLogin c = 0" "\<not> cx_maxPlayerCount X \<le>s sv_onlinePlayers s"
      "ci_protocolVersion (cn_info c) = Some LATEST_MINECRAFT_VERSION_PROTOCOL"
    and "carries p1 0 (string_bytes name @ uuid)" "length uuid = 16" "length name \<le> 16"
    and "i = (cn_info c)\<lparr>ci_playerName := name, ci_playerUUID := uuid, ci_verifyToken := mo_random mo 64\<rparr>"
    and "carries p2 1 (prefixed_bytes secret @ prefixed_bytes token)" "length secret < 2 ^ 31" "length token < 2 ^ 31"
      "cx_decrypt X token = mo_random mo 64"
    and "run = session_loop (cx_session X (session_url X i (cx_decrypt X secret))) 10 (i\<lparr>ci_verifyToken := []\<rparr>)"
    and "cx_onlineMode X \<longrightarrow> fst run"
    and "carries p3 3 []"
  shows "\<exists>c1 c2 c3. handle_packet X mo s p1 c = Some (Inr (False, c1, s)) \<and> cn_info c1 = i
    \<and> handle_packet X mo2 s p2 c1 = Some (Inr (False, c2, s)) \<and> cn_isEncrypted c2
    \<and> cn_info c2 = (if cx_onlineMode X then snd run else i\<lparr>ci_verifyToken := []\<rparr>)
    \<and> handle_packet X mo3 s p3 c2 = Some (Inr (False, c3, s\<lparr>sv_onlinePlayers := sv_onlinePlayers s + 1\<rparr>))
    \<and> cn_state c3 = Config \<and> cn_loginFinished c3 \<and> cn_isEncrypted c3 \<and> cn_info c3 = cn_info c2
    \<and> (\<not> cx_onlineMode X \<longrightarrow> ci_playerName (cn_info c3) = name \<and> ci_playerUUID (cn_info c3) = uuid)"
proof -
  obtain c1 where c1: "handle_packet X mo s p1 c = Some (Inr (False, c1, s))" "quiet c c1" "cn_info c1 = i"
    unfolding assms(8) by (rule login_start_run [OF assms(5-7,1-4)])
  have l1: "cn_state c1 = Login" using c1(2) assms(1) by (simp add: quiet_def)
  obtain c2 where c2: "handle_packet X mo2 s p2 c1 = Some (Inr (False, c2, s))" "quiet c1 c2" "cn_isEncrypted c2"
    "cn_info c2 = (if cx_onlineMode X then snd (session_loop (cx_session X (session_url X (cn_info c1) (cx_decrypt X secret))) 10
        ((cn_info c1)\<lparr>ci_verifyToken := []\<rparr>)) else (cn_info c1)\<lparr>ci_verifyToken := []\<rparr>)"
    by (rule encryption_response_run [OF assms(9-11) l1, of X mo2 s]) (use assms(8,12-14) c1(3) in auto)
  have l2: "cn_state c2 = Login" using c2(2) l1 by (simp add: quiet_def)
  have i2: "cn_info c2 = (if cx_onlineMode X then snd run else i\<lparr>ci_verifyToken := []\<rparr>)" using c2(4) unfolding c1(3) assms(13) .
  let ?c3 = "(setState Config c2)\<lparr>cn_loginFinished := True\<rparr>"
  have "handle_packet X mo3 s p3 c2 = Some (Inr (False, ?c3, s\<lparr>sv_onlinePlayers := sv_onlinePlayers s + 1\<rparr>))"
    by (rule login_ack_run [OF assms(15) l2])
  moreover have "cn_state ?c3 = Config \<and> cn_loginFinished ?c3 \<and> cn_isEncrypted ?c3 \<and> cn_info ?c3 = cn_info c2"
    using c2(3) by (simp add: setState_def)
  ultimately show ?thesis using c1 c2(1,3) i2 assms(8)
    by (intro exI [of _ c1] exI [of _ c2] exI [of _ ?c3]) simp
qed

definition offline_context :: Context where
  "offline_context = undefined\<lparr>cx_onlineMode := False, cx_maxPlayerCount := 20, cx_decrypt := (\<lambda>_. replicate 64 0)\<rparr>"

definition fixed_moment :: Moment where
  "fixed_moment = \<lparr>mo_time = (\<lambda>_. 0), mo_random = (\<lambda>n. replicate n 0), mo_draws = (\<lambda>_. [])\<rparr>"

theorem honest_login_succeeds_witness:
  "\<exists>p1 c1. carries p1 0 (string_bytes ''eve'' @ replicate 16 0)
    \<and> handle_packet offline_context fixed_moment (new_ZincServer []) p1 ((new_ZincConnection ''::1'')\<lparr>cn_state := Login,
        cn_info := new_ConnectionInfo\<lparr>ci_protocolVersion := Some 770\<rparr>\<rparr>) = Some (Inr (False, c1, new_ZincServer []))"
proof -
  let ?c = "(new_ZincConnection ''::1'')\<lparr>cn_state := Login, cn_info := new_ConnectionInfo\<lparr>ci_protocolVersion := Some 770\<rparr>\<rparr>"
  obtain p1 p2 p3 where p: "carries p1 0 (string_bytes ''eve'' @ replicate 16 0)" "carries p2 1 (prefixed_bytes [] @ prefixed_bytes [])"
    "carries p3 3 []" using carries_exists by metis
  have c: "cn_state ?c = Login" "cn_kickAtLogin ?c = 0" "\<not> cx_maxPlayerCount offline_context \<le>s sv_onlinePlayers (new_ZincServer [])"
    "ci_protocolVersion (cn_info ?c) = Some LATEST_MINECRAFT_VERSION_PROTOCOL" "cx_decrypt offline_context [] = mo_random fixed_moment 64"
    "\<not> cx_onlineMode offline_context"
    by (simp_all add: new_ZincConnection_def offline_context_def new_ZincServer_def LATEST_MINECRAFT_VERSION_PROTOCOL_def
        word_sle_eq fixed_moment_def)
  from honest_login_succeeds [OF c(1-4) p(1) _ _ refl p(2) _ _ c(5) refl _ p(3), of fixed_moment fixed_moment] p(1) c(6)
  show ?thesis by auto
qed

text \<open>The challenge protects nothing before LOGIN START: \<open>m_verifyToken\<close> is then empty, and so is what \<open>decrypt\<close> returns
  for bytes that are no ciphertext. A response with such a token is accepted, and in offline mode logs in a
  connection that has never sent a name.\<close>

theorem empty_token_is_accepted:
  assumes "cn_state c = Login" "ci_verifyToken (cn_info c) = []" "\<not> cx_onlineMode X" "cx_decrypt X token = []"
    and "carries p 1 (prefixed_bytes secret @ prefixed_bytes token)" "length secret < 2 ^ 31" "length token < 2 ^ 31"
  shows "\<exists>c'. handle_packet X mo s p c = Some (Inr (False, c', s)) \<and> cn_isEncrypted c' \<and> cn_info c' = cn_info c"
proof -
  obtain c' where "handle_packet X mo s p c = Some (Inr (False, c', s))" "cn_isEncrypted c'"
    "cn_info c' = (if cx_onlineMode X then snd (session_loop (cx_session X (session_url X (cn_info c) (cx_decrypt X secret))) 10
        ((cn_info c)\<lparr>ci_verifyToken := []\<rparr>)) else (cn_info c)\<lparr>ci_verifyToken := []\<rparr>)"
    by (rule encryption_response_run [OF assms(5-7,1), of X mo s]) (use assms(2-4) in auto)
  moreover have "(cn_info c)\<lparr>ci_verifyToken := []\<rparr> = cn_info c" using assms(2) by (cases "cn_info c") simp
  ultimately show ?thesis using assms(3) by auto
qed

theorem empty_token_is_accepted_witness:
  "\<exists>p c'. handle_packet (offline_context\<lparr>cx_decrypt := \<lambda>_. []\<rparr>) fixed_moment (new_ZincServer []) p
     ((new_ZincConnection ''::1'')\<lparr>cn_state := Login\<rparr>) = Some (Inr (False, c', new_ZincServer [])) \<and> cn_isEncrypted c'"
proof -
  obtain p where "carries p 1 (prefixed_bytes [7] @ prefixed_bytes [7])" using carries_exists by blast
  from empty_token_is_accepted [OF _ _ _ _ this, of "(new_ZincConnection ''::1'')\<lparr>cn_state := Login\<rparr>"
      "offline_context\<lparr>cx_decrypt := \<lambda>_. []\<rparr>" fixed_moment "new_ZincServer []"]
  show ?thesis by (auto simp: new_ZincConnection_def new_ConnectionInfo_def offline_context_def)
qed

section \<open>Every state a client can be in\<close>

lemma step_new_client:
  assumes "server_step X s s'" and "sv_clients s fd = None" and "sv_clients s' fd = Some c'"
  shows "cn_state c' = Handshake"
  using assms(1)
proof cases
  case (Read mo fd')
  have "sv_clients s' fd = None \<and> (\<exists>d. sv_clients s' fd' = Some d) \<or> s' = s"
  proof (cases "sv_clients s fd'")
    case (Some c)
    then have "fd \<noteq> fd'" using assms(2) by auto
    let ?P = "\<lambda>t. sv_clients t fd = None"
    have "sv_clients s' fd = None \<or> fd = fd'"
      by (rule onRead_preserves [OF Read, where P = "\<lambda>t. sv_clients t fd = None \<or> fd = fd'"])
        (use assms(2) \<open>fd \<noteq> fd'\<close> in \<open>auto simp: packet_effect_def continue_after_def put_client_def split: option.splits\<close>)
    then show ?thesis using \<open>fd \<noteq> fd'\<close> assms(3) by auto
  qed (use Read in \<open>simp add: onRead.simps [of X mo fd' s]\<close>)
  then show ?thesis using assms(2,3) by auto
next
  case (Accept fd' now address)
  show ?thesis
  proof (cases "isConnected fd' s")
    case False
    obtain limiter kick n where "onAccept X now fd' address s = s\<lparr>sv_rateLimiterData := limiter, sv_concurrentAccounts := n,
        sv_clients := (sv_clients s)(fd' \<mapsto> (new_ZincConnection (ip_member address))\<lparr>cn_kickAtLogin := kick\<rparr>)\<rparr>"
      using addClient_run [OF False] unfolding onAccept_def by blast
    then show ?thesis using Accept assms(2,3) by (auto simp: new_ZincConnection_def split: if_splits)
  qed (use Accept assms(2,3) in \<open>simp add: onAccept_def addClient_def\<close>)
next
  case (Event fd' event)
  then show ?thesis using assms(2,3)
    by (cases event) (auto simp: onEvent_def removeClient_def Let_def split: option.splits if_splits)
qed (use assms(2,3) in \<open>auto simp: put_client_def split: if_splits\<close>)

lemma reachable_state: "reachable X s \<Longrightarrow> sv_clients s fd = Some c \<Longrightarrow> (Handshake, cn_state c) \<in> protocol\<^sup>*"
proof (induction arbitrary: c rule: reachable.induct)
  case (step s s')
  show ?case
  proof (cases "sv_clients s fd")
    case None
    then show ?thesis using step_new_client [OF step.hyps(2) None step.prems] by simp
  next
    case (Some d)
    then show ?thesis using step.IH [OF Some] step_protocol [OF step.hyps(2) Some step.prems] by (meson rtrancl_trans)
  qed
qed (simp add: new_ZincServer_def)

lemma protocol_named: "(Handshake, st) \<in> protocol\<^sup>* \<Longrightarrow> st \<in> {Handshake, Status, Login, Transfer, Config, Play}"
  by (induction rule: rtrancl_induct) (auto simp: protocol_def)

text \<open>C26: The members of a reachable client hold what their types mean to hold: the state is one of the six of the enumeration,
  although a handshake casts an arbitrary integer to it, the descriptor is a socket's, the login is marked as
  finished exactly in Config and Play, and no plugin channel is open.\<close>

theorem reachable_clients_typed:
  assumes "reachable X s" and "sv_clients s fd = Some c"
  shows "cn_state c \<in> {Handshake, Status, Login, Transfer, Config, Play} \<and> 0 \<le>s fd
    \<and> (cn_loginFinished c \<longleftrightarrow> cn_state c \<in> {Config, Play}) \<and> cn_openedLoginPluginChannels c = Map.empty"
  using protocol_named [OF reachable_state [OF assms]] server_ok_reachable [OF assms(1)] assms(2)
  by (auto simp: server_ok_def client_ok_def)

theorem reachable_clients_typed_witness:
  "\<forall>X. \<exists>c. sv_clients (onAccept X (\<lambda>_. 0) 3 ''::1'' (new_ZincServer [])) 3 = Some c \<and> cn_openedLoginPluginChannels c = Map.empty"
proof
  fix X
  let ?s = "onAccept X (\<lambda>_. 0) 3 ''::1'' (new_ZincServer [])"
  have r: "reachable X ?s" by (rule reachable.step [OF reachable.start [of X "[]"] server_step.Accept]) (simp add: word_sle_eq)
  obtain c where "sv_clients ?s 3 = Some c"
    by (auto simp: onAccept_def addClient_def isConnected_def new_ZincServer_def new_ZincConnection_def Let_def)
  with reachable_clients_typed [OF r this]
  show "\<exists>c. sv_clients ?s 3 = Some c \<and> cn_openedLoginPluginChannels c = Map.empty" by blast
qed


section \<open>A reachable state in Login\<close>

lemma login_reachable:
  "\<exists>s c. reachable X s \<and> sv_clients s 3 = Some c \<and> cn_state c = Login \<and> \<not> cn_isEncrypted c \<and> \<not> cn_isCompressed c
    \<and> cn_received c = []"
proof -
  let ?z = "env_zlib (cx_env X)"
  let ?s0 = "onAccept X (\<lambda>_. 0) 3 [] (new_ZincServer [])"
  let ?hand = "frame_bytes ?z 256 False 0 (handshake_bytes 770 [] 25565 2)" and ?more = "frame_bytes ?z 256 False 9 []"
  have r0: "reachable X ?s0" by (rule reachable.step [OF reachable.start [of X "[]"] server_step.Accept]) (simp add: word_sle_eq)
  obtain c0 where c0: "sv_clients ?s0 3 = Some c0" "cn_state c0 = Handshake" "\<not> cn_isEncrypted c0" "\<not> cn_isCompressed c0" "cn_received c0 = []"
    by (auto simp: onAccept_def addClient_def isConnected_def new_ZincServer_def new_ZincConnection_def Let_def)
  let ?c1 = "c0\<lparr>cn_received := cn_received c0 @ (?hand @ ?more)\<rparr>"
  let ?s1 = "put_client 3 ?c1 ?s0"
  have r1: "reachable X ?s1" by (rule reachable.step [OF r0 server_step.Receive [OF c0(1)]])
  have more: "?more \<noteq> []" using getVarNumericLength_pos [of "int_of_size (getVarNumericLength (9 :: i32))"]
    by (auto simp: frame_bytes_def Let_def size_bytes_def simp flip: length_greater_0_conv)
  let ?c2 = "\<lambda>i. ?c1\<lparr>cn_received := ?more, cn_info := i, cn_state := next_state 2, cn_shouldContinue := True\<rparr>"
  obtain i where first: "read_once X undefined 3 ?c1 ?s1 = Some (Inr (True, put_client 3 (?c2 i) ?s1))"
    by (rule handshake_round [of ?s1 3 ?c1 "[]" X 256 770 25565 2 ?more undefined]) (use c0 more in \<open>simp_all add: put_client_def\<close>)
  have st: "next_state 2 = Login" by (simp add: next_state_def state_of_byte_def)
  obtain p where p: "conn_read (env_evp (cx_env X)) ?z (?c2 i) = Inr (p, (?c2 i)\<lparr>cn_received := [], cn_shouldContinue := False\<rparr>)" "zp_id p = 9"
    by (rule read_plain_frame [of "?c2 i" "[]" _ 256 9 "[]"]) (use c0 in simp_all)
  let ?c3 = "(?c2 i)\<lparr>cn_received := [], cn_shouldContinue := True\<rparr>"
  let ?s3 = "put_client 3 ?c3 (put_client 3 (?c2 i) ?s1)"
  have "read_once X undefined 3 (?c2 i) (put_client 3 (?c2 i) ?s1) = Some (Inr (False, ?s3))"
    using p st by (simp add: read_once_def handle_packet_def handle_login_def breaks_def word_sless_alt)
  then have "onRead X (\<lambda>n. (\<lambda>_. undefined) (Suc n)) 3 (put_client 3 (?c2 i) ?s1) = Some (Inr ?s3)"
    by (intro onRead_last) (simp_all add: put_client_def)
  from onRead_again [where mo = "\<lambda>_. undefined", OF _ first this] have run: "onRead X (\<lambda>_. undefined) 3 ?s1 = Some (Inr (continue_after 3 ?s3))"
    by (simp add: put_client_def)
  have "reachable X (continue_after 3 ?s3)" by (rule reachable.step [OF r1 server_step.Read [OF run]])
  moreover have "sv_clients (continue_after 3 ?s3) 3 = Some ?c3" by (simp add: continue_after_def put_client_def)
  ultimately show ?thesis using c0 st by (intro exI [of _ "continue_after 3 ?s3"] exI [of _ ?c3]) simp
qed

theorem plugin_response_is_refused_witness:
  "\<forall>X. \<exists>mo s p c. zp_id p = 2 \<and> handle_packet X mo s p c = (case readArray readUnsignedByte 4 (zp_data p) of
      Inl e \<Rightarrow> Some (Inl e)
    | Inr (i, _) \<Rightarrow> breaks s (sendLoginError (cx_env X) ''Server received invalid login plugin channel id'' c))"
proof
  fix X :: Context
  obtain s c where s: "reachable X s" "sv_clients s 3 = Some c" "cn_state c = Login" "\<not> cn_isEncrypted c" "\<not> cn_isCompressed c"
    "cn_received c = []" using login_reachable by blast
  let ?c = "c\<lparr>cn_received := cn_received c @ frame_bytes (env_zlib (cx_env X)) 256 False 2 [0, 1, 2, 3]\<rparr>"
  let ?s = "put_client 3 ?c s"
  have r: "reachable X ?s" by (rule reachable.step [OF s(1) server_step.Receive [OF s(2)]])
  obtain p where p: "conn_read (env_evp (cx_env X)) (env_zlib (cx_env X)) ?c = Inr (p, ?c\<lparr>cn_received := [], cn_shouldContinue := False\<rparr>)"
    "zp_id p = 2" by (rule read_plain_frame [of ?c "[0, 1, 2, 3]" _ 256 2 "[]"]) (use s(4-6) in simp_all)
  have "sv_clients ?s 3 = Some ?c" "cn_state ?c = Login" using s(3) by (simp_all add: put_client_def)
  from plugin_response_is_refused [OF r this p, of undefined] p(2)
  show "\<exists>mo s p c. zp_id p = 2 \<and> handle_packet X mo s p c = (case readArray readUnsignedByte 4 (zp_data p) of
      Inl e \<Rightarrow> Some (Inl e)
    | Inr (i, _) \<Rightarrow> breaks s (sendLoginError (cx_env X) ''Server received invalid login plugin channel id'' c))" by blast
qed

theorem protocol_order_witness:
  "\<forall>X mo. \<exists>s s' c'. onRead X mo 3 s = Some (Inr s') \<and> sv_clients s' 3 = Some c' \<and> (Login, cn_state c') \<in> protocol\<^sup>*"
proof (intro allI)
  fix X :: Context and mo :: "nat \<Rightarrow> Moment"
  let ?c = "(new_ZincConnection ''::1'')\<lparr>cn_state := Login, cn_received := frame_bytes (env_zlib (cx_env X)) 256 False 3 []\<rparr>"
  let ?s = "put_client 3 ?c (new_ZincServer [])"
  obtain p where "conn_read (env_evp (cx_env X)) (env_zlib (cx_env X)) ?c = Inr (p, ?c\<lparr>cn_received := [], cn_shouldContinue := False\<rparr>)"
    "zp_id p = 3" by (rule read_plain_frame [of ?c "[]" _ 256 3 "[]"]) (simp_all add: new_ZincConnection_def)
  then have "\<exists>s'. read_once X (mo 0) 3 ?c ?s = Some (Inr (False, s')) \<and> (\<exists>c'. sv_clients s' 3 = Some c')"
    by (simp add: read_once_def handle_packet_def handle_login_def handle_login_ack_def setState_def word_sless_alt put_client_def)
  then obtain s' c' where s': "read_once X (mo 0) 3 ?c ?s = Some (Inr (False, s'))" "sv_clients s' 3 = Some c'" by blast
  have c: "sv_clients ?s 3 = Some ?c" by (simp add: put_client_def)
  have run: "onRead X mo 3 ?s = Some (Inr s')" by (rule onRead_last [where mo = mo, OF c s'(1)])
  from protocol_order [OF server_step.Read [OF run] c s'(2)]
  have "(Login, cn_state c') \<in> protocol\<^sup>*" by (simp add: new_ZincConnection_def)
  with run s'(2) show "\<exists>s s' c'. onRead X mo 3 s = Some (Inr s') \<and> sv_clients s' 3 = Some c' \<and> (Login, cn_state c') \<in> protocol\<^sup>*" by blast
qed

end
