(* ===== verification/Tcp_Connection.thy ===== *)
theory Tcp_Connection
  imports Server
begin

text \<open>
  Who owns a connection's \<open>bufferevent\<close> (\<open>inc/network/TCPConnection.h\<close>, \<open>src/network/TCPConnection.cpp\<close>). The objects that
  \<open>bufferevent_socket_new\<close> returns are numbered in the order of the calls; of libevent only the sequence of the calls
  of \<open>bufferevent_free\<close> is kept. Its manual says that the object is gone after the call.
\<close>

section \<open>TCPConnection\<close>

text \<open>\<open>m_addr\<close> is not initialised by the default constructor.\<close>

record TCPConnection =
  tc_bev :: "nat option"
  tc_fd :: i32
  tc_ip :: string
  tc_addr :: "string option"

definition new_TCPConnection :: TCPConnection where
  "new_TCPConnection = \<lparr>tc_bev = None, tc_fd = - 1, tc_ip = ''0.0.0.0'', tc_addr = None\<rparr>"

definition mk_TCPConnection :: "nat option \<Rightarrow> i32 \<Rightarrow> string \<Rightarrow> TCPConnection" where
  "mk_TCPConnection bev fd addr = \<lparr>tc_bev = bev, tc_fd = fd, tc_ip = ip_member addr, tc_addr = Some addr\<rparr>"

definition tc_setBuffer :: "nat option \<Rightarrow> TCPConnection \<Rightarrow> TCPConnection" where
  "tc_setBuffer bev c = c\<lparr>tc_bev := bev\<rparr>"

definition tc_setAddr :: "string \<Rightarrow> TCPConnection \<Rightarrow> TCPConnection" where
  "tc_setAddr addr c = c\<lparr>tc_addr := Some addr, tc_ip := ip_member addr\<rparr>"

definition tc_setFd :: "i32 \<Rightarrow> TCPConnection \<Rightarrow> TCPConnection" where
  "tc_setFd fd c = c\<lparr>tc_fd := fd\<rparr>"

definition tc_eq :: "TCPConnection \<Rightarrow> TCPConnection \<Rightarrow> bool" where
  "tc_eq c d \<longleftrightarrow> tc_fd c = tc_fd d"

text \<open>\<open>close\<close> leaves \<open>m_bev\<close> as it is, and the destructor closes. The argument is the calls of \<open>bufferevent_free\<close> so far.\<close>

definition tc_close :: "TCPConnection \<Rightarrow> nat list \<Rightarrow> nat list" where
  "tc_close c frees = (case tc_bev c of Some b \<Rightarrow> frees @ [b] | None \<Rightarrow> frees)"

definition tc_destroy :: "TCPConnection \<Rightarrow> nat list \<Rightarrow> nat list" where
  "tc_destroy c frees = tc_close c frees"

text \<open>The comparison of two connections: \<open>getTCPConnection\<close> of a \<open>const\<close> connection returns a copy, with the same \<open>m_bev\<close>, that is
  destroyed at the end of the expression.\<close>

definition copy_of :: "TCPConnection \<Rightarrow> TCPConnection" where
  "copy_of c = \<lparr>tc_bev = tc_bev c, tc_fd = tc_fd c, tc_ip = tc_ip c, tc_addr = tc_addr c\<rparr>"

definition connection_eq :: "TCPConnection \<Rightarrow> TCPConnection \<Rightarrow> nat list \<Rightarrow> bool \<times> nat list" where
  "connection_eq c d frees = (let copy = copy_of d in (tc_eq c copy, tc_destroy copy frees))"

definition connection_neq :: "TCPConnection \<Rightarrow> TCPConnection \<Rightarrow> nat list \<Rightarrow> bool \<times> nat list" where
  "connection_neq c d frees = (let copy = copy_of d in (\<not> tc_eq c copy, tc_destroy copy frees))"

section \<open>The connections of a server\<close>

record Lifetimes =
  lt_next :: nat
  lt_clients :: "i32 \<rightharpoonup> TCPConnection"
  lt_frees :: "nat list"

definition new_Lifetimes :: Lifetimes where
  "new_Lifetimes = \<lparr>lt_next = 0, lt_clients = Map.empty, lt_frees = []\<rparr>"

text \<open>\<open>bufferevent_socket_new\<close> may fail. A second connection for a descriptor of the table is dropped: its object has no owner.\<close>

definition lt_onAccept :: "bool \<Rightarrow> i32 \<Rightarrow> string \<Rightarrow> Lifetimes \<Rightarrow> Lifetimes" where
  "lt_onAccept created fd addr s = (if \<not> created then s
     else let b = lt_next s; s1 = s\<lparr>lt_next := b + 1\<rparr>;
              connection = tc_setBuffer (Some b) (tc_setFd fd (tc_setAddr addr new_TCPConnection))
          in if lt_clients s1 (tc_fd connection) = None
             then s1\<lparr>lt_clients := (lt_clients s1)(tc_fd connection \<mapsto> connection)\<rparr> else s1)"

definition lt_removeClient :: "i32 \<Rightarrow> Lifetimes \<Rightarrow> Lifetimes" where
  "lt_removeClient fd s = (case lt_clients s fd of
     None \<Rightarrow> s
   | Some c \<Rightarrow> s\<lparr>lt_frees := tc_destroy c (tc_close c (lt_frees s)), lt_clients := (lt_clients s)(fd := None)\<rparr>)"

definition lt_onEvent :: "i32 \<Rightarrow> Event \<Rightarrow> Lifetimes \<Rightarrow> Lifetimes" where
  "lt_onEvent fd event s = (case event of Event_Other \<Rightarrow> s | _ \<Rightarrow> lt_removeClient fd s)"

datatype callback = Accepted bool i32 string | Happened i32 Event

fun run_callback :: "callback \<Rightarrow> Lifetimes \<Rightarrow> Lifetimes" where
  "run_callback (Accepted created fd addr) s = lt_onAccept created fd addr s"
| "run_callback (Happened fd event) s = lt_onEvent fd event s"

section \<open>Every disconnect frees twice\<close>

lemmas lifetime_simps = lt_onAccept_def lt_removeClient_def lt_onEvent_def tc_close_def tc_destroy_def
  tc_setBuffer_def tc_setFd_def tc_setAddr_def new_TCPConnection_def Let_def

text \<open>The objects of the table are different and were never freed, and what was freed was freed exactly twice.\<close>

definition owned :: "Lifetimes \<Rightarrow> i32 \<rightharpoonup> nat" where
  "owned s fd = Option.bind (lt_clients s fd) tc_bev"

definition lifetimes_ok :: "Lifetimes \<Rightarrow> bool" where
  "lifetimes_ok s \<longleftrightarrow> dom (owned s) = dom (lt_clients s) \<and> inj_on (owned s) (dom (owned s))
   \<and> (\<forall>b \<in> ran (owned s). b < lt_next s \<and> b \<notin> set (lt_frees s))
   \<and> (\<forall>b \<in> set (lt_frees s). b < lt_next s \<and> count_list (lt_frees s) b = 2)"

lemma lifetimes_ok_new: "lifetimes_ok new_Lifetimes"
  by (simp add: lifetimes_ok_def new_Lifetimes_def owned_def [abs_def])

lemma accept_run:
  "lt_clients s fd \<noteq> None \<Longrightarrow> lt_onAccept True fd addr s = s\<lparr>lt_next := lt_next s + 1\<rparr>"
  "lt_clients s fd = None \<Longrightarrow> owned (lt_onAccept True fd addr s) = (owned s)(fd \<mapsto> lt_next s)
     \<and> dom (lt_clients (lt_onAccept True fd addr s)) = insert fd (dom (lt_clients s))
     \<and> lt_next (lt_onAccept True fd addr s) = lt_next s + 1 \<and> lt_frees (lt_onAccept True fd addr s) = lt_frees s"
  by (auto simp: lifetime_simps owned_def [abs_def])

lemma remove_run:
  assumes "owned s fd = Some b"
  shows "owned (lt_removeClient fd s) = (owned s)(fd := None)" and "lt_frees (lt_removeClient fd s) = lt_frees s @ [b, b]"
    and "lt_next (lt_removeClient fd s) = lt_next s" and "dom (lt_clients (lt_removeClient fd s)) = dom (lt_clients s) - {fd}"
  using assms by (auto simp: lifetime_simps owned_def [abs_def] bind_eq_Some_conv dom_def split: if_splits)

lemma lifetimes_ok_accept: "lifetimes_ok s \<Longrightarrow> lifetimes_ok (lt_onAccept created fd addr s)"
proof (cases "created \<and> lt_clients s fd = None")
  case True
  assume ok: "lifetimes_ok s"
  have run: "owned (lt_onAccept True fd addr s) = (owned s)(fd \<mapsto> lt_next s)"
    "dom (lt_clients (lt_onAccept True fd addr s)) = insert fd (dom (lt_clients s))"
    "lt_next (lt_onAccept True fd addr s) = lt_next s + 1" "lt_frees (lt_onAccept True fd addr s) = lt_frees s"
    using accept_run(2) True by simp_all
  have fresh: "fd \<notin> dom (owned s)" "Some (lt_next s) \<notin> owned s ` dom (owned s)" "lt_next s \<notin> set (lt_frees s)"
    using ok True by (auto simp: lifetimes_ok_def ran_def) (metis less_irrefl)+
  have "inj_on ((owned s)(fd \<mapsto> lt_next s)) (insert fd (dom (owned s)))"
    using ok fresh(1,2) unfolding lifetimes_ok_def inj_on_def by (metis fun_upd_apply image_eqI insert_iff)
  moreover have "ran ((owned s)(fd \<mapsto> lt_next s)) = insert (lt_next s) (ran (owned s))" using fresh(1) by (simp add: domIff)
  ultimately show ?thesis using ok True fresh(3) by (auto simp: lifetimes_ok_def run)
next
  case False
  then have "lt_onAccept created fd addr s = s \<or> lt_onAccept created fd addr s = s\<lparr>lt_next := lt_next s + 1\<rparr>"
    by (cases created) (simp_all add: accept_run(1), simp add: lt_onAccept_def)
  then show "lifetimes_ok s \<Longrightarrow> ?thesis" by (fastforce simp: lifetimes_ok_def owned_def [abs_def])
qed

lemma lifetimes_ok_remove: "lifetimes_ok s \<Longrightarrow> lifetimes_ok (lt_removeClient fd s)"
proof (cases "owned s fd")
  case None
  assume "lifetimes_ok s"
  with None have "lt_clients s fd = None" by (metis domIff lifetimes_ok_def)
  with \<open>lifetimes_ok s\<close> show ?thesis by (simp add: lt_removeClient_def)
next
  case (Some b)
  assume ok: "lifetimes_ok s"
  then have b: "b < lt_next s" "b \<notin> set (lt_frees s)" using Some by (auto simp: lifetimes_ok_def ran_def)
  have "b \<notin> ran ((owned s)(fd := None))" using ok Some by (auto simp: lifetimes_ok_def ran_def inj_on_def dom_def)
  moreover have "ran ((owned s)(fd := None)) \<subseteq> ran (owned s)" by (auto simp: ran_def)
  moreover have "inj_on ((owned s)(fd := None)) (dom (owned s) - {fd})" using ok by (auto simp: lifetimes_ok_def inj_on_def)
  moreover have "count_list (lt_frees s) b = 0" using b(2) by simp
  ultimately show ?thesis using ok b by (auto simp: lifetimes_ok_def remove_run [OF Some])
qed

lemma lifetimes_ok_callback: "lifetimes_ok s \<Longrightarrow> lifetimes_ok (run_callback c s)"
  by (cases c) (auto simp: lifetimes_ok_accept lifetimes_ok_remove lt_onEvent_def split: Event.split)

lemma lifetimes_ok_run: "lifetimes_ok (fold run_callback cs new_Lifetimes)"
proof -
  have "lifetimes_ok s \<Longrightarrow> lifetimes_ok (fold run_callback cs s)" for s
    by (induction cs arbitrary: s) (simp_all add: lifetimes_ok_callback)
  then show ?thesis by (simp add: lifetimes_ok_new)
qed

text \<open>C9: Every disconnect frees the buffers of the connection twice: in every state of the table, each connected client has an object that
  was not freed, an end of file, an error or a timeout calls \<open>bufferevent_free\<close> with it two times in a row (\<open>close\<close>, then the
  destructor), and every object that was ever freed was freed exactly twice.\<close>

theorem every_disconnect_frees_twice:
  assumes "s = fold run_callback cs new_Lifetimes" and "lt_clients s fd = Some c" and "event \<noteq> Event_Other"
  shows "(\<exists>b. tc_bev c = Some b \<and> b \<notin> set (lt_frees s) \<and> lt_frees (lt_onEvent fd event s) = lt_frees s @ [b, b])
    \<and> (\<forall>b \<in> set (lt_frees (lt_onEvent fd event s)). count_list (lt_frees (lt_onEvent fd event s)) b = 2)"
proof -
  have ok: "lifetimes_ok s" "lifetimes_ok (lt_onEvent fd event s)"
    using lifetimes_ok_run [of cs] lifetimes_ok_run [of "cs @ [Happened fd event]"] assms(1) by simp_all
  then obtain b where b: "owned s fd = Some b" using assms(2) by (metis domD domI lifetimes_ok_def)
  then have "tc_bev c = Some b" "b \<notin> set (lt_frees s)" using assms(2) ok(1) ranI [of "owned s" fd b] b by (simp_all add: owned_def lifetimes_ok_def)
  moreover have "lt_onEvent fd event s = lt_removeClient fd s" using assms(3) by (cases event) (simp_all add: lt_onEvent_def)
  ultimately show ?thesis using ok(2) remove_run(2) [OF b] by (simp add: lifetimes_ok_def)
qed

theorem every_disconnect_frees_twice_witness:
  "lt_frees (lt_onEvent 7 Event_EOF (fold run_callback [Accepted True 6 ''::1'', Accepted True 7 ''::1''] new_Lifetimes)) = [1, 1]"
proof -
  let ?s = "fold run_callback [Accepted True 6 ''::1'', Accepted True 7 ''::1''] new_Lifetimes"
  have c: "lt_clients ?s 7 = Some (mk_TCPConnection (Some 1) 7 ''::1'')" "lt_frees ?s = []"
    by (simp_all add: lifetime_simps new_Lifetimes_def mk_TCPConnection_def)
  from every_disconnect_frees_twice [OF refl c(1), of Event_EOF] c(2) show ?thesis by (simp add: mk_TCPConnection_def)
qed

text \<open>Comparing two connections frees the buffers of the second one, which stays connected.\<close>

lemma comparing_frees: "tc_bev d = Some b \<Longrightarrow> snd (connection_eq c d frees) = frees @ [b] \<and> snd (connection_neq c d frees) = frees @ [b]"
  by (simp add: connection_eq_def connection_neq_def copy_of_def tc_destroy_def tc_close_def Let_def)

text \<open>The table is that of the server: the same callbacks keep the two with the same descriptors.\<close>

fun server_callback :: "Context \<Rightarrow> (nat \<Rightarrow> i64) \<Rightarrow> callback \<Rightarrow> ZincServer \<Rightarrow> ZincServer" where
  "server_callback X now (Accepted created fd addr) s = (if created then onAccept X now fd addr s else s)"
| "server_callback X now (Happened fd event) s = onEvent fd event s"

lemma dom_onAccept: "dom (sv_clients (onAccept X now fd addr s)) = insert fd (dom (sv_clients s))"
  by (auto simp: onAccept_def addClient_def isConnected_def Let_def split: option.splits prod.splits)

lemma dom_onEvent: "dom (sv_clients (onEvent fd event s)) = dom (sv_clients s) - (if event = Event_Other then {} else {fd})"
  by (cases event) (auto simp: onEvent_def removeClient_def Let_def split: option.splits)

lemma same_descriptors:
  "dom (lt_clients l) = dom (sv_clients s) \<Longrightarrow> dom (lt_clients (run_callback c l)) = dom (sv_clients (server_callback X now c s))"
proof (cases c)
  case (Accepted created fd addr)
  then show "dom (lt_clients l) = dom (sv_clients s) \<Longrightarrow> ?thesis" by (auto simp: dom_onAccept lifetime_simps)
next
  case (Happened fd event)
  then show "dom (lt_clients l) = dom (sv_clients s) \<Longrightarrow> ?thesis"
    by (cases event) (auto simp: dom_onEvent lt_onEvent_def lt_removeClient_def split: option.splits)
qed

end
