(* ===== verification/SrvCtl.thy ===== *)
theory SrvCtl
  imports Connection
begin

text \<open>
  The control server (\<open>src/network/srvctl/SrvCtlServer.cpp\<close>, \<open>SrvCtlConnection.cpp\<close>, \<open>inc/network/srvctl/\<close>). A connection
  is its socket, its state and the two byte streams of its \<open>bufferevent\<close>; \<open>onRead\<close> is called when bytes have arrived. An
  exception leaves \<open>onRead\<close> through the C code of libevent and ends the process: it is the failure of the step.
\<close>

section \<open>Connections\<close>

datatype SrvCtlState = SC_Handshake | SC_Login | SC_Config | SC_Execution

record SrvCtlConnection =
  sc_fd :: nat
  sc_state :: SrvCtlState
  sc_received :: "byte list"
  sc_sent :: "byte list"

definition new_SrvCtlConnection :: "nat \<Rightarrow> SrvCtlConnection" where
  "new_SrvCtlConnection fd = \<lparr>sc_fd = fd, sc_state = SC_Handshake, sc_received = [], sc_sent = []\<rparr>"

definition sc_setState :: "SrvCtlState \<Rightarrow> SrvCtlConnection \<Rightarrow> SrvCtlConnection" where
  "sc_setState state c = c\<lparr>sc_state := state\<rparr>"

definition SrvCtlConnection_eq :: "SrvCtlConnection \<Rightarrow> SrvCtlConnection \<Rightarrow> bool" where
  "SrvCtlConnection_eq a b \<longleftrightarrow> sc_fd a = sc_fd b"

definition sc_read :: "SrvCtlConnection \<Rightarrow> zinc_error + ByteBuffer" where
  "sc_read c = map_sum id snd (writeBytes (sc_received c) (new_bb True))"

definition sc_drain :: "nat \<Rightarrow> SrvCtlConnection \<Rightarrow> SrvCtlConnection" where
  "sc_drain n c = c\<lparr>sc_received := drop n (sc_received c)\<rparr>"

definition sc_send :: "unit bb \<Rightarrow> SrvCtlConnection \<Rightarrow> zinc_error + SrvCtlConnection" where
  "sc_send w c = ebind (run_writer w) (\<lambda>bytes. Inr (c\<lparr>sc_sent := sc_sent c @ bytes\<rparr>))"

section \<open>Reading\<close>

text \<open>A reply: the length, the packet number \<open>-1\<close> and the state.\<close>

definition sc_reply :: "byte \<Rightarrow> unit bb" where
  "sc_reply state = thn (writeNumeric (of_nat (1 + getVarNumericLength (- 1 :: i32)) :: i64))
     (thn (writeVarNumeric (- 1 :: i32)) (writeByte state))"

definition sc_packet :: "i32 \<Rightarrow> SrvCtlConnection \<Rightarrow> zinc_error + SrvCtlConnection" where
  "sc_packet packetId c = (case sc_state c of
     SC_Handshake \<Rightarrow> sc_send (sc_reply 1) (sc_setState SC_Login c)
   | SC_Login \<Rightarrow> if packetId = 0 then Inr c else sc_send (sc_reply (- 1)) c
   | _ \<Rightarrow> sc_send (sc_reply (- 2)) c)"

text \<open>\<open>length + 8\<close> is computed in 64 bits.\<close>

definition sc_onRead :: "SrvCtlConnection \<Rightarrow> zinc_error + SrvCtlConnection" where
  "sc_onRead c = ebind (sc_read c) (\<lambda>buffer.
     if bb_size buffer < 9 then sc_send (sc_reply (- 1)) (sc_drain (bb_size buffer) c)
     else ebind (readNumeric buffer) (\<lambda>(len :: i64, buffer1).
       if bb_size buffer1 < unat (len + 8) then sc_send (sc_reply (- 1)) (sc_drain (bb_size buffer1) c)
       else ebind (readVarInt buffer1) (\<lambda>(packetId, _). sc_packet packetId (sc_drain (unat (8 + len)) c))))"

section \<open>The table of clients\<close>

record SrvCtlServer =
  sc_started :: bool
  sc_port :: i32
  sc_clients :: "nat \<rightharpoonup> SrvCtlConnection"

definition new_SrvCtlServer :: SrvCtlServer where
  "new_SrvCtlServer = \<lparr>sc_started = False, sc_port = 25575, sc_clients = Map.empty\<rparr>"

definition sc_isConnected :: "nat \<Rightarrow> SrvCtlServer \<Rightarrow> bool" where
  "sc_isConnected fd s \<longleftrightarrow> sc_clients s fd \<noteq> None"

definition sc_addClient :: "SrvCtlConnection \<Rightarrow> SrvCtlServer \<Rightarrow> SrvCtlServer" where
  "sc_addClient c s = (if \<not> sc_isConnected (sc_fd c) s then s\<lparr>sc_clients := (sc_clients s)(sc_fd c \<mapsto> c)\<rparr> else s)"

definition sc_removeClient :: "nat \<Rightarrow> SrvCtlServer \<Rightarrow> SrvCtlServer" where
  "sc_removeClient fd s = (if sc_isConnected fd s then s\<lparr>sc_clients := (sc_clients s)(fd := None)\<rparr> else s)"

definition sc_onAccept :: "nat \<Rightarrow> SrvCtlServer \<Rightarrow> SrvCtlServer" where
  "sc_onAccept fd s = sc_addClient (new_SrvCtlConnection fd) s"

text \<open>The events that libevent reports, in the order \<open>onEvent\<close> tests them; an event with none of the three flags is ignored.\<close>

definition sc_onEvent :: "bool \<Rightarrow> bool \<Rightarrow> bool \<Rightarrow> nat \<Rightarrow> SrvCtlServer \<Rightarrow> SrvCtlServer" where
  "sc_onEvent eof err timeout fd s =
     (if \<not> sc_isConnected fd s then s
      else if eof then sc_removeClient fd s
      else if err then sc_removeClient fd s
      else if timeout then sc_removeClient fd s else s)"

text \<open>Bytes arrive at a socket, and \<open>onRead\<close> runs.\<close>

definition sc_deliver :: "nat \<Rightarrow> byte list \<Rightarrow> SrvCtlServer \<Rightarrow> zinc_error + SrvCtlServer" where
  "sc_deliver fd bytes s = (case sc_clients s fd of
     None \<Rightarrow> Inr s
   | Some c \<Rightarrow> ebind (sc_onRead (c\<lparr>sc_received := sc_received c @ bytes\<rparr>)) (\<lambda>c'. Inr (s\<lparr>sc_clients := (sc_clients s)(fd \<mapsto> c')\<rparr>)))"

inductive sc_step :: "SrvCtlServer \<Rightarrow> SrvCtlServer \<Rightarrow> bool" where
  step_accept: "sc_step s (sc_onAccept fd s)"
| step_event: "sc_step s (sc_onEvent eof err timeout fd s)"
| step_deliver: "sc_deliver fd bytes s = Inr s' \<Longrightarrow> sc_step s s'"

inductive sc_reachable :: "SrvCtlServer \<Rightarrow> bool" where
  reach_init: "sc_reachable new_SrvCtlServer"
| reach_step: "sc_reachable s \<Longrightarrow> sc_step s s' \<Longrightarrow> sc_reachable s'"

section \<open>What the server can do\<close>

definition reply_bytes :: "byte \<Rightarrow> byte list" where
  "reply_bytes state = [0, 0, 0, 0, 0, 0, 0, 6, 0xFF, 0xFF, 0xFF, 0xFF, 0x0F, state]"

lemma minus_one_bytes: "var_bytes (- 1 :: i32) = [0xFF, 0xFF, 0xFF, 0xFF, 0x0F]"
  by code_simp

lemma six_bytes: "numeric_bytes True (6 :: i64) = [0, 0, 0, 0, 0, 0, 0, 6]"
  by code_simp

lemma minus_one_length: "getVarNumericLength (- 1 :: i32) = 5"
  by code_simp

lemma run_sc_reply: "run_writer (sc_reply st) = Inr (reply_bytes st)"
proof -
  have "appends True (sc_reply st) (numeric_bytes True (6 :: i64) @ var_bytes (- 1 :: i32) @ [st])"
    unfolding sc_reply_def minus_one_length by (simp add: appends_thn appends_writeVarNumeric appends_writeByte appends_writeNumeric)
  then show ?thesis by (simp add: run_writer_appends minus_one_bytes six_bytes reply_bytes_def)
qed

lemma sc_send_reply [simp]: "sc_send (sc_reply st) c = Inr (c\<lparr>sc_sent := sc_sent c @ reply_bytes st\<rparr>)"
  by (simp add: sc_send_def run_sc_reply ebind_def)

text \<open>A connection as the invariant describes it: the socket it was accepted on, and the replies sent so far.\<close>

definition replied :: "byte list \<Rightarrow> SrvCtlConnection \<Rightarrow> bool" where
  "replied states c \<longleftrightarrow> sc_sent c = concat (map reply_bytes states) \<and> set states \<subseteq> {1, - 1}
     \<and> sc_state c = (if 1 \<in> set states then SC_Login else SC_Handshake) \<and> count_list states 1 \<le> 1"

lemma replied_error: "replied states c \<Longrightarrow> replied (states @ [- 1]) (c\<lparr>sc_sent := sc_sent c @ reply_bytes (- 1)\<rparr>)"
  by (simp add: replied_def)

lemma replied_drain [simp]: "replied states (sc_drain n c) = replied states c" "replied states (c\<lparr>sc_received := r\<rparr>) = replied states c"
  by (simp_all add: replied_def sc_drain_def)

lemma sc_packet_replied:
  assumes "replied states c" and "sc_packet i c = Inr c'"
  shows "\<exists>states'. replied states' c' \<and> sc_fd c' = sc_fd c"
proof (cases "1 \<in> set states")
  case True
  then have s: "sc_state c = SC_Login" using assms(1) by (simp add: replied_def)
  show ?thesis
  proof (cases "i = 0")
    case True
    with s assms show ?thesis by (auto simp: sc_packet_def)
  next
    case False
    with s assms(2) have "c' = c\<lparr>sc_sent := sc_sent c @ reply_bytes (- 1)\<rparr>"
      by (simp add: sc_packet_def)
    with replied_error [OF assms(1)] show ?thesis by auto
  qed
next
  case False
  then have "c' = c\<lparr>sc_state := SC_Login, sc_sent := sc_sent c @ reply_bytes 1\<rparr>"
    using assms by (simp add: sc_packet_def replied_def sc_setState_def)
  then have "replied (states @ [1]) c'" "sc_fd c' = sc_fd c"
    using assms(1) False by (simp_all add: replied_def count_list_0_iff)
  then show ?thesis by blast
qed

lemma sc_onRead_replied:
  assumes "replied states c" and "sc_onRead c = Inr c'"
  shows "\<exists>states'. replied states' c' \<and> sc_fd c' = sc_fd c"
proof -
  have err: "replied (states @ [- 1]) ((sc_drain n c)\<lparr>sc_sent := sc_sent (sc_drain n c) @ reply_bytes (- 1)\<rparr>)" for n
    by (rule replied_error) (simp add: assms(1))
  from assms(2) consider n where "c' = (sc_drain n c)\<lparr>sc_sent := sc_sent (sc_drain n c) @ reply_bytes (- 1)\<rparr>"
    | n i where "sc_packet i (sc_drain n c) = Inr c'"
    unfolding sc_onRead_def by (auto simp: ebind_eq_Inr split: if_splits)
  then show ?thesis
  proof cases
    case (1 n)
    with err [of n] show ?thesis by (auto simp: sc_drain_def)
  next
    case (2 n i)
    from sc_packet_replied [OF _ 2, of states] assms(1) show ?thesis by (simp add: sc_drain_def)
  qed
qed

definition sc_ok :: "SrvCtlServer \<Rightarrow> bool" where
  "sc_ok s \<longleftrightarrow> (\<forall>fd c. sc_clients s fd = Some c \<longrightarrow> sc_fd c = fd \<and> (\<exists>states. replied states c))"

lemma sc_ok_step: "sc_step s s' \<Longrightarrow> sc_ok s \<Longrightarrow> sc_ok s'"
proof (induction rule: sc_step.induct)
  case (step_accept s fd)
  have "replied [] (new_SrvCtlConnection fd)" by (simp add: replied_def new_SrvCtlConnection_def)
  with step_accept show ?case by (auto simp: sc_ok_def sc_onAccept_def sc_addClient_def new_SrvCtlConnection_def)
next
  case (step_event s eof err timeout fd)
  then show ?case by (auto simp: sc_ok_def sc_onEvent_def sc_removeClient_def split: if_splits)
next
  case (step_deliver fd bytes s s')
  show ?case
  proof (cases "sc_clients s fd")
    case None
    with step_deliver show ?thesis by (simp add: sc_deliver_def)
  next
    case (Some c)
    let ?c = "c\<lparr>sc_received := sc_received c @ bytes\<rparr>"
    obtain c' where c': "sc_onRead ?c = Inr c'" "s' = s\<lparr>sc_clients := (sc_clients s)(fd \<mapsto> c')\<rparr>"
      using step_deliver(1) Some by (auto simp: sc_deliver_def ebind_eq_Inr)
    obtain states where "replied states ?c" "sc_fd c = fd" using step_deliver(2) Some by (auto simp: sc_ok_def)
    from sc_onRead_replied [OF this(1) c'(1)] this(2) obtain states' where "replied states' c'" "sc_fd c' = fd" by auto
    with step_deliver(2) c'(2) show ?thesis by (auto simp: sc_ok_def)
  qed
qed

lemma sc_ok_reachable: "sc_reachable s \<Longrightarrow> sc_ok s"
proof (induction rule: sc_reachable.induct)
  case reach_init
  show ?case by (simp add: sc_ok_def new_SrvCtlServer_def)
next
  case (reach_step s s')
  then show ?case by (blast intro: sc_ok_step)
qed

text \<open>C20: The control server executes nothing: whatever clients send, in any order and in any pieces, no connection of a
  reachable server gets beyond the state \<open>Login\<close>, so the states \<open>Config\<close> and \<open>Execution\<close> and the reply \<open>-2\<close> are dead
  code. What a connection has been sent is a sequence of replies \<open>1\<close> and \<open>-1\<close>, and it is in \<open>Login\<close> exactly when
  the one reply \<open>1\<close> is among them.\<close>

theorem srvctl_never_executes:
  assumes "sc_reachable s" and "sc_clients s fd = Some c"
  shows "\<exists>states. sc_sent c = concat (map reply_bytes states) \<and> set states \<subseteq> {1, - 1} \<and> count_list states 1 \<le> 1
    \<and> sc_state c = (if 1 \<in> set states then SC_Login else SC_Handshake) \<and> sc_fd c = fd"
  using sc_ok_reachable [OF assms(1)] assms(2) by (force simp: sc_ok_def replied_def)

text \<open>A frame: the length, the packet id and what follows it.\<close>

definition sc_frame :: "i32 \<Rightarrow> byte list \<Rightarrow> byte list" where
  "sc_frame i payload = numeric_bytes True (of_nat (length (var_bytes i @ payload)) :: i64) @ var_bytes i @ payload"

lemma sc_onRead_short:
  assumes "length (sc_received c) < 9"
  shows "sc_onRead c = Inr (c\<lparr>sc_received := [], sc_sent := sc_sent c @ reply_bytes (- 1)\<rparr>)"
proof -
  obtain b where "writeBytes (sc_received c) (new_bb True) = Inr ((), b)" "bb_size b = length (sc_received c)"
    by (rule fresh_buffer)
  with assms show ?thesis by (simp add: sc_onRead_def sc_read_def ebind_def sc_drain_def)
qed

lemma keeps_readNumeric: "keeps_size readNumeric"
proof -
  have "keeps_size (gets m_isBigEndian)" by (simp add: keeps_size_def gets_def)
  then show ?thesis unfolding readNumeric_def by (intro keeps_bnd keeps_readBytes keeps_ret)
qed

lemma unat_plus_8: "n < 2 ^ 63 \<Longrightarrow> unat (of_nat n + 8 :: i64) = n + 8"
  by (simp add: unat_word_ariths unat_of_nat take_bit_nat_eq_self)

lemma sc_onRead_frame:
  assumes "sc_received c = sc_frame i payload @ rest" and "length (sc_received c) < 2 ^ 63"
  shows "sc_onRead c = sc_packet i (c\<lparr>sc_received := rest\<rparr>)"
proof -
  define n where "n = length (var_bytes i @ payload)"
  obtain b where b: "writeBytes (sc_received c) (new_bb True) = Inr ((), b)" "bb_wf b" "input_ok b" "m_isBigEndian b"
    "bb_unread b = sc_received c" "bb_size b = length (sc_received c)" by (rule fresh_buffer) blast
  have rec: "bb_unread b = numeric_bytes True (of_nat n :: i64) @ var_bytes i @ payload @ rest"
    unfolding b(5) assms(1) sc_frame_def n_def by (simp only: append_assoc)
  have len: "length (sc_received c) = 8 + n + length rest" using assms(1) by (simp add: sc_frame_def n_def)
  have n: "n < 2 ^ 63" "0 < n" using assms(2) len by (simp_all add: n_def getVarNumericLength_pos)
  obtain b1 where b1: "readNumeric b = Inr (of_nat n :: i64, b1)" "bb_wf b1" "m_isBigEndian b1" "bb_unread b1 = var_bytes i @ payload @ rest"
    by (rule readsE [OF reads_readNumeric_64 b(2), of True "of_nat n" "var_bytes i @ payload @ rest"]) (use b(4) rec in \<open>simp_all\<close>)
  have size: "bb_size b1 = length (sc_received c)" using keeps_sizeD [OF keeps_readNumeric b(3) b1(1)] b(6) by simp
  obtain b2 where b2: "readVarInt b1 = Inr (i, b2)"
    by (rule readsE [OF reads_readVarNumeric b1(2), of True i "payload @ rest"]) (use b1 in auto)
  have u: "unat (of_nat n + 8 :: i64) = n + 8" "unat (8 + of_nat n :: i64) = n + 8"
    using unat_plus_8 [OF n(1)] by (simp_all add: add.commute)
  have "drop (n + 8) (sc_received c) = rest" unfolding assms(1) by (simp add: sc_frame_def n_def)
  then show ?thesis using b b1 b2 size u len n
    by (simp add: sc_onRead_def sc_read_def ebind_def sc_drain_def)
qed


text \<open>C33: A frame is handled when it arrives in one piece, and lost when its first bytes come alone: the frame \<open>i\<close> on a
  fresh connection brings it to \<open>Login\<close> and leaves what follows in the socket buffer; when at most eight bytes of it come
  first, they are answered with \<open>-1\<close> and discarded, the connection stays as it was, and the rest of the frame, when it
  comes, is read from its middle as if it were a frame.\<close>

theorem srvctl_fragments_are_lost:
  assumes "sc_state c = SC_Handshake" and "sc_received c = []" and "length (sc_frame i payload) < 2 ^ 62" and "length rest < 2 ^ 62" and "k < 9"
  shows "sc_onRead (c\<lparr>sc_received := sc_frame i payload @ rest\<rparr>)
      = Inr (c\<lparr>sc_received := rest, sc_state := SC_Login, sc_sent := sc_sent c @ reply_bytes 1\<rparr>)
    \<and> sc_onRead (c\<lparr>sc_received := take k (sc_frame i payload)\<rparr>) = Inr (c\<lparr>sc_sent := sc_sent c @ reply_bytes (- 1)\<rparr>)"
proof
  have "sc_onRead (c\<lparr>sc_received := sc_frame i payload @ rest\<rparr>) = sc_packet i (c\<lparr>sc_received := rest\<rparr>)"
    using sc_onRead_frame [of "c\<lparr>sc_received := sc_frame i payload @ rest\<rparr>" i payload rest] assms(3,4) by simp
  then show "sc_onRead (c\<lparr>sc_received := sc_frame i payload @ rest\<rparr>)
      = Inr (c\<lparr>sc_received := rest, sc_state := SC_Login, sc_sent := sc_sent c @ reply_bytes 1\<rparr>)"
    using assms(1) by (simp add: sc_packet_def sc_setState_def)
  show "sc_onRead (c\<lparr>sc_received := take k (sc_frame i payload)\<rparr>) = Inr (c\<lparr>sc_sent := sc_sent c @ reply_bytes (- 1)\<rparr>)"
    using sc_onRead_short [of "c\<lparr>sc_received := take k (sc_frame i payload)\<rparr>"] assms(2,5) by simp
qed

text \<open>A length from \<open>2 ^ 64 - 8\<close> on makes \<open>length + 8\<close> wrap around: the frame passes the test whatever has arrived, and the
  bytes drained are not those of the frame. With \<open>2 ^ 64 - 8\<close> none are, and the same bytes are the next frame again.\<close>

lemma srvctl_length_wraps:
  assumes "sc_received c = numeric_bytes True (- 8 :: i64) @ var_bytes i @ rest"
  shows "sc_onRead c = sc_packet i c"
proof -
  obtain b where b: "writeBytes (sc_received c) (new_bb True) = Inr ((), b)" "bb_wf b" "input_ok b" "m_isBigEndian b"
    "bb_unread b = sc_received c" "bb_size b = length (sc_received c)" by (rule fresh_buffer) blast
  have len: "9 \<le> length (sc_received c)" using assms getVarNumericLength_pos [of i] by simp
  obtain b1 where b1: "readNumeric b = Inr (- 8 :: i64, b1)" "bb_wf b1" "m_isBigEndian b1" "bb_unread b1 = var_bytes i @ rest"
    by (rule readsE [OF reads_readNumeric_64 b(2), of True "- 8" "var_bytes i @ rest"]) (use b(4,5) assms in simp_all)
  obtain b2 where b2: "readVarInt b1 = Inr (i, b2)"
    by (rule readsE [OF reads_readVarNumeric b1(2), of True i rest]) (use b1 in auto)
  show ?thesis using b b1 b2 len by (simp add: sc_onRead_def sc_read_def ebind_def sc_drain_def)
qed

theorem srvctl_never_executes_witness:
  "\<exists>states. sc_sent (new_SrvCtlConnection 4) = concat (map reply_bytes states) \<and> set states \<subseteq> {1, - 1} \<and> count_list states 1 \<le> 1
    \<and> sc_state (new_SrvCtlConnection 4) = (if 1 \<in> set states then SC_Login else SC_Handshake) \<and> sc_fd (new_SrvCtlConnection 4) = 4"
proof -
  have "sc_reachable (sc_onAccept 4 new_SrvCtlServer)" by (intro reach_step [OF reach_init] step_accept)
  moreover have "sc_clients (sc_onAccept 4 new_SrvCtlServer) 4 = Some (new_SrvCtlConnection 4)"
    by (simp add: sc_onAccept_def sc_addClient_def sc_isConnected_def new_SrvCtlServer_def new_SrvCtlConnection_def)
  ultimately show ?thesis by (rule srvctl_never_executes)
qed

theorem srvctl_fragments_are_lost_witness:
  "sc_onRead ((new_SrvCtlConnection 4)\<lparr>sc_received := take 8 (sc_frame 0 [7])\<rparr>)
    = Inr ((new_SrvCtlConnection 4)\<lparr>sc_sent := sc_sent (new_SrvCtlConnection 4) @ reply_bytes (- 1)\<rparr>)"
proof -
  have "length (sc_frame 0 [7]) < 2 ^ 62" using getVarNumericLength_32 [of 0] by (simp add: sc_frame_def)
  then show ?thesis
    using srvctl_fragments_are_lost [of "new_SrvCtlConnection 4" 0 "[7]" "[]" 8] by (simp add: new_SrvCtlConnection_def)
qed

end
