(* ===== verification/Messenger.thy ===== *)
theory Messenger
  imports Byte_Buffer "HOL-Library.RBT" "HOL-Library.List_Lexorder"
begin

text \<open>
  The message exchange between the server and its plugins (\<open>src/loader/ZincMessengerBridge.cpp\<close>,
  \<open>ZincServerMessenger.cpp\<close>). The two nested \<open>std::map\<close>s are red-black trees over the lexicographic order of byte
  vectors, as in the library. Each operation holds the mutex, so operations are atomic; what one
  of the threads of \<open>ZincServerMessenger\<close> does is here, the loop that starts them is in Messenger\_Loop.
\<close>

section \<open>The bridge\<close>

type_synonym target_id = "byte list"
type_synonym message = "byte list"

record MessengerBridge =
  m_targets :: "(target_id, (target_id, message list) rbt) rbt"
  m_serverMessengerId :: target_id

definition new_MessengerBridge :: MessengerBridge where
  "new_MessengerBridge = \<lparr>m_targets = RBT.empty, m_serverMessengerId = []\<rparr>"

text \<open>\<open>init\<close> draws the identifier of the server once; it also hands it to the server's messenger.\<close>

definition bridge_init :: "byte list \<Rightarrow> MessengerBridge \<Rightarrow> MessengerBridge" where
  "bridge_init random b = (if m_serverMessengerId b = [] then b\<lparr>m_serverMessengerId := random\<rparr> else b)"

definition messenger_init :: "target_id \<Rightarrow> target_id \<Rightarrow> target_id" where
  "messenger_init i own = (if own = [] then i else own)"

definition isRegistered :: "target_id \<Rightarrow> MessengerBridge \<Rightarrow> bool" where
  "isRegistered i b \<longleftrightarrow> RBT.lookup (m_targets b) i \<noteq> None"

definition bridge_send :: "target_id \<Rightarrow> target_id \<Rightarrow> message \<Rightarrow> MessengerBridge \<Rightarrow> MessengerBridge" where
  "bridge_send recvId senderId data b = (case RBT.lookup (m_targets b) recvId of
     None \<Rightarrow> b
   | Some box \<Rightarrow> b\<lparr>m_targets := RBT.insert recvId
       (case RBT.lookup box senderId of
          Some messages \<Rightarrow> RBT.insert senderId (messages @ [data]) box
        | None \<Rightarrow> RBT.insert senderId [data] box) (m_targets b)\<rparr>)"

definition senderAmount :: "target_id \<Rightarrow> MessengerBridge \<Rightarrow> nat" where
  "senderAmount recvId b = (case RBT.lookup (m_targets b) recvId of None \<Rightarrow> 0 | Some box \<Rightarrow> length (RBT.keys box))"

definition canRead :: "target_id \<Rightarrow> target_id \<Rightarrow> MessengerBridge \<Rightarrow> bool" where
  "canRead recvId senderId b \<longleftrightarrow> senderAmount recvId b \<noteq> 0
     \<and> (case RBT.lookup (m_targets b) recvId of None \<Rightarrow> False | Some box \<Rightarrow> RBT.lookup box senderId \<noteq> None)"

definition getSenders :: "target_id \<Rightarrow> MessengerBridge \<Rightarrow> target_id list" where
  "getSenders recvId b = (if senderAmount recvId b \<noteq> 0
     then (case RBT.lookup (m_targets b) recvId of None \<Rightarrow> [] | Some box \<Rightarrow> RBT.keys box) else [])"

definition bridge_read :: "target_id \<Rightarrow> target_id \<Rightarrow> MessengerBridge \<Rightarrow> message list \<times> MessengerBridge" where
  "bridge_read recvId senderId b = (if canRead recvId senderId b
     then (case RBT.lookup (m_targets b) recvId of
             None \<Rightarrow> ([], b)
           | Some box \<Rightarrow> (case RBT.lookup box senderId of
               None \<Rightarrow> ([], b)
             | Some messages \<Rightarrow> (messages, b\<lparr>m_targets := RBT.insert recvId (RBT.insert senderId [] box) (m_targets b)\<rparr>)))
     else ([], b))"

definition registerTarget :: "target_id \<Rightarrow> MessengerBridge \<Rightarrow> MessengerBridge" where
  "registerTarget i b = (if \<not> isRegistered i b then b\<lparr>m_targets := RBT.insert i RBT.empty (m_targets b)\<rparr> else b)"

definition unregisterTarget :: "target_id \<Rightarrow> MessengerBridge \<Rightarrow> MessengerBridge" where
  "unregisterTarget i b = (if isRegistered i b then b\<lparr>m_targets := RBT.delete i (m_targets b)\<rparr> else b)"

definition sendToServerTarget :: "target_id \<Rightarrow> message \<Rightarrow> MessengerBridge \<Rightarrow> MessengerBridge" where
  "sendToServerTarget senderId data b = bridge_send (m_serverMessengerId b) senderId data b"

definition canReadFromServerTarget :: "target_id \<Rightarrow> MessengerBridge \<Rightarrow> bool" where
  "canReadFromServerTarget recvId b = canRead recvId (m_serverMessengerId b) b"

definition readFromServerTarget :: "target_id \<Rightarrow> MessengerBridge \<Rightarrow> message list \<times> MessengerBridge" where
  "readFromServerTarget recvId b = bridge_read recvId (m_serverMessengerId b) b"

section \<open>The server's messenger\<close>

text \<open>The reply to one message; a message that cannot be read throws in its thread.\<close>

definition read_callback :: "byte list bb" where
  "read_callback = bnd readByte (\<lambda>c. let hasCallbackId = c \<noteq> 0 in if hasCallbackId then readPrefixedArray readUnsignedByte else ret [])"

definition write_callback :: "byte list \<Rightarrow> unit bb" where
  "write_callback callbackId = thn (writeByte (of_nat (length callbackId)))
     (if callbackId \<noteq> [] then writePrefixedArray writeUnsignedByte callbackId else ret ())"

definition reply_body :: "string \<Rightarrow> (unit bb) bb" where
  "reply_body type =
     (if type = ''value'' then bnd readString (\<lambda>_. ret (ret ()))
      else if type = ''call'' then bnd readString (\<lambda>operation. ret
        (if operation = ''base.test'' then thn (writeString ''value'') (thn (writeString ''bool'') (writeByte 1)) else ret ()))
      else ret (thn (writeString ''value'') (thn (writeString ''error'')
        (thn (writeString ''wrong_packet'') (writeString ''Unknown SDK packet type'')))))"

definition message_reply :: "message \<Rightarrow> zinc_error + byte list" where
  "message_reply message = ebind (bnd (writeArray writeUnsignedByte message) (\<lambda>_.
       bnd read_callback (\<lambda>callbackId. bnd readString (\<lambda>type. bnd (reply_body type) (\<lambda>body.
         ret (thn (write_callback callbackId) body))))) (new_bb True))
     (\<lambda>(reply, _). run_writer reply)"

definition parseMessage :: "target_id \<Rightarrow> target_id \<Rightarrow> message \<Rightarrow> MessengerBridge \<Rightarrow> zinc_error + MessengerBridge" where
  "parseMessage own sender message b = ebind (message_reply message) (\<lambda>reply.
     Inr (if reply \<noteq> [] then bridge_send sender own reply b else b))"

section \<open>The contract of a mailbox\<close>

text \<open>
  What the two ends rely on: a message put for a registered receiver is appended to the queue of its sender,
  \<open>take_all\<close> hands a queue over and empties it, and neither touches another queue.
\<close>

locale mailboxes =
  fixes queue :: "'b \<Rightarrow> 'i \<Rightarrow> 'i \<Rightarrow> 'm list" and is_target :: "'b \<Rightarrow> 'i \<Rightarrow> bool"
    and put :: "'i \<Rightarrow> 'i \<Rightarrow> 'm \<Rightarrow> 'b \<Rightarrow> 'b" and take_all :: "'i \<Rightarrow> 'i \<Rightarrow> 'b \<Rightarrow> 'm list \<times> 'b"
  assumes is_target_put: "is_target (put r s d b) x = is_target b x"
    and queue_put: "queue (put r s d b) x y = (if is_target b r \<and> x = r \<and> y = s then queue b x y @ [d] else queue b x y)"
    and take_all_queue: "fst (take_all r s b) = queue b r s"
    and is_target_take: "is_target (snd (take_all r s b)) x = is_target b x"
    and queue_take: "queue (snd (take_all r s b)) x y = (if x = r \<and> y = s then [] else queue b x y)"

locale mailbox_registry = mailboxes +
  fixes add :: "'i \<Rightarrow> 'b \<Rightarrow> 'b" and del :: "'i \<Rightarrow> 'b \<Rightarrow> 'b"
  assumes is_target_add: "is_target (add r b) x = (is_target b x \<or> x = r)"
    and queue_add: "queue (add r b) x y = queue b x y"
    and is_target_del: "is_target (del r b) x = (is_target b x \<and> x \<noteq> r)"
    and queue_del: "queue (del r b) x y = (if x = r then [] else queue b x y)"

datatype ('i, 'm) mail_op = Put 'i 'i 'm | Take 'i 'i | Add 'i | Del 'i


fun run_mail :: "('i \<Rightarrow> 'i \<Rightarrow> 'm \<Rightarrow> 'b \<Rightarrow> 'b) \<Rightarrow> ('i \<Rightarrow> 'i \<Rightarrow> 'b \<Rightarrow> 'm list \<times> 'b) \<Rightarrow> ('i \<Rightarrow> 'b \<Rightarrow> 'b) \<Rightarrow> ('i \<Rightarrow> 'b \<Rightarrow> 'b)
    \<Rightarrow> ('i, 'm) mail_op list \<Rightarrow> 'b \<Rightarrow> ('i \<times> 'i \<times> 'm list) list \<times> 'b" where
  "run_mail put take_all add del [] b = ([], b)"
| "run_mail put take_all add del (Put r s d # ops) b = run_mail put take_all add del ops (put r s d b)"
| "run_mail put take_all add del (Take r s # ops) b = (let (ms, b1) = take_all r s b; (outs, b2) = run_mail put take_all add del ops b1
     in ((r, s, ms) # outs, b2))"
| "run_mail put take_all add del (Add r # ops) b = run_mail put take_all add del ops (add r b)"
| "run_mail put take_all add del (Del r # ops) b = run_mail put take_all add del ops (del r b)"

definition received :: "'i \<Rightarrow> 'i \<Rightarrow> ('i \<times> 'i \<times> 'm list) list \<Rightarrow> 'm list" where
  "received r s outs = concat (map (\<lambda>(x, y, ms). if x = r \<and> y = s then ms else []) outs)"

fun sent :: "'i \<Rightarrow> 'i \<Rightarrow> ('i, 'm) mail_op list \<Rightarrow> 'm list" where
  "sent r s [] = []"
| "sent r s (Put x y d # ops) = (if x = r \<and> y = s then d # sent r s ops else sent r s ops)"
| "sent r s (_ # ops) = sent r s ops"

context mailbox_registry
begin

text \<open>First in, first out: what is received from a sender, and what is still waiting, is what was sent.\<close>

lemma fifo:
  "is_target b r \<Longrightarrow> Del r \<notin> set ops \<Longrightarrow> run_mail put take_all add del ops b = (outs, b') \<Longrightarrow>
     received r s outs @ queue b' r s = queue b r s @ sent r s ops \<and> is_target b' r"
proof (induction ops arbitrary: b outs)
  case (Cons a ops)
  show ?case
  proof (cases a)
    case (Put x y d)
    then show ?thesis using Cons.IH [of "put x y d b" outs] Cons.prems by (auto simp: is_target_put queue_put)
  next
    case (Take x y)
    obtain ms b1 where t: "take_all x y b = (ms, b1)" by (cases "take_all x y b")
    have b1: "ms = queue b x y" "\<And>z. is_target b1 z = is_target b z" "\<And>z w. queue b1 z w = (if z = x \<and> w = y then [] else queue b z w)"
      using take_all_queue [of x y b] is_target_take [of x y b] queue_take [of x y b] unfolding t by simp_all
    obtain outs1 where o: "run_mail put take_all add del ops b1 = (outs1, b')" "outs = (x, y, ms) # outs1"
      using Cons.prems(3) Take t by (auto split: prod.splits)
    show ?thesis using Cons.IH [OF _ _ o(1)] Cons.prems(1,2) Take b1 o(2) by (auto simp: received_def)
  next
    case (Add x)
    then show ?thesis using Cons.IH [of "add x b" outs] Cons.prems by (auto simp: is_target_add queue_add)
  next
    case (Del x)
    then show ?thesis using Cons.IH [of "del x b" outs] Cons.prems by (auto simp: is_target_del queue_del)
  qed
qed (simp add: received_def)

lemma stays_closed:
  "\<not> is_target b r \<Longrightarrow> Add r \<notin> set ops \<Longrightarrow> run_mail put take_all add del ops b = (outs, b') \<Longrightarrow> \<not> is_target b' r"
proof (induction ops arbitrary: b outs)
  case (Cons a ops)
  show ?case
  proof (cases a)
    case (Put x y d)
    then show ?thesis using Cons.IH [of "put x y d b" outs] Cons.prems by (simp add: is_target_put)
  next
    case (Take x y)
    obtain ms b1 where t: "take_all x y b = (ms, b1)" by (cases "take_all x y b")
    obtain outs1 where o: "run_mail put take_all add del ops b1 = (outs1, b')"
      using Cons.prems(3) Take t by (auto split: prod.splits)
    show ?thesis using Cons.IH [OF _ _ o] Cons.prems(1,2) Take is_target_take [of x y b r] t by simp
  next
    case (Add x)
    then show ?thesis using Cons.IH [of "add x b" outs] Cons.prems by (simp add: is_target_add)
  next
    case (Del x)
    then show ?thesis using Cons.IH [of "del x b" outs] Cons.prems by (simp add: is_target_del)
  qed
qed simp

end

section \<open>The bridge is one\<close>

definition bridge_queue :: "MessengerBridge \<Rightarrow> target_id \<Rightarrow> target_id \<Rightarrow> message list" where
  "bridge_queue b r s = (case RBT.lookup (m_targets b) r of None \<Rightarrow> []
     | Some box \<Rightarrow> (case RBT.lookup box s of None \<Rightarrow> [] | Some messages \<Rightarrow> messages))"

lemma keys_lookup: "RBT.lookup t k = Some v \<Longrightarrow> RBT.keys t \<noteq> []"
  by (metis RBT.lookup_keys domI empty_iff list.set(1))

lemma canRead_iff: "canRead r s b \<longleftrightarrow> (\<exists>box. RBT.lookup (m_targets b) r = Some box \<and> RBT.lookup box s \<noteq> None)"
  by (auto simp: canRead_def senderAmount_def split: option.splits dest: keys_lookup)

lemma bridge_read_eq: "bridge_read r s b = (bridge_queue b r s, if canRead r s b
    then b\<lparr>m_targets := RBT.insert r (RBT.insert s [] (the (RBT.lookup (m_targets b) r))) (m_targets b)\<rparr> else b)"
  by (auto simp: bridge_read_def canRead_iff bridge_queue_def split: option.splits)

interpretation bridge: mailbox_registry bridge_queue "\<lambda>b i. isRegistered i b" bridge_send bridge_read registerTarget unregisterTarget
proof
  fix r s d b x y
  show "isRegistered x (bridge_send r s d b) = isRegistered x b"
    by (auto simp: bridge_send_def isRegistered_def split: option.splits)
  show "bridge_queue (bridge_send r s d b) x y
      = (if isRegistered r b \<and> x = r \<and> y = s then bridge_queue b x y @ [d] else bridge_queue b x y)"
    by (auto simp: bridge_send_def bridge_queue_def isRegistered_def split: option.splits)
  show "fst (bridge_read r s b) = bridge_queue b r s" by (simp add: bridge_read_eq)
  show "isRegistered x (snd (bridge_read r s b)) = isRegistered x b"
    by (auto simp: bridge_read_eq isRegistered_def canRead_iff)
  show "bridge_queue (snd (bridge_read r s b)) x y = (if x = r \<and> y = s then [] else bridge_queue b x y)"
    by (auto simp: bridge_read_eq bridge_queue_def canRead_iff split: option.splits)
  show "isRegistered x (registerTarget r b) = (isRegistered x b \<or> x = r)"
    by (auto simp: registerTarget_def isRegistered_def)
  show "bridge_queue (registerTarget r b) x y = bridge_queue b x y"
    by (auto simp: registerTarget_def isRegistered_def bridge_queue_def)
  show "isRegistered x (unregisterTarget r b) = (isRegistered x b \<and> x \<noteq> r)"
    by (auto simp: unregisterTarget_def isRegistered_def restrict_map_def)
  show "bridge_queue (unregisterTarget r b) x y = (if x = r then [] else bridge_queue b x y)"
    by (auto simp: unregisterTarget_def isRegistered_def bridge_queue_def restrict_map_def)
qed


section \<open>What the exchange promises\<close>

definition callback_bytes :: "byte list \<Rightarrow> byte list" where
  "callback_bytes callbackId = of_nat (length callbackId) # (if callbackId = [] then [] else prefixed_bytes callbackId)"

lemma unsigned_codec: "codec writeUnsignedByte readUnsignedByte be (\<lambda>c. [c]) (\<lambda>_. True)"
  unfolding writeUnsignedByte_def [abs_def] readUnsignedByte_def by (rule byte_codec.codec_axioms)

lemma appends_bytes: "appends be (writeArray writeUnsignedByte xs) xs"
  using codec.appends_writeArray [OF unsigned_codec, of xs be] by (simp add: list_all_iff)

lemma appends_prefixed_bytes: "appends be (writePrefixedArray writeUnsignedByte xs) (prefixed_bytes xs)"
  using codec.appends_writePrefixedArray [OF unsigned_codec, of xs be] by (simp add: list_all_iff prefixed_bytes_def)

lemma reads_prefixed_bytes: "length xs < 2 ^ 31 \<Longrightarrow> reads be (readPrefixedArray readUnsignedByte) (prefixed_bytes xs) xs"
  using codec.reads_readPrefixedArray [OF unsigned_codec, of xs be] by (simp add: list_all_iff prefixed_bytes_def)

lemma appends_byte: "appends be (writeByte c) [c]"
  by (simp add: writeByte_def appends_writeBytes)

lemma appends_write_callback: "appends be (write_callback callbackId) (callback_bytes callbackId)"
  unfolding write_callback_def callback_bytes_def
  by (cases "callbackId = []") (use appends_thn [OF appends_byte appends_prefixed_bytes] appends_thn [OF appends_byte appends_ret] in auto)

lemma reads_read_callback:
  "c \<noteq> 0 \<Longrightarrow> length callbackId < 2 ^ 31 \<Longrightarrow> reads be read_callback (c # prefixed_bytes callbackId) callbackId"
  using reads_bnd [OF reads_readByte, of be "\<lambda>c. let h = c \<noteq> 0 in if h then readPrefixedArray readUnsignedByte else ret []" c, OF _]
  by (simp add: read_callback_def reads_prefixed_bytes)

lemma callback_is_recovered:
  "length callbackId < 2 ^ 31 \<Longrightarrow> length callbackId mod 256 \<noteq> 0 \<Longrightarrow> reads be read_callback (callback_bytes callbackId) callbackId"
  by (cases "callbackId = []") (auto simp: callback_bytes_def of_nat_eq_0_iff word_of_nat_eq_0_iff mod_eq_0_iff_dvd intro!: reads_read_callback)

definition call_message :: "byte \<Rightarrow> byte list \<Rightarrow> byte list" where
  "call_message c callbackId = c # prefixed_bytes callbackId @ string_bytes ''call'' @ string_bytes ''base.test''"

definition call_answer :: "byte list" where
  "call_answer = string_bytes ''value'' @ string_bytes ''bool'' @ [1]"

lemma reads_call_body:
  "reads be (bnd readString (\<lambda>type. reply_body type)) (string_bytes ''call'' @ string_bytes ''base.test'')
     (thn (writeString ''value'') (thn (writeString ''bool'') (writeByte 1)))"
  by (rule reads_bnd [OF reads_readString]) (auto simp: reply_body_def intro!: reads_bnd_ret reads_readString)

lemma appends_call_answer: "appends be (thn (writeString ''value'') (thn (writeString ''bool'') (writeByte 1))) call_answer"
  unfolding call_answer_def by (intro appends_thn appends_writeString appends_byte)

lemma call_reply:
  assumes "c \<noteq> 0" and "length callbackId < 2 ^ 31"
  shows "message_reply (call_message c callbackId) = Inr (callback_bytes callbackId @ call_answer)"
proof -
  let ?w = "thn (write_callback callbackId) (thn (writeString ''value'') (thn (writeString ''bool'') (writeByte 1)))"
  let ?k = "\<lambda>callbackId. bnd readString (\<lambda>type. bnd (reply_body type) (\<lambda>body. ret (thn (write_callback callbackId) body)))"
  have "reads True (bnd (bnd readString reply_body) (\<lambda>body. ret (thn (write_callback callbackId) body)))
      (string_bytes ''call'' @ string_bytes ''base.test'') ?w"
    by (rule reads_bnd_ret [OF reads_call_body]) simp
  then have "reads True (?k callbackId) (string_bytes ''call'' @ string_bytes ''base.test'') ?w"
    by (simp add: action_simps)
  from reads_bnd [OF reads_read_callback [OF assms], of True ?k, OF this]
  have "reads True (bnd read_callback ?k) (call_message c callbackId) ?w" by (simp add: call_message_def)
  from write_read [OF appends_bytes this] obtain b where
    "bnd (writeArray writeUnsignedByte (call_message c callbackId)) (\<lambda>_. bnd read_callback ?k) (new_bb True) = Inr (?w, b)" by blast
  moreover have "run_writer ?w = Inr (callback_bytes callbackId @ call_answer)"
    by (intro run_writer_appends appends_thn [OF appends_write_callback appends_call_answer])
  ultimately show ?thesis by (simp add: message_reply_def ebind_def)
qed

lemma server_id_op [simp]:
  "m_serverMessengerId (bridge_send r s d b) = m_serverMessengerId b"
  "m_serverMessengerId (snd (bridge_read r s b)) = m_serverMessengerId b"
  "m_serverMessengerId (registerTarget r b) = m_serverMessengerId b"
  "m_serverMessengerId (unregisterTarget r b) = m_serverMessengerId b"
  by (simp_all add: bridge_send_def bridge_read_eq registerTarget_def unregisterTarget_def split: option.split)

lemma server_id_kept: "m_serverMessengerId (snd (run_mail bridge_send bridge_read registerTarget unregisterTarget ops b)) = m_serverMessengerId b"
proof (induction ops arbitrary: b)
  case (Cons a ops)
  then show ?case using server_id_op(2) by (cases a) (simp_all add: case_prod_beta Let_def)
qed simp

text \<open>C16: Messages between a registered plugin and any sender are neither lost, duplicated nor reordered: over any
  sequence of sends, reads and registrations that does not unregister the receiver, what it has read from the sender
  followed by what is still waiting is what was waiting before followed by what was sent.\<close>

theorem bridge_delivers_in_order:
  assumes "isRegistered r b" and "Del r \<notin> set ops"
    and "run_mail bridge_send bridge_read registerTarget unregisterTarget ops b = (outs, b')"
  shows "received r s outs @ bridge_queue b' r s = bridge_queue b r s @ sent r s ops"
  using bridge.fifo [OF assms] by simp

theorem bridge_delivers_in_order_witness:
  "received [1 :: byte] [2 :: byte] [([1], [2], [[7], [8]]), ([1], [2], [])] @ [[9]] = [[7], [8], [9 :: byte]]"
proof -
  let ?ops = "[Put [1] [2] [7], Put [1] [2] [8], Put [3] [2] [5], Take [1] [2], Take [1] [2], Del [4], Put [1] [2] [9]] :: (target_id, message) mail_op list"
  let ?b = "registerTarget [1] new_MessengerBridge"
  obtain b' where r: "run_mail bridge_send bridge_read registerTarget unregisterTarget ?ops ?b
      = ([([1], [2], [[7], [8]]), ([1], [2], [])], b')" "bridge_queue b' [1] [2] = [[9]]"
    by (simp add: registerTarget_def new_MessengerBridge_def isRegistered_def bridge_send_def bridge_read_eq canRead_iff
      bridge_queue_def unregisterTarget_def)
  have "isRegistered [1] ?b" by (simp add: bridge.is_target_add)
  from bridge_delivers_in_order [OF this _ r(1), of "[2]"] r(2) show ?thesis
    by (simp add: registerTarget_def new_MessengerBridge_def isRegistered_def bridge_queue_def)
qed

text \<open>C28: Nothing that plugins send to the server is delivered: \<open>main\<close> only calls \<open>init\<close>, no code registers the
  identifier drawn there, and then in every state reached through the bridge \<open>sendToServerTarget\<close> changes nothing and
  the server's messenger, which asks for the senders of that identifier, gets none.\<close>

theorem messages_to_server_are_dropped:
  assumes "random \<noteq> []" and "Add random \<notin> set ops"
    and "run_mail bridge_send bridge_read registerTarget unregisterTarget ops (bridge_init random new_MessengerBridge) = (outs, b)"
  shows "m_serverMessengerId b = random \<and> sendToServerTarget s data b = b \<and> getSenders (m_serverMessengerId b) b = []"
proof -
  have i: "m_serverMessengerId b = random" using server_id_kept [of ops "bridge_init random new_MessengerBridge"] assms(3) by (simp add: bridge_init_def new_MessengerBridge_def)
  have "\<not> isRegistered random (bridge_init random new_MessengerBridge)"
    by (simp add: bridge_init_def new_MessengerBridge_def isRegistered_def)
  from bridge.stays_closed [OF this assms(2,3)] have "RBT.lookup (m_targets b) random = None" by (simp add: isRegistered_def)
  with i show ?thesis by (simp add: sendToServerTarget_def bridge_send_def getSenders_def senderAmount_def)
qed

theorem messages_to_server_are_dropped_witness:
  "sendToServerTarget [1] [7] (registerTarget [1] (bridge_init [5] new_MessengerBridge)) = registerTarget [1] (bridge_init [5] new_MessengerBridge)"
  using messages_to_server_are_dropped [of "[5]" "[Add [1]]" "[]" "registerTarget [1] (bridge_init [5] new_MessengerBridge)" "[1]" "[7]"] by simp

text \<open>A call with a callback identifier whose length is not a multiple of 256 is answered to its sender with the
  same identifier: the answer is appended to the queue of the sender, and a reader of the callback part gets the
  identifier back.\<close>

theorem call_is_answered_with_its_callback:
  assumes "c \<noteq> 0" and "length callbackId < 2 ^ 31" and "length callbackId mod 256 \<noteq> 0" and "isRegistered sender b"
  shows "\<exists>b'. parseMessage own sender (call_message c callbackId) b = Inr b'
    \<and> bridge_queue b' sender own = bridge_queue b sender own @ [callback_bytes callbackId @ call_answer]
    \<and> (\<exists>rest. bnd (writeArray writeUnsignedByte (callback_bytes callbackId @ call_answer)) (\<lambda>_. read_callback) (new_bb True) = Inr (callbackId, rest)
         \<and> bb_unread rest = call_answer)"
proof -
  let ?reply = "callback_bytes callbackId @ call_answer"
  obtain w where w: "writeArray writeUnsignedByte ?reply (new_bb True) = Inr ((), w)"
    "bb_wf w" "m_isBigEndian w = True" "bb_unread w = ?reply"
    by (rule appendsE [OF appends_bytes [of True ?reply], of "new_bb True"]) simp_all
  obtain rest where rest: "read_callback w = Inr (callbackId, rest)" "bb_unread rest = call_answer"
    by (rule readsE [OF callback_is_recovered [OF assms(2,3)] w(2,3,4)])
  have "bnd (writeArray writeUnsignedByte ?reply) (\<lambda>_. read_callback) (new_bb True) = Inr (callbackId, rest)"
    using w(1) rest(1) by (simp add: bnd_def)
  moreover have "?reply \<noteq> []" by (simp add: callback_bytes_def)
  then have "parseMessage own sender (call_message c callbackId) b = Inr (bridge_send sender own ?reply b)"
    by (simp only: parseMessage_def call_reply [OF assms(1,2)] ebind_def sum.case if_True simp_thms)
  moreover have "bridge_queue (bridge_send sender own ?reply b) sender own = bridge_queue b sender own @ [?reply]"
    using assms(4) by (simp add: bridge.queue_put)
  ultimately show ?thesis using rest(2) by blast
qed

theorem call_is_answered_with_its_callback_witness:
  "\<exists>b'. parseMessage [9] [1] (call_message 1 [3, 4]) (registerTarget [1] new_MessengerBridge) = Inr b'
    \<and> bridge_queue b' [1] [9] = [callback_bytes [3, 4] @ call_answer]"
proof -
  let ?b = "registerTarget [1] new_MessengerBridge"
  have "isRegistered [1] ?b" by (simp add: bridge.is_target_add)
  moreover have "bridge_queue ?b [1] [9] = []" by (simp add: bridge.queue_add) (simp add: bridge_queue_def new_MessengerBridge_def)
  ultimately show ?thesis using call_is_answered_with_its_callback [of 1 "[3, 4]" "[1]" ?b "[9]"] by simp blast
qed

text \<open>With an identifier of 256 bytes the flag is 0: whoever reads the answer finds no identifier and takes its
  length for the type.\<close>

lemma byte_256: "(256 :: byte) = 0"
  using word_of_nat_eq_0_iff [of 256, where 'a = 8] by simp

lemma callback_of_256_is_lost: "length callbackId = 256 \<Longrightarrow> reads be read_callback [hd (callback_bytes callbackId)] []"
  using reads_bnd [OF reads_readByte, of be "\<lambda>c. let h = c \<noteq> 0 in if h then readPrefixedArray readUnsignedByte else ret []" 0 "[]" "[]"]
  by (simp add: read_callback_def callback_bytes_def reads_ret byte_256)

end
