(* ===== verification/Messenger_Loop.thy ===== *)
theory Messenger_Loop
  imports Messenger
begin

text \<open>
  The loop of the server's messenger and the threads it starts (\<open>start\<close> and \<open>parse\<close> of
  \<open>src/loader/ZincServerMessenger.cpp\<close>). A run is a sequence of choices: a step of the loop, the whole of
  \<open>parseMessage\<close> in one of the threads (it touches the shared state once, in \<open>send\<close>, which holds the mutex), an
  operation of a plugin on the bridge, or \<open>m_started\<close> being reset. A \<open>std::thread\<close> is kept as its \<open>joinable\<close>: it is
  true from the start of the thread until \<open>join\<close> or \<open>detach\<close>, which the code never calls, and destroying a joinable
  thread calls \<open>std::terminate\<close>. An exception that leaves a thread calls it too.
\<close>

section \<open>The loop\<close>

datatype place = Polling | Parsing "target_id list" | Waiting | Returned | Killed

record ServerMessenger =
  zm_serverMessengerId :: target_id
  zm_tasks :: i64
  zm_workers :: "bool list"
  zm_started :: bool
  zm_threads :: "(target_id \<times> message) list"
  zm_at :: place
  zm_bridge :: MessengerBridge

datatype choice = Main | Thread nat | Plugin "(target_id, message) mail_op" | Stop

definition start_messenger :: "target_id \<Rightarrow> MessengerBridge \<Rightarrow> ServerMessenger" where
  "start_messenger own b = \<lparr>zm_serverMessengerId = own, zm_tasks = 0, zm_workers = [], zm_started = True, zm_threads = [],
     zm_at = Polling, zm_bridge = b\<rparr>"

text \<open>The assignment of a new vector destroys the threads of the old one.\<close>

definition messenger_parse :: "target_id \<Rightarrow> ServerMessenger \<Rightarrow> ServerMessenger" where
  "messenger_parse sender m =
     (let (messages, b) = bridge_read (zm_serverMessengerId m) sender (zm_bridge m);
          m1 = m\<lparr>zm_bridge := b, zm_tasks := zm_tasks m + of_nat (length messages)\<rparr>
      in if True \<in> set (zm_workers m) then m1\<lparr>zm_at := Killed\<rparr>
         else m1\<lparr>zm_workers := replicate (unat (zm_tasks m1)) False @ replicate (length messages) True,
                 zm_threads := zm_threads m @ map (Pair sender) messages\<rparr>)"

definition main_step :: "ServerMessenger \<Rightarrow> ServerMessenger" where
  "main_step m = (case zm_at m of
     Polling \<Rightarrow> if zm_started m then m\<lparr>zm_at := Parsing (getSenders (zm_serverMessengerId m) (zm_bridge m))\<rparr> else m\<lparr>zm_at := Returned\<rparr>
   | Parsing [] \<Rightarrow> m\<lparr>zm_at := Waiting\<rparr>
   | Parsing (sender # senders) \<Rightarrow> messenger_parse sender (m\<lparr>zm_at := Parsing senders\<rparr>)
   | Waiting \<Rightarrow> if zm_tasks m \<noteq> 0 then m
       else if True \<in> set (zm_workers m) then m\<lparr>zm_at := Killed\<rparr>
       else m\<lparr>zm_workers := [], zm_at := Polling\<rparr>
   | _ \<Rightarrow> m)"

definition thread_step :: "nat \<Rightarrow> ServerMessenger \<Rightarrow> ServerMessenger" where
  "thread_step i m = (if length (zm_threads m) \<le> i then m
     else (case zm_threads m ! i of (sender, message) \<Rightarrow>
       (case parseMessage (zm_serverMessengerId m) sender message (zm_bridge m) of
         Inl e \<Rightarrow> m\<lparr>zm_at := Killed\<rparr>
       | Inr b \<Rightarrow> m\<lparr>zm_bridge := b, zm_tasks := zm_tasks m - 1, zm_threads := take i (zm_threads m) @ drop (Suc i) (zm_threads m)\<rparr>)))"

definition messenger_step :: "choice \<Rightarrow> ServerMessenger \<Rightarrow> ServerMessenger" where
  "messenger_step c m = (if zm_at m = Killed then m
     else (case c of
       Main \<Rightarrow> main_step m
     | Thread i \<Rightarrow> thread_step i m
     | Plugin p \<Rightarrow> m\<lparr>zm_bridge := snd (run_mail bridge_send bridge_read registerTarget unregisterTarget [p] (zm_bridge m))\<rparr>
     | Stop \<Rightarrow> m\<lparr>zm_started := False\<rparr>))"

definition messenger_run :: "choice list \<Rightarrow> ServerMessenger \<Rightarrow> ServerMessenger" where
  "messenger_run cs m = fold messenger_step cs m"

section \<open>The first message is the last\<close>

lemma messenger_run_simps [simp]:
  "messenger_run [] m = m"
  "messenger_run (c # cs) m = messenger_run cs (messenger_step c m)"
  "messenger_run (cs @ ds) m = messenger_run ds (messenger_run cs m)"
  by (simp_all add: messenger_run_def)

lemma messenger_run_induct:
  assumes "P m" and "\<And>c m. P m \<Longrightarrow> P (messenger_step c m)"
  shows "P (messenger_run cs m)"
  using assms(1) by (induction cs arbitrary: m) (simp_all add: assms(2))

text \<open>Between two rounds there is no thread, and the counter is the number of threads that run.\<close>

definition messenger_ok :: "ServerMessenger \<Rightarrow> bool" where
  "messenger_ok m \<longleftrightarrow> zm_at m \<noteq> Killed \<longrightarrow>
     zm_tasks m = of_nat (length (zm_threads m)) \<and> (zm_at m \<in> {Polling, Returned} \<longrightarrow> True \<notin> set (zm_workers m))"

definition doomed :: "ServerMessenger \<Rightarrow> bool" where
  "doomed m \<longleftrightarrow> zm_at m = Killed \<or> True \<in> set (zm_workers m) \<and> zm_at m \<notin> {Polling, Returned}"

lemmas step_simps = messenger_step_def main_step_def thread_step_def messenger_parse_def

lemma messenger_ok_step: "messenger_ok m \<Longrightarrow> messenger_ok (messenger_step c m)"
  by (auto simp: messenger_ok_def step_simps Let_def not_le split: choice.splits place.splits list.splits prod.splits sum.splits)

lemma doomed_step: "doomed m \<Longrightarrow> doomed (messenger_step c m)"
  by (auto simp: doomed_def step_simps Let_def split: choice.splits place.splits list.splits prod.splits sum.splits)

lemma messenger_ok_run: "messenger_ok (messenger_run cs (start_messenger own b))"
  by (rule messenger_run_induct) (simp_all add: messenger_ok_step, simp add: messenger_ok_def start_messenger_def)

lemma doomed_run: "doomed m \<Longrightarrow> doomed (messenger_run cs m)"
  by (rule messenger_run_induct) (simp_all add: doomed_step)

lemma doomed_if_joinable: "messenger_ok m \<Longrightarrow> True \<in> set (zm_workers m) \<Longrightarrow> doomed m"
  by (auto simp: messenger_ok_def doomed_def)

text \<open>A message that is waiting is read, and its thread started.\<close>

lemma parse_starts_threads:
  "bridge_queue (zm_bridge m) (zm_serverMessengerId m) sender \<noteq> [] \<Longrightarrow>
     zm_at (messenger_parse sender m) = Killed \<or> True \<in> set (zm_workers (messenger_parse sender m))"
  by (simp add: messenger_parse_def bridge_read_eq Let_def)

text \<open>The threads that run are finished one after the other, unless one of them throws.\<close>

lemma run_threads:
  "zm_at m = place \<Longrightarrow> place \<noteq> Killed \<Longrightarrow> \<exists>cs. set cs \<subseteq> {Thread 0} \<and> (zm_at (messenger_run cs m) = Killed
      \<or> zm_at (messenger_run cs m) = place \<and> zm_threads (messenger_run cs m) = [])"
proof (induction "length (zm_threads m)" arbitrary: m)
  case 0
  then show ?case by (intro exI [of _ "[]"]) simp
next
  case (Suc n)
  then obtain s d ts where t: "zm_threads m = (s, d) # ts" by (cases "zm_threads m") auto
  let ?m = "messenger_step (Thread 0) m"
  show ?case
  proof (cases "zm_at ?m = Killed")
    case True
    then show ?thesis by (intro exI [of _ "[Thread 0]"]) simp
  next
    case False
    then have "zm_at ?m = place" "length (zm_threads ?m) = n"
      using t Suc.hyps(2) Suc.prems by (auto simp: messenger_step_def thread_step_def split: sum.splits)
    from Suc.hyps(1) [OF this(2) [symmetric] this(1) Suc.prems(2)] obtain cs where
      "set cs \<subseteq> {Thread 0}" "zm_at (messenger_run cs ?m) = Killed
      \<or> zm_at (messenger_run cs ?m) = place \<and> zm_threads (messenger_run cs ?m) = []" by blast
    then show ?thesis by (intro exI [of _ "Thread 0 # cs"]) simp
  qed
qed

lemma parsing_ends:
  "doomed m \<Longrightarrow> zm_at m = Parsing senders \<Longrightarrow> \<exists>cs. set cs \<subseteq> {Main} \<and> zm_at (messenger_run cs m) \<in> {Killed, Waiting}"
proof (induction senders arbitrary: m)
  case Nil
  then show ?case by (intro exI [of _ "[Main]"]) (simp add: step_simps)
next
  case (Cons s senders)
  then show ?case by (intro exI [of _ "[Main]"]) (auto simp: step_simps doomed_def Let_def split: prod.splits)
qed

lemma doomed_is_killed:
  assumes "messenger_ok m" and "doomed m"
  shows "\<exists>cs. set cs \<subseteq> {Main, Thread 0} \<and> zm_at (messenger_run cs m) = Killed"
proof -
  have "\<exists>cs. set cs \<subseteq> {Main, Thread 0} \<and> zm_at (messenger_run cs m) \<in> {Killed, Waiting}"
    using parsing_ends [OF assms(2)] assms(2) by (cases "zm_at m") (fastforce simp: doomed_def intro: exI [of _ "[]"])+
  then obtain cs where cs: "set cs \<subseteq> {Main, Thread 0}" "zm_at (messenger_run cs m) \<in> {Killed, Waiting}" by blast
  let ?m = "messenger_run cs m"
  show ?thesis
  proof (cases "zm_at ?m = Killed")
    case False
    with cs have w: "zm_at ?m = Waiting" by simp
    obtain ds where ds: "set ds \<subseteq> {Thread 0}" "zm_at (messenger_run ds ?m) = Killed
        \<or> zm_at (messenger_run ds ?m) = Waiting \<and> zm_threads (messenger_run ds ?m) = []"
      using run_threads [OF w] by auto
    let ?n = "messenger_run ds ?m"
    have "messenger_ok ?n" "doomed ?n"
      using messenger_run_induct [of messenger_ok, OF assms(1) messenger_ok_step, of "cs @ ds"] doomed_run [OF assms(2), of "cs @ ds"] by simp_all
    with ds(2) have "zm_at (messenger_run [Main] ?n) = Killed"
      by (auto simp: messenger_ok_def doomed_def step_simps)
    then show ?thesis using cs(1) ds(1) by (intro exI [of _ "cs @ ds @ [Main]"]) auto
  qed (use cs in blast)
qed

text \<open>C17: The first message that the server's messenger takes from the bridge ends the program: once a thread has been started
  for a message, in whatever order the loop, the threads and the plugins go on, the loop never polls the bridge again and never
  returns, and it can always be continued to \<open>std::terminate\<close> (the threads are destroyed without \<open>join\<close>).\<close>

theorem first_message_ends_the_server:
  assumes "m = messenger_run cs (start_messenger own b)" and "True \<in> set (zm_workers m)"
  shows "zm_at (messenger_run ds m) \<notin> {Polling, Returned}
    \<and> (\<exists>es. set es \<subseteq> {Main, Thread 0} \<and> zm_at (messenger_run es (messenger_run ds m)) = Killed)"
proof -
  have ok: "messenger_ok (messenger_run ds m)" using messenger_ok_run [of "cs @ ds"] assms(1) by simp
  have "doomed (messenger_run ds m)"
    using doomed_run doomed_if_joinable messenger_ok_run assms by blast
  with ok show ?thesis using doomed_is_killed by (auto simp: doomed_def)
qed

theorem first_message_ends_the_server_witness:
  "\<exists>es. zm_at (messenger_run (Main # Main # es) (start_messenger [5] (bridge_send [5] [1] [7] (registerTarget [5] new_MessengerBridge)))) = Killed"
proof -
  let ?m = "start_messenger [5] (bridge_send [5] [1] [7] (registerTarget [5] new_MessengerBridge))"
  have "True \<in> set (zm_workers (messenger_run [Main, Main] ?m))"
    by code_simp
  from first_message_ends_the_server [OF refl this, of "[]"] show ?thesis by auto
qed

end
