(* ===== verification/Wrappers.thy ===== *)
theory Wrappers
  imports Prelude
begin

text \<open>
  The wrappers around OpenSSL and zstd that manage memory or check results: \<open>RSAWrapper\<close> (\<open>src/util/crypto/RSA.cpp\<close>),
  \<open>RandomUtil\<close>, \<open>ZSTDUtil\<close>, and the secure containers of \<open>inc/util/Memory.h\<close>. The libraries are parameters, a record of
  what each call returns; the objects that OpenSSL allocates are numbered, and the state knows which are alive.
\<close>

section \<open>OpenSSL\<close>

text \<open>A call that can only succeed or fail is a boolean; a pointer that may be null is an option.\<close>

record 'k OpenSSL =
  ssl_ctx :: bool
  ssl_keygen_init :: bool
  ssl_keygen_bits :: "i32 \<Rightarrow> bool"
  ssl_generate :: "i32 \<Rightarrow> 'k option"
  ssl_encrypt_init :: bool
  ssl_decrypt_init :: bool
  ssl_padding :: "i32 \<Rightarrow> bool"
  ssl_encrypt_size :: "'k \<Rightarrow> i32 \<Rightarrow> byte list \<Rightarrow> nat option"
  ssl_encrypt :: "'k \<Rightarrow> i32 \<Rightarrow> byte list \<Rightarrow> byte list option"
  ssl_decrypt_size :: "'k \<Rightarrow> i32 \<Rightarrow> byte list \<Rightarrow> nat option"
  ssl_decrypt :: "'k \<Rightarrow> i32 \<Rightarrow> byte list \<Rightarrow> byte list option"
  ssl_md_ctx :: bool
  ssl_sign_init :: bool
  ssl_sign_feed :: bool
  ssl_sign_size :: "'k \<Rightarrow> byte list \<Rightarrow> nat option"
  ssl_sign :: "'k \<Rightarrow> byte list \<Rightarrow> byte list option"
  ssl_verify_init :: bool
  ssl_verify_feed :: bool
  ssl_verify :: "'k \<Rightarrow> byte list \<Rightarrow> byte list \<Rightarrow> int"
  ssl_bio :: bool
  ssl_write_public :: "'k \<Rightarrow> string option"
  ssl_write_private :: "'k \<Rightarrow> string option"
  ssl_read_public :: "i32 \<Rightarrow> string \<Rightarrow> 'k option"
  ssl_read_private :: "i32 \<Rightarrow> string \<Rightarrow> 'k option"
  ssl_i2d_public :: "'k \<Rightarrow> byte list option"
  ssl_i2d_private :: "'k \<Rightarrow> byte list option"
  ssl_d2i_public :: "i32 \<Rightarrow> byte list \<Rightarrow> 'k option"
  ssl_d2i_private :: "i32 \<Rightarrow> byte list \<Rightarrow> 'k option"

section \<open>The wrapper\<close>

text \<open>The members, a key with its number, and the heap: the next number and the objects alive.\<close>

record 'k RSAWrapper =
  rw_pkey :: "(nat \<times> 'k) option"
  rw_isKeyLoaded :: bool
  rw_padding :: i32
  os_next :: nat
  os_live :: "nat set"

type_synonym ('k, 'a) rsa = "('k RSAWrapper, 'a) action"

definition new_RSAWrapper :: "i32 \<Rightarrow> 'k RSAWrapper" where
  "new_RSAWrapper padding = \<lparr>rw_pkey = None, rw_isKeyLoaded = False, rw_padding = padding, os_next = 0, os_live = {}\<rparr>"

definition alloc :: "('k, nat) rsa" where
  "alloc = (\<lambda>s. Inr (os_next s, s\<lparr>os_next := Suc (os_next s), os_live := insert (os_next s) (os_live s)\<rparr>))"

text \<open>To free or to use an object that is not alive is undefined behaviour.\<close>

definition release :: "nat \<Rightarrow> ('k, unit) rsa" where
  "release n = (\<lambda>s. if n \<in> os_live s then Inr ((), s\<lparr>os_live := os_live s - {n}\<rparr>) else Inl OutOfBounds)"

definition the_key :: "('k, 'k) rsa" where
  "the_key = (\<lambda>s. case rw_pkey s of None \<Rightarrow> Inl OutOfBounds
     | Some (n, k) \<Rightarrow> if n \<in> os_live s then Inr (k, s) else Inl OutOfBounds)"

text \<open>An OpenSSL call on a context, a BIO or a buffer, or a read of the memory behind it.\<close>

definition touch :: "nat \<Rightarrow> ('k, unit) rsa" where
  "touch n = (\<lambda>s. if n \<in> os_live s then Inr ((), s) else Inl OutOfBounds)"

definition give_up :: "nat \<Rightarrow> 'a \<Rightarrow> ('k, 'a) rsa" where
  "give_up ctx x = thn (release ctx) (ret x)"

text \<open>\<open>if (m_pkey) EVP_PKEY_free(m_pkey); m_pkey = pkey; m_isKeyLoaded = true; return true\<close>\<close>

definition install_key :: "nat \<times> 'k \<Rightarrow> ('k, bool) rsa" where
  "install_key pkey = bnd (gets rw_pkey) (\<lambda>old.
     thn (case old of None \<Rightarrow> ret () | Some (n, _) \<Rightarrow> release n)
       (\<lambda>s. Inr (True, s\<lparr>rw_pkey := Some pkey, rw_isKeyLoaded := True\<rparr>)))"

definition generateKeys :: "'k OpenSSL \<Rightarrow> i32 \<Rightarrow> ('k, bool) rsa" where
  "generateKeys S bits =
     (if \<not> ssl_ctx S then ret False
      else bnd alloc (\<lambda>ctx.
        thn (touch ctx) (if \<not> ssl_keygen_init S then give_up ctx False
        else thn (touch ctx) (if \<not> ssl_keygen_bits S bits then give_up ctx False
        else thn (touch ctx) (case ssl_generate S bits of None \<Rightarrow> give_up ctx False
          | Some k \<Rightarrow> bnd alloc (\<lambda>pkey. thn (release ctx) (install_key (pkey, k))))))))"

text \<open>The buffer has the size determined first; a longer output would be written past its end.\<close>

definition rsa_crypt :: "bool \<Rightarrow> (i32 \<Rightarrow> bool) \<Rightarrow> ('k \<Rightarrow> i32 \<Rightarrow> byte list \<Rightarrow> nat option) \<Rightarrow> ('k \<Rightarrow> i32 \<Rightarrow> byte list \<Rightarrow> byte list option)
    \<Rightarrow> 'k \<Rightarrow> nat \<Rightarrow> byte list \<Rightarrow> ('k, byte list) rsa" where
  "rsa_crypt init padding_ok size_of run k ctx data =
     thn (touch ctx) (if \<not> init then give_up ctx []
      else thn (touch ctx) (bnd (gets rw_padding) (\<lambda>padding.
        if \<not> padding_ok padding then give_up ctx []
        else thn (touch ctx) (case size_of k padding data of None \<Rightarrow> give_up ctx []
          | Some outlen \<Rightarrow> thn (touch ctx) (case run k padding data of None \<Rightarrow> give_up ctx []
            | Some out \<Rightarrow> if outlen < length out then fail OutOfBounds else give_up ctx out)))))"

definition with_key :: "'a \<Rightarrow> ('k \<Rightarrow> ('k, 'a) rsa) \<Rightarrow> ('k, 'a) rsa" where
  "with_key none f = bnd (gets rw_isKeyLoaded) (\<lambda>loaded. if \<not> loaded then ret none else bnd the_key f)"

definition rsa_encrypt :: "'k OpenSSL \<Rightarrow> byte list \<Rightarrow> ('k, byte list) rsa" where
  "rsa_encrypt S data = with_key [] (\<lambda>k. if \<not> ssl_ctx S then ret []
     else bnd alloc (\<lambda>ctx. rsa_crypt (ssl_encrypt_init S) (ssl_padding S) (ssl_encrypt_size S) (ssl_encrypt S) k ctx data))"

definition rsa_decrypt :: "'k OpenSSL \<Rightarrow> byte list \<Rightarrow> ('k, byte list) rsa" where
  "rsa_decrypt S encryptedData = with_key [] (\<lambda>k. if \<not> ssl_ctx S then ret []
     else bnd alloc (\<lambda>ctx. rsa_crypt (ssl_decrypt_init S) (ssl_padding S) (ssl_decrypt_size S) (ssl_decrypt S) k ctx encryptedData))"

text \<open>A PEM text is written to a BIO, whose memory is looked up and copied before the BIO is freed.\<close>

definition write_pem :: "'k OpenSSL \<Rightarrow> ('k \<Rightarrow> string option) \<Rightarrow> ('k, string) rsa" where
  "write_pem S write = with_key [] (\<lambda>k. if \<not> ssl_bio S then ret []
     else bnd alloc (\<lambda>bio. thn (touch bio) (case write k of None \<Rightarrow> give_up bio []
       | Some pem \<Rightarrow> thn (touch bio) (thn (touch bio) (give_up bio pem)))))"

definition getPublicKeyPEM :: "'k OpenSSL \<Rightarrow> ('k, string) rsa" where
  "getPublicKeyPEM S = write_pem S (ssl_write_public S)"

definition getPrivateKeyPEM :: "'k OpenSSL \<Rightarrow> ('k, string) rsa" where
  "getPrivateKeyPEM S = write_pem S (ssl_write_private S)"

text \<open>\<open>i2d\<close> allocates the encoding itself.\<close>

definition write_der :: "('k \<Rightarrow> byte list option) \<Rightarrow> ('k, byte list) rsa" where
  "write_der i2d = with_key [] (\<lambda>k. case i2d k of None \<Rightarrow> ret [] | Some der \<Rightarrow> bnd alloc (\<lambda>buffer. thn (touch buffer) (give_up buffer der)))"

definition getPublicKeyDER :: "'k OpenSSL \<Rightarrow> ('k, byte list) rsa" where
  "getPublicKeyDER S = write_der (ssl_i2d_public S)"

definition getPrivateKeyDER :: "'k OpenSSL \<Rightarrow> ('k, byte list) rsa" where
  "getPrivateKeyDER S = write_der (ssl_i2d_private S)"

text \<open>The length is cast from \<open>size_t\<close> to \<open>int\<close>. The key read is an allocation of its own.\<close>

definition load_pem :: "'k OpenSSL \<Rightarrow> (i32 \<Rightarrow> string \<Rightarrow> 'k option) \<Rightarrow> string \<Rightarrow> ('k, bool) rsa" where
  "load_pem S read pem = (if \<not> ssl_bio S then ret False
     else bnd alloc (\<lambda>bio. thn (touch bio) (case read (int_of_size (length pem)) pem of None \<Rightarrow> give_up bio False
       | Some k \<Rightarrow> bnd alloc (\<lambda>pkey. thn (release bio) (install_key (pkey, k))))))"

definition loadPublicKeyFromPEM :: "'k OpenSSL \<Rightarrow> string \<Rightarrow> ('k, bool) rsa" where
  "loadPublicKeyFromPEM S = load_pem S (ssl_read_public S)"

definition loadPrivateKeyFromPEM :: "'k OpenSSL \<Rightarrow> string \<Rightarrow> ('k, bool) rsa" where
  "loadPrivateKeyFromPEM S = load_pem S (ssl_read_private S)"

definition load_der :: "(i32 \<Rightarrow> byte list \<Rightarrow> 'k option) \<Rightarrow> byte list \<Rightarrow> ('k, bool) rsa" where
  "load_der d2i der = (case d2i (int_of_size (length der)) der of None \<Rightarrow> ret False
     | Some k \<Rightarrow> bnd alloc (\<lambda>pkey. install_key (pkey, k)))"

definition loadPublicKeyFromDER :: "'k OpenSSL \<Rightarrow> byte list \<Rightarrow> ('k, bool) rsa" where
  "loadPublicKeyFromDER S = load_der (ssl_d2i_public S)"

definition loadPrivateKeyFromDER :: "'k OpenSSL \<Rightarrow> byte list \<Rightarrow> ('k, bool) rsa" where
  "loadPrivateKeyFromDER S = load_der (ssl_d2i_private S)"

definition rsa_sign :: "'k OpenSSL \<Rightarrow> byte list \<Rightarrow> ('k, byte list) rsa" where
  "rsa_sign S data = with_key [] (\<lambda>k. if \<not> ssl_md_ctx S then ret []
     else bnd alloc (\<lambda>mdctx.
       thn (touch mdctx) (if \<not> ssl_sign_init S then give_up mdctx []
       else thn (touch mdctx) (if \<not> ssl_sign_feed S then give_up mdctx []
       else thn (touch mdctx) (case ssl_sign_size S k data of None \<Rightarrow> give_up mdctx []
         | Some siglen \<Rightarrow> thn (touch mdctx) (case ssl_sign S k data of None \<Rightarrow> give_up mdctx []
           | Some out \<Rightarrow> if siglen < length out then fail OutOfBounds else give_up mdctx out))))))"

definition rsa_verify :: "'k OpenSSL \<Rightarrow> byte list \<Rightarrow> byte list \<Rightarrow> ('k, bool) rsa" where
  "rsa_verify S data signature = with_key False (\<lambda>k. if \<not> ssl_md_ctx S then ret False
     else bnd alloc (\<lambda>mdctx.
       thn (touch mdctx) (if \<not> ssl_verify_init S then give_up mdctx False
       else thn (touch mdctx) (if \<not> ssl_verify_feed S then give_up mdctx False
       else thn (touch mdctx) (give_up mdctx (ssl_verify S k data signature = 1))))))"

text \<open>The destructor.\<close>

definition rsa_destroy :: "('k, unit) rsa" where
  "rsa_destroy = bnd (gets rw_pkey) (\<lambda>pkey. case pkey of None \<Rightarrow> ret () | Some (n, _) \<Rightarrow> release n)"

text \<open>The class has no copy constructor of its own: a copy has the same members, the pointer to the key among them. A copy that is made
  and destroyed while the wrapper lives, such as the one that the \<open>const\<close> overload of \<open>ZincServer::getRSA\<close> returns, runs the destructor
  on the same members.\<close>

definition copy_and_destroy :: "('k, unit) rsa" where
  "copy_and_destroy = rsa_destroy"

datatype rsa_op = GenerateKeys i32 | Encrypt "byte list" | Decrypt "byte list" | Sign "byte list" | Verify "byte list" "byte list"
  | PublicPEM | PrivatePEM | PublicDER | PrivateDER
  | LoadPublicPEM string | LoadPrivatePEM string | LoadPublicDER "byte list" | LoadPrivateDER "byte list"
  | Copy

fun rsa_run :: "'k OpenSSL \<Rightarrow> rsa_op \<Rightarrow> ('k, unit) rsa" where
  "rsa_run S (GenerateKeys bits) = thn (generateKeys S bits) (ret ())"
| "rsa_run S (Encrypt data) = thn (rsa_encrypt S data) (ret ())"
| "rsa_run S (Decrypt data) = thn (rsa_decrypt S data) (ret ())"
| "rsa_run S (Sign data) = thn (rsa_sign S data) (ret ())"
| "rsa_run S (Verify data signature) = thn (rsa_verify S data signature) (ret ())"
| "rsa_run S PublicPEM = thn (getPublicKeyPEM S) (ret ())"
| "rsa_run S PrivatePEM = thn (getPrivateKeyPEM S) (ret ())"
| "rsa_run S PublicDER = thn (getPublicKeyDER S) (ret ())"
| "rsa_run S PrivateDER = thn (getPrivateKeyDER S) (ret ())"
| "rsa_run S (LoadPublicPEM pem) = thn (loadPublicKeyFromPEM S pem) (ret ())"
| "rsa_run S (LoadPrivatePEM pem) = thn (loadPrivateKeyFromPEM S pem) (ret ())"
| "rsa_run S (LoadPublicDER der) = thn (loadPublicKeyFromDER S der) (ret ())"
| "rsa_run S (LoadPrivateDER der) = thn (loadPrivateKeyFromDER S der) (ret ())"
| "rsa_run S Copy = copy_and_destroy"

section \<open>Every object is freed once\<close>

text \<open>The contract of OpenSSL: an output is not longer than the size determined before.\<close>

definition ssl_fits :: "'k OpenSSL \<Rightarrow> bool" where
  "ssl_fits S \<longleftrightarrow> (\<forall>k p data n out. ssl_encrypt_size S k p data = Some n \<longrightarrow> ssl_encrypt S k p data = Some out \<longrightarrow> length out \<le> n)
     \<and> (\<forall>k p data n out. ssl_decrypt_size S k p data = Some n \<longrightarrow> ssl_decrypt S k p data = Some out \<longrightarrow> length out \<le> n)
     \<and> (\<forall>k data n out. ssl_sign_size S k data = Some n \<longrightarrow> ssl_sign S k data = Some out \<longrightarrow> length out \<le> n)"

text \<open>Alive is the key and nothing else, and a key is loaded when the flag says so.\<close>

definition rsa_ok :: "'k RSAWrapper \<Rightarrow> bool" where
  "rsa_ok s \<longleftrightarrow> os_live s = (case rw_pkey s of None \<Rightarrow> {} | Some (n, _) \<Rightarrow> {n}) \<and> (rw_isKeyLoaded s \<longleftrightarrow> rw_pkey s \<noteq> None)
     \<and> (\<forall>n \<in> os_live s. n < os_next s)"

definition keeps_rsa :: "('k, 'a) rsa \<Rightarrow> bool" where
  "keeps_rsa m \<longleftrightarrow> (\<forall>s. rsa_ok s \<longrightarrow> (\<exists>x s'. m s = Inr (x, s') \<and> rsa_ok s'))"

text \<open>An action that takes an object: it is alive besides the key, and gone afterwards.\<close>

definition holding :: "nat \<Rightarrow> 'k RSAWrapper \<Rightarrow> bool" where
  "holding n s \<longleftrightarrow> n \<in> os_live s \<and> n < os_next s \<and> rsa_ok (s\<lparr>os_live := os_live s - {n}\<rparr>)"

definition frees :: "nat \<Rightarrow> ('k, 'a) rsa \<Rightarrow> bool" where
  "frees n m \<longleftrightarrow> (\<forall>s. holding n s \<longrightarrow> (\<exists>x s'. m s = Inr (x, s') \<and> rsa_ok s'))"

named_theorems rsa_intros \<open>actions that free what they take\<close>

lemma rsa_keeps_ret [rsa_intros]: "keeps_rsa (ret x)"
  by (simp add: keeps_rsa_def ret_def)

lemma keeps_thn [rsa_intros]: "keeps_rsa m \<Longrightarrow> keeps_rsa w \<Longrightarrow> keeps_rsa (thn m w)"
  unfolding keeps_rsa_def thn_def bnd_def by fastforce

lemma frees_give_up [rsa_intros]: "frees n (give_up n x)"
  by (auto simp: frees_def holding_def give_up_def thn_def bnd_def release_def ret_def)

lemma keeps_alloc [rsa_intros]:
  fixes f :: "nat \<Rightarrow> ('k, 'a) rsa"
  assumes "\<And>n. frees n (f n)"
  shows "keeps_rsa (bnd alloc f)"
  unfolding keeps_rsa_def
proof (intro allI impI)
  fix s :: "'k RSAWrapper" assume s: "rsa_ok s"
  let ?n = "os_next s" and ?s = "s\<lparr>os_next := Suc (os_next s), os_live := insert (os_next s) (os_live s)\<rparr>"
  have "?n \<notin> os_live s" using s by (auto simp: rsa_ok_def)
  then have "holding ?n ?s"
    using s by (auto simp: holding_def rsa_ok_def less_Suc_eq)
  with assms [of ?n] show "\<exists>x s'. bnd alloc f s = Inr (x, s') \<and> rsa_ok s'"
    by (auto simp: frees_def bnd_def alloc_def)
qed

lemma frees_touch [rsa_intros]: "frees n m \<Longrightarrow> frees n (thn (touch n) m)"
  by (auto simp: frees_def holding_def thn_def bnd_def touch_def)

lemma frees_gets [rsa_intros]: "(\<And>x. frees n (f x)) \<Longrightarrow> frees n (bnd (gets g) f)"
  by (simp add: frees_def bnd_def gets_def)

lemma keeps_with_key [rsa_intros]:
  assumes "\<And>k. keeps_rsa (f k)"
  shows "keeps_rsa (with_key none f)"
  using assms by (auto simp: keeps_rsa_def with_key_def bnd_def gets_def the_key_def rsa_ok_def ret_def split: option.splits)

lemma install_new:
  assumes "rsa_ok s" and "n \<notin> os_live s" and "n < m"
  shows "\<exists>s'. install_key (n, k) (s\<lparr>os_next := m, os_live := insert n (os_live s)\<rparr>) = Inr (True, s') \<and> rsa_ok s'"
  using assms by (auto simp: rsa_ok_def install_key_def bnd_def gets_def thn_def ret_def release_def split: option.splits)

lemma keeps_install [rsa_intros]: "keeps_rsa (bnd alloc (\<lambda>pkey. install_key (pkey, k)))"
  unfolding keeps_rsa_def
proof (intro allI impI)
  fix s :: "'a RSAWrapper" assume "rsa_ok s"
  then have "rsa_ok s" "os_next s \<notin> os_live s" by (auto simp: rsa_ok_def)
  from install_new [OF this lessI, of k] show "\<exists>x s'. bnd alloc (\<lambda>pkey. install_key (pkey, k)) s = Inr (x, s') \<and> rsa_ok s'"
    by (auto simp: bnd_def alloc_def)
qed

lemma frees_install [rsa_intros]: "frees n (bnd alloc (\<lambda>pkey. thn (release n) (install_key (pkey, k))))"
  unfolding frees_def
proof (intro allI impI)
  fix s :: "'a RSAWrapper" assume s: "holding n s"
  let ?s = "s\<lparr>os_live := os_live s - {n}\<rparr>"
  have "rsa_ok ?s" "os_next s \<notin> os_live ?s" using s by (auto simp: holding_def rsa_ok_def)
  from install_new [OF this lessI, of k]
  obtain s' where s': "install_key (os_next s, k) (s\<lparr>os_next := Suc (os_next s), os_live := insert (os_next s) (os_live s - {n})\<rparr>) = Inr (True, s')" "rsa_ok s'"
    by auto
  have "insert (os_next s) (os_live s) - {n} = insert (os_next s) (os_live s - {n})" using s by (auto simp: holding_def)
  then show "\<exists>x s'. bnd alloc (\<lambda>pkey. thn (release n) (install_key (pkey, k))) s = Inr (x, s') \<and> rsa_ok s'"
    using s s' by (auto simp: bnd_def thn_def alloc_def release_def holding_def)
qed

lemma frees_crypt [rsa_intros]:
  "(\<And>p m out. size_of k p data = Some m \<Longrightarrow> run k p data = Some out \<Longrightarrow> length out \<le> m) \<Longrightarrow> frees n (rsa_crypt init pad size_of run k n data)"
  unfolding rsa_crypt_def by (fastforce intro!: rsa_intros split: option.split if_split simp: not_less)

lemma rsa_run_keeps:
  assumes "ssl_fits S"
    and "op \<noteq> Copy"
  shows "keeps_rsa (rsa_run S op)"
proof (cases op)
  case (Encrypt data)
  then show ?thesis using assms by (auto simp: rsa_encrypt_def ssl_fits_def intro!: rsa_intros)
next
  case (Decrypt data)
  then show ?thesis using assms by (auto simp: rsa_decrypt_def ssl_fits_def intro!: rsa_intros)
next
  case (Sign data)
  then show ?thesis using assms
    by (fastforce simp: rsa_sign_def ssl_fits_def not_less intro!: rsa_intros split: option.split if_split)
next
  case Copy
  with assms(2) show ?thesis by simp
qed (auto simp: generateKeys_def rsa_verify_def getPublicKeyPEM_def getPrivateKeyPEM_def write_pem_def getPublicKeyDER_def
    getPrivateKeyDER_def write_der_def loadPublicKeyFromPEM_def loadPrivateKeyFromPEM_def load_pem_def loadPublicKeyFromDER_def
    loadPrivateKeyFromDER_def load_der_def intro!: rsa_intros split: option.split if_split)


lemma keeps_each: "\<forall>x \<in> set xs. keeps_rsa (f x) \<Longrightarrow> keeps_rsa (each f xs)"
  by (induction xs) (auto intro: rsa_intros)

lemma rsa_destroyed: "rsa_ok s \<Longrightarrow> \<exists>s'. rsa_destroy s = Inr ((), s') \<and> os_live s' = {}"
  by (auto simp: rsa_ok_def rsa_destroy_def bnd_def gets_def ret_def release_def split: option.splits)

text \<open>After a copy of a loaded wrapper has been destroyed, the wrapper holds a key that is not alive. Whatever is done with it, that
  stays so, or an operation fails because of it.\<close>

definition dangling :: "'k RSAWrapper \<Rightarrow> bool" where
  "dangling s \<longleftrightarrow> (\<exists>n k. rw_pkey s = Some (n, k) \<and> n \<notin> os_live s \<and> n < os_next s)"

definition keeps_dangling :: "('k, 'a) rsa \<Rightarrow> bool" where
  "keeps_dangling m \<longleftrightarrow> (\<forall>s. dangling s \<longrightarrow> (case m s of Inl e \<Rightarrow> e = OutOfBounds | Inr (_, s') \<Rightarrow> dangling s'))"

named_theorems dangling_intros \<open>actions on a wrapper whose key is dangling\<close>

lemma dangling_bnd [dangling_intros]:
  fixes m :: "('k, 'a) rsa"
  assumes m: "keeps_dangling m" and f: "\<And>x. keeps_dangling (f x)"
  shows "keeps_dangling (bnd m f)"
  unfolding keeps_dangling_def
proof (intro allI impI)
  fix s :: "'k RSAWrapper" assume "dangling s"
  with m have "case m s of Inl e \<Rightarrow> e = OutOfBounds | Inr (_, s') \<Rightarrow> dangling s'" by (simp add: keeps_dangling_def)
  then consider "m s = Inl OutOfBounds" | x s' where "m s = Inr (x, s')" "dangling s'" by (auto split: sum.splits)
  then show "case bnd m f s of Inl e \<Rightarrow> e = OutOfBounds | Inr (_, s') \<Rightarrow> dangling s'"
    by cases (use f in \<open>auto simp: keeps_dangling_def bnd_def\<close>)
qed

lemma dangling_thn [dangling_intros]: "keeps_dangling m \<Longrightarrow> keeps_dangling w \<Longrightarrow> keeps_dangling (thn m w)"
  unfolding thn_def by (intro dangling_bnd)

lemma dangling_basic [dangling_intros]:
  "keeps_dangling (ret x)" "keeps_dangling (gets g)" "keeps_dangling alloc" "keeps_dangling (release n)" "keeps_dangling (touch n)"
  "keeps_dangling (give_up n x)" "keeps_dangling (fail OutOfBounds)"
  by (auto simp: keeps_dangling_def ret_def gets_def alloc_def release_def touch_def give_up_def thn_def bnd_def fail_def dangling_def)

lemma dangling_cases [dangling_intros]:
  "keeps_dangling m \<Longrightarrow> keeps_dangling w \<Longrightarrow> keeps_dangling (if b then m else w)"
  "keeps_dangling m \<Longrightarrow> (\<And>k. keeps_dangling (f k)) \<Longrightarrow> keeps_dangling (case x of None \<Rightarrow> m | Some k \<Rightarrow> f k)"
  by (auto split: option.split)

lemma dangling_key [dangling_intros]:
  "keeps_dangling (install_key pkey)" "keeps_dangling the_key" "keeps_dangling rsa_destroy"
  by (auto simp: keeps_dangling_def install_key_def the_key_def rsa_destroy_def gets_def release_def thn_def bnd_def dangling_def)

lemma dangling_with_key [dangling_intros]: "(\<And>k. keeps_dangling (f k)) \<Longrightarrow> keeps_dangling (with_key none f)"
  unfolding with_key_def by (intro dangling_intros)

lemma dangling_pairs [dangling_intros]: "keeps_dangling (generateKeys S bits)" "keeps_dangling (load_pem S read pem)" "keeps_dangling (load_der d2i der)"
  by (unfold generateKeys_def load_pem_def load_der_def) (intro dangling_intros)+

lemma dangling_crypt [dangling_intros]: "keeps_dangling (rsa_crypt init padding_ok size_of run k ctx data)"
  unfolding rsa_crypt_def by (intro dangling_intros)

lemma dangling_sign [dangling_intros]: "keeps_dangling (rsa_sign S data)"
  unfolding rsa_sign_def by (intro dangling_intros)

lemma dangling_verify [dangling_intros]: "keeps_dangling (rsa_verify S data signature)"
  unfolding rsa_verify_def by (intro dangling_intros)

lemma dangling_write [dangling_intros]: "keeps_dangling (write_pem S write)" "keeps_dangling (write_der i2d)"
  by (unfold write_pem_def write_der_def) (intro dangling_intros)+

lemma rsa_run_dangling: "keeps_dangling (rsa_run S op)"
  by (cases op; simp only: rsa_run.simps rsa_encrypt_def rsa_decrypt_def getPublicKeyPEM_def getPrivateKeyPEM_def getPublicKeyDER_def
      getPrivateKeyDER_def loadPublicKeyFromPEM_def loadPrivateKeyFromPEM_def loadPublicKeyFromDER_def loadPrivateKeyFromDER_def
      copy_and_destroy_def; intro dangling_intros)

lemma dangling_each: "keeps_dangling (each (\<lambda>(S, op). rsa_run S op) ops)"
  by (induction ops) (auto intro!: dangling_intros rsa_run_dangling)

lemma dangling_destroyed: "dangling s \<Longrightarrow> thn (each (\<lambda>(S, op). rsa_run S op) ops) rsa_destroy s = Inl OutOfBounds"
proof -
  assume "dangling s"
  then consider "each (\<lambda>(S, op). rsa_run S op) ops s = Inl OutOfBounds"
    | s' where "each (\<lambda>(S, op). rsa_run S op) ops s = Inr ((), s')" "dangling s'"
    using dangling_each [of ops] unfolding keeps_dangling_def by (fastforce split: sum.splits)
  then show ?thesis
    by cases (auto simp: thn_def bnd_def rsa_destroy_def gets_def release_def dangling_def)
qed

lemma copied_key:
  assumes "rsa_ok s" and "rw_pkey s \<noteq> None"
  obtains s' where "rsa_run S Copy s = Inr ((), s')" "dangling s'"
proof -
  obtain n k where n: "rw_pkey s = Some (n, k)" using assms(2) by auto
  then have "n \<in> os_live s" "n < os_next s" using assms(1) by (simp_all add: rsa_ok_def)
  with n that [of "s\<lparr>os_live := os_live s - {n}\<rparr>"] show thesis
    by (simp add: copy_and_destroy_def rsa_destroy_def bnd_def gets_def release_def dangling_def)
qed

text \<open>C21: A wrapper that is not copied neither leaks nor frees twice: over any sequence of its operations, whichever of the OpenSSL
  calls in each of them fail, as long as no output is longer than the size OpenSSL has announced, every call finds its context, BIO,
  buffer and key alive, and when the wrapper is destroyed everything it was given has been freed, nothing twice. But if it holds a key
  and is copied once, as the \<open>const\<close> overload of \<open>ZincServer::getRSA\<close> does, the copy frees the key, and whatever is done
  then, an operation or at the latest the destructor uses or frees the key again.\<close>

theorem rsa_frees_everything:
  assumes "list_all (\<lambda>(S, op). ssl_fits S \<and> op \<noteq> Copy) ops"
  shows "\<exists>s. each (\<lambda>(S, op). rsa_run S op) ops (new_RSAWrapper padding :: 'k RSAWrapper) = Inr ((), s)
    \<and> (\<exists>s'. rsa_destroy s = Inr ((), s') \<and> os_live s' = {})
    \<and> (rw_pkey s \<noteq> None \<longrightarrow> thn (each (\<lambda>(S, op). rsa_run S op) ((S', Copy) # ops')) rsa_destroy s = Inl OutOfBounds)"
proof -
  have "keeps_rsa (each (\<lambda>(S :: 'k OpenSSL, op). rsa_run S op) ops)"
    using assms by (intro keeps_each) (auto simp: list_all_iff intro: rsa_run_keeps)
  moreover have "rsa_ok (new_RSAWrapper padding :: 'k RSAWrapper)" by (simp add: rsa_ok_def new_RSAWrapper_def)
  ultimately obtain s where s: "each (\<lambda>(S, op). rsa_run S op) ops (new_RSAWrapper padding :: 'k RSAWrapper) = Inr ((), s)" "rsa_ok s"
    unfolding keeps_rsa_def by fastforce
  moreover have "thn (each (\<lambda>(S, op). rsa_run S op) ((S', Copy) # ops')) rsa_destroy s = Inl OutOfBounds" if loaded: "rw_pkey s \<noteq> None"
  proof -
    obtain s1 where s1: "rsa_run S' Copy s = Inr ((), s1)" "dangling s1" using copied_key [OF s(2) loaded] by blast
    then show ?thesis using dangling_destroyed [OF s1(2), of ops'] by (simp add: thn_def bnd_def del: rsa_run.simps)
  qed
  ultimately show ?thesis using rsa_destroyed [OF s(2)] by blast
qed

text \<open>A library whose keys are numbers, for the witness: it generates the key 7 and fails to sign.\<close>

definition toy_ssl :: "nat OpenSSL" where
  "toy_ssl = \<lparr>ssl_ctx = True, ssl_keygen_init = True, ssl_keygen_bits = (\<lambda>_. True), ssl_generate = (\<lambda>_. Some 7),
     ssl_encrypt_init = True, ssl_decrypt_init = True, ssl_padding = (\<lambda>_. True), ssl_encrypt_size = (\<lambda>k p data. Some (length data)),
     ssl_encrypt = (\<lambda>k p data. Some (rev data)), ssl_decrypt_size = (\<lambda>k p data. Some (length data)), ssl_decrypt = (\<lambda>k p data. Some (rev data)),
     ssl_md_ctx = True, ssl_sign_init = True, ssl_sign_feed = False, ssl_sign_size = (\<lambda>k data. None), ssl_sign = (\<lambda>k data. None),
     ssl_verify_init = True, ssl_verify_feed = True, ssl_verify = (\<lambda>k data s. 0), ssl_bio = True, ssl_write_public = (\<lambda>k. None),
     ssl_write_private = (\<lambda>k. None), ssl_read_public = (\<lambda>n s. Some 8), ssl_read_private = (\<lambda>n s. None), ssl_i2d_public = (\<lambda>k. Some [1]),
     ssl_i2d_private = (\<lambda>k. None), ssl_d2i_public = (\<lambda>n s. None), ssl_d2i_private = (\<lambda>n s. None)\<rparr>"

theorem rsa_frees_everything_witness:
  "\<exists>s. each (\<lambda>(S, op). rsa_run S op) [(toy_ssl, GenerateKeys 1024), (toy_ssl, Sign [1]), (toy_ssl, LoadPublicPEM ''pem''),
      (toy_ssl, PublicDER)] (new_RSAWrapper 4) = Inr ((), s) \<and> (\<exists>s'. rsa_destroy s = Inr ((), s') \<and> os_live s' = {})
    \<and> thn (each (\<lambda>(S, op). rsa_run S op) [(toy_ssl, Copy), (toy_ssl, Encrypt [2])]) rsa_destroy s = Inl OutOfBounds"
proof -
  let ?ops = "[(toy_ssl, GenerateKeys 1024), (toy_ssl, Sign [1]), (toy_ssl, LoadPublicPEM ''pem''), (toy_ssl, PublicDER)]"
  have "list_all (\<lambda>(S, op). ssl_fits S \<and> op \<noteq> Copy) ?ops" by (simp add: ssl_fits_def toy_ssl_def)
  from rsa_frees_everything [OF this, of 4 toy_ssl "[(toy_ssl, Encrypt [2])]"] obtain s where
    s: "each (\<lambda>(S, op). rsa_run S op) ?ops (new_RSAWrapper 4) = Inr ((), s)" "\<exists>s'. rsa_destroy s = Inr ((), s') \<and> os_live s' = {}"
      "rw_pkey s \<noteq> None \<longrightarrow> thn (each (\<lambda>(S, op). rsa_run S op) [(toy_ssl, Copy), (toy_ssl, Encrypt [2])]) rsa_destroy s = Inl OutOfBounds"
    by blast
  from s(1) have "rw_pkey s \<noteq> None"
    by (auto simp: toy_ssl_def new_RSAWrapper_def generateKeys_def rsa_sign_def loadPublicKeyFromPEM_def load_pem_def getPublicKeyDER_def
      write_der_def with_key_def the_key_def give_up_def touch_def alloc_def release_def install_key_def thn_def bnd_def gets_def ret_def)
  with s show ?thesis by blast
qed

text \<open>Before a key is loaded the operations do nothing; with a key, and a library that decrypts what it encrypted, so does the
  wrapper.\<close>

lemma rsa_without_key: "rw_pkey s = None \<Longrightarrow> rsa_ok s \<Longrightarrow> rsa_encrypt S data s = Inr ([], s) \<and> rsa_verify S data signature s = Inr (False, s)"
  by (simp add: rsa_ok_def rsa_encrypt_def rsa_verify_def with_key_def bnd_def gets_def ret_def)

lemma rsa_round_trip:
  assumes "rsa_ok s" and "rw_pkey s = Some (n, k)" and "ssl_ctx S" "ssl_encrypt_init S" "ssl_decrypt_init S" "ssl_padding S (rw_padding s)"
    and "ssl_encrypt_size S k (rw_padding s) data = Some m1" "ssl_encrypt S k (rw_padding s) data = Some c" "length c \<le> m1"
    and "ssl_decrypt_size S k (rw_padding s) c = Some m2" "ssl_decrypt S k (rw_padding s) c = Some data" "length data \<le> m2"
  shows "\<exists>s1 s2. rsa_encrypt S data s = Inr (c, s1) \<and> rsa_decrypt S c s1 = Inr (data, s2)"
  using assms
  by (auto simp: rsa_encrypt_def rsa_decrypt_def with_key_def rsa_crypt_def give_up_def touch_def rsa_ok_def the_key_def alloc_def release_def
      run_simps bnd_def thn_def)

section \<open>Random bytes and zstd\<close>

text \<open>\<open>RAND_bytes\<close> takes an \<open>int\<close>. When it fails the bytes are zeros.\<close>

definition randomBytes :: "(i32 \<Rightarrow> byte list option) \<Rightarrow> nat \<Rightarrow> byte list" where
  "randomBytes rand len = (case rand (int_of_size len) of Some bytes \<Rightarrow> bytes | None \<Rightarrow> replicate len 0)"

record ZStd =
  zstd_compressBound :: "nat \<Rightarrow> nat"
  zstd_compress :: "i32 \<Rightarrow> byte list \<Rightarrow> byte list option"
  zstd_decompress :: "byte list \<Rightarrow> nat \<Rightarrow> byte list option"

definition zstdutil_compress :: "ZStd \<Rightarrow> byte list \<Rightarrow> i32 \<Rightarrow> byte list" where
  "zstdutil_compress z buffer level = (case zstd_compress z level buffer of None \<Rightarrow> []
     | Some out \<Rightarrow> if zstd_compressBound z (length buffer) < length out then [] else out)"

definition zstdutil_uncompress :: "ZStd \<Rightarrow> byte list \<Rightarrow> nat \<Rightarrow> byte list" where
  "zstdutil_uncompress z buffer decompressedSize =
     (if buffer = [] then []
      else (case zstd_decompress z buffer decompressedSize of None \<Rightarrow> []
        | Some out \<Rightarrow> if length out \<noteq> decompressedSize then [] else out))"

lemma zstd_round_trip:
  assumes "zstd_compress z level data = Some c" and "c \<noteq> []" and "length c \<le> zstd_compressBound z (length data)"
    and "zstd_decompress z c (length data) = Some data"
  shows "zstdutil_uncompress z (zstdutil_compress z data level) (length data) = data"
  using assms by (simp add: zstdutil_compress_def zstdutil_uncompress_def)

section \<open>Containers for secrets\<close>

text \<open>\<open>SafeVector\<close>: \<open>at\<close> throws \<open>std::out_of_range\<close> (\<open>None\<close>); \<open>resize\<close> copies into a new vector of zeros.\<close>

definition sv_at :: "nat \<Rightarrow> 'a list \<Rightarrow> 'a option" where
  "sv_at pos v = (if pos < length v then Some (v ! pos) else None)"

definition sv_resize :: "nat \<Rightarrow> 'a::zero list \<Rightarrow> 'a list" where
  "sv_resize newSize v = (if newSize = length v then v
     else let copy_size = min (length v) newSize in take copy_size v @ drop copy_size (replicate newSize 0))"

lemma sv_resize_eq: "sv_resize n v = take n v @ replicate (n - length v) 0"
  by (simp add: sv_resize_def Let_def min_def)

text \<open>\<open>Lockable<SafeVector<unsigned char>>\<close> with what it asks of the operating system and of OpenSSL, in order, with the number of
  bytes, which is the number of elements times the size of the container.\<close>

datatype mem_event = MLock nat | Cleanse nat | MUnlock nat

record Lockable =
  lk_data :: "byte list"
  lk_isLocked :: bool
  lk_events :: "mem_event list"

definition lk_emit :: "mem_event \<Rightarrow> Lockable \<Rightarrow> Lockable" where
  "lk_emit e v = v\<lparr>lk_events := lk_events v @ [e]\<rparr>"

definition lk_lock :: "nat \<Rightarrow> Lockable \<Rightarrow> Lockable" where
  "lk_lock sizeof v = (if lk_data v = [] then v else lk_emit (MLock (length (lk_data v) * sizeof)) (v\<lparr>lk_isLocked := True\<rparr>))"

definition lk_wipe :: "nat \<Rightarrow> Lockable \<Rightarrow> Lockable" where
  "lk_wipe sizeof v = (if lk_data v \<noteq> [] then lk_emit (Cleanse (length (lk_data v) * sizeof)) v else v)"

definition lk_unlock :: "nat \<Rightarrow> Lockable \<Rightarrow> Lockable" where
  "lk_unlock sizeof v = (let v1 = v\<lparr>lk_isLocked := False\<rparr> in
     if lk_data v1 \<noteq> [] \<and> lk_isLocked v1 then lk_emit (MUnlock (length (lk_data v1) * sizeof)) (lk_wipe sizeof v1) else v1)"

definition new_Lockable :: Lockable where
  "new_Lockable = \<lparr>lk_data = [], lk_isLocked = False, lk_events = []\<rparr>"

text \<open>\<open>m_key = Lockable(value)\<close>: the temporary locks its bytes, the assignment unlocks the old ones and takes them over; the
  temporary, empty by then, is destroyed. The events of both are kept in the one that stays.\<close>

definition lk_construct :: "nat \<Rightarrow> byte list \<Rightarrow> Lockable" where
  "lk_construct sizeof value = lk_lock sizeof (new_Lockable\<lparr>lk_data := value\<rparr>)"

definition lk_move_assign :: "nat \<Rightarrow> Lockable \<Rightarrow> Lockable \<Rightarrow> Lockable" where
  "lk_move_assign sizeof other v = (let v1 = lk_unlock sizeof v in
     v1\<lparr>lk_data := lk_data other, lk_isLocked := lk_isLocked other, lk_events := lk_events v1 @ lk_events other\<rparr>)"

definition lk_set :: "nat \<Rightarrow> byte list \<Rightarrow> Lockable \<Rightarrow> Lockable" where
  "lk_set sizeof value v = lk_move_assign sizeof (lk_construct sizeof value) v"

definition lk_destroy :: "nat \<Rightarrow> Lockable \<Rightarrow> Lockable" where
  "lk_destroy = lk_unlock"

text \<open>C35: Secrets stay in memory: \<open>_unlock\<close> clears the flag before it tests it, so whatever keys a \<open>Lockable\<close> is given, one
  after the other, and then destroyed, none is ever wiped and no memory is unlocked again: the events are one lock for each
  key that is not empty.\<close>

theorem lockable_never_wipes:
  "lk_events (lk_destroy sizeof (fold (lk_set sizeof) keys new_Lockable))
     = map (\<lambda>key. MLock (length key * sizeof)) (filter (\<lambda>key. key \<noteq> []) keys)"
proof -
  have "lk_events (fold (lk_set sizeof) keys v) = lk_events v @ map (\<lambda>key. MLock (length key * sizeof)) (filter (\<lambda>key. key \<noteq> []) keys)" for v
    by (induction keys arbitrary: v)
      (simp_all add: lk_set_def lk_move_assign_def lk_construct_def lk_lock_def lk_unlock_def lk_emit_def new_Lockable_def Let_def)
  then show ?thesis by (simp add: lk_destroy_def lk_unlock_def Let_def new_Lockable_def)
qed

section \<open>The other operations of the containers\<close>

text \<open>\<open>SafeVector\<close>: constructors, \<open>clear\<close>, the comparisons, and the move assignment, which leaves the other vector empty; a vector
  assigned to itself stays as it is.\<close>

definition sv_new :: "nat \<Rightarrow> 'a::zero list" where
  "sv_new n = replicate n 0"

definition sv_from :: "'a list \<Rightarrow> 'a list" where
  "sv_from data = data"

definition sv_clear :: "'a list \<Rightarrow> 'a list" where
  "sv_clear v = []"

definition sv_move_assign :: "bool \<Rightarrow> 'a list \<Rightarrow> 'a list \<Rightarrow> 'a list \<times> 'a list" where
  "sv_move_assign same v other = (if \<not> same then (other, []) else (v, other))"

definition sv_eq :: "'a list \<Rightarrow> 'a list \<Rightarrow> bool" where
  "sv_eq v r_val \<longleftrightarrow> r_val = v"

definition sv_ne :: "'a list \<Rightarrow> 'a list \<Rightarrow> bool" where
  "sv_ne v r_val \<longleftrightarrow> r_val \<noteq> v"

text \<open>\<open>TypeContainer\<close> over the bytes of its object; moving an object of a type without pointers copies it.\<close>

definition ty_clear :: "byte list \<Rightarrow> byte list" where
  "ty_clear d = replicate (length d) 0"

definition ty_destroy :: "byte list \<Rightarrow> byte list" where
  "ty_destroy d = ty_clear d"

definition ty_move_assign :: "bool \<Rightarrow> byte list \<Rightarrow> byte list \<Rightarrow> byte list \<times> byte list" where
  "ty_move_assign same d other = (if \<not> same then (other, other) else (d, other))"

definition ty_eq :: "byte list \<Rightarrow> byte list \<Rightarrow> bool" where
  "ty_eq d r_val \<longleftrightarrow> r_val = d"

definition ty_ne :: "byte list \<Rightarrow> byte list \<Rightarrow> bool" where
  "ty_ne d r_val \<longleftrightarrow> r_val \<noteq> d"

text \<open>The move constructor of a \<open>Lockable\<close>: the new object and the one it was made from, which is empty and not locked.\<close>

definition lk_move :: "Lockable \<Rightarrow> Lockable \<times> Lockable" where
  "lk_move other = (new_Lockable\<lparr>lk_data := lk_data other, lk_isLocked := lk_isLocked other\<rparr>,
     other\<lparr>lk_data := [], lk_isLocked := False\<rparr>)"

definition lk_size :: "Lockable \<Rightarrow> nat" where
  "lk_size v = length (lk_data v)"

definition lk_empty :: "Lockable \<Rightarrow> bool" where
  "lk_empty v \<longleftrightarrow> \<not> lk_size v \<noteq> 0"

definition lk_eq :: "Lockable \<Rightarrow> Lockable \<Rightarrow> bool" where
  "lk_eq v r_val \<longleftrightarrow> lk_data r_val = lk_data v"

definition lk_ne :: "Lockable \<Rightarrow> Lockable \<Rightarrow> bool" where
  "lk_ne v r_val \<longleftrightarrow> lk_data r_val \<noteq> lk_data v"

text \<open>A move hands the lock over with the bytes: after it exactly one of the two is locked, if the first was.\<close>

lemma lk_move_once:
  "lk_data (fst (lk_move v)) = lk_data v" "lk_isLocked (fst (lk_move v)) = lk_isLocked v"
  "lk_empty (snd (lk_move v))" "\<not> lk_isLocked (snd (lk_move v))"
  "lk_events (lk_destroy sizeof (snd (lk_move v))) = lk_events v"
  by (simp_all add: lk_move_def lk_empty_def lk_size_def lk_destroy_def lk_unlock_def new_Lockable_def Let_def)

text \<open>Unlike a \<open>Lockable\<close>, a \<open>TypeContainer\<close> is wiped at its end.\<close>

lemma ty_destroy_wipes: "set (ty_destroy d) \<subseteq> {0}"
  by (simp add: ty_destroy_def ty_clear_def set_replicate_conv_if)

end
