(* ===== verification/Startup.thy ===== *)
theory Startup
  imports Server SrvCtl Messenger Config Crypto Wrappers
begin

text \<open>
  The program as a whole: \<open>main\<close> (\<open>src/main.cc\<close>) reads the command line, loads the configuration and starts the servers
  (\<open>ZincServer::start\<close>, \<open>SrvCtlServer::start\<close>, \<open>TCPServer::start\<close>), which take their settings from \<open>g_zincConfig\<close>; and the
  cookie functions of a connection with the \<open>RSAWrapper\<close> that the program gives them.
\<close>

section \<open>Main\<close>

text \<open>What the program gets from outside: the JSON library, what the call of \<open>load\<close> finds (\<open>Draws\<close>), and the bytes drawn for the bridge.\<close>

record Outside =
  out_json :: JsonLib
  out_draws :: Draws
  out_bridge_id :: "byte list"

text \<open>The globals when both threads have been started. A port is the \<open>unsigned short\<close> of its \<open>TCPServer\<close>.\<close>

record Zinc =
  g_crc32 :: CRC32State
  g_zincArguments :: ZincArguments
  g_zincConfig :: ZincConfig
  g_zincMessengerBridge :: MessengerBridge
  g_messengerId :: target_id
  g_zincServer :: ZincServer
  g_zincPort :: "16 word"
  g_srvCtlServer :: SrvCtlServer
  g_srvCtlPort :: "16 word"

datatype main_outcome = Exits nat | Crashes zinc_error | Runs Zinc Files

text \<open>\<open>main\<close> catches exceptions, logs them and exits with 1; undefined behaviour it does not catch.\<close>

definition is_exception :: "zinc_error \<Rightarrow> bool" where
  "is_exception e \<longleftrightarrow> e = LengthError \<or> e = BadOptionalAccess \<or> e = BadFunctionCall \<or> e = JsonTypeError"

definition server_port :: "i32 \<Rightarrow> 16 word" where
  "server_port port = ucast port"

text \<open>\<open>start\<close> of a \<open>TCPServer\<close> returns at once when the port is zero.\<close>

definition listens :: "16 word \<Rightarrow> bool" where
  "listens port \<longleftrightarrow> port \<noteq> 0"

definition zinc_main :: "Outside \<Rightarrow> string list \<Rightarrow> Files \<Rightarrow> main_outcome" where
  "zinc_main I args fs =
     (let crc = initCRC32 crc32_globals
      in case arguments_parse args new_ZincArguments of
           Exited n \<Rightarrow> Exits n
         | Parsed a \<Rightarrow>
             (case config_load (out_json I) (out_draws I) (ar_workDir a) (new_ZincConfig, fs) of
                Inl e \<Rightarrow> if is_exception e then Exits 1 else Crashes e
              | Inr (c, fs') \<Rightarrow>
                  (let bridge = bridge_init (out_bridge_id I) new_MessengerBridge
                   in Runs \<lparr>g_crc32 = crc, g_zincArguments = a, g_zincConfig = c, g_zincMessengerBridge = bridge,
                        g_messengerId = messenger_init (m_serverMessengerId bridge) [],
                        g_zincServer = new_ZincServer (zc_bans c), g_zincPort = server_port (nw_serverPort c),
                        g_srvCtlServer = new_SrvCtlServer, g_srvCtlPort = server_port (nw_srvctlPort c)\<rparr> fs')))"

text \<open>The settings that the handlers read from \<open>g_zincConfig\<close>; the rest of the context is what it was.\<close>

definition config_context :: "ZincConfig \<Rightarrow> Context \<Rightarrow> Context" where
  "config_context c X = X\<lparr>cx_env := (cx_env X)\<lparr>env_threshold := nw_threshold c\<rparr>, cx_maxPlayerCount := nw_maxPlayerCount c,
     cx_motd := nw_motd c, cx_iconBase64 := nw_iconBase64 c, cx_onlineMode := se_onlineMode c, cx_rateLimit := se_rateLimit c,
     cx_maxConcurrentAccount := se_maxConcurrentAccount c, cx_unbanSupport := se_unbanSupport c, cx_viewDistance := op_viewDistance c\<rparr>"

lemma config_context_reloaded:
  "config_context (reloaded_config stale c) X = config_context c (X\<lparr>cx_iconBase64 := []\<rparr>)\<lparr>cx_iconBase64 := []\<rparr>"
  by (simp add: config_context_def reloaded_config_def default_rbac_def)

text \<open>A port outside of 1 to 65535 is cut to 16 bits, and a multiple of 65536 keeps the server from listening, without a message.\<close>

lemma port_65536: "\<not> listens (server_port 65536)" "server_port (- 1) = 65535"
  by (simp_all add: listens_def server_port_def) code_simp

section \<open>Cookies and the key that is never loaded\<close>

text \<open>\<open>m_cookieRSA\<close> as the cookie functions see it: the result of a call on the wrapper in a given state. By \<open>rsa_run_keeps\<close> a
  call of these four is never undefined on a well-formed wrapper with an OpenSSL that keeps to its sizes, so \<open>none\<close> stands for no
  outcome there.\<close>

definition rsa_result :: "'a \<Rightarrow> ('k, 'a) rsa \<Rightarrow> 'k RSAWrapper \<Rightarrow> 'a" where
  "rsa_result none m w = (case m w of Inl _ \<Rightarrow> none | Inr (x, _) \<Rightarrow> x)"

definition cookie_rsa :: "'k OpenSSL \<Rightarrow> 'k RSAWrapper \<Rightarrow> CookieLib \<Rightarrow> CookieLib" where
  "cookie_rsa S w L = L\<lparr>CookieLib.rsa_encrypt := (\<lambda>x. rsa_result [] (Wrappers.rsa_encrypt S x) w),
     CookieLib.rsa_decrypt := (\<lambda>x. rsa_result [] (Wrappers.rsa_decrypt S x) w),
     CookieLib.rsa_sign := (\<lambda>x. rsa_result [] (Wrappers.rsa_sign S x) w),
     CookieLib.rsa_verify := (\<lambda>x s. rsa_result False (Wrappers.rsa_verify S x s) w)\<rparr>"

text \<open>\<open>RSAWrapper m_cookieRSA;\<close>: the default constructor, with OAEP padding (4) and no key. No code calls \<open>generateKeys\<close>
  or a load function on it.\<close>

definition m_cookieRSA :: "'k RSAWrapper" where
  "m_cookieRSA = new_RSAWrapper 4"

lemma cookie_rsa_without_key:
  "CookieLib.rsa_encrypt (cookie_rsa S m_cookieRSA L) x = []" "CookieLib.rsa_decrypt (cookie_rsa S m_cookieRSA L) x = []"
  "CookieLib.rsa_sign (cookie_rsa S m_cookieRSA L) x = []" "\<not> CookieLib.rsa_verify (cookie_rsa S m_cookieRSA L) x s"
  "encode_block (cookie_rsa S m_cookieRSA L) = encode_block L" "decode_block (cookie_rsa S m_cookieRSA L) = decode_block L"
  by (simp_all add: cookie_rsa_def rsa_result_def m_cookieRSA_def new_RSAWrapper_def Wrappers.rsa_encrypt_def Wrappers.rsa_decrypt_def
    Wrappers.rsa_sign_def Wrappers.rsa_verify_def with_key_def bnd_def gets_def ret_def)

lemma base64_empty [simp]: "base64_encode enc [] = []" "base64_decode dec [] = Inr []"
  by (simp_all add: base64_encode_def base64_decode_def)

end
