(* ===== verification/Lifecycle.thy ===== *)
theory Lifecycle
  imports Startup
begin

text \<open>
  What the program does around its callbacks: the log (\<open>src/util/Logger.cpp\<close>), the event loop of a \<open>TCPServer\<close>
  (\<open>src/network/TCPServer.cpp\<close>) and the start and the end of the two servers. An operation answers the calls it makes,
  in order, and the object afterwards, or no object when it called \<open>exit\<close>.
\<close>

section \<open>The log\<close>

datatype call = Logged string string string | Base_New | Base_Free | Bind "16 word" | Listener_Free | Dispatch
  | Curl_Initialize | Curl_Terminate | Generate_Keys i32 | Exit nat

type_synonym 's calls = "call list \<times> 's option"

definition and_then :: "'s calls \<Rightarrow> ('s \<Rightarrow> 't calls) \<Rightarrow> 't calls" where
  "and_then r f = (case r of (xs, None) \<Rightarrow> (xs, None) | (xs, Some s) \<Rightarrow> (case f s of (ys, t) \<Rightarrow> (xs @ ys, t)))"

definition calling :: "call \<Rightarrow> 's \<Rightarrow> 's calls" where
  "calling c s = ([c], Some s)"

text \<open>The line that a call of the log prints, with the time of day.\<close>

definition log_line :: "nat \<times> nat \<times> nat \<Rightarrow> string \<Rightarrow> string \<Rightarrow> string \<Rightarrow> string" where
  "log_line tm type loggerName message = (case tm of (h, m, s) \<Rightarrow>
     ''['' @ nat_to_string h @ '':'' @ nat_to_string m @ '':'' @ nat_to_string s @ ''] ['' @ loggerName @ ''/'' @ type @ ''] ''
     @ message @ [CHR 0x0A])"

definition log_info :: "string \<Rightarrow> string \<Rightarrow> 's \<Rightarrow> 's calls" where
  "log_info loggerName message = calling (Logged ''INFO'' loggerName message)"

definition log_warning :: "string \<Rightarrow> string \<Rightarrow> 's \<Rightarrow> 's calls" where
  "log_warning loggerName message = calling (Logged ''WARNING'' loggerName message)"

text \<open>A fatal error calls \<open>exit(1)\<close>. The call does not come back; the runtime then destroys the static objects, a server by its
  destructor below.\<close>

definition log_error :: "string \<Rightarrow> string \<Rightarrow> bool \<Rightarrow> 's \<Rightarrow> 's calls" where
  "log_error loggerName message isFatal s = (if isFatal then ([Logged ''ERROR'' loggerName message, Exit 1], None)
     else ([Logged ''ERROR'' loggerName message], Some s))"

definition log_debug :: "bool \<Rightarrow> string \<Rightarrow> string \<Rightarrow> 's \<Rightarrow> 's calls" where
  "log_debug debug loggerName message s = (if \<not> debug then ([], Some s) else calling (Logged ''DEBUG'' loggerName message) s)"

section \<open>TCPServer\<close>

text \<open>\<open>m_base\<close> and \<open>m_listener\<close> are null or not; whether libevent can make them is an argument.\<close>

record TCPServer =
  ts_started :: bool
  ts_port :: "16 word"
  ts_base :: bool
  ts_listener :: bool

definition new_TCPServer :: TCPServer where
  "new_TCPServer = \<lparr>ts_started = False, ts_port = 0, ts_base = False, ts_listener = False\<rparr>"

definition mk_TCPServer :: "bool \<Rightarrow> 16 word \<Rightarrow> TCPServer calls" where
  "mk_TCPServer base_ok port = and_then (calling Base_New (new_TCPServer\<lparr>ts_port := port, ts_base := base_ok\<rparr>))
     (\<lambda>s. if \<not> ts_base s then log_error ''TCPServer'' ''Failed to create event base'' True s else ([], Some s))"

text \<open>\<open>event_base_dispatch\<close> returns when the loop has no events any more.\<close>

definition tcp_start :: "bool \<Rightarrow> (16 word \<Rightarrow> bool) \<Rightarrow> TCPServer \<Rightarrow> TCPServer calls" where
  "tcp_start debug bind_ok s =
     (if \<not> listens (ts_port s) then ([], Some s)
      else if \<not> ts_base s then ([], Some s)
      else and_then (calling (Bind (ts_port s)) (s\<lparr>ts_listener := bind_ok (ts_port s)\<rparr>))
        (\<lambda>s. and_then (if \<not> ts_listener s then log_error ''TCPServer'' ''Failed to create listener'' True s else ([], Some s))
        (\<lambda>s. and_then (log_debug debug ''TCPServer'' ''Started TCPServer'' s)
        (\<lambda>s. calling Dispatch (s\<lparr>ts_started := True\<rparr>)))))"

definition tcp_stop :: "bool \<Rightarrow> TCPServer \<Rightarrow> TCPServer calls" where
  "tcp_stop debug s = (if \<not> ts_started s then ([], Some s)
     else and_then (log_debug debug ''TCPServer'' ''Stopped TCPServer'' s)
       (\<lambda>s. if ts_listener s then calling Listener_Free (s\<lparr>ts_listener := False\<rparr>) else ([], Some s)))"

definition tcp_setPort :: "16 word \<Rightarrow> TCPServer \<Rightarrow> TCPServer" where
  "tcp_setPort port s = s\<lparr>ts_port := port\<rparr>"

definition tcp_destroy :: "bool \<Rightarrow> TCPServer \<Rightarrow> unit calls" where
  "tcp_destroy debug s = (if ts_port s = 0 then ([], Some ())
     else and_then (tcp_stop debug s) (\<lambda>s. if ts_base s then calling Base_Free () else ([], Some ())))"

section \<open>The two servers\<close>

text \<open>The members of \<open>ZincServer\<close> and \<open>SrvCtlServer\<close> that start and stop use; \<open>m_init\<close> is true in both.\<close>

record Shell =
  sh_started :: bool
  sh_port :: i32
  sh_server :: TCPServer

definition mk_ZincServer :: "bool \<Rightarrow> Shell calls" where
  "mk_ZincServer base_ok = and_then (mk_TCPServer base_ok 25565) (\<lambda>s. ([], Some \<lparr>sh_started = False, sh_port = 25565, sh_server = s\<rparr>))"

definition mk_SrvCtlServer :: "bool \<Rightarrow> Shell calls" where
  "mk_SrvCtlServer base_ok = and_then (mk_TCPServer base_ok 25575) (\<lambda>s. ([], Some \<lparr>sh_started = False, sh_port = 25575, sh_server = s\<rparr>))"

definition shell_setPort :: "i32 \<Rightarrow> Shell \<Rightarrow> Shell" where
  "shell_setPort port s = s\<lparr>sh_port := port, sh_server := tcp_setPort (server_port port) (sh_server s)\<rparr>"

definition on_server :: "(TCPServer \<Rightarrow> TCPServer calls) \<Rightarrow> Shell \<Rightarrow> Shell calls" where
  "on_server f s = and_then (f (sh_server s)) (\<lambda>t. ([], Some (s\<lparr>sh_server := t\<rparr>)))"

definition zinc_start :: "bool \<Rightarrow> (16 word \<Rightarrow> bool) \<Rightarrow> Shell \<Rightarrow> Shell calls" where
  "zinc_start debug bind_ok s = and_then (calling (Generate_Keys 1024) s)
     (\<lambda>s. and_then (log_info ''ZincServer'' (''Zinc listening on port '' @ int_to_string (sint (sh_port s))) s)
     (\<lambda>s. and_then (calling Curl_Initialize (s\<lparr>sh_started := True\<rparr>))
     (\<lambda>s. on_server (tcp_start debug bind_ok) s)))"

definition zinc_stop :: "bool \<Rightarrow> Shell \<Rightarrow> Shell calls" where
  "zinc_stop debug s = (if \<not> sh_started s then ([], Some s)
     else and_then (log_info ''ZincServer'' ''Zinc stopped'' s)
       (\<lambda>s. and_then (calling Curl_Terminate s) (\<lambda>s. on_server (tcp_stop debug) s)))"

definition zinc_destroy :: "bool \<Rightarrow> Shell \<Rightarrow> unit calls" where
  "zinc_destroy debug s = and_then (zinc_stop debug s) (\<lambda>s. tcp_destroy debug (sh_server s))"

definition srvctl_start :: "bool \<Rightarrow> (16 word \<Rightarrow> bool) \<Rightarrow> Shell \<Rightarrow> Shell calls" where
  "srvctl_start debug bind_ok s =
     and_then (log_info ''SrvCtlServer'' (''SrvCtl listening on port '' @ int_to_string (sint (sh_port s))) s)
     (\<lambda>s. on_server (tcp_start debug bind_ok) (s\<lparr>sh_started := True\<rparr>))"

definition srvctl_stop :: "bool \<Rightarrow> Shell \<Rightarrow> Shell calls" where
  "srvctl_stop debug s = (if \<not> sh_started s then ([], Some s)
     else and_then (log_info ''SrvCtlServer'' ''SrvCtl stopped'' s) (\<lambda>s. on_server (tcp_stop debug) s))"

definition srvctl_destroy :: "bool \<Rightarrow> Shell \<Rightarrow> unit calls" where
  "srvctl_destroy debug s = and_then (srvctl_stop debug s) (\<lambda>s. tcp_destroy debug (sh_server s))"

text \<open>\<open>getClient\<close> of a descriptor that is not in the table ends the process.\<close>

definition zinc_getClient :: "i32 \<Rightarrow> ZincServer \<Rightarrow> ZincConnection calls" where
  "zinc_getClient fd s = (case sv_clients s fd of
     None \<Rightarrow> log_error ''ZincServer'' ''Attempted to get unknown client'' True (new_ZincConnection [])
   | Some c \<Rightarrow> ([], Some c))"

definition srvctl_getClient :: "nat \<Rightarrow> SrvCtlServer \<Rightarrow> SrvCtlConnection calls" where
  "srvctl_getClient fd s = (case sc_clients s fd of
     None \<Rightarrow> log_error ''SrvCtlServer'' ''Attempted to get unknown client'' True (new_SrvCtlConnection fd)
   | Some c \<Rightarrow> ([], Some c))"

section \<open>From the constructor to the destructor\<close>

fun zinc_stops :: "nat \<Rightarrow> bool \<Rightarrow> Shell \<Rightarrow> Shell calls" where
  "zinc_stops 0 debug s = ([], Some s)"
| "zinc_stops (Suc n) debug s = and_then (zinc_stop debug s) (zinc_stops n debug)"

definition zinc_life :: "bool \<Rightarrow> (16 word \<Rightarrow> bool) \<Rightarrow> i32 \<Rightarrow> nat \<Rightarrow> unit calls" where
  "zinc_life debug bind_ok port n = and_then (mk_ZincServer True) (\<lambda>s. and_then (zinc_start debug bind_ok (shell_setPort port s))
     (\<lambda>s. and_then (zinc_stops n debug s) (zinc_destroy debug)))"

text \<open>The calls without those of the log.\<close>

fun is_effect :: "call \<Rightarrow> bool" where
  "is_effect (Logged type loggerName message) = False"
| "is_effect _ = True"

definition effects :: "'s calls \<Rightarrow> call list" where
  "effects r = filter is_effect (fst r)"

lemma effects_simps [simp]:
  "effects ([], t) = []"
  "effects (and_then r f) = effects r @ (case snd r of None \<Rightarrow> [] | Some s \<Rightarrow> effects (f s))"
  "snd (and_then r f) = (case snd r of None \<Rightarrow> None | Some s \<Rightarrow> snd (f s))"
  "effects (calling c s) = (if is_effect c then [c] else [])" "snd (calling c s) = Some s"
  "effects (log_info n m s) = []" "snd (log_info n m s) = Some s"
  "effects (log_error n m fatal s) = (if fatal then [Exit 1] else [])" "snd (log_error n m fatal s) = (if fatal then None else Some s)"
  "effects (log_debug debug n m s) = []" "snd (log_debug debug n m s) = Some s"
  by (auto simp: effects_def and_then_def calling_def log_info_def log_error_def log_debug_def split: prod.splits option.splits)

lemmas shell_simps = mk_ZincServer_def mk_TCPServer_def zinc_start_def zinc_stop_def zinc_destroy_def on_server_def shell_setPort_def
  tcp_setPort_def tcp_start_def tcp_stop_def tcp_destroy_def

definition running :: "bool \<Rightarrow> i32 \<Rightarrow> Shell" where
  "running listener port = \<lparr>sh_started = True, sh_port = port,
     sh_server = \<lparr>ts_started = listens (server_port port), ts_port = server_port port, ts_base = True, ts_listener = listener\<rparr>\<rparr>"

lemma zinc_starts:
  assumes "bind_ok (server_port port)"
  shows "effects (and_then (mk_ZincServer True) (\<lambda>s. zinc_start debug bind_ok (shell_setPort port s)))
      = [Base_New, Generate_Keys 1024, Curl_Initialize] @ (if listens (server_port port) then [Bind (server_port port), Dispatch] else [])"
    and "snd (and_then (mk_ZincServer True) (\<lambda>s. zinc_start debug bind_ok (shell_setPort port s))) = Some (running (listens (server_port port)) port)"
  using assms by (simp_all add: shell_simps running_def new_TCPServer_def)

lemma zinc_stop_running:
  "effects (zinc_stop debug (running listener port)) = Curl_Terminate # (if listener \<and> listens (server_port port) then [Listener_Free] else [])"
  "snd (zinc_stop debug (running listener port)) = Some (running (listener \<and> \<not> listens (server_port port)) port)"
  by (auto simp: shell_simps running_def)

lemma zinc_stops_running:
  "effects (zinc_stops n debug (running False port)) = replicate n Curl_Terminate"
  "snd (zinc_stops n debug (running False port)) = Some (running False port)"
  by (induction n) (simp_all add: zinc_stop_running)

lemma zinc_destroy_running:
  "effects (zinc_destroy debug (running listener port)) = Curl_Terminate # (if listener \<and> listens (server_port port) then [Listener_Free] else [])
     @ (if listens (server_port port) then [Base_Free] else [])"
  by (auto simp: shell_simps running_def listens_def)

lemma and_then_assoc: "and_then (and_then r f) g = and_then r (\<lambda>s. and_then (f s) g)"
  by (auto simp: and_then_def split: prod.splits option.splits)

text \<open>C34: From the constructor to the destructor, with any number of calls of \<open>stop\<close> in between, a server whose port is not a multiple of
  65536 binds its port once and frees its listener and its event base exactly once, in this order; but each \<open>stop\<close> and then the
  destructor terminates cURLpp, which was initialised once. With a port that is a multiple of 65536 it neither
  listens nor frees the event base.\<close>

theorem server_life:
  assumes "bind_ok (server_port port)"
  shows "effects (zinc_life debug bind_ok port n) = [Base_New, Generate_Keys 1024, Curl_Initialize]
    @ (if listens (server_port port) then [Bind (server_port port), Dispatch, Curl_Terminate, Listener_Free] @ replicate n Curl_Terminate @ [Base_Free]
       else replicate (n + 1) Curl_Terminate)"
proof -
  let ?l = "listens (server_port port)"
  have "effects (and_then (zinc_stops n debug (running ?l port)) (zinc_destroy debug)) =
      (if ?l then [Curl_Terminate, Listener_Free] @ replicate n Curl_Terminate @ [Base_Free] else replicate (n + 1) Curl_Terminate)"
  proof (cases n)
    case 0
    then show ?thesis by (simp add: zinc_destroy_running)
  next
    case (Suc k)
    then show ?thesis
      by (cases ?l) (simp_all add: zinc_stop_running zinc_stops_running zinc_destroy_running replicate_append_same)
  qed
  then show ?thesis using zinc_starts [of bind_ok port debug] assms
    unfolding zinc_life_def and_then_assoc [symmetric] by simp
qed

theorem server_life_witness:
  "effects (zinc_life True (\<lambda>_. True) 25565 1) = [Base_New, Generate_Keys 1024, Curl_Initialize, Bind 25565, Dispatch,
     Curl_Terminate, Listener_Free, Curl_Terminate, Base_Free]"
  using server_life [of "\<lambda>_. True" 25565 True 1] by (simp add: listens_def server_port_def)

text \<open>A port that cannot be bound ends the process; so does asking for a client that is not connected, and the callbacks never do.\<close>

lemma bind_fails:
  "listens (server_port port) \<Longrightarrow> snd (zinc_life debug (\<lambda>_. False) port n) = None"
  by (simp add: zinc_life_def shell_simps new_TCPServer_def)

lemma known_client: "isConnected fd s \<Longrightarrow> zinc_getClient fd s = ([], sv_clients s fd)"
  by (auto simp: zinc_getClient_def isConnected_def)

lemma unknown_client: "\<not> isConnected fd s \<Longrightarrow> snd (zinc_getClient fd s) = None"
  by (simp add: zinc_getClient_def isConnected_def)

text \<open>Only a fatal error ends the process; a message for debugging is printed only when asked for.\<close>

lemma log_levels:
  "snd (log_error name message False s) = Some s" "snd (log_warning name message s) = Some s"
  "fst (log_debug False name message s) = []" "fst (log_error name message fatal s) = Logged ''ERROR'' name message # (if fatal then [Exit 1] else [])"
  by (simp_all add: log_error_def log_warning_def calling_def log_debug_def)

end
