(* ===== verification/Unit_Tests.thy ===== *)
theory Unit_Tests
  imports Value_Types NBT
begin

text \<open>
  The unit tests of the buffer (\<open>test/test_ByteBuffer.cpp\<close>) and of NBT (\<open>test/test_NBT.cpp\<close>) on the model: what they write is read back, and every expectation holds.
  \<open>1.3f\<close> and \<open>1.6\<close> are their bit patterns.
\<close>

section \<open>Numbers\<close>

definition test_write_numeric :: "unit bb" where
  "test_write_numeric =
    thn (writeByte (1 :: byte))
    (thn (writeUnsignedByte (1 :: byte))
    (thn (writeNumeric (1 :: i16))
    (thn (writeNumeric (1 :: i16))
    (thn (writeNumeric (1 :: i32))
    (thn (writeNumeric (1 :: i32))
    (thn (writeNumeric (1 :: i64))
    (thn (writeNumeric (1 :: i64))
    (thn (writeNumeric (0x3FA66666 :: i32))
    (thn (writeNumeric (0x3FF999999999999A :: i64))
    (thn (writeVarNumeric (20 :: i32))
    (thn (writeVarNumeric ((- 40) :: i64))
    (thn (writeZigZagVarNumeric (20 :: i32))
    (writeZigZagVarNumeric ((- 40) :: i64))))))))))))))"

definition test_read_numeric :: "bool bb" where
  "test_read_numeric =
    bnd readByte (\<lambda>x0. 
    bnd readUnsignedByte (\<lambda>x1. 
    bnd readNumeric (\<lambda>x2. 
    bnd readNumeric (\<lambda>x3. 
    bnd readNumeric (\<lambda>x4. 
    bnd readNumeric (\<lambda>x5. 
    bnd readNumeric (\<lambda>x6. 
    bnd readNumeric (\<lambda>x7. 
    bnd readNumeric (\<lambda>x8. 
    bnd readNumeric (\<lambda>x9. 
    bnd (readVarNumeric True) (\<lambda>x10. 
    bnd (readVarNumeric True) (\<lambda>x11. 
    bnd readZigZagVarNumeric (\<lambda>x12. 
    bnd readZigZagVarNumeric (\<lambda>x13. ret (x0 = (1 :: byte) \<and> x1 = (1 :: byte) \<and> x2 = (1 :: i16) \<and> x3 = (1 :: i16) \<and> x4 = (1 :: i32) \<and> x5 = (1 :: i32) \<and> x6 = (1 :: i64) \<and> x7 = (1 :: i64) \<and> x8 = (0x3FA66666 :: i32) \<and> x9 = (0x3FF999999999999A :: i64) \<and> x10 = (20 :: i32) \<and> x11 = ((- 40) :: i64) \<and> x12 = (20 :: i32) \<and> x13 = ((- 40) :: i64))))))))))))))))"

definition test_numeric :: "bool \<Rightarrow> zinc_error + bool" where
  "test_numeric bigEndian = map_sum id fst (bnd test_write_numeric (\<lambda>_. test_read_numeric) (new_bb bigEndian))"

section \<open>Strings\<close>

definition test_strings :: "zinc_error + bool" where
  "test_strings = (let identifier = \<lparr>m_namespace = ''zinc'', m_object = ''test''\<rparr> in
     map_sum id fst (bnd (thn (writeString ''Hello World!'') (writeIdentifier identifier))
       (\<lambda>_. bnd readString (\<lambda>s. bnd readIdentifier (\<lambda>i. ret (s = ''Hello World!'' \<and> Identifier_eq i identifier)))) (new_bb True)))"

lemma test_passes:
  assumes "appends be w xs" and "reads be r xs True"
  shows "map_sum id fst (bnd w (\<lambda>_. r) (new_bb be)) = Inr True"
  using write_read [OF assms] by auto

lemma reads_unsigned_byte [reads_intros]: "reads be readUnsignedByte [c] c"
  by (simp add: readUnsignedByte_def reads_readByte)

lemma numeric_test: "test_numeric be = Inr True"
proof -
  have "\<exists>xs. appends be test_write_numeric xs \<and> reads be test_read_numeric xs True"
    unfolding test_write_numeric_def test_read_numeric_def writeUnsignedByte_def
    by (rule exI conjI) (rule exI conjI appends_intros reads_bnd [OF reads_readByte] reads_bnd [OF reads_unsigned_byte] reads_bnd [OF reads_readNumeric_16]
      reads_bnd [OF reads_readNumeric_32] reads_bnd [OF reads_readNumeric_64] reads_bnd [OF reads_readVarNumeric] reads_bnd_ret [OF reads_readZigZag]
      reads_bnd [OF reads_readZigZag] | simp)+
  then show ?thesis using test_passes by (auto simp: test_numeric_def)
qed

lemma strings_test: "test_strings = Inr True"
proof -
  let ?i = "\<lparr>m_namespace = ''zinc'', m_object = ''test''\<rparr>"
  have ok: "identifier_ok ?i" by (simp add: identifier_ok_def Identifier_toString_def)
  have "appends True (thn (writeString ''Hello World!'') (writeIdentifier ?i)) (string_bytes ''Hello World!'' @ identifier_bytes ?i)"
    by (intro appends_intros)
  moreover have "reads True (bnd readString (\<lambda>s. bnd readIdentifier (\<lambda>i. ret (s = ''Hello World!'' \<and> Identifier_eq i ?i))))
      (string_bytes ''Hello World!'' @ identifier_bytes ?i) True"
    by (rule reads_bnd [OF reads_readString reads_bnd_ret [OF reads_readIdentifier [OF ok]]]) (simp_all add: Identifier_eq_def)
  ultimately show ?thesis using test_passes by (simp add: test_strings_def Let_def)
qed

section \<open>NBT\<close>

text \<open>The element of the tests of NBT (\<open>test/test_NBT.cpp\<close>); \<open>1.1f\<close> and the double of \<open>2.2f\<close> are their bit patterns.\<close>

definition test_element :: NBTElement where
  "test_element = (let s = default_NBTSettings in mk_Compound [
     with_tag ''description'' (mk_Compound [with_tag ''text'' (mk_String ''Hello World!'' s)] s),
     with_tag ''array'' (mk_List [mk_Int 1 s, mk_Int 2 s] s),
     with_tag ''earray'' (mk_List [] s),
     with_tag ''ints'' (mk_IntArray [1, 2, 3] s),
     with_tag ''longs'' (mk_LongArray [1, 2, 3] s),
     with_tag ''bytes'' (mk_ByteArray [1, 2, 3] s),
     with_tag ''eints'' (mk_IntArray [] s),
     with_tag ''elongs'' (mk_LongArray [] s),
     with_tag ''ebytes'' (mk_ByteArray [] s),
     with_tag ''int'' (mk_Int 1 s),
     with_tag ''long'' (mk_Long 2 s),
     with_tag ''float'' (mk_Float 0x3F8CCCCD s),
     with_tag ''double'' (mk_Double 0x40019999A0000000 s),
     with_tag ''byte'' (mk_Byte 73 s),
     with_tag ''short'' (mk_Short 12 s)] s)"

definition test_NBT :: "bool \<Rightarrow> zinc_error + bool" where
  "test_NBT bigEndian = ebind (nbt_encode test_element (new_bb bigEndian)) (\<lambda>(_, buffer).
     ebind (nbt_decode (2 * bb_size buffer) (new_NBT default_NBTSettings) buffer) (\<lambda>(element, _). Inr (nbt_eq test_element element)))"

lemmas test_element_simps = test_element_def mk_Compound_def mk_String_def mk_List_def mk_Int_def mk_IntArray_def mk_LongArray_def mk_ByteArray_def
  mk_Long_def mk_Float_def mk_Double_def mk_Byte_def mk_Short_def with_tag_def new_fields_def

lemma test_element_ok:
  "nbt_valid (nbt_abs test_element)" "type_of_nbt (nbt_abs test_element) = nbt_type test_element" "nbt_type test_element \<noteq> NBT_End"
  "length (nbt_tag test_element) < 2 ^ 16" "m_settings (m_fields test_element) = default_NBTSettings"
  by (simp_all add: test_element_simps Let_def)

lemma test_element_eq: "nbt_eq test_element (nbt_elem be default_NBTSettings (nbt_tag test_element) (nbt_abs test_element))"
  by (cases be) code_simp+

lemma NBT_test: "test_NBT be = Inr True"
  using nbt_decode_encoded [OF test_element_ok, of be] by (auto simp: test_NBT_def ebind_def test_element_eq)

text \<open>The comparison does not look at tags, so these tests would pass with every tag lost.\<close>

lemma nbt_eq_ignores_tags: "nbt_eq e (with_tag tag f) = nbt_eq e f"
  by (cases e; cases f) (auto simp: with_tag_def split: NBTElementType.split)

lemma renamed_entry_is_equal:
  "nbt_eq (mk_Compound [with_tag ''x'' (mk_Int 1 s)] s) (mk_Compound [with_tag ''z'' (mk_Int 1 s)] s)"
  by (simp add: mk_Compound_def nbt_eq_ignores_tags) (simp add: mk_Int_def with_tag_def new_fields_def)

end
