(* ===== verification/Game_Type_Tests.thy ===== *)
theory Game_Type_Tests
  imports Unit_Tests Chunk_Data Floating Bit_Set
begin

text \<open>
  The test of the game types (\<open>test/test_ByteBuffer.cpp\<close>): eighteen values of different types are written one after the other into
  one buffer and read back in the same order. The UUID comes from the library, here any 16 bytes.
\<close>

section \<open>The test\<close>

text \<open>What is written, and what is read with the expectation that it meets.\<close>

type_synonym expectation = "unit bb \<times> bool bb"

definition expect :: "unit bb \<Rightarrow> 'a bb \<Rightarrow> ('a \<Rightarrow> bool) \<Rightarrow> expectation" where
  "expect w r p = (w, bnd r (\<lambda>x. ret (p x)))"

fun read_expectations :: "bool bb list \<Rightarrow> bool bb" where
  "read_expectations [] = ret True"
| "read_expectations (r # rs) = bnd r (\<lambda>a. bnd (read_expectations rs) (\<lambda>b. ret (a \<and> b)))"

definition run_expectations :: "expectation list \<Rightarrow> zinc_error + bool" where
  "run_expectations es = map_sum id fst (bnd (each fst es) (\<lambda>_. read_expectations (map snd es)) (new_bb True))"

definition test_identifier :: Identifier where
  "test_identifier = \<lparr>m_namespace = ''zinc'', m_object = ''test''\<rparr>"

definition test_event :: SoundEvent where
  "test_event = SoundEvent_setFixedRange 0x447A0000 (SoundEvent_new test_identifier)"

definition test_bits :: BitSet where
  "test_bits = (case bs_set 100 new_BitSet of Inr b \<Rightarrow> b | Inl _ \<Rightarrow> new_BitSet)"

definition test_flags :: TeleportFlags where
  "test_flags = setRelPitch True no_flags"

definition test_chat :: ChatType where
  "test_chat = (let d = (\<lambda>s. \<lparr>cd_translationKey = s, cd_parameters = [], cd_style = new_NBT default_NBTSettings\<rparr>)
     in \<lparr>ct_chat = d ''hi'', ct_narration = d ''hello''\<rparr>)"

definition game_type_expectations :: "byte list \<Rightarrow> expectation list" where
  "game_type_expectations UUID =
    [expect (writePosition (mk_Vector3 298 16 (- 1922))) readPosition (\<lambda>v. Vector3_eq (=) v (mk_Vector3 298 16 (- 1922))),
     expect (writeAngle 0x3E000000) readAngle (\<lambda>a. float_eq a 0x3E000000),
     expect (writeUUID UUID) readUUID (\<lambda>u. u = UUID),
     expect (writePrefixedOptional writeString (Some ''Hi!'')) (readPrefixedOptional readString) (\<lambda>s. s = Some ''Hi!''),
     expect (writePrefixedOptional writeString None) (readPrefixedOptional readString) (\<lambda>s. s = None),
     expect (writePrefixedArray writeVarInt [1, 2, 3]) (readPrefixedArray readVarInt) (\<lambda>xs. xs = [1, 2, 3]),
     expect (writePrefixedByteArray [1, 2, 3, 4, 5]) readPrefixedByteArray (\<lambda>xs. xs = [1, 2, 3, 4, 5]),
     expect (writeIDorX [] writeString (IDorX_of_value ''Hello'')) (readIDorX readString) (\<lambda>x. IDorX_getValue [] x = ''Hello''),
     expect (writeIDorX [] writeString (IDorX_of_id 123)) (readIDorX readString) (\<lambda>x. x_id x = 123),
     expect (writeIDSet (IDSet_of_identifier test_identifier)) readIDSet (\<lambda>s. Identifier_eq (m_identifier s) test_identifier),
     expect (writeIDSet (IDSet_of_ids [1, 2, 3, 4, 5, 6])) readIDSet (\<lambda>s. m_ids s = [1, 2, 3, 4, 5, 6]),
     expect (writeSoundEvent test_event) readSoundEvent (\<lambda>e. SoundEvent_eq e test_event = Inr True),
     expect (writeBitSet test_bits) readBitSet (\<lambda>b. bs_eq b test_bits),
     expect (writeFixedBitSet test_bits) (readFixedBitSet (length (toByteArray test_bits))) (\<lambda>b. bs_eq b test_bits),
     expect (writeEnumSet [0, 2]) (readEnumSet 1) (\<lambda>es. es = [0, 2]),
     expect (writeTeleportFlags test_flags) readTeleportFlags (\<lambda>f. f = test_flags),
     expect (writeNBTElement test_element) readNBT (\<lambda>e. nbt_eq e test_element),
     expect (writeChatType test_chat) readChatType (\<lambda>c. ChatType_eq c test_chat)]"

definition test_game_types :: "byte list \<Rightarrow> zinc_error + bool" where
  "test_game_types UUID = run_expectations (game_type_expectations UUID)"

section \<open>It passes\<close>

definition meets :: "expectation \<Rightarrow> bool" where
  "meets e \<longleftrightarrow> (\<exists>xs. appends True (fst e) xs \<and> reads True (snd e) xs True)"

lemma meetsI: "appends True w xs \<Longrightarrow> reads True r xs x \<Longrightarrow> p x \<Longrightarrow> meets (expect w r p)"
  unfolding meets_def expect_def by (auto intro!: exI [of _ xs] reads_bnd_ret)

lemma meets_all:
  "\<forall>e \<in> set es. meets e \<Longrightarrow> \<exists>xs. appends True (each fst es) xs \<and> reads True (read_expectations (map snd es)) xs True"
proof (induction es)
  case Nil
  show ?case by (auto simp: reads_ret intro!: exI [of _ "[]"] appends_ret)
next
  case (Cons e es)
  then obtain xs ys where "appends True (fst e) xs" "reads True (snd e) xs True"
    "appends True (each fst es) ys" "reads True (read_expectations (map snd es)) ys True" by (auto simp: meets_def)
  then show ?case
    by (auto intro!: exI [of _ "xs @ ys"] appends_thn reads_bnd [where xs = xs] reads_bnd_ret)
qed

lemma run_expectations: "\<forall>e \<in> set es. meets e \<Longrightarrow> run_expectations es = Inr True"
  unfolding run_expectations_def using meets_all test_passes by blast

lemma reads_readNBT_end: "reads True readNBT [0] (nbt_elem True network_settings [] NEnd)"
  unfolding reads_def
proof (intro allI impI, elim conjE)
  fix b rest
  assume b: "bb_wf b" "m_isBigEndian b = True" "bb_unread b = [0] @ rest"
  have "reads True (nbt_decode (2 * bb_size b + 2) (new_NBT network_settings)) [0] (nbt_elem True network_settings [] NEnd)"
    using reads_nbt_decode [of True network_settings "[]" NEnd "2 * bb_size b + 2"] by (simp add: nbt_header_def decodable_def network_settings_def default_NBTSettings_def)
  from this b obtain b' where "nbt_decode (2 * bb_size b + 2) (new_NBT network_settings) b
      = Inr (nbt_elem True network_settings [] NEnd, b')" "bb_wf b'" "m_isBigEndian b' = True" "bb_unread b' = rest"
    by (rule readsE)
  then show "\<exists>b'. readNBT b = Inr (nbt_elem True network_settings [] NEnd, b') \<and> bb_wf b'
      \<and> m_isBigEndian b' = True \<and> bb_unread b' = rest"
    by (simp add: readNBT_def bnd_def gets_def readNBTElement_def)
qed

lemma appends_NBT_end: "appends True (writeNBTElement (new_NBT default_NBTSettings)) [0]"
  using appends_nbt_encode [of True network_settings "new_NBT default_NBTSettings"]
  by (simp add: writeNBTElement_def nbt_header_def new_NBT_def new_fields_def network_settings_def default_NBTSettings_def)

lemma test_bits: "toByteArray test_bits = replicate 12 0 @ [16]" "toLongArray test_bits = [0, 0x1000000000]"
  "bs_eq (fromByteArray (replicate 12 0 @ [16])) test_bits" "bs_eq (fromLongArray [0, 0x1000000000]) test_bits"
  by code_simp+

lemma enum_bits: "(case set_all [0, 2] new_BitSet of Inr b \<Rightarrow> toByteArray b | Inl _ \<Rightarrow> []) = [5]"
  "filter (\<lambda>i. bs_get i (fromByteArray [5])) (map word_of_nat [0..<1 * 8]) = [0, 2]"
  by code_simp+

lemma test_identifier_ok: "identifier_ok test_identifier"
  by (simp add: test_identifier_def identifier_ok_def Identifier_toString_def)

lemma float_eq_eighth: "float_eq 0x3E000000 0x3E000000"
  by code_simp

lemma meets_values:
  "meets (expect (writePosition (mk_Vector3 298 16 (- 1922))) readPosition (\<lambda>v. Vector3_eq (=) v (mk_Vector3 298 16 (- 1922))))"
  "meets (expect (writeAngle 0x3E000000) readAngle (\<lambda>a. float_eq a 0x3E000000))"
  "length UUID = 16 \<Longrightarrow> meets (expect (writeUUID UUID) readUUID (\<lambda>u. u = UUID))"
  "meets (expect (writePrefixedOptional writeString (Some ''Hi!'')) (readPrefixedOptional readString) (\<lambda>s. s = Some ''Hi!''))"
  "meets (expect (writePrefixedOptional writeString None) (readPrefixedOptional readString) (\<lambda>s. s = None))"
  "meets (expect (writePrefixedArray writeVarInt [1, 2, 3]) (readPrefixedArray readVarInt) (\<lambda>xs. xs = [1, 2, 3]))"
  "meets (expect (writePrefixedByteArray [1, 2, 3, 4, 5]) readPrefixedByteArray (\<lambda>xs. xs = [1, 2, 3, 4, 5]))"
proof -
  have "unpack_position (pack_position (mk_Vector3 298 16 (- 1922))) = mk_Vector3 298 16 (- 1922)"
    by (rule unpack_pack_position) (simp_all add: mk_Vector3_def)
  then have "reads True readPosition (numeric_bytes True (pack_position (mk_Vector3 298 16 (- 1922)))) (mk_Vector3 298 16 (- 1922))"
    unfolding readPosition_def by (intro reads_bnd_ret [OF reads_readNumeric_64])
  then show "meets (expect (writePosition (mk_Vector3 298 16 (- 1922))) readPosition (\<lambda>v. Vector3_eq (=) v (mk_Vector3 298 16 (- 1922))))"
    by (rule meetsI [rotated]) (simp_all add: writePosition_def appends_writeNumeric Vector3_eq_def list.rel_eq)
  have "angle_of_byte 32 = 0x3E000000" by code_simp
  moreover have "reads True readAngle [32] (angle_of_byte 32)" unfolding readAngle_def by (rule reads_bnd_ret [OF reads_unsigned_byte]) simp
  moreover have "appends True (writeAngle (angle_of_byte 32)) [32]" by (simp add: writeAngle_of_byte writeUnsignedByte_def appends_writeByte)
  ultimately show "meets (expect (writeAngle 0x3E000000) readAngle (\<lambda>a. float_eq a 0x3E000000))"
    using meetsI [of "writeAngle 0x3E000000" "[32]" readAngle "0x3E000000" "\<lambda>a. float_eq a 0x3E000000"] float_eq_eighth by simp
  show "meets (expect (writeUUID UUID) readUUID (\<lambda>u. u = UUID))" if "length UUID = 16"
  proof (rule meetsI)
    show "appends True (writeUUID UUID) UUID"
      using codec.appends_writeArray [OF readUnsignedByte_codec, of UUID True] by (simp add: writeUUID_def writeArray_def list_all_iff)
    show "reads True readUUID UUID UUID" unfolding readUUID_def
      using reads_bnd [OF reads_readBytes [of 16 UUID], of True "\<lambda>bytes. if length bytes = 16 then ret bytes else fail Indeterminate" "[]"] that
      by (simp add: reads_ret max_vector_size_def)
  qed simp
  have s: "length ''Hi!'' < 2 ^ 31" by simp
  show "meets (expect (writePrefixedOptional writeString (Some ''Hi!'')) (readPrefixedOptional readString) (\<lambda>s. s = Some ''Hi!''))"
    by (rule meetsI [OF codec.writes [OF codec_optional [OF string_codec.codec_axioms]] codec.reads_back [OF codec_optional [OF string_codec.codec_axioms]]]) simp_all
  show "meets (expect (writePrefixedOptional writeString None) (readPrefixedOptional readString) (\<lambda>s. s = None))"
    by (rule meetsI [OF codec.writes [OF codec_optional [OF string_codec.codec_axioms]] codec.reads_back [OF codec_optional [OF string_codec.codec_axioms]]]) simp_all
  show "meets (expect (writePrefixedArray writeVarInt [1, 2, 3]) (readPrefixedArray readVarInt) (\<lambda>xs. xs = [1, 2, 3]))"
    by (rule meetsI [OF varints_codec.writes varints_codec.reads_back]) (simp_all add: array_ok_def)
  show "meets (expect (writePrefixedByteArray [1, 2, 3, 4, 5]) readPrefixedByteArray (\<lambda>xs. xs = [1, 2, 3, 4, 5]))"
    by (rule meetsI [OF bytes_codec.writes bytes_codec.reads_back]) simp_all
qed

lemma meets_identifiers:
  "meets (expect (writeIDorX [] writeString (IDorX_of_value ''Hello'')) (readIDorX readString) (\<lambda>x. IDorX_getValue [] x = ''Hello''))"
  "meets (expect (writeIDorX [] writeString (IDorX_of_id 123)) (readIDorX readString) (\<lambda>x. x_id x = 123))"
  "meets (expect (writeIDSet (IDSet_of_identifier test_identifier)) readIDSet (\<lambda>s. Identifier_eq (m_identifier s) test_identifier))"
  "meets (expect (writeIDSet (IDSet_of_ids [1, 2, 3, 4, 5, 6])) readIDSet (\<lambda>s. m_ids s = [1, 2, 3, 4, 5, 6]))"
proof -
  note x = codec_idorx [where d = "[]", OF string_codec.codec_axioms]
  show "meets (expect (writeIDorX [] writeString (IDorX_of_value ''Hello'')) (readIDorX readString) (\<lambda>x. IDorX_getValue [] x = ''Hello''))"
    by (rule meetsI [OF codec.writes [OF x] codec.reads_back [OF x]]) (simp_all add: idorx_ok_def IDorX_of_value_def IDorX_getValue_def)
  show "meets (expect (writeIDorX [] writeString (IDorX_of_id 123)) (readIDorX readString) (\<lambda>x. x_id x = 123))"
    by (rule meetsI [OF codec.writes [OF x] codec.reads_back [OF x]]) (simp_all add: idorx_ok_def IDorX_of_id_def)
  show "meets (expect (writeIDSet (IDSet_of_identifier test_identifier)) readIDSet (\<lambda>s. Identifier_eq (m_identifier s) test_identifier))"
    by (rule meetsI [OF idset_codec.writes idset_codec.reads_back])
      (simp_all add: idset_ok_def IDSet_of_identifier_def test_identifier_ok Identifier_eq_def)
  show "meets (expect (writeIDSet (IDSet_of_ids [1, 2, 3, 4, 5, 6])) readIDSet (\<lambda>s. m_ids s = [1, 2, 3, 4, 5, 6]))"
    by (rule meetsI [OF idset_codec.writes idset_codec.reads_back])
      (simp_all add: idset_ok_def IDSet_of_ids_def int_of_size_def)
qed

lemma meets_bits:
  "meets (expect (writeBitSet test_bits) readBitSet (\<lambda>b. bs_eq b test_bits))"
  "meets (expect (writeFixedBitSet test_bits) (readFixedBitSet (length (toByteArray test_bits))) (\<lambda>b. bs_eq b test_bits))"
  "meets (expect (writeEnumSet [0, 2]) (readEnumSet 1) (\<lambda>es. es = [0, 2]))"
  "meets (expect (writeTeleportFlags test_flags) readTeleportFlags (\<lambda>f. f = test_flags))"
proof -
  show "meets (expect (writeBitSet test_bits) readBitSet (\<lambda>b. bs_eq b test_bits))"
    using appends_writeBitSet [of True test_bits] by (rule meetsI [OF _ reads_readBitSet]) (simp_all add: test_bits)
  show "meets (expect (writeFixedBitSet test_bits) (readFixedBitSet (length (toByteArray test_bits))) (\<lambda>b. bs_eq b test_bits))"
    by (rule meetsI [OF appends_writeFixedBitSet reads_readFixedBitSet]) (simp_all add: test_bits)
  obtain b where b: "set_all [0, 2] new_BitSet = Inr b" "toByteArray b = [5]"
    using enum_bits(1) by (auto split: sum.splits)
  have "appends True (writeEnumSet [0, 2]) [5]"
    using appends_lift [OF b(1), of True writeFixedBitSet "[5]"] appends_writeFixedBitSet [of True b] b(2) by (simp add: writeEnumSet_def)
  moreover have "reads True (readEnumSet 1) [5] [0, 2]"
    unfolding readEnumSet_def using enum_bits(2) by (intro reads_bnd_ret [OF reads_readFixedBitSet]) simp_all
  ultimately show "meets (expect (writeEnumSet [0, 2]) (readEnumSet 1) (\<lambda>es. es = [0, 2]))" by (rule meetsI) simp
  have "reads True readTeleportFlags (numeric_bytes True (flags_encode test_flags)) test_flags"
    unfolding readTeleportFlags_def by (rule reads_bnd_ret reads_readNumeric_32 flags_of_int_encode)+
  then show "meets (expect (writeTeleportFlags test_flags) readTeleportFlags (\<lambda>f. f = test_flags))"
    by (rule meetsI [rotated]) (simp_all add: writeTeleportFlags_def appends_writeNumeric)
qed

lemma meets_nested:
  "meets (expect (writeSoundEvent test_event) readSoundEvent (\<lambda>e. SoundEvent_eq e test_event = Inr True))"
  "meets (expect (writeNBTElement test_element) readNBT (\<lambda>e. nbt_eq e test_element))"
  "meets (expect (writeChatType test_chat) readChatType (\<lambda>c. ChatType_eq c test_chat))"
proof -
  have e: "s_identifier test_event = test_identifier" "s_fixedRange test_event = Some 0x447A0000"
    by (simp_all add: test_event_def SoundEvent_setFixedRange_def SoundEvent_new_def)
  have "SoundEvent_eq test_event test_event = Inr True" by code_simp
  then show "meets (expect (writeSoundEvent test_event) readSoundEvent (\<lambda>e. SoundEvent_eq e test_event = Inr True))"
    using appends_writeSoundEvent [where be = True and s = test_event] reads_readSoundEvent_ranged [where s = test_event and r = "0x447A0000" and be = True] test_identifier_ok
    by (intro meetsI) (simp_all add: e SoundEvent_hasFixedRange_def SoundEvent_getFixedRange_def)
  let ?t = "nbt_abs test_element"
  have t: "nbt_valid ?t" "?t \<noteq> NEnd" "nbt_tag test_element = []" by (simp_all add: test_element_simps Let_def)
  have "nbt_eq (nbt_elem True network_settings [] ?t) test_element" by code_simp
  then show "meets (expect (writeNBTElement test_element) readNBT (\<lambda>e. nbt_eq e test_element))"
    using appends_writeNBTElement [OF t] reads_readNBT [OF t(1,2)] by (rule meetsI [rotated 2])
  let ?n = "[] :: i32 list" and ?style = "nbt_elem True network_settings [] NEnd"
  let ?bytes = "string_bytes ''hi'' @ array_bytes var_bytes ?n @ [0] @ string_bytes ''hello'' @ array_bytes var_bytes ?n @ [0]"
  have n: "array_ok (\<lambda>_. True) ?n" by (simp add: array_ok_def)
  have "appends True (writeChatType test_chat) ?bytes"
    unfolding writeChatType_def by (simp add: test_chat_def Let_def del: append.simps, intro appends_intros varints_codec.writes n appends_NBT_end)
  moreover have "reads True readChatType ?bytes \<lparr>ct_chat = \<lparr>cd_translationKey = ''hi'', cd_parameters = ?n, cd_style = ?style\<rparr>,
      ct_narration = \<lparr>cd_translationKey = ''hello'', cd_parameters = ?n, cd_style = ?style\<rparr>\<rparr>"
    unfolding readChatType_def
    by (intro reads_bnd [OF reads_readString] reads_bnd [OF varints_codec.reads_back [OF n]] reads_bnd [OF reads_readNBT_end]
      reads_bnd_ret [OF reads_readNBT_end]) simp_all
  moreover have "ChatType_eq \<lparr>ct_chat = \<lparr>cd_translationKey = ''hi'', cd_parameters = ?n, cd_style = ?style\<rparr>,
      ct_narration = \<lparr>cd_translationKey = ''hello'', cd_parameters = ?n, cd_style = ?style\<rparr>\<rparr> test_chat" by code_simp
  ultimately show "meets (expect (writeChatType test_chat) readChatType (\<lambda>c. ChatType_eq c test_chat))" by (rule meetsI)
qed

lemma game_types_test: "length UUID = 16 \<Longrightarrow> test_game_types UUID = Inr True"
  unfolding test_game_types_def game_type_expectations_def
  by (rule run_expectations) (auto intro: meets_values meets_identifiers meets_bits [unfolded One_nat_def] meets_nested)

end
