(* ===== verification/Spec2Isabelle.thy ===== *)
theory Spec2Isabelle
  imports Prelude Block_Buffer Byte_Buffer Bit_Set Value_Types NBT Text_Component Crypto Registry Slots
    Registry_Data Game_Types Game_Comparisons Chunk_Data Floating Connection Messages Config Server Server_Properties Tcp_Connection SrvCtl Messenger Messenger_Loop
    Wrappers Startup Lifecycle Unit_Tests Game_Type_Tests
begin

text \<open>
  \<^bold>\<open>Zinc\<close> is a Minecraft server in C++ (\<open>src/\<close>, \<open>inc/\<close>). This development models what the program computes, from the bytes of a
  buffer to the steps of the server, and proves what holds of it, the faults included.

  \<^bold>\<open>How the program works.\<close> \<open>main\<close> reads the command line, loads \<open>config/zinc.json\<close> and \<open>banlist.json\<close>, creates the message
  bridge for plugins and starts two threads, the Minecraft server and the control server. Each runs an event loop that calls \<open>onAccept\<close>,
  \<open>onRead\<close> and \<open>onEvent\<close>. The Minecraft server keeps a table of connections; a connection turns the bytes of its socket into
  packets (length, zlib, AES) and \<open>onRead\<close> handles them by the state of the connection: Handshake, Status, Login, Config, Play. Bodies of packets are
  written and read with \<open>ByteBuffer\<close>, which has a reader and a writer for every type of the protocol, NBT and chat text among them. In Config the
  server sends the client the registries, 2500 lines of data of \<open>DefaultRegistries.cpp\<close>.

  \<^bold>\<open>Conventions.\<close> Integers have their width (\<open>i32\<close>, \<open>i64\<close>, \<open>byte\<close> of theory Prelude); floating-point
  values are their bit patterns; strings are character lists. A method of an object is an action \<open>'s \<Rightarrow> zinc_error + ('a \<times> 's)\<close>, composed
  with \<open>bnd\<close> and \<open>thn\<close>; \<open>zinc_error\<close> tells undefined behaviour (\<open>OutOfBounds\<close>, \<open>Indeterminate\<close>) from the exceptions of the standard
  library. Members that are not initialised are options; where the code reads one, what the memory held is an argument, as the flag of each
  ban that \<open>loadBanList\<close> reads. A \<open>std::unordered_map\<close> is a map, and the order in which a loop visits it a parameter, as for the worlds
  that \<open>save\<close> writes and the registries that are sent. Libraries (OpenSSL, zlib, zstd, curl, the text format of JSON, libevent) are
  parameters, with what the code relies on as hypotheses; clocks and random bytes are arguments.

  \<^bold>\<open>Theories\<close>, with the files they model:
  \<^item> Prelude: integer types, actions, errors, strings; \<open>zinc_safe_cast\<close> (\<open>inc/util/Memory.h\<close>).
  \<^item> Block\_Buffer: \<open>ByteBuffer::InternalByteBuffer\<close>, the blocks of 4096 bytes. It refines a byte queue: the locale
    \<open>byte_queue\<close>, interpreted on the model.
  \<^item> Byte\_Buffer: numbers, VarInt, zig-zag, strings, optionals, arrays of \<open>ByteBuffer.h/.cpp\<close>. The predicates \<open>appends\<close> and
    \<open>reads\<close> state what a writer adds and a reader takes, \<open>terminates\<close> that a reader ends; the rules \<open>appends_intros\<close> and
    \<open>reads_intros\<close> carry the round trips of the later theories. The locale \<open>codec\<close> is the contract of a writer and a reader, interpreted on every
    primitive type.
  \<^item> Bit\_Set: \<open>BitSet.h/.cpp\<close> and the wire forms of bit sets and enum sets; refinement of finite sets of numbers.
  \<^item> Value\_Types: Identifier, vectors, positions, IDorX, XorY, IDSet, SoundEvent, PlayerLocation, TeleportFlags.
  \<^item> Floating: IEEE 754 on bit patterns, computed with integers and rounded once; angles, the rotations of a \<open>PlayerLocation\<close>, and
    \<open>zinc_safe_cast\<close> from floating point.
  \<^item> NBT: \<open>inc/type/nbt/\<close>, \<open>src/type/nbt/\<close>. The specification is the data type \<open>nbt\<close> of trees with its wire form \<open>nbt_payload\<close>.
  \<^item> Text\_Component: \<open>TextComponent.h/.cpp\<close> with encoder, decoder and builders; UUID strings of \<open>inc/external/UUID.h\<close>.
  \<^item> Crypto: CRC-32, Base64, \<open>MCSHA1\<close>. Wrappers: \<open>RSA.cpp\<close> with the objects it allocates, \<open>Random.cpp\<close>,
    \<open>ZSTDUtil.cpp\<close>, the containers of \<open>Memory.h\<close>.
  \<^item> Registry: the registry template and the wire form of a network registry. Registry\_Data: the generators and the contents of \<open>g_registries\<close>,
    translated line by line.
  \<^item> Slots: item stacks, slot displays, recipe displays. Game\_Types: \<open>GameTypes.h/.cpp\<close>, the values of item components,
    with their comparisons in Game\_Comparisons.
    Chunk\_Data: chat types, light, chunks.
  \<^item> Connection: \<open>ZincConnection.cpp\<close>, \<open>ZincPacket.cpp\<close>, \<open>AES.cpp\<close>, \<open>ZLibUtil.cpp\<close>: frames, compression,
    encryption; \<open>cfb8_cipher\<close> is the mode in which the cipher runs, over any block cipher. Messages: disconnects, plugin channels, cookies, bans and their messages.
  \<^item> Server: \<open>ZincServer.cpp\<close>, a transition system (\<open>server_step\<close>, \<open>reachable\<close>) of the callbacks and of the bans lifted later.
    Server\_Properties: its invariants and what a client can do. Tcp\_Connection: which bufferevents the table of connections frees, and
    how often; the same callbacks keep it in step with the table of Server.
  \<^item> SrvCtl: the control server (\<open>src/network/srvctl/\<close>) as a transition system. Messenger: the bridge between plugins and server
    (\<open>src/loader/\<close>); the locale \<open>mailbox_registry\<close> is the contract of its mailboxes.
    Messenger\_Loop: the polling loop of \<open>ZincServerMessenger\<close> and its threads, as a run of choices in any order. \<open>main\<close> does not
    start this loop yet.
  \<^item> Config: \<open>ZincConfig.h/.cpp\<close>, settings and ban list on disk, and \<open>ZincArguments.cpp\<close>. Startup: \<open>main.cc\<close>.
    Lifecycle: the log, \<open>TCPServer\<close>, and the two servers from constructor to destructor, as sequences of calls.
  \<^item> Unit\_Tests, Game\_Type\_Tests: the tests of \<open>test/test_ByteBuffer.cpp\<close> and \<open>test/test_NBT.cpp\<close>, which the model passes.
  \<^item> This theory: properties that span components.

  \<^bold>\<open>What is proved.\<close> Refinements: the block buffer is a byte queue, \<open>BitSet\<close> a finite set, the bridge a family of
  queues, table-driven CRC the bitwise one. Round trips: VarInts, NBT at any depth, positions, slot displays, chunks, packets with
  compression and encryption, the registries from the map to the client, the configuration from one run to the next. Invariants of
  all reachable states: the server's counters agree with its table, the protocol moves forward only, the control server executes nothing, every
  OpenSSL object is used while it is alive and freed once, as long as the wrapper is not copied. Liveness and termination: an honest login succeeds, \<open>onRead\<close> returns, decoders end. And the faults,
  each with its input: see the findings of the manifest.

  \<^bold>\<open>Fuel.\<close> \<open>nbt_decode\<close> and the loop over a compound take fuel; \<open>readNBT\<close> starts with twice the bytes left plus two,
  which is never used up (theorem \<open>nbt_decode_terminates\<close>). \<open>text_decode\<close> and the readers of slot displays take the depth of the nesting;
  the round trips hold for any fuel that is at least the depth of the value. \<open>onRead\<close> and the loops of the buffer are total
  functions with a measure; \<open>onRead\<close> handles at most two packets (theorem \<open>onRead_ends\<close>). A login plugin channel is drawn until it is new: with too few draws the outcome is \<open>None\<close>.

  \<^bold>\<open>Not modelled.\<close> Threads, except in Messenger\_Loop: every locked call is one step. A second \<open>bufferevent_free\<close> has no effect on
  the tables of Server and SrvCtl: those theories say what the handlers compute as long as the heap survives it, Tcp\_Connection that it
  happens. The event loops are libevent; the vendored \<open>JSON.h\<close> and \<open>UUID.h\<close> are not modelled beyond the functions named above, nor
  headers without code (worlds, keyring, plugin loader), \<open>zincsdk\<close> and the other tests. Getters are the fields of the records.
\<close>

section \<open>The registries on the way to the client\<close>

text \<open>The packet for a registry, as \<open>send_body\<close> hands it to the connection.\<close>

definition registry_packet :: "string \<times> (string \<times> NBTElement) list \<Rightarrow> ZincPacket" where
  "registry_packet p = (case p of (name, es) \<Rightarrow> (case getNetworkRegistry es (mk_Identifier ''minecraft'' name) (new_bb True) of
     Inl _ \<Rightarrow> new_ZincPacket 7 | Inr (_, b) \<Rightarrow> \<lparr>zp_id = 7, zp_data = b\<rparr>))"

lemma registry_packet:
  assumes "visits name es"
  shows "getNetworkRegistry es (mk_Identifier ''minecraft'' name) (new_bb True) = Inr ((), zp_data (registry_packet (name, es)))"
    and "zp_id (registry_packet (name, es)) = 7" and "packet_bytes (registry_packet (name, es)) = registry_wire name es"
proof -
  obtain b where b: "getNetworkRegistry es (mk_Identifier ''minecraft'' name) (new_bb True) = Inr ((), b)" "getBytes b = registry_wire name es"
    using run_writer_appends [OF appends_registry [OF assms]] by (auto simp: run_writer_def split: sum.splits)
  then show "getNetworkRegistry es (mk_Identifier ''minecraft'' name) (new_bb True) = Inr ((), zp_data (registry_packet (name, es)))"
    and "zp_id (registry_packet (name, es)) = 7" and "packet_bytes (registry_packet (name, es)) = registry_wire name es"
    by (simp_all add: registry_packet_def packet_bytes_def)
qed

lemma send_registries_all:
  assumes "\<forall>(name, es) \<in> set (cx_registries X). visits name es"
  shows "send_registries X c = send_all (env_evp (cx_env X)) (env_zlib (cx_env X)) (env_threshold (cx_env X))
    (map registry_packet (cx_registries X)) c"
proof -
  let ?send = "\<lambda>(name, entries) c'. ebind (Identifier_of_string (mc name)) (\<lambda>i. send_body (cx_env X) 7 (getNetworkRegistry entries i) c')"
  have one: "?send (name, es) c' = conn_send (env_evp (cx_env X)) (env_zlib (cx_env X)) (env_threshold (cx_env X)) (registry_packet (name, es)) c'"
    if "visits name es" for name es c'
  proof -
    have p: "\<lparr>zp_id = 7, zp_data = zp_data (registry_packet (name, es))\<rparr> = registry_packet (name, es)"
      using registry_packet(2) [OF that] by (cases "registry_packet (name, es)") simp
    show ?thesis by (simp add: send_body_def mc_identifier ebind_def env_send_def registry_packet(1) [OF that] p)
  qed
  have "efold ?send regs = send_all (env_evp (cx_env X)) (env_zlib (cx_env X)) (env_threshold (cx_env X)) (map registry_packet regs)"
    if "\<forall>(name, es) \<in> set regs. visits name es" for regs
    using that
  proof (induction regs)
    case (Cons r regs)
    then show ?case by (cases r) (auto simp: one [unfolded prod.case])
  qed auto
  with assms show ?thesis by (simp add: send_registries_def)
qed

text \<open>C13: What the server announces is what the client gets. The configuration handler sends the packets for the registries, whose
  entries it may visit in any order. A client that shares the compression setting and, if the connection is encrypted, a cipher whose key
  and vector are set, and that decrypts what it receives as one stream, then reads one packet 7 for each registry, in order and with
  nothing left over; and from each body a reader of the packet format gets the identifier of the registry and its entries. What this
  needs of the libraries: on an encrypted connection that the cipher undoes itself and can be run in pieces, on a compressed one that zlib
  restores these very packets. Before, nothing is left to be sent.\<close>

theorem registry_packets_arrive:
  assumes "\<forall>(name, es) \<in> set (cx_registries X). visits name es"
    and "linked c d" and "cn_sent c = []"
    and "cn_isEncrypted c \<longrightarrow> cipher_ok (env_evp (cx_env X)) \<and> cipher_chains (env_evp (cx_env X))"
    and "cn_isCompressed c \<longrightarrow> (\<forall>(name, es) \<in> set (cx_registries X). zlib_inverts (env_zlib (cx_env X)) (var_bytes (7 :: i32) @ registry_wire name es))"
  shows "\<exists>c' packets e. send_registries X c = Inr c'
    \<and> read_all (env_evp (cx_env X)) (env_zlib (cx_env X)) (length (cx_registries X)) (peer_receives (env_evp (cx_env X)) (cn_sent c') d)
      = Inr (packets, e)
    \<and> cn_received e = []
    \<and> list_all2 (\<lambda>(name, es) (i, body). i = 7 \<and> (\<exists>ident b. Identifier_toString ident = mc name
        \<and> bnd (writeBytes body) (\<lambda>_. readNetworkRegistry) (new_bb True) = Inr ((ident, map received_entry es), b) \<and> bb_unread b = []))
      (cx_registries X) packets"
proof -
  let ?z = "env_zlib (cx_env X)" and ?ps = "map registry_packet (cx_registries X)"
  have "sendable ?z (cn_isCompressed c) (zp_id p) (packet_bytes p)" if "p \<in> set ?ps" for p
  proof -
    obtain name es where p: "p = registry_packet (name, es)" "(name, es) \<in> set (cx_registries X)" using \<open>p \<in> set ?ps\<close> by auto
    then have v: "visits name es" using assms(1) by auto
    have "length (packet_bytes p) < 2 ^ 30" using length_registry_wire [OF v] registry_packet(3) [OF v] p(1) by simp
    then show ?thesis using assms(5) p registry_packet(2,3) [OF v] by (auto simp: sendable_def)
  qed
  then obtain c' e where e: "send_all (env_evp (cx_env X)) ?z (env_threshold (cx_env X)) ?ps c = Inr c'"
    "read_all (env_evp (cx_env X)) ?z (length ?ps) (peer_receives (env_evp (cx_env X)) (cn_sent c') d)
      = Inr (map (\<lambda>p. (zp_id p, packet_bytes p)) ?ps, e)" "cn_received e = []"
    using send_all_peer [OF assms(2,4,3), of ?ps] by blast
  have got: "\<exists>ident b. Identifier_toString ident = mc name
      \<and> bnd (writeBytes (packet_bytes (registry_packet (name, es)))) (\<lambda>_. readNetworkRegistry) (new_bb True) = Inr ((ident, map received_entry es), b) \<and> bb_unread b = []"
    if "visits name es" for name es
    using write_read [OF appends_writeBytes reads_registry [OF that]] mc_identifier(2) [of name] unfolding registry_packet(3) [OF that] by blast
  have "list_all2 (\<lambda>(name, es) (i, body). i = 7 \<and> (\<exists>ident b. Identifier_toString ident = mc name
        \<and> bnd (writeBytes body) (\<lambda>_. readNetworkRegistry) (new_bb True) = Inr ((ident, map received_entry es), b) \<and> bb_unread b = []))
      (cx_registries X) (map (\<lambda>p. (zp_id p, packet_bytes p)) ?ps)"
    unfolding list_all2_map2 using assms(1) got registry_packet(2) by (intro list_all2_same [THEN iffD2]) (auto split: prod.splits)
  with e show ?thesis using send_registries_all [OF assms(1)] by auto
qed


text \<open>A context for the witnesses: one registry, packets stored without compression, encrypted in CFB8 mode.\<close>

definition pig_context :: Context where
  "pig_context = offline_context\<lparr>cx_env := \<lparr>env_evp = cfb8_cipher (\<lambda>_. last), env_zlib = stored_zlib, env_threshold = 256\<rparr>,
     cx_registries := [(''pig_variant'', rev (AList.clearjunk registry_pig_variant))]\<rparr>"

lemma pig_context_visits: "\<forall>(name, es) \<in> set (cx_registries pig_context). visits name es"
proof -
  have "(''pig_variant'', AList.clearjunk registry_pig_variant) \<in> set g_registries"
    unfolding g_registries_def by simp
  then show ?thesis by (auto simp: pig_context_def visits_def)
qed

text \<open>The connection of a player who has logged in: encrypted and compressed.\<close>

definition logged_in :: ZincConnection where
  "logged_in = (setupEncryption (replicate 16 7) (new_ZincConnection ''::1''))\<lparr>cn_isCompressed := True\<rparr>"

lemma logged_in: "linked logged_in logged_in" "cn_sent logged_in = []" "cn_isEncrypted logged_in" "cn_isCompressed logged_in"
  by (simp_all add: linked_def logged_in_def setupEncryption_def new_ZincConnection_def aes_setKey_def aes_setIV_def new_AESWrapper_def aes_ready_def)

theorem registry_packets_arrive_witness:
  "\<exists>c' packets e. send_registries pig_context logged_in = Inr c'
    \<and> read_all (cfb8_cipher (\<lambda>_. last)) stored_zlib 1 (peer_receives (cfb8_cipher (\<lambda>_. last)) (cn_sent c') logged_in) = Inr (packets, e)
    \<and> length packets = 1 \<and> fst (packets ! 0) = 7"
proof -
  let ?es = "rev (AList.clearjunk registry_pig_variant)" and ?evp = "cfb8_cipher (\<lambda>_. last)"
  have env: "env_evp (cx_env pig_context) = ?evp" "env_zlib (cx_env pig_context) = stored_zlib" "cx_registries pig_context = [(''pig_variant'', ?es)]"
    by (simp_all add: pig_context_def)
  have "visits ''pig_variant'' ?es" using pig_context_visits env(3) by simp
  then have "zlib_inverts stored_zlib (var_bytes (7 :: i32) @ registry_wire ''pig_variant'' ?es)"
    using length_registry_wire [of "''pig_variant''" ?es] getVarNumericLength_32 [of 7] by (intro stored_zlib_inverts) simp
  then have z: "cn_isCompressed logged_in \<longrightarrow> (\<forall>(name, es) \<in> set (cx_registries pig_context).
      zlib_inverts (env_zlib (cx_env pig_context)) (var_bytes (7 :: i32) @ registry_wire name es))" by (simp add: env)
  have "cn_isEncrypted logged_in \<longrightarrow> cipher_ok (env_evp (cx_env pig_context)) \<and> cipher_chains (env_evp (cx_env pig_context))"
    by (simp add: env cfb8_cipher_ok)
  from registry_packets_arrive [OF pig_context_visits logged_in(1,2) this z] obtain c' packets e where p: "send_registries pig_context logged_in = Inr c'"
    "read_all ?evp stored_zlib 1 (peer_receives ?evp (cn_sent c') logged_in) = Inr (packets, e)"
    "list_all2 (\<lambda>(name, es) (i, body). i = 7 \<and> (\<exists>ident b. Identifier_toString ident = mc name
        \<and> bnd (writeBytes body) (\<lambda>_. readNetworkRegistry) (new_bb True) = Inr ((ident, map received_entry es), b) \<and> bb_unread b = []))
      [(''pig_variant'', ?es)] packets"
    unfolding env by auto
  then show ?thesis by (auto simp: list_all2_Cons1)
qed

section \<open>From one run of the program to the next\<close>



section \<open>Cookies\<close>

text \<open>C31: No cookie is ever accepted: the wrapper that signs, verifies, encrypts and decrypts cookies never gets a key, so a
  cookie that the server has just made holds no data and no signature, and whatever cookie a client returns, its own included, is
  refused.\<close>

theorem cookies_are_never_accepted:
  assumes "make_cookie (cookie_rsa S m_cookieRSA L) now random payload lifetime = Inr cookie"
  shows "ck_data cookie = [] \<and> ck_signature cookie = []
    \<and> check_cookie (cookie_rsa S m_cookieRSA L) later cookie = Inr None
    \<and> check_cookie (cookie_rsa S m_cookieRSA L) later other \<noteq> Inr (Some data)"
proof -
  have cookie: "ck_data cookie = []" "ck_signature cookie = []"
    using assms by (auto simp: make_cookie_def Let_def cookie_rsa_without_key ebind_eq_Inr)
  obtain bytes where "signed_part [] (ck_nonce cookie) (ck_lifetime cookie) = Inr bytes" using signed_part_total by blast
  then have "check_cookie (cookie_rsa S m_cookieRSA L) later cookie = Inr None"
    using cookie by (simp add: check_cookie_def cookie_rsa_without_key ebind_def)
  moreover have "check_cookie (cookie_rsa S m_cookieRSA L) later other \<noteq> Inr (Some data)"
    by (auto simp: check_cookie_def cookie_rsa_without_key ebind_eq_Inr)
  ultimately show ?thesis using cookie by simp
qed

theorem cookies_are_never_accepted_witness:
  "\<exists>cookie. make_cookie (cookie_rsa toy_ssl m_cookieRSA plain_lib) 100 [9, 9] [9, 9] 50 = Inr cookie
    \<and> check_cookie (cookie_rsa toy_ssl m_cookieRSA plain_lib) 120 cookie = Inr None"
proof -
  obtain bytes where "signed_part [] (base64_encode (encode_block plain_lib) [9, 9]) (100 + 50) = Inr bytes" using signed_part_total by blast
  then obtain cookie where "make_cookie (cookie_rsa toy_ssl m_cookieRSA plain_lib) 100 [9, 9] [9, 9] 50 = Inr cookie"
    by (simp add: make_cookie_def Let_def cookie_rsa_without_key ebind_def)
  with cookies_are_never_accepted [OF this] show ?thesis by blast
qed

end
